(* ===== verification/Prelude.thy ===== *)
theory Prelude
  imports Main "HOL-Library.AList"
begin

text \<open>
  Shared vocabulary of the development: the outcome of Go code that may panic, Go slices with
  their bounds checks, Go maps as association lists, and the generic lemmas on them that the
  component theories use. The collection \<open>go_simps\<close> gathers the unfolding rules of these
  constructs; \<open>inv_intros\<close> gathers the facts that operations keep their component's invariant.
\<close>

named_theorems go_simps \<open>unfolding rules for outcomes, slices and Go maps\<close>
named_theorems inv_intros \<open>operations keep their component's invariant\<close>

subsection \<open>Outcomes: a value or a run-time panic\<close>

datatype 'a outcome = Val 'a | Panic string

fun obind :: "'a outcome \<Rightarrow> ('a \<Rightarrow> 'b outcome) \<Rightarrow> 'b outcome" where
  "obind (Val a) f = f a"
| "obind (Panic e) f = Panic e"

fun no_panic :: "'a outcome \<Rightarrow> bool" where
  "no_panic (Val a) = True"
| "no_panic (Panic e) = False"

definition nil_deref :: string where
  "nil_deref = ''invalid memory address or nil pointer dereference''"

definition out_of_range :: string where
  "out_of_range = ''index out of range''"

text \<open>Reading through a possibly nil pointer.\<close>

fun deref :: "'a option \<Rightarrow> 'a outcome" where
  "deref (Some a) = Val a"
| "deref None = Panic nil_deref"

text \<open>The verb \<open>%q\<close> for names made of printable characters: the text between double quotes.\<close>

definition fmt_q :: "string \<Rightarrow> string" where
  "fmt_q s = [CHR 0x22] @ s @ [CHR 0x22]"

text \<open>Signed 64-bit wrap-around, for durations computed from numbers of seconds.\<close>

definition int64 :: "int \<Rightarrow> int" where
  "int64 x = (x + 2 ^ 63) mod 2 ^ 64 - 2 ^ 63"

definition time_Second :: int where "time_Second = 1000000000"
definition time_Minute :: int where "time_Minute = 60 * 1000000000"

subsection \<open>Slices\<close>

text \<open>\<open>s[a:b]\<close>, \<open>s[i]\<close> and \<open>s[i] = v\<close> with the bounds checks of the language.\<close>

definition go_slice :: "nat \<Rightarrow> nat \<Rightarrow> 'a list \<Rightarrow> 'a list outcome" where
  "go_slice a b s = (if a \<le> b \<and> b \<le> length s then Val (take (b - a) (drop a s)) else Panic out_of_range)"

definition go_index :: "'a list \<Rightarrow> int \<Rightarrow> 'a outcome" where
  "go_index s i = (if 0 \<le> i \<and> i < int (length s) then Val (s ! nat i) else Panic out_of_range)"

definition go_store :: "'a list \<Rightarrow> int \<Rightarrow> 'a \<Rightarrow> 'a list outcome" where
  "go_store s i v = (if 0 \<le> i \<and> i < int (length s) then Val (s[nat i := v]) else Panic out_of_range)"

subsection \<open>Maps with a range order\<close>

text \<open>
  A Go map whose entries are iterated is an association list with distinct keys: \<open>map_of\<close> is the
  map, the list is the order of one \<open>range\<close> over it. Statements about results speak of
  \<open>map_of\<close> or of sets, which no order changes.
\<close>

type_synonym 'v gomap = "(string \<times> 'v) list"

abbreviation go_put :: "string \<Rightarrow> 'v \<Rightarrow> 'v gomap \<Rightarrow> 'v gomap" where
  "go_put \<equiv> AList.update"

abbreviation go_get :: "'v gomap \<Rightarrow> string \<Rightarrow> 'v option" where
  "go_get \<equiv> map_of"

definition go_keys :: "'v gomap \<Rightarrow> string list" where
  "go_keys m = map fst m"

subsection \<open>Lemmas\<close>

lemma obind_Val_iff [simp]: "obind m f = Val b \<longleftrightarrow> (\<exists>a. m = Val a \<and> f a = Val b)"
  by (cases m) auto

lemma obind_assoc: "obind (obind m f) g = obind m (\<lambda>a. obind (f a) g)"
  by (cases m) auto

lemma no_panic_iff: "no_panic m \<longleftrightarrow> (\<exists>a. m = Val a)"
  by (cases m) auto

lemma no_panic_obind [intro]:
  "no_panic m \<Longrightarrow> (\<And>a. m = Val a \<Longrightarrow> no_panic (f a)) \<Longrightarrow> no_panic (obind m f)"
  by (cases m) auto

lemma int64_id: "- (2 ^ 63) \<le> x \<Longrightarrow> x < 2 ^ 63 \<Longrightarrow> int64 x = x"
  by (simp add: int64_def)

lemma deref_Val_iff [simp]: "deref p = Val a \<longleftrightarrow> p = Some a"
  by (cases p) auto

lemma go_slice_in: "a \<le> b \<Longrightarrow> b \<le> length s \<Longrightarrow> go_slice a b s = Val (take (b - a) (drop a s))"
  by (simp add: go_slice_def)

lemma go_slice_to_end: "a \<le> length s \<Longrightarrow> go_slice a (length s) s = Val (drop a s)"
  by (simp add: go_slice_def)

lemma slice_snoc: "a \<le> b \<Longrightarrow> b < length s \<Longrightarrow>
    take (Suc b - a) (drop a s) = take (b - a) (drop a s) @ [s ! b]"
  by (simp add: Suc_diff_le take_Suc_conv_app_nth)

lemma drop_eq_nth_Cons: "n < length s \<Longrightarrow> drop n s = s ! n # drop (Suc n) s"
  by (rule Cons_nth_drop_Suc [symmetric])

lemma go_get_put: "go_get (go_put k v m) = (go_get m)(k \<mapsto> v)"
  by (rule AList.update_conv')

lemma go_keys_distinct_put: "distinct (go_keys m) \<Longrightarrow> distinct (go_keys (go_put k v m))"
  by (simp add: go_keys_def AList.distinct_update)

lemma go_keys_set: "set (go_keys m) = dom (go_get m)"
  by (simp add: go_keys_def dom_map_of_conv_image_fst)

lemma map_of_filter_key: "map_of (filter (\<lambda>kv. P (fst kv)) kvs) k = (if P k then map_of kvs k else None)"
  by (induction kvs) auto

lemmas outcome_simps = obind_Val_iff no_panic_iff deref_Val_iff

declare outcome_simps [go_simps] go_get_put [go_simps]

end
