(* ===== verification/Expansion.thy ===== *)
theory Expansion
  imports Prelude
begin

text \<open>
  Variable expansion (\<open>src/internal/expansion/expand.go\<close>). Strings are lists of bytes (\<open>char\<close> has
  eight bits, as a Go string's elements). \<open>Expand\<close> is the index loop of the source, with its cursor,
  checkpoint and buffer and with the bounds checks of every slice; \<open>expand_spec\<close> is a structural
  reference definition, and the loop is proved to compute it, without a panic, for every input.
\<close>

definition operator :: char where "operator = CHR ''$''"
definition referenceOpener :: char where "referenceOpener = CHR ''(''"
definition referenceCloser :: char where "referenceCloser = CHR '')''"

definition syntaxWrap :: "string \<Rightarrow> string" where
  "syntaxWrap input = [operator] @ [referenceOpener] @ input @ [referenceCloser]"

text \<open>The closure of \<open>MappingFuncFor(context...)\<close>: the first map that has the key answers.\<close>

fun MappingFuncFor :: "(string \<rightharpoonup> string) list \<Rightarrow> string \<Rightarrow> string" where
  "MappingFuncFor [] input = syntaxWrap input"
| "MappingFuncFor (vars # context) input =
     (case vars input of Some val \<Rightarrow> val | None \<Rightarrow> MappingFuncFor context input)"

text \<open>
  \<open>string(b)\<close> for a byte \<open>b\<close>: the conversion from an integer yields the UTF-8 encoding of the code
  point \<open>b\<close>, which is the byte itself only below 128.
\<close>

definition rune_string :: "char \<Rightarrow> string" where
  "rune_string c = (let n = of_char c :: nat in
     if n < 128 then [c] else [char_of (192 + n div 64), char_of (128 + n mod 64)])"

text \<open>The scan \<open>for i := 1; i < len(input); i++\<close> for the closing parenthesis.\<close>

function scanCloser :: "string \<Rightarrow> nat \<Rightarrow> nat option" where
  "scanCloser input i =
     (if i < length input then
        if input ! i = referenceCloser then Some i else scanCloser input (Suc i)
      else None)"
  by pat_completeness auto
termination
  by (relation "measure (\<lambda>(input, i). length input - i)") auto

definition tryReadVariableName :: "string \<Rightarrow> (string \<times> bool \<times> nat) outcome" where
  "tryReadVariableName input = (case input of
       [] \<Rightarrow> Panic out_of_range
     | c # _ \<Rightarrow>
         if c = operator then obind (go_slice 0 1 input) (\<lambda>s. Val (s, False, 1))
         else if c = referenceOpener then
           (case scanCloser input 1 of
              Some i \<Rightarrow> obind (go_slice 1 i input) (\<lambda>s. Val (s, True, i + 1))
            | None \<Rightarrow> Val ([operator] @ [referenceOpener], False, 1))
         else Val ([operator] @ rune_string c, False, 1))"

function expandLoop :: "string \<Rightarrow> (string \<Rightarrow> string) \<Rightarrow> string \<Rightarrow> nat \<Rightarrow> nat \<Rightarrow> string outcome" where
  "expandLoop input mapping buf checkpoint cursor =
     (if cursor < length input then
        if input ! cursor = operator \<and> cursor + 1 < length input then
          (case go_slice checkpoint cursor input of
             Panic e \<Rightarrow> Panic e
           | Val pre \<Rightarrow>
               (case tryReadVariableName (drop (cursor + 1) input) of
                  Panic e \<Rightarrow> Panic e
                | Val (read, isVar, advance) \<Rightarrow>
                    expandLoop input mapping
                      (buf @ pre @ (if isVar then mapping read else read))
                      (cursor + advance + 1) (cursor + advance + 1)))
        else expandLoop input mapping buf checkpoint (cursor + 1)
      else obind (go_slice checkpoint (length input) input) (\<lambda>rest. Val (buf @ rest)))"
  by pat_completeness auto
termination
  by (relation "measure (\<lambda>(input, mapping, buf, checkpoint, cursor). length input - cursor)") auto

definition Expand :: "string \<Rightarrow> (string \<Rightarrow> string) \<Rightarrow> string outcome" where
  "Expand input mapping = expandLoop input mapping [] 0 0"

subsection \<open>Reference definition\<close>

text \<open>
  What an expression at the head of the input stands for: the text it contributes and what is
  left of the input.
\<close>

fun expand_head :: "(string \<Rightarrow> string) \<Rightarrow> char \<Rightarrow> string \<Rightarrow> string \<times> string" where
  "expand_head mapping d ds =
     (if d = operator then ([operator], ds)
      else if d = referenceOpener then
        (if referenceCloser \<in> set ds
         then (mapping (takeWhile (\<lambda>x. x \<noteq> referenceCloser) ds), tl (dropWhile (\<lambda>x. x \<noteq> referenceCloser) ds))
         else ([operator, referenceOpener], ds))
      else (operator # rune_string d, ds))"

function expand_spec :: "(string \<Rightarrow> string) \<Rightarrow> string \<Rightarrow> string" where
  "expand_spec mapping [] = []"
| "expand_spec mapping [c] = [c]"
| "expand_spec mapping (c # d # ds) =
     (if c = operator then
        fst (expand_head mapping d ds) @ expand_spec mapping (snd (expand_head mapping d ds))
      else c # expand_spec mapping (d # ds))"
  by pat_completeness auto

lemma length_tl_dropWhile: "length (tl (dropWhile P xs)) \<le> length xs"
  by (metis diff_le_self le_trans length_dropWhile_le length_tl)

lemma expand_head_shorter: "length (snd (expand_head mapping d ds)) \<le> length ds"
  by (auto simp: length_tl_dropWhile simp del: length_tl)

termination expand_spec
  by (relation "measure (\<lambda>(mapping, s). length s)")
    (auto simp del: expand_head.simps simp: le_imp_less_Suc le_SucI expand_head_shorter)

text \<open>The escaped form of a text: every operator doubled.\<close>

fun escape :: "string \<Rightarrow> string" where
  "escape [] = []"
| "escape (c # cs) = (if c = operator then operator # operator # escape cs else c # escape cs)"

subsection \<open>Lemmas\<close>

declare scanCloser.simps [simp del] expandLoop.simps [simp del]

lemmas syntax_chars = operator_def referenceOpener_def referenceCloser_def

lemma opener_not_operator [simp]: "referenceOpener \<noteq> operator"
  by (simp add: syntax_chars)

lemma rune_string_ascii: "(of_char c :: nat) < 128 \<Longrightarrow> rune_string c = [c]"
  by (simp add: rune_string_def)

text \<open>The scan finds the first closing parenthesis at or after its start.\<close>

lemma scanCloser_drop:
  assumes "i \<le> length input"
  shows "scanCloser input i =
    (if referenceCloser \<in> set (drop i input)
     then Some (i + length (takeWhile (\<lambda>x. x \<noteq> referenceCloser) (drop i input))) else None)"
  using assms
proof (induction input i rule: scanCloser.induct)
  case (1 input i)
  show ?case
  proof (cases "i < length input")
    case True
    with 1 show ?thesis
      by (simp add: scanCloser.simps [of input i] drop_eq_nth_Cons [OF True])
  next
    case False
    then have "scanCloser input i = None" by (simp add: scanCloser.simps [of input i])
    with False show ?thesis by simp
  qed
qed

lemma takeWhile_as_take: "takeWhile P xs = take (length (takeWhile P xs)) xs"
  by (metis takeWhile_eq_take)

lemma tl_dropWhile_as_drop:
  "x \<in> set xs \<Longrightarrow> tl (dropWhile (\<lambda>y. y \<noteq> x) xs) = drop (Suc (length (takeWhile (\<lambda>y. y \<noteq> x) xs))) xs"
  by (metis drop_Suc dropWhile_eq_drop tl_drop)

lemma length_takeWhile_less: "x \<in> set xs \<Longrightarrow> length (takeWhile (\<lambda>y. y \<noteq> x) xs) < length xs"
  by (induction xs) auto

lemma scanCloser_head:
  "scanCloser (d # ds) (Suc 0) =
    (if referenceCloser \<in> set ds
     then Some (Suc (length (takeWhile (\<lambda>x. x \<noteq> referenceCloser) ds))) else None)"
  using scanCloser_drop [of 1 "d # ds"] by simp

text \<open>
  One read after an operator: the text it contributes and the bytes it consumes are those of
  \<open>expand_head\<close>, and it does not run past the end of the input.
\<close>

lemma tryReadVariableName_head:
  "\<exists>read isVar advance.
     tryReadVariableName (d # ds) = Val (read, isVar, advance)
     \<and> (if isVar then mapping read else read) = fst (expand_head mapping d ds)
     \<and> advance \<le> length (d # ds) \<and> drop advance (d # ds) = snd (expand_head mapping d ds)"
proof (cases "d \<noteq> operator \<and> d = referenceOpener \<and> referenceCloser \<in> set ds")
  case True
  let ?k = "length (takeWhile (\<lambda>x. x \<noteq> referenceCloser) ds)"
  have "tryReadVariableName (d # ds) = Val (take ?k ds, True, Suc (Suc ?k))"
    using True length_takeWhile_less [of referenceCloser ds]
    by (simp add: tryReadVariableName_def scanCloser_head go_slice_def)
  moreover have "take ?k ds = takeWhile (\<lambda>x. x \<noteq> referenceCloser) ds"
    by (rule takeWhile_as_take [symmetric])
  ultimately show ?thesis
    using True length_takeWhile_less [of referenceCloser ds] by (auto simp: tl_dropWhile_as_drop)
next
  case False
  then show ?thesis
    by (auto simp: tryReadVariableName_def scanCloser_head go_slice_def)
qed

lemma expand_spec_non_operator: "c \<noteq> operator \<Longrightarrow> expand_spec mapping (c # cs) = c # expand_spec mapping cs"
  by (cases cs) auto

text \<open>The loop, from any cursor, appends what the reference definition gives for the rest.\<close>

lemma expandLoop_spec:
  assumes "checkpoint \<le> cursor" and "cursor \<le> length input"
  shows "expandLoop input mapping buf checkpoint cursor =
    Val (buf @ take (cursor - checkpoint) (drop checkpoint input) @ expand_spec mapping (drop cursor input))"
  using assms
proof (induction "length input - cursor" arbitrary: buf checkpoint cursor rule: less_induct)
  case less
  consider (stop) "cursor = length input"
    | (expr) "cursor + 1 < length input" "input ! cursor = operator"
    | (copy) "cursor < length input" "\<not> (input ! cursor = operator \<and> cursor + 1 < length input)"
    using less.prems by linarith
  then show ?case
  proof cases
    case stop
    have "expandLoop input mapping buf checkpoint cursor =
        obind (go_slice checkpoint (length input) input) (\<lambda>rest. Val (buf @ rest))"
      by (subst expandLoop.simps) (simp add: stop)
    with stop less.prems show ?thesis by (simp add: go_slice_to_end)
  next
    case expr
    define d ds where "d = input ! Suc cursor" and "ds = drop (Suc (Suc cursor)) input"
    have dr: "drop (Suc cursor) input = d # ds"
      using expr by (simp add: d_def ds_def drop_eq_nth_Cons)
    have dr0: "drop cursor input = operator # d # ds"
      using expr dr by (simp add: drop_eq_nth_Cons)
    obtain read isVar advance where
      rd: "tryReadVariableName (d # ds) = Val (read, isVar, advance)" and
      tx: "(if isVar then mapping read else read) = fst (expand_head mapping d ds)" and
      adv: "advance \<le> length (d # ds)" "drop advance (d # ds) = snd (expand_head mapping d ds)"
      using tryReadVariableName_head [of d ds mapping] by blast
    have len: "Suc (cursor + advance) \<le> length input"
      using adv(1) arg_cong [OF dr, of length] expr by simp
    have rest: "drop (Suc (cursor + advance)) input = snd (expand_head mapping d ds)"
      using adv(2) dr by (metis add_Suc drop_drop add.commute)
    have "expandLoop input mapping buf checkpoint cursor =
        expandLoop input mapping (buf @ take (cursor - checkpoint) (drop checkpoint input) @
          fst (expand_head mapping d ds)) (Suc (cursor + advance)) (Suc (cursor + advance))"
      using expr less.prems tx
      by (simp add: expandLoop.simps [of input mapping buf checkpoint cursor] go_slice_in dr rd
          del: expand_head.simps)
    also have "\<dots> = Val (buf @ take (cursor - checkpoint) (drop checkpoint input) @
          fst (expand_head mapping d ds) @ expand_spec mapping (snd (expand_head mapping d ds)))"
      using less.hyps [of "Suc (cursor + advance)" "Suc (cursor + advance)"] len expr
      by (simp add: rest del: expand_head.simps)
    finally show ?thesis by (simp add: dr0 del: expand_head.simps)
  next
    case copy
    have step: "expandLoop input mapping buf checkpoint cursor =
        expandLoop input mapping buf checkpoint (Suc cursor)"
      using copy by (subst expandLoop.simps) auto
    have "expand_spec mapping (drop cursor input) = input ! cursor # expand_spec mapping (drop (Suc cursor) input)"
      using copy by (cases "cursor + 1 < length input")
        (simp_all add: drop_eq_nth_Cons expand_spec_non_operator)
    then show ?thesis
      using less.hyps [of "Suc cursor" checkpoint buf] copy less.prems
      by (simp add: step slice_snoc)
  qed
qed

lemma Expand_eq: "Expand input mapping = Val (expand_spec mapping input)"
  by (simp add: Expand_def expandLoop_spec)

lemma expand_spec_escape: "expand_spec mapping (escape s) = s"
proof (induction s rule: escape.induct)
  case (2 c cs)
  then show ?case by (simp add: expand_spec_non_operator)
qed simp

lemma takeWhile_closer: "referenceCloser \<notin> set x \<Longrightarrow>
    takeWhile (\<lambda>y. y \<noteq> referenceCloser) (x @ referenceCloser # s) = x"
  "referenceCloser \<notin> set x \<Longrightarrow>
    dropWhile (\<lambda>y. y \<noteq> referenceCloser) (x @ referenceCloser # s) = referenceCloser # s"
  by (induction x) auto

lemma expand_spec_reference:
  "referenceCloser \<notin> set x \<Longrightarrow> expand_spec mapping (syntaxWrap x @ s) = mapping x @ expand_spec mapping s"
  by (simp add: syntaxWrap_def takeWhile_closer)

lemma expand_spec_plain_append:
  "operator \<notin> set p \<Longrightarrow> expand_spec mapping (p @ s) = p @ expand_spec mapping s"
  by (induction p) (auto simp: expand_spec_non_operator)

subsection \<open>Properties\<close>

text \<open>
  C30: for every input and mapping the loop of \<open>Expand\<close> ends without a panic (no slice is out of
  range) and its buffer is the reference expansion of the input.
\<close>

theorem Expand_computes_spec: "Expand input mapping = Val (expand_spec mapping input)"
  by (rule Expand_eq)

text \<open>
  escaping is undone by expansion: for every text, expanding the text with each operator
  doubled gives the text back, whatever the mapping.
\<close>

theorem Expand_escape_roundtrip: "Expand (escape s) mapping = Val s"
  by (simp add: Expand_eq expand_spec_escape)

text \<open>
  a reference in the middle of a text is replaced by its value: with plain text before it, the
  result is the text, the value the contexts give in order of precedence, and the expansion of
  what follows; a name no context defines stays as the reference it was.
\<close>

theorem Expand_reference:
  assumes "operator \<notin> set p" and "referenceCloser \<notin> set x"
  shows "Expand (p @ syntaxWrap x @ s) (MappingFuncFor ctx) =
    Val (p @ (case List.find (\<lambda>m. m x \<noteq> None) ctx of Some m \<Rightarrow> the (m x) | None \<Rightarrow> syntaxWrap x)
      @ expand_spec (MappingFuncFor ctx) s)"
proof -
  have "MappingFuncFor ctx x = (case List.find (\<lambda>m. m x \<noteq> None) ctx of Some m \<Rightarrow> the (m x) | None \<Rightarrow> syntaxWrap x)"
    by (induction ctx) (auto split: option.splits)
  with assms show ?thesis
    by (simp add: Expand_eq expand_spec_plain_append expand_spec_reference)
qed

theorem Expand_reference_witness:
  "Expand (''http://'' @ syntaxWrap ''HOST'' @ ''/'') (MappingFuncFor [Map.empty, [''HOST'' \<mapsto> ''db'']]) =
    Val ''http://db/''"
  using Expand_reference [of "''http://''" "''HOST''" "''/''" "[Map.empty, [''HOST'' \<mapsto> ''db'']]"]
  by (simp add: syntax_chars)

text \<open>
  an operator in front of a byte of 128 or more is not copied: the byte is re-encoded as the
  UTF-8 form of its value, so the two bytes of a non-ASCII letter after the operator come out as three.
\<close>

theorem Expand_mangles_non_ascii:
  "Expand [operator, CHR 0xC3, CHR 0xA9] mapping = Val [operator, CHR 0xC3, CHR 0x83, CHR 0xA9]"
proof -
  have "rune_string (CHR 0xC3) = [CHR 0xC3, CHR 0x83]" by code_simp
  then show ?thesis by (simp add: Expand_eq syntax_chars expand_spec_non_operator)
qed

end
