(* ===== verification/Errdefs.thy ===== *)
theory Errdefs
  imports Prelude
begin

text \<open>
  Errors (\<open>src/errdefs\<close>). A Go \<open>error\<close> is a \<open>goerror\<close>; a nil error is \<open>None\<close>. The constructors are the
  dynamic types the sources build or test for: \<open>errors.New\<close> and \<open>fmt.Errorf\<close> strings, \<open>fmt.Errorf\<close>
  with \<open>%w\<close>, the \<open>pkg/errors\<close> wrapper (which has \<open>Cause()\<close>), the two types of this package, an API
  server status error, the context errors, and any other type, described by which of
  \<open>NotFound()\<close>, \<open>InvalidInput()\<close> and \<open>Cause()\<close> it implements and what they return.
\<close>

datatype goerror =
    ErrorString string
  | WrapError string goerror
  | WithMessage string goerror
  | NotFoundError goerror
  | InvalidInputError goerror
  | StatusError string string
  | CtxCanceled
  | CtxDeadlineExceeded
  | CustomError string "bool option" "bool option" "goerror option option"

type_synonym 'a result = "goerror + 'a"

subsection \<open>The methods an error value may have\<close>

text \<open>\<open>notFoundMethod e\<close> is \<open>None\<close> when the dynamic type of \<open>e\<close> has no method \<open>NotFound\<close>.\<close>

fun notFoundMethod :: "goerror \<Rightarrow> bool option" where
  "notFoundMethod (NotFoundError e) = Some True"
| "notFoundMethod (CustomError m nf ii c) = nf"
| "notFoundMethod _ = None"

fun invalidInputMethod :: "goerror \<Rightarrow> bool option" where
  "invalidInputMethod (InvalidInputError e) = Some True"
| "invalidInputMethod (CustomError m nf ii c) = ii"
| "invalidInputMethod _ = None"

fun causeMethod :: "goerror \<Rightarrow> goerror option option" where
  "causeMethod (NotFoundError e) = Some (Some e)"
| "causeMethod (InvalidInputError e) = Some (Some e)"
| "causeMethod (WithMessage m e) = Some (Some e)"
| "causeMethod (CustomError m nf ii c) = c"
| "causeMethod _ = None"

text \<open>The message of an error; the types of this package add nothing to it.\<close>

fun Error :: "goerror \<Rightarrow> string" where
  "Error (ErrorString m) = m"
| "Error (WrapError m e) = m"
| "Error (WithMessage m e) = m @ '': '' @ Error e"
| "Error (NotFoundError e) = Error e"
| "Error (InvalidInputError e) = Error e"
| "Error (StatusError r m) = m"
| "Error CtxCanceled = ''context canceled''"
| "Error CtxDeadlineExceeded = ''context deadline exceeded''"
| "Error (CustomError m nf ii c) = m"

subsection \<open>notfound.go\<close>

fun AsNotFound :: "goerror option \<Rightarrow> goerror option" where
  "AsNotFound None = None"
| "AsNotFound (Some err) = Some (NotFoundError err)"

definition NotFound :: "string \<Rightarrow> goerror" where
  "NotFound msg = NotFoundError (ErrorString msg)"

definition NotFoundf :: "string \<Rightarrow> goerror" where
  "NotFoundf formatted = NotFoundError (ErrorString formatted)"

lemma causeMethod_size: "causeMethod e = Some (Some c) \<Longrightarrow> size c < size e"
  by (cases e) auto

function IsNotFound :: "goerror option \<Rightarrow> bool" where
  "IsNotFound None = False"
| "IsNotFound (Some err) =
     (case notFoundMethod err of
        Some b \<Rightarrow> b
      | None \<Rightarrow> (case causeMethod err of Some c \<Rightarrow> IsNotFound c | None \<Rightarrow> False))"
  by pat_completeness auto
termination
  by (relation "measure (\<lambda>e. case e of None \<Rightarrow> 0 | Some x \<Rightarrow> Suc (size x))")
    (auto split: option.splits dest: causeMethod_size)

subsection \<open>invalid.go\<close>

fun AsInvalidInput :: "goerror option \<Rightarrow> goerror option" where
  "AsInvalidInput None = None"
| "AsInvalidInput (Some err) = Some (InvalidInputError err)"

definition InvalidInput :: "string \<Rightarrow> goerror" where
  "InvalidInput msg = InvalidInputError (ErrorString msg)"

definition InvalidInputf :: "string \<Rightarrow> goerror" where
  "InvalidInputf formatted = InvalidInputError (ErrorString formatted)"

function IsInvalidInput :: "goerror option \<Rightarrow> bool" where
  "IsInvalidInput None = False"
| "IsInvalidInput (Some err) =
     (case invalidInputMethod err of
        Some b \<Rightarrow> b
      | None \<Rightarrow> (case causeMethod err of Some c \<Rightarrow> IsInvalidInput c | None \<Rightarrow> False))"
  by pat_completeness auto
termination
  by (relation "measure (\<lambda>e. case e of None \<Rightarrow> 0 | Some x \<Rightarrow> Suc (size x))")
    (auto split: option.splits dest: causeMethod_size)

text \<open>\<open>pkg/errors.Wrap\<close>: nil stays nil.\<close>

fun pkg_Wrap :: "goerror option \<Rightarrow> string \<Rightarrow> goerror option" where
  "pkg_Wrap None m = None"
| "pkg_Wrap (Some e) m = Some (WithMessage m e)"

subsection \<open>The causal chain, declaratively\<close>

text \<open>\<open>causal_chain e\<close> lists the errors the traversal of \<open>Cause()\<close> visits, starting with \<open>e\<close>.\<close>

function causal_chain :: "goerror option \<Rightarrow> goerror list" where
  "causal_chain None = []"
| "causal_chain (Some err) = err # (case causeMethod err of Some c \<Rightarrow> causal_chain c | None \<Rightarrow> [])"
  by pat_completeness auto
termination
  by (relation "measure (\<lambda>e. case e of None \<Rightarrow> 0 | Some x \<Rightarrow> Suc (size x))")
    (auto split: option.splits dest: causeMethod_size)

definition first_answer :: "(goerror \<Rightarrow> bool option) \<Rightarrow> goerror list \<Rightarrow> bool" where
  "first_answer m es = (case List.find (\<lambda>e. m e \<noteq> None) es of Some e \<Rightarrow> m e = Some True | None \<Rightarrow> False)"

subsection \<open>Lemmas\<close>

lemma first_answer_Nil [simp]: "first_answer m [] = False"
  by (simp add: first_answer_def)

lemma first_answer_Cons:
  "first_answer m (e # es) = (case m e of Some b \<Rightarrow> b | None \<Rightarrow> first_answer m es)"
  by (auto simp: first_answer_def split: option.splits)

lemma IsNotFound_wrap [simp]:
  "IsNotFound (Some (WithMessage m e)) = IsNotFound (Some e)"
  "IsNotFound (Some (NotFoundError e))"
  "IsNotFound (Some (InvalidInputError e)) = IsNotFound (Some e)"
  "\<not> IsNotFound (Some (WrapError m e))"
  "\<not> IsNotFound (Some (ErrorString m))"
  by simp_all

lemma pkg_Wrap_class [simp]:
  "IsNotFound (pkg_Wrap e m) = IsNotFound e" "IsInvalidInput (pkg_Wrap e m) = IsInvalidInput e"
  by (cases e; simp)+

text \<open>
  the recursive classifier \<open>IsNotFound\<close> is the first answer along the causal chain: the first
  error of the chain that implements \<open>NotFound()\<close> decides, and without one the answer is false.
\<close>

theorem IsNotFound_first_answer: "IsNotFound e = first_answer notFoundMethod (causal_chain e)"
  by (induction e rule: IsNotFound.induct) (auto simp: first_answer_Cons split: option.splits)

end
