(* ===== verification/K8s_Types.thy ===== *)
theory K8s_Types
  imports Errdefs
begin

text \<open>
  The Kubernetes API objects the sources work on, with the fields the sources read, write or compare.
  The remaining fields of an object's metadata and spec, which only whole-object comparisons look at,
  are one opaque field each (\<open>meta_rest\<close>, \<open>spec_rest\<close>). A pointer that may be nil is an \<open>option\<close>; so are
  the maps and slices of a pod's metadata and spec that the code compares for equality, since a nil and
  an empty one differ there. Times are integers (nanoseconds), 0 being the zero \<open>Time\<close>. A deep copy is
  the value itself.
\<close>

datatype PodPhase = PhaseEmpty | PodPending | PodRunning | PodSucceeded | PodFailed | PodUnknown

datatype RestartPolicy = RestartPolicyEmpty | RestartPolicyAlways | RestartPolicyOnFailure | RestartPolicyNever

text \<open>The strings behind the phase constants.\<close>

fun phase_string :: "PodPhase \<Rightarrow> string" where
  "phase_string PhaseEmpty = ''''"
| "phase_string PodPending = ''Pending''"
| "phase_string PodRunning = ''Running''"
| "phase_string PodSucceeded = ''Succeeded''"
| "phase_string PodFailed = ''Failed''"
| "phase_string PodUnknown = ''Unknown''"

record ContainerStateTerminated =
  ExitCode :: int
  TermReason :: string
  TermMessage :: string
  TermStartedAt :: int
  TermFinishedAt :: int
  TermContainerID :: string

record ContainerState =
  Waiting :: "string option"
  Running :: "int option"   \<comment> \<open>\<open>Running.StartedAt\<close>\<close>
  Terminated :: "ContainerStateTerminated option"

record ContainerStatus =
  StatusName :: string
  State :: ContainerState
  LastTerminationState :: ContainerState
  Ready :: bool
  RestartCount :: int
  StatusImage :: string
  ImageID :: string
  ContainerID :: string
  Started :: "bool option"

record PodCondition =
  CondType :: string
  CondStatus :: string

record PodStatus =
  Phase :: PodPhase
  Conditions :: "PodCondition list"
  Message :: string
  Reason :: string
  HostIP :: string
  PodIP :: string
  PodIPs :: "string list"
  StartTime :: "int option"
  InitContainerStatuses :: "ContainerStatus list"
  ContainerStatuses :: "ContainerStatus list"
  QOSClass :: string

record KeySelector =
  RefName :: string
  RefKey :: string
  RefOptional :: "bool option"

record EnvVarSource =
  ConfigMapKeyRef :: "KeySelector option"
  SecretKeyRef :: "KeySelector option"
  FieldRef :: "(string \<times> string) option"   \<comment> \<open>\<open>APIVersion\<close> and \<open>FieldPath\<close>\<close>
  ResourceFieldRef :: "string option"

record EnvVar =
  EnvName :: string
  EnvValue :: string
  ValueFrom :: "EnvVarSource option"

record EnvFromRef =
  FromName :: string
  FromOptional :: "bool option"

record EnvFromSource =
  Prefix :: string
  ConfigMapRef :: "EnvFromRef option"
  SecretRef :: "EnvFromRef option"

record VolumeMount =
  MountName :: string
  MountPath :: string
  SubPath :: string

record Container =
  ContainerName :: string
  Image :: string
  Command :: "string list"
  Args :: "string list"
  WorkingDir :: string
  Env :: "EnvVar list"
  EnvFrom :: "EnvFromSource list"
  VolumeMounts :: "VolumeMount list"
  ImagePullPolicy :: string

record VolumeSource =
  SourceName :: string
  Items :: "(string \<times> string) list"   \<comment> \<open>\<open>Key\<close> and \<open>Path\<close>\<close>
  SourceOptional :: "bool option"

record Volume =
  VolumeName :: string
  VolumeConfigMap :: "VolumeSource option"
  VolumeSecret :: "VolumeSource option"

record PodSpec =
  InitContainers :: "Container list"
  Containers :: "Container list"
  RestartPolicyOf :: RestartPolicy
  NodeName :: string
  ServiceAccountName :: string
  EnableServiceLinks :: "bool option"
  ActiveDeadlineSeconds :: "int option"
  TerminationGracePeriodSeconds :: "int option"
  Tolerations :: "string list option"
  Volumes :: "Volume list"
  spec_rest :: string

record ObjectMeta =
  Namespace :: string
  Name :: string
  UID :: string
  ResourceVersion :: string
  Labels :: "string gomap option"
  Annotations :: "string gomap option"
  CreationTimestamp :: int
  DeletionTimestamp :: "int option"
  DeletionGracePeriodSeconds :: "int option"
  meta_rest :: string

record Pod =
  Meta :: ObjectMeta
  Spec :: PodSpec
  Status :: PodStatus

text \<open>A configmap or a secret, and a service.\<close>

record DataObject =
  DataNamespace :: string
  DataName :: string
  Data :: "string gomap"
  StringData :: "string gomap"   \<comment> \<open>of secrets only\<close>

record Service =
  ServiceName :: string
  ServiceNamespace :: string
  ClusterIP :: string

subsection \<open>Events\<close>

text \<open>What \<open>recorder.Event\<close> is called with: the pod's namespace and name, type, reason, message.\<close>

datatype event = Event string string string string string

definition EventTypeNormal :: string where "EventTypeNormal = ''Normal''"
definition EventTypeWarning :: string where "EventTypeWarning = ''Warning''"

definition pod_event :: "Pod \<Rightarrow> string \<Rightarrow> string \<Rightarrow> string \<Rightarrow> event" where
  "pod_event pod ty reason msg = Event (Namespace (Meta pod)) (Name (Meta pod)) ty reason msg"

subsection \<open>Zero values\<close>

definition emptyState :: ContainerState where
  "emptyState = \<lparr>Waiting = None, Running = None, Terminated = None\<rparr>"

definition emptyStatus :: PodStatus where
  "emptyStatus = \<lparr>Phase = PhaseEmpty, Conditions = [], Message = [], Reason = [], HostIP = [], PodIP = [],
     PodIPs = [], StartTime = None, InitContainerStatuses = [], ContainerStatuses = [], QOSClass = []\<rparr>"

definition emptySpec :: PodSpec where
  "emptySpec = \<lparr>InitContainers = [], Containers = [], RestartPolicyOf = RestartPolicyEmpty, NodeName = [],
     ServiceAccountName = [], EnableServiceLinks = None, ActiveDeadlineSeconds = None,
     TerminationGracePeriodSeconds = None, Tolerations = None, Volumes = [], spec_rest = []\<rparr>"

definition emptyMeta :: ObjectMeta where
  "emptyMeta = \<lparr>Namespace = [], Name = [], UID = [], ResourceVersion = [], Labels = None, Annotations = None,
     CreationTimestamp = 0, DeletionTimestamp = None, DeletionGracePeriodSeconds = None, meta_rest = []\<rparr>"

definition emptyContainer :: Container where
  "emptyContainer = \<lparr>ContainerName = [], Image = [], Command = [], Args = [], WorkingDir = [], Env = [],
     EnvFrom = [], VolumeMounts = [], ImagePullPolicy = []\<rparr>"

definition named_pod :: "string \<Rightarrow> string \<Rightarrow> Pod" where
  "named_pod ns n = \<lparr>Meta = emptyMeta\<lparr>Namespace := ns, Name := n\<rparr>, Spec = emptySpec, Status = emptyStatus\<rparr>"

lemmas zero_values = emptyState_def emptyStatus_def emptySpec_def emptyMeta_def emptyContainer_def named_pod_def

subsection \<open>The resource manager (\<open>src/internal/manager/resource.go\<close>)\<close>

text \<open>
  The informer listers, which client-go provides, are functions of the manager: what they return for
  a namespace and a name.
\<close>

record ResourceManager =
  podListerList :: "Pod list result"
  podListerGet :: "string \<Rightarrow> string \<Rightarrow> Pod result"
  secretListerGet :: "string \<Rightarrow> string \<Rightarrow> DataObject result"
  configMapListerGet :: "string \<Rightarrow> string \<Rightarrow> DataObject result"
  serviceListerList :: "Service list result"

definition rm_GetPods :: "ResourceManager \<Rightarrow> Pod list" where
  "rm_GetPods rm = (case podListerList rm of Inr l \<Rightarrow> l | Inl err \<Rightarrow> [])"

definition rm_GetPod :: "ResourceManager \<Rightarrow> string \<Rightarrow> string \<Rightarrow> Pod result" where
  "rm_GetPod rm namespace name = podListerGet rm namespace name"

definition GetConfigMap :: "ResourceManager \<Rightarrow> string \<Rightarrow> string \<Rightarrow> DataObject result" where
  "GetConfigMap rm name namespace = configMapListerGet rm namespace name"

definition GetSecret :: "ResourceManager \<Rightarrow> string \<Rightarrow> string \<Rightarrow> DataObject result" where
  "GetSecret rm name namespace = secretListerGet rm namespace name"

definition ListServices :: "ResourceManager \<Rightarrow> Service list result" where
  "ListServices rm = serviceListerList rm"

end
