(* ===== verification/Pod_Env.thy ===== *)
theory Pod_Env
  imports Expansion K8s_Types "HOL-Library.List_Lexorder" "HOL-Library.Char_ord"
begin

text \<open>
  The environment of a pod's containers (\<open>src/internal/podutils/env.go\<close>, \<open>src/internal/ext/node_ip.go\<close>):
  \<open>.envFrom\<close>, \<open>.env\<close> and the service variables are resolved into a plain list of names and values.
  The Kubernetes helpers the file calls are the record \<open>env_lib\<close>; the recorded events and the cached
  node address are the state \<open>env_state\<close> that the functions thread. The abstract specification is
  \<open>container_env\<close>, a map built by layers, and \<open>populate_refines_container_env\<close> shows that the code
  implements it, errors included.
\<close>

subsection \<open>Parameters and state\<close>

record env_lib =
  IsEnvVarName :: "string \<Rightarrow> string list"
  IsServiceIPSet :: "Service \<Rightarrow> bool"
  FromServices :: "Service list \<Rightarrow> (string \<times> string) list"
  ConvertDownwardAPIFieldLabel :: "string \<Rightarrow> string \<Rightarrow> string result"
  ExtractFieldPathAsString :: "Pod \<Rightarrow> string \<Rightarrow> string result"
  api_IsNotFound :: "goerror \<Rightarrow> bool"
  Getenv :: "string \<Rightarrow> string"

record env_state =
  recorded :: "event list"
  nodeIp :: string

definition Eventf :: "Pod \<Rightarrow> string \<Rightarrow> string \<Rightarrow> env_state \<Rightarrow> env_state" where
  "Eventf pod reason msg st = st\<lparr>recorded := recorded st @ [pod_event pod EventTypeWarning reason msg]\<rparr>"

definition GetNodeIPFromEnv :: "env_lib \<Rightarrow> env_state \<Rightarrow> env_state \<times> string" where
  "GetNodeIPFromEnv lib st =
     (if length (nodeIp st) > 0 then (st, nodeIp st)
      else let ip = Getenv lib ''VKUBELET_POD_IP'' in (st\<lparr>nodeIp := ip\<rparr>, ip))"

definition masterServices :: "string list" where "masterServices = [''kubernetes'']"
definition NamespaceDefault :: string where "NamespaceDefault = ''default''"
definition DefaultEnableServiceLinks :: bool where "DefaultEnableServiceLinks = True"

definition is_optional :: "bool option \<Rightarrow> bool" where
  "is_optional p = (case p of None \<Rightarrow> False | Some b \<Rightarrow> b)"

subsection \<open>Service variables\<close>

fun serviceMapLoop :: "env_lib \<Rightarrow> string \<Rightarrow> bool \<Rightarrow> Service list \<Rightarrow> Service gomap \<Rightarrow> Service gomap" where
  "serviceMapLoop lib ns enable [] serviceMap = serviceMap"
| "serviceMapLoop lib ns enable (service # services) serviceMap =
     serviceMapLoop lib ns enable services
       (if \<not> IsServiceIPSet lib service then serviceMap
        else if ServiceNamespace service = NamespaceDefault \<and> ServiceName service \<in> set masterServices then
          (if go_get serviceMap (ServiceName service) = None
           then go_put (ServiceName service) service serviceMap else serviceMap)
        else if ServiceNamespace service = ns \<and> enable
          then go_put (ServiceName service) service serviceMap
        else serviceMap)"

fun putAll :: "(string \<times> string) list \<Rightarrow> string gomap \<Rightarrow> string gomap" where
  "putAll [] m = m"
| "putAll ((k, v) # es) m = putAll es (go_put k v m)"

definition getServiceEnvVarMap :: "env_lib \<Rightarrow> ResourceManager \<Rightarrow> string \<Rightarrow> bool \<Rightarrow> string gomap result" where
  "getServiceEnvVarMap lib rm ns enableServiceLinks =
     (case ListServices rm of
        Inl err \<Rightarrow> Inl err
      | Inr services \<Rightarrow>
          let mappedServices = map snd (serviceMapLoop lib ns enableServiceLinks services [])
          in Inr (putAll (FromServices lib mappedServices) []))"

subsection \<open>Variables from configmaps and secrets (\<open>.envFrom\<close>)\<close>

fun keysLoop :: "env_lib \<Rightarrow> string \<Rightarrow> (string \<times> string) list \<Rightarrow> string gomap \<Rightarrow> string list \<Rightarrow> string gomap \<times> string list" where
  "keysLoop lib prefix [] res invalidKeys = (res, invalidKeys)"
| "keysLoop lib prefix ((key0, val) # es) res invalidKeys =
     (let key = (if length prefix > 0 then prefix @ key0 else key0) in
      if length (IsEnvVarName lib key) \<noteq> 0 then keysLoop lib prefix es res (invalidKeys @ [key])
      else keysLoop lib prefix es (go_put key val res) invalidKeys)"

fun strings_Join :: "string list \<Rightarrow> string \<Rightarrow> string" where
  "strings_Join [] sep = []"
| "strings_Join [a] sep = a"
| "strings_Join (a # b # as) sep = a @ sep @ strings_Join (b # as) sep"

definition skipped_msg :: "string \<Rightarrow> string list \<Rightarrow> string \<Rightarrow> string \<Rightarrow> string" where
  "skipped_msg kind keys ns name = ''keys ['' @ strings_Join keys '', '' @ ''] from '' @ kind @ '' '' @ ns @ ''/'' @ name
     @ '' were skipped since they are invalid as environment variable names''"

definition reportInvalidKeys :: "Pod \<Rightarrow> string \<Rightarrow> string list \<Rightarrow> DataObject \<Rightarrow> env_state \<Rightarrow> env_state" where
  "reportInvalidKeys pod kind invalidKeys m st =
     (if length invalidKeys > 0
      then Eventf pod ''InvalidEnvironmentVariableNames''
             (skipped_msg kind (sort invalidKeys) (DataNamespace m) (DataName m)) st
      else st)"

definition not_found_msg :: "string \<Rightarrow> string \<Rightarrow> string" where
  "not_found_msg kind name = kind @ '' '' @ fmt_q name @ '' not found''"

definition failed_to_read_msg :: "string \<Rightarrow> string \<Rightarrow> string" where
  "failed_to_read_msg kind name = ''failed to read '' @ kind @ '' '' @ fmt_q name"

definition envFromConfigMap ::
    "env_lib \<Rightarrow> Pod \<Rightarrow> string \<Rightarrow> EnvFromRef \<Rightarrow> ResourceManager \<Rightarrow> string gomap \<Rightarrow> env_state \<Rightarrow> env_state \<times> string gomap result" where
  "envFromConfigMap lib pod prefix ef rm res st =
     (let optional = is_optional (FromOptional ef) in
      case GetConfigMap rm (FromName ef) (Namespace (Meta pod)) of
        Inl err \<Rightarrow>
          if optional then
            (if api_IsNotFound lib err
             then (Eventf pod ''OptionalConfigMapNotFound'' (not_found_msg ''configmap'' (FromName ef)) st, Inr res)
             else (Eventf pod ''FailedToReadOptionalConfigMap'' (failed_to_read_msg ''configmap'' (FromName ef)) st, Inr res))
          else if api_IsNotFound lib err then
            (Eventf pod ''MandatoryConfigMapNotFound'' (not_found_msg ''configmap'' (FromName ef)) st,
             Inl (ErrorString (not_found_msg ''configmap'' (FromName ef))))
          else
            (Eventf pod ''FailedToReadMandatoryConfigMap'' (failed_to_read_msg ''configmap'' (FromName ef)) st,
             Inl (ErrorString (''failed to fetch configmap '' @ fmt_q (FromName ef) @ '': '' @ Error err)))
      | Inr m \<Rightarrow>
          let (res', invalidKeys) = keysLoop lib prefix (Data m) res []
          in (reportInvalidKeys pod ''configmap'' invalidKeys m st, Inr res'))"

definition envFromSecret ::
    "env_lib \<Rightarrow> Pod \<Rightarrow> string \<Rightarrow> EnvFromRef \<Rightarrow> ResourceManager \<Rightarrow> string gomap \<Rightarrow> env_state \<Rightarrow> env_state \<times> string gomap result" where
  "envFromSecret lib pod prefix ef rm res st =
     (let optional = is_optional (FromOptional ef) in
      case GetSecret rm (FromName ef) (Namespace (Meta pod)) of
        Inl err \<Rightarrow>
          if optional then
            (if api_IsNotFound lib err
             then (Eventf pod ''OptionalSecretNotFound'' (not_found_msg ''secret'' (FromName ef)) st, Inr res)
             else (Eventf pod ''FailedToReadOptionalSecret'' (failed_to_read_msg ''secret'' (FromName ef)) st, Inr res))
          else if api_IsNotFound lib err then
            (Eventf pod ''MandatorySecretNotFound'' (not_found_msg ''secret'' (FromName ef)) st,
             Inl (ErrorString (not_found_msg ''secret'' (FromName ef))))
          else
            (Eventf pod ''FailedToReadMandatorySecret'' (failed_to_read_msg ''secret'' (FromName ef)) st,
             Inl (ErrorString (''failed to fetch secret '' @ fmt_q (FromName ef) @ '': '' @ Error err)))
      | Inr s \<Rightarrow>
          let (res', invalidKeys) = keysLoop lib prefix (Data s) res []
          in (reportInvalidKeys pod ''secret'' invalidKeys s st, Inr res'))"

definition envFromStep ::
    "env_lib \<Rightarrow> Pod \<Rightarrow> EnvFromSource \<Rightarrow> ResourceManager \<Rightarrow> string gomap \<Rightarrow> env_state \<Rightarrow> env_state \<times> string gomap result" where
  "envFromStep lib pod envFrom rm res st =
     (case ConfigMapRef envFrom of
        Some ef \<Rightarrow> envFromConfigMap lib pod (Prefix envFrom) ef rm res st
      | None \<Rightarrow> (case SecretRef envFrom of
            Some ef \<Rightarrow> envFromSecret lib pod (Prefix envFrom) ef rm res st
          | None \<Rightarrow> (st, Inr res)))"

fun envFromLoop ::
    "env_lib \<Rightarrow> Pod \<Rightarrow> EnvFromSource list \<Rightarrow> ResourceManager \<Rightarrow> string gomap \<Rightarrow> env_state \<Rightarrow> env_state \<times> string gomap result" where
  "envFromLoop lib pod [] rm res st = (st, Inr res)"
| "envFromLoop lib pod (envFrom # rest) rm res st =
     (case envFromStep lib pod envFrom rm res st of
        (st', Inl err) \<Rightarrow> (st', Inl err)
      | (st', Inr res') \<Rightarrow> envFromLoop lib pod rest rm res' st')"

definition makeEnvironmentMapBasedOnEnvFrom ::
    "env_lib \<Rightarrow> Pod \<Rightarrow> Container \<Rightarrow> ResourceManager \<Rightarrow> env_state \<Rightarrow> env_state \<times> string gomap result" where
  "makeEnvironmentMapBasedOnEnvFrom lib pod container rm st =
     envFromLoop lib pod (EnvFrom container) rm [] st"

subsection \<open>Variables with a value or a source (\<open>.env\<close>)\<close>

text \<open>The second component is \<open>Inr None\<close> for a nil string pointer without an error.\<close>

type_synonym env_value = "env_state \<times> string option result"

definition doesnt_contain_msg :: "string \<Rightarrow> string \<Rightarrow> string \<Rightarrow> string \<Rightarrow> string" where
  "doesnt_contain_msg kind name key pod_name =
     kind @ '' '' @ fmt_q name @ '' doesn't contain the '' @ fmt_q key @ '' key required by pod '' @ pod_name"

definition key_missing_msg :: "string \<Rightarrow> string \<Rightarrow> string \<Rightarrow> string" where
  "key_missing_msg kind name key = ''key '' @ fmt_q key @ '' does not exist in '' @ kind @ '' '' @ fmt_q name"

definition skipping_msg :: "string \<Rightarrow> string \<Rightarrow> string" where
  "skipping_msg env_name why = ''skipping optional envvar '' @ fmt_q env_name @ '': '' @ why"

definition getEnvironmentVariableValueWithValueFromConfigMapKeyRef ::
    "env_lib \<Rightarrow> EnvVar \<Rightarrow> KeySelector \<Rightarrow> Pod \<Rightarrow> ResourceManager \<Rightarrow> env_state \<Rightarrow> env_value" where
  "getEnvironmentVariableValueWithValueFromConfigMapKeyRef lib env vf pod rm st =
     (let optional = is_optional (RefOptional vf) in
      case GetConfigMap rm (RefName vf) (Namespace (Meta pod)) of
        Inl err \<Rightarrow>
          if optional then
            (if api_IsNotFound lib err
             then (Eventf pod ''OptionalConfigMapNotFound''
                     (skipping_msg (EnvName env) (not_found_msg ''configmap'' (RefName vf))) st, Inr None)
             else (Eventf pod ''FailedToReadOptionalConfigMap''
                     (skipping_msg (EnvName env) (failed_to_read_msg ''configmap'' (RefName vf))) st, Inr None))
          else if api_IsNotFound lib err then
            (Eventf pod ''MandatoryConfigMapNotFound'' (not_found_msg ''configmap'' (RefName vf)) st,
             Inl (ErrorString (not_found_msg ''configmap'' (RefName vf))))
          else
            (Eventf pod ''FailedToReadMandatoryConfigMap'' (failed_to_read_msg ''configmap'' (RefName vf)) st,
             Inl (ErrorString (failed_to_read_msg ''configmap'' (RefName vf) @ '': '' @ Error err)))
      | Inr m \<Rightarrow>
          (case go_get (Data m) (RefKey vf) of
             None \<Rightarrow>
               if optional then
                 (Eventf pod ''OptionalConfigMapKeyNotFound''
                    (skipping_msg (EnvName env) (key_missing_msg ''configmap'' (RefName vf) (RefKey vf))) st, Inr None)
               else
                 (Eventf pod ''MandatoryConfigMapKeyNotFound'' (key_missing_msg ''configmap'' (RefName vf) (RefKey vf)) st,
                  Inl (ErrorString (doesnt_contain_msg ''configmap'' (RefName vf) (RefKey vf) (Name (Meta pod)))))
           | Some keyValue \<Rightarrow> (st, Inr (Some keyValue))))"

definition getEnvironmentVariableValueWithValueFromSecretKeyRef ::
    "env_lib \<Rightarrow> EnvVar \<Rightarrow> KeySelector \<Rightarrow> Pod \<Rightarrow> ResourceManager \<Rightarrow> env_state \<Rightarrow> env_value" where
  "getEnvironmentVariableValueWithValueFromSecretKeyRef lib env vf pod rm st =
     (let optional = is_optional (RefOptional vf) in
      case GetSecret rm (RefName vf) (Namespace (Meta pod)) of
        Inl err \<Rightarrow>
          if optional then
            (if api_IsNotFound lib err
             then (Eventf pod ''OptionalSecretNotFound''
                     (skipping_msg (EnvName env) (not_found_msg ''secret'' (RefName vf))) st, Inr None)
             else (Eventf pod ''FailedToReadOptionalSecret''
                     (skipping_msg (EnvName env) (failed_to_read_msg ''secret'' (RefName vf))) st, Inr None))
          else if api_IsNotFound lib err then
            (Eventf pod ''MandatorySecretNotFound'' (not_found_msg ''secret'' (RefName vf)) st,
             Inl (ErrorString (not_found_msg ''secret'' (RefName vf))))
          else
            (Eventf pod ''FailedToReadMandatorySecret'' (failed_to_read_msg ''secret'' (RefName vf)) st,
             Inl (ErrorString (failed_to_read_msg ''secret'' (RefName vf) @ '': '' @ Error err)))
      | Inr s \<Rightarrow>
          (case go_get (Data s) (RefKey vf) of
             None \<Rightarrow>
               if optional then
                 (Eventf pod ''OptionalSecretKeyNotFound''
                    (skipping_msg (EnvName env) (key_missing_msg ''secret'' (RefName vf) (RefKey vf))) st, Inr None)
               else
                 (Eventf pod ''MandatorySecretKeyNotFound'' (key_missing_msg ''secret'' (RefName vf) (RefKey vf)) st,
                  Inl (ErrorString (doesnt_contain_msg ''secret'' (RefName vf) (RefKey vf) (Name (Meta pod)))))
           | Some keyValue \<Rightarrow> (st, Inr (Some keyValue))))"

definition podFieldSelectorRuntimeValue ::
    "env_lib \<Rightarrow> string \<times> string \<Rightarrow> Pod \<Rightarrow> env_state \<Rightarrow> env_state \<times> string result" where
  "podFieldSelectorRuntimeValue lib fs pod st =
     (case ConvertDownwardAPIFieldLabel lib (fst fs) (snd fs) of
        Inl err \<Rightarrow> (st, Inl err)
      | Inr internalFieldPath \<Rightarrow>
          if internalFieldPath = ''spec.nodeName'' then (st, Inr (NodeName (Spec pod)))
          else if internalFieldPath = ''spec.serviceAccountName'' then (st, Inr (ServiceAccountName (Spec pod)))
          else if internalFieldPath \<in> {''status.hostIP'', ''status.podIP'', ''status.podIPs''} then
            (let (st', ip) = GetNodeIPFromEnv lib st in (st', Inr ip))
          else if internalFieldPath = ''status.phase'' then (st, Inr (phase_string (Phase (Status pod))))
          else (st, ExtractFieldPathAsString lib pod internalFieldPath))"

definition getEnvironmentVariableValueWithValueFromFieldRef ::
    "env_lib \<Rightarrow> string \<times> string \<Rightarrow> Pod \<Rightarrow> env_state \<Rightarrow> env_value" where
  "getEnvironmentVariableValueWithValueFromFieldRef lib vf pod st =
     (case podFieldSelectorRuntimeValue lib vf pod st of
        (st', Inl err) \<Rightarrow> (st', Inl err)
      | (st', Inr runtimeVal) \<Rightarrow> (st', Inr (Some runtimeVal)))"

definition getEnvironmentVariableValueWithValueFrom ::
    "env_lib \<Rightarrow> EnvVar \<Rightarrow> EnvVarSource \<Rightarrow> Pod \<Rightarrow> ResourceManager \<Rightarrow> env_state \<Rightarrow> env_value" where
  "getEnvironmentVariableValueWithValueFrom lib env vf pod rm st =
     (case ConfigMapKeyRef vf of
        Some r \<Rightarrow> getEnvironmentVariableValueWithValueFromConfigMapKeyRef lib env r pod rm st
      | None \<Rightarrow> (case SecretKeyRef vf of
          Some r \<Rightarrow> getEnvironmentVariableValueWithValueFromSecretKeyRef lib env r pod rm st
        | None \<Rightarrow> (case FieldRef vf of
            Some r \<Rightarrow> getEnvironmentVariableValueWithValueFromFieldRef lib r pod st
          | None \<Rightarrow> (st, Inr None))))"

definition getEnvironmentVariableValue ::
    "env_lib \<Rightarrow> EnvVar \<Rightarrow> (string \<Rightarrow> string) \<Rightarrow> Pod \<Rightarrow> ResourceManager \<Rightarrow> env_state \<Rightarrow> env_value outcome" where
  "getEnvironmentVariableValue lib env mappingFunc pod rm st =
     (case ValueFrom env of
        Some vf \<Rightarrow> Val (getEnvironmentVariableValueWithValueFrom lib env vf pod rm st)
      | None \<Rightarrow> obind (Expand (EnvValue env) mappingFunc) (\<lambda>v. Val (st, Inr (Some v))))"

text \<open>
  The mapping function holds the map \<open>res\<close> itself, not a copy: at each variable it sees the
  variables set before.
\<close>

fun envLoop ::
    "env_lib \<Rightarrow> Pod \<Rightarrow> EnvVar list \<Rightarrow> ResourceManager \<Rightarrow> string gomap \<Rightarrow> string gomap \<Rightarrow> env_state
      \<Rightarrow> (env_state \<times> string gomap result) outcome" where
  "envLoop lib pod [] rm svcEnv res st = Val (st, Inr res)"
| "envLoop lib pod (env # envs) rm svcEnv res st =
     obind (getEnvironmentVariableValue lib env (MappingFuncFor [go_get res, go_get svcEnv]) pod rm st)
       (\<lambda>(st', r). case r of
          Inl err \<Rightarrow> Val (st', Inl err)
        | Inr None \<Rightarrow> envLoop lib pod envs rm svcEnv res st'
        | Inr (Some val) \<Rightarrow> envLoop lib pod envs rm svcEnv (go_put (EnvName env) val res) st')"

fun appendServiceVars :: "(string \<times> string) list \<Rightarrow> string gomap \<Rightarrow> string gomap" where
  "appendServiceVars [] res = res"
| "appendServiceVars ((k, v) # svcEnv) res =
     appendServiceVars svcEnv (if go_get res k = None then go_put k v res else res)"

definition makeEnvironmentMap ::
    "env_lib \<Rightarrow> Pod \<Rightarrow> Container \<Rightarrow> ResourceManager \<Rightarrow> string gomap \<Rightarrow> env_state
      \<Rightarrow> (env_state \<times> string gomap result) outcome" where
  "makeEnvironmentMap lib pod container rm res st =
     (let enableServiceLinks =
            (case EnableServiceLinks (Spec pod) of None \<Rightarrow> DefaultEnableServiceLinks | Some b \<Rightarrow> b) in
      case getServiceEnvVarMap lib rm (Namespace (Meta pod)) enableServiceLinks of
        Inl err \<Rightarrow> Val (st, Inl err)
      | Inr svcEnv \<Rightarrow>
          obind (envLoop lib pod (Env container) rm svcEnv res st)
            (\<lambda>(st', r). case r of
               Inl err \<Rightarrow> Val (st', Inl err)
             | Inr res' \<Rightarrow> Val (st', Inr (appendServiceVars svcEnv res'))))"

subsection \<open>Containers and pods\<close>

definition literal_var :: "string \<times> string \<Rightarrow> EnvVar" where
  "literal_var kv = \<lparr>EnvName = fst kv, EnvValue = snd kv, ValueFrom = None\<rparr>"

definition populateContainerEnvironment ::
    "env_lib \<Rightarrow> Pod \<Rightarrow> Container \<Rightarrow> ResourceManager \<Rightarrow> env_state \<Rightarrow> (env_state \<times> Container result) outcome" where
  "populateContainerEnvironment lib pod container rm st =
     (case makeEnvironmentMapBasedOnEnvFrom lib pod container rm st of
        (st1, Inl err) \<Rightarrow> Val (st1, Inl err)
      | (st1, Inr tmpEnv) \<Rightarrow>
          obind (makeEnvironmentMap lib pod container rm tmpEnv st1)
            (\<lambda>(st2, r). case r of
               Inl err \<Rightarrow> Val (st2, Inl err)
             | Inr tmpEnv' \<Rightarrow> Val (st2, Inr (container\<lparr>EnvFrom := [], Env := map literal_var tmpEnv'\<rparr>))))"

fun populateInitContainers ::
    "env_lib \<Rightarrow> nat list \<Rightarrow> Pod \<Rightarrow> ResourceManager \<Rightarrow> env_state \<Rightarrow> (env_state \<times> Pod \<times> goerror option) outcome" where
  "populateInitContainers lib [] pod rm st = Val (st, pod, None)"
| "populateInitContainers lib (idx # idxs) pod rm st =
     obind (populateContainerEnvironment lib pod (InitContainers (Spec pod) ! idx) rm st)
       (\<lambda>(st', r). case r of
          Inl err \<Rightarrow> Val (st', pod, Some err)
        | Inr c \<Rightarrow> populateInitContainers lib idxs
            (pod\<lparr>Spec := (Spec pod)\<lparr>InitContainers := (InitContainers (Spec pod))[idx := c]\<rparr>\<rparr>) rm st')"

fun populateContainers ::
    "env_lib \<Rightarrow> nat list \<Rightarrow> Pod \<Rightarrow> ResourceManager \<Rightarrow> env_state \<Rightarrow> (env_state \<times> Pod \<times> goerror option) outcome" where
  "populateContainers lib [] pod rm st = Val (st, pod, None)"
| "populateContainers lib (idx # idxs) pod rm st =
     obind (populateContainerEnvironment lib pod (Containers (Spec pod) ! idx) rm st)
       (\<lambda>(st', r). case r of
          Inl err \<Rightarrow> Val (st', pod, Some err)
        | Inr c \<Rightarrow> populateContainers lib idxs
            (pod\<lparr>Spec := (Spec pod)\<lparr>Containers := (Containers (Spec pod))[idx := c]\<rparr>\<rparr>) rm st')"

text \<open>The pod is updated in place: an error leaves the containers before the failing one populated.\<close>

definition PopulateEnvironmentVariables ::
    "env_lib \<Rightarrow> Pod \<Rightarrow> ResourceManager \<Rightarrow> env_state \<Rightarrow> (env_state \<times> Pod \<times> goerror option) outcome" where
  "PopulateEnvironmentVariables lib pod rm st =
     obind (populateInitContainers lib [0..<length (InitContainers (Spec pod))] pod rm st)
       (\<lambda>(st', pod', err). if err \<noteq> None then Val (st', pod', err)
          else populateContainers lib [0..<length (Containers (Spec pod'))] pod' rm st')"

subsection \<open>Abstract specification: an environment built in layers\<close>

text \<open>One entry of \<open>.envFrom\<close>: the valid keys of the object, or nothing when an optional one is missing.\<close>

definition data_layer :: "env_lib \<Rightarrow> string \<Rightarrow> string gomap \<Rightarrow> string \<rightharpoonup> string" where
  "data_layer lib prefix data =
     map_of (filter (\<lambda>(k, v). IsEnvVarName lib k = []) (map (\<lambda>(k, v). (prefix @ k, v)) data))"

definition object_layer ::
    "env_lib \<Rightarrow> string \<Rightarrow> string \<Rightarrow> EnvFromRef \<Rightarrow> DataObject result \<Rightarrow> (string \<rightharpoonup> string) result" where
  "object_layer lib kind prefix ef obj =
     (case obj of
        Inr m \<Rightarrow> Inr (data_layer lib prefix (Data m))
      | Inl err \<Rightarrow> if is_optional (FromOptional ef) then Inr Map.empty
                  else Inl (ErrorString (if api_IsNotFound lib err then not_found_msg kind (FromName ef)
                         else ''failed to fetch '' @ kind @ '' '' @ fmt_q (FromName ef) @ '': '' @ Error err)))"

definition envFrom_layer :: "env_lib \<Rightarrow> ResourceManager \<Rightarrow> string \<Rightarrow> EnvFromSource \<Rightarrow> (string \<rightharpoonup> string) result" where
  "envFrom_layer lib rm ns envFrom =
     (case (ConfigMapRef envFrom, SecretRef envFrom) of
        (Some ef, _) \<Rightarrow> object_layer lib ''configmap'' (Prefix envFrom) ef (GetConfigMap rm (FromName ef) ns)
      | (None, Some ef) \<Rightarrow> object_layer lib ''secret'' (Prefix envFrom) ef (GetSecret rm (FromName ef) ns)
      | (None, None) \<Rightarrow> Inr Map.empty)"

fun envFrom_layers :: "env_lib \<Rightarrow> ResourceManager \<Rightarrow> string \<Rightarrow> EnvFromSource list \<Rightarrow> (string \<rightharpoonup> string) \<Rightarrow> (string \<rightharpoonup> string) result" where
  "envFrom_layers lib rm ns [] m = Inr m"
| "envFrom_layers lib rm ns (e # es) m =
     (case envFrom_layer lib rm ns e of Inl err \<Rightarrow> Inl err | Inr l \<Rightarrow> envFrom_layers lib rm ns es (m ++ l))"

text \<open>One entry of \<open>.env\<close>, with \<open>ip\<close> the address of the node and \<open>scope\<close> the variables it may refer to.\<close>

definition key_value :: "env_lib \<Rightarrow> string \<Rightarrow> KeySelector \<Rightarrow> string \<Rightarrow> DataObject result \<Rightarrow> string option result" where
  "key_value lib kind vf pod_name obj =
     (case obj of
        Inl err \<Rightarrow> if is_optional (RefOptional vf) then Inr None
          else Inl (ErrorString (if api_IsNotFound lib err then not_found_msg kind (RefName vf)
                 else failed_to_read_msg kind (RefName vf) @ '': '' @ Error err))
      | Inr m \<Rightarrow> (case go_get (Data m) (RefKey vf) of
          Some v \<Rightarrow> Inr (Some v)
        | None \<Rightarrow> if is_optional (RefOptional vf) then Inr None
            else Inl (ErrorString (doesnt_contain_msg kind (RefName vf) (RefKey vf) pod_name))))"

definition field_value :: "env_lib \<Rightarrow> string \<Rightarrow> Pod \<Rightarrow> string \<times> string \<Rightarrow> string result" where
  "field_value lib ip pod fs =
     (case ConvertDownwardAPIFieldLabel lib (fst fs) (snd fs) of
        Inl err \<Rightarrow> Inl err
      | Inr path \<Rightarrow>
          if path = ''spec.nodeName'' then Inr (NodeName (Spec pod))
          else if path = ''spec.serviceAccountName'' then Inr (ServiceAccountName (Spec pod))
          else if path \<in> {''status.hostIP'', ''status.podIP'', ''status.podIPs''} then Inr ip
          else if path = ''status.phase'' then Inr (phase_string (Phase (Status pod)))
          else ExtractFieldPathAsString lib pod path)"

definition var_value :: "env_lib \<Rightarrow> ResourceManager \<Rightarrow> string \<Rightarrow> Pod \<Rightarrow> (string \<rightharpoonup> string) list \<Rightarrow> EnvVar \<Rightarrow> string option result" where
  "var_value lib rm ip pod scope env =
     (case ValueFrom env of
        None \<Rightarrow> Inr (Some (expand_spec (MappingFuncFor scope) (EnvValue env)))
      | Some vf \<Rightarrow> (case (ConfigMapKeyRef vf, SecretKeyRef vf, FieldRef vf) of
          (Some r, _, _) \<Rightarrow> key_value lib ''configmap'' r (Name (Meta pod)) (GetConfigMap rm (RefName r) (Namespace (Meta pod)))
        | (None, Some r, _) \<Rightarrow> key_value lib ''secret'' r (Name (Meta pod)) (GetSecret rm (RefName r) (Namespace (Meta pod)))
        | (None, None, Some r) \<Rightarrow> map_sum id Some (field_value lib ip pod r)
        | (None, None, None) \<Rightarrow> Inr None))"

fun env_layers ::
    "env_lib \<Rightarrow> ResourceManager \<Rightarrow> string \<Rightarrow> Pod \<Rightarrow> (string \<rightharpoonup> string) \<Rightarrow> EnvVar list \<Rightarrow> (string \<rightharpoonup> string) \<Rightarrow> (string \<rightharpoonup> string) result" where
  "env_layers lib rm ip pod svc [] m = Inr m"
| "env_layers lib rm ip pod svc (e # es) m =
     (case var_value lib rm ip pod [m, svc] e of
        Inl err \<Rightarrow> Inl err
      | Inr None \<Rightarrow> env_layers lib rm ip pod svc es m
      | Inr (Some v) \<Rightarrow> env_layers lib rm ip pod svc es (m(EnvName e \<mapsto> v)))"

definition links_enabled :: "Pod \<Rightarrow> bool" where
  "links_enabled pod = (case EnableServiceLinks (Spec pod) of None \<Rightarrow> True | Some b \<Rightarrow> b)"

definition service_layer :: "env_lib \<Rightarrow> ResourceManager \<Rightarrow> Pod \<Rightarrow> (string \<rightharpoonup> string) result" where
  "service_layer lib rm pod = map_sum id go_get (getServiceEnvVarMap lib rm (Namespace (Meta pod)) (links_enabled pod))"

text \<open>Service variables at the bottom, \<open>.envFrom\<close> above them, \<open>.env\<close> on top.\<close>

definition container_env :: "env_lib \<Rightarrow> ResourceManager \<Rightarrow> string \<Rightarrow> Pod \<Rightarrow> Container \<Rightarrow> (string \<rightharpoonup> string) result" where
  "container_env lib rm ip pod c =
     (case envFrom_layers lib rm (Namespace (Meta pod)) (EnvFrom c) Map.empty of
        Inl err \<Rightarrow> Inl err
      | Inr m \<Rightarrow> (case service_layer lib rm pod of
          Inl err \<Rightarrow> Inl err
        | Inr svc \<Rightarrow> map_sum id (\<lambda>m'. svc ++ m') (env_layers lib rm ip pod svc (Env c) m)))"

definition node_address :: "env_lib \<Rightarrow> env_state \<Rightarrow> string" where
  "node_address lib st = (if nodeIp st = [] then Getenv lib ''VKUBELET_POD_IP'' else nodeIp st)"

definition env_map :: "Container \<Rightarrow> string \<rightharpoonup> string" where
  "env_map c = map_of (map (\<lambda>e. (EnvName e, EnvValue e)) (Env c))"

text \<open>A container whose environment is plain: no \<open>.envFrom\<close>, every name once, every value literal.\<close>

definition plain_env :: "Container \<Rightarrow> bool" where
  "plain_env c = (EnvFrom c = [] \<and> distinct (map EnvName (Env c)) \<and> list_all (\<lambda>e. ValueFrom e = None) (Env c))"

text \<open>The data of configmaps and secrets are Go maps: their keys are distinct.\<close>

definition data_keys_distinct :: "ResourceManager \<Rightarrow> bool" where
  "data_keys_distinct rm =
     ((\<forall>n ns m. GetConfigMap rm n ns = Inr m \<longrightarrow> distinct (map fst (Data m))) \<and>
      (\<forall>n ns m. GetSecret rm n ns = Inr m \<longrightarrow> distinct (map fst (Data m))))"

subsection \<open>The code implements the specification\<close>

lemma Eventf_nodeIp [simp]: "nodeIp (Eventf pod r m st) = nodeIp st"
  by (simp add: Eventf_def)

lemma node_address_Eventf [simp]: "node_address lib (Eventf pod r m st) = node_address lib st"
  by (simp add: node_address_def)

lemma node_address_report [simp]: "node_address lib (reportInvalidKeys pod k ks m st) = node_address lib st"
  by (simp add: reportInvalidKeys_def)

lemma GetNodeIPFromEnv_address:
  "GetNodeIPFromEnv lib st = (st', ip) \<Longrightarrow> ip = node_address lib st \<and> node_address lib st' = node_address lib st"
  by (auto simp: GetNodeIPFromEnv_def node_address_def Let_def split: if_splits)

lemma keysLoop_layer:
  assumes "distinct (map fst data)"
  shows "go_get (fst (keysLoop lib prefix data res bad)) = go_get res ++ data_layer lib prefix data"
  using assms
proof (induction data arbitrary: res bad)
  case Nil
  then show ?case by (simp add: data_layer_def)
next
  case (Cons kv data)
  obtain k v where kv: "kv = (k, v)" by (cases kv)
  have "prefix @ k \<notin> dom (data_layer lib prefix data)"
    using Cons.prems kv by (auto simp: data_layer_def dom_map_of_conv_image_fst intro: rev_image_eqI)
  then have "(go_get res)(prefix @ k \<mapsto> v) ++ data_layer lib prefix data =
      (go_get res ++ data_layer lib prefix data)(prefix @ k \<mapsto> v)"
    by (simp add: map_add_upd_left)
  moreover have "(if length prefix > 0 then prefix @ k else k) = prefix @ k"
    by simp
  moreover have "data_layer lib prefix (kv # data) =
      (if IsEnvVarName lib (prefix @ k) = [] then (data_layer lib prefix data)(prefix @ k \<mapsto> v) else data_layer lib prefix data)"
    by (simp add: data_layer_def kv del: fun_upd_apply)
  ultimately show ?case
    using Cons kv by (simp add: Let_def go_get_put del: fun_upd_apply)
qed

lemma keysLoop_distinct:
  "distinct (go_keys res) \<Longrightarrow> distinct (go_keys (fst (keysLoop lib prefix data res bad)))"
  by (induction lib prefix data res bad rule: keysLoop.induct) (simp_all add: Let_def go_keys_distinct_put)

text \<open>What one reference of \<open>.envFrom\<close> does to the map being built.\<close>

definition layered :: "env_lib \<Rightarrow> env_state \<Rightarrow> string gomap \<Rightarrow> env_state \<times> string gomap result \<Rightarrow> (string \<rightharpoonup> string) result \<Rightarrow> bool" where
  "layered lib st res step layer =
     (node_address lib (fst step) = node_address lib st \<and>
      (case snd step of
         Inl err \<Rightarrow> layer = Inl err
       | Inr res' \<Rightarrow> (distinct (go_keys res) \<longrightarrow> distinct (go_keys res')) \<and>
           (\<exists>l. layer = Inr l \<and> go_get res' = go_get res ++ l)))"

lemma envFromConfigMap_layered:
  assumes "data_keys_distinct rm"
  shows "layered lib st res (envFromConfigMap lib pod prefix ef rm res st)
    (object_layer lib ''configmap'' prefix ef (GetConfigMap rm (FromName ef) (Namespace (Meta pod))))"
proof (cases "GetConfigMap rm (FromName ef) (Namespace (Meta pod))")
  case (Inl err)
  then show ?thesis by (simp add: layered_def envFromConfigMap_def object_layer_def Let_def)
next
  case (Inr m)
  then have "distinct (map fst (Data m))" using assms by (simp add: data_keys_distinct_def)
  then show ?thesis
    using Inr keysLoop_layer [of "Data m" lib prefix res "[]"] keysLoop_distinct [of res lib prefix "Data m" "[]"]
    by (auto simp: layered_def envFromConfigMap_def object_layer_def Let_def split: prod.splits)
qed

lemma envFromSecret_layered:
  assumes "data_keys_distinct rm"
  shows "layered lib st res (envFromSecret lib pod prefix ef rm res st)
    (object_layer lib ''secret'' prefix ef (GetSecret rm (FromName ef) (Namespace (Meta pod))))"
proof (cases "GetSecret rm (FromName ef) (Namespace (Meta pod))")
  case (Inl err)
  then show ?thesis by (simp add: layered_def envFromSecret_def object_layer_def Let_def)
next
  case (Inr m)
  then have "distinct (map fst (Data m))" using assms by (simp add: data_keys_distinct_def)
  then show ?thesis
    using Inr keysLoop_layer [of "Data m" lib prefix res "[]"] keysLoop_distinct [of res lib prefix "Data m" "[]"]
    by (auto simp: layered_def envFromSecret_def object_layer_def Let_def split: prod.splits)
qed

lemma envFromStep_layered:
  assumes "data_keys_distinct rm"
  shows "layered lib st res (envFromStep lib pod e rm res st) (envFrom_layer lib rm (Namespace (Meta pod)) e)"
  by (cases "ConfigMapRef e"; cases "SecretRef e")
    (simp_all add: envFromStep_def envFrom_layer_def envFromConfigMap_layered envFromSecret_layered assms,
     simp add: layered_def)

text \<open>The whole \<open>.envFrom\<close> list.\<close>

lemma envFromLoop_layers:
  assumes "data_keys_distinct rm" and "distinct (go_keys res)"
  shows "\<exists>st' r. envFromLoop lib pod es rm res st = (st', r) \<and> node_address lib st' = node_address lib st \<and>
    map_sum id go_get r = envFrom_layers lib rm (Namespace (Meta pod)) es (go_get res) \<and>
    (\<forall>res'. r = Inr res' \<longrightarrow> distinct (go_keys res'))"
  using assms(2)
proof (induction es arbitrary: res st)
  case Nil
  then show ?case by simp
next
  case (Cons e es)
  obtain st1 r1 where step: "envFromStep lib pod e rm res st = (st1, r1)" by fastforce
  have l: "layered lib st res (st1, r1) (envFrom_layer lib rm (Namespace (Meta pod)) e)"
    using envFromStep_layered [OF assms(1), of lib st res pod e] step by simp
  show ?case
  proof (cases r1)
    case (Inl err)
    then show ?thesis using step l by (simp add: layered_def)
  next
    case (Inr res')
    then show ?thesis
      using step l Cons.IH [of res' st1] Cons.prems by (auto simp: layered_def)
  qed
qed

lemma configMapKeyRef_value:
  "getEnvironmentVariableValueWithValueFromConfigMapKeyRef lib env vf pod rm st = (st', r) \<Longrightarrow>
    node_address lib st' = node_address lib st \<and>
    r = key_value lib ''configmap'' vf (Name (Meta pod)) (GetConfigMap rm (RefName vf) (Namespace (Meta pod)))"
  by (auto simp: getEnvironmentVariableValueWithValueFromConfigMapKeyRef_def key_value_def Let_def
      split: sum.splits option.splits if_splits)

lemma secretKeyRef_value:
  "getEnvironmentVariableValueWithValueFromSecretKeyRef lib env vf pod rm st = (st', r) \<Longrightarrow>
    node_address lib st' = node_address lib st \<and>
    r = key_value lib ''secret'' vf (Name (Meta pod)) (GetSecret rm (RefName vf) (Namespace (Meta pod)))"
  by (auto simp: getEnvironmentVariableValueWithValueFromSecretKeyRef_def key_value_def Let_def
      split: sum.splits option.splits if_splits)

lemma fieldRef_value:
  assumes "getEnvironmentVariableValueWithValueFromFieldRef lib vf pod st = (st', r)"
  shows "node_address lib st' = node_address lib st \<and>
    r = map_sum id Some (field_value lib (node_address lib st) pod vf)"
proof -
  obtain s ip where ip: "GetNodeIPFromEnv lib st = (s, ip)" by fastforce
  have p: "node_address lib (fst (podFieldSelectorRuntimeValue lib vf pod st)) = node_address lib st \<and>
      snd (podFieldSelectorRuntimeValue lib vf pod st) = field_value lib (node_address lib st) pod vf"
    using GetNodeIPFromEnv_address [OF ip]
    by (simp add: podFieldSelectorRuntimeValue_def field_value_def ip split: sum.split)
  then show ?thesis
    using assms
    by (cases "podFieldSelectorRuntimeValue lib vf pod st")
      (auto simp: getEnvironmentVariableValueWithValueFromFieldRef_def split: sum.splits)
qed

lemma variable_value:
  "\<exists>st' r. getEnvironmentVariableValue lib env (MappingFuncFor scope) pod rm st = Val (st', r) \<and>
    node_address lib st' = node_address lib st \<and> r = var_value lib rm (node_address lib st) pod scope env"
proof (cases "ValueFrom env")
  case None
  then show ?thesis by (simp add: getEnvironmentVariableValue_def var_value_def Expand_eq)
next
  case (Some vf)
  then show ?thesis
    by (cases "getEnvironmentVariableValueWithValueFrom lib env vf pod rm st")
      (auto simp: getEnvironmentVariableValue_def getEnvironmentVariableValueWithValueFrom_def var_value_def
        split: option.splits dest: configMapKeyRef_value secretKeyRef_value fieldRef_value)
qed

lemma envLoop_layers:
  assumes "distinct (go_keys res)"
  shows "\<exists>st' r. envLoop lib pod es rm svc res st = Val (st', r) \<and> node_address lib st' = node_address lib st \<and>
    map_sum id go_get r = env_layers lib rm (node_address lib st) pod (go_get svc) es (go_get res) \<and>
    (\<forall>res'. r = Inr res' \<longrightarrow> distinct (go_keys res'))"
  using assms
proof (induction es arbitrary: res st)
  case Nil
  then show ?case by simp
next
  case (Cons e es)
  obtain st1 r1 where step: "getEnvironmentVariableValue lib e (MappingFuncFor [go_get res, go_get svc]) pod rm st = Val (st1, r1)"
      "node_address lib st1 = node_address lib st"
      "r1 = var_value lib rm (node_address lib st) pod [go_get res, go_get svc] e"
    using variable_value [of lib e "[go_get res, go_get svc]" pod rm st] by blast
  consider err where "r1 = Inl err" | "r1 = Inr None" | v where "r1 = Inr (Some v)"
    by (metis old.sum.exhaust option.exhaust)
  then show ?case
  proof cases
    case 1
    then show ?thesis using step(1,2) by (simp add: step(3) [symmetric])
  next
    case 2
    then show ?thesis using step(1,2) Cons.IH [of res st1] Cons.prems by (simp add: step(3) [symmetric])
  next
    case (3 v)
    then show ?thesis
      using step(1,2) Cons.IH [of "go_put (EnvName e) v res" st1] Cons.prems
      by (simp add: step(3) [symmetric] go_keys_distinct_put go_get_put del: fun_upd_apply)
  qed
qed

lemma appendServiceVars_under:
  "distinct (go_keys svc) \<Longrightarrow> go_get (appendServiceVars svc res) = go_get svc ++ go_get res"
proof (induction svc res rule: appendServiceVars.induct)
  case (1 res)
  then show ?case by simp
next
  case (2 k v svc res)
  have "go_get svc k = None" using 2(2) by (simp add: go_keys_def map_of_eq_None_iff)
  then show ?case using 2 by (auto simp: go_keys_def go_get_put map_add_def fun_eq_iff split: option.splits)
qed

lemma appendServiceVars_distinct:
  "distinct (go_keys res) \<Longrightarrow> distinct (go_keys (appendServiceVars svc res))"
  by (induction svc res rule: appendServiceVars.induct) (simp_all add: go_keys_distinct_put)

lemma putAll_distinct: "distinct (go_keys m) \<Longrightarrow> distinct (go_keys (putAll es m))"
  by (induction es m rule: putAll.induct) (simp_all add: go_keys_distinct_put)

lemma getServiceEnvVarMap_distinct:
  "getServiceEnvVarMap lib rm ns b = Inr svc \<Longrightarrow> distinct (go_keys svc)"
  by (auto simp: getServiceEnvVarMap_def Let_def go_keys_def split: sum.splits
      intro: putAll_distinct [unfolded go_keys_def])

lemma makeEnvironmentMap_links:
  "makeEnvironmentMap lib pod c rm res st =
     (case getServiceEnvVarMap lib rm (Namespace (Meta pod)) (links_enabled pod) of
        Inl err \<Rightarrow> Val (st, Inl err)
      | Inr svcEnv \<Rightarrow>
          obind (envLoop lib pod (Env c) rm svcEnv res st)
            (\<lambda>(st', r). Val (st', map_sum id (appendServiceVars svcEnv) r)))"
  unfolding makeEnvironmentMap_def links_enabled_def DefaultEnableServiceLinks_def Let_def
  by (cases "getServiceEnvVarMap lib rm (Namespace (Meta pod)) (case EnableServiceLinks (Spec pod) of None \<Rightarrow> True | Some b \<Rightarrow> b)";
      simp; cases "envLoop lib pod (Env c) rm (projr (getServiceEnvVarMap lib rm (Namespace (Meta pod))
        (case EnableServiceLinks (Spec pod) of None \<Rightarrow> True | Some b \<Rightarrow> b))) res st"; simp split: prod.split sum.split)

lemma makeEnvironmentMap_layers:
  assumes "distinct (go_keys res)"
  shows "\<exists>st' r. makeEnvironmentMap lib pod c rm res st = Val (st', r) \<and> node_address lib st' = node_address lib st \<and>
    map_sum id go_get r = (case service_layer lib rm pod of
        Inl err \<Rightarrow> Inl err
      | Inr svc \<Rightarrow> map_sum id (\<lambda>m. svc ++ m) (env_layers lib rm (node_address lib st) pod svc (Env c) (go_get res))) \<and>
    (\<forall>res'. r = Inr res' \<longrightarrow> distinct (go_keys res'))"
proof (cases "getServiceEnvVarMap lib rm (Namespace (Meta pod)) (links_enabled pod)")
  case (Inl err)
  then show ?thesis
    by (simp add: makeEnvironmentMap_links service_layer_def)
next
  case (Inr svc)
  obtain st1 r1 where loop: "envLoop lib pod (Env c) rm svc res st = Val (st1, r1)" "node_address lib st1 = node_address lib st"
      "map_sum id go_get r1 = env_layers lib rm (node_address lib st) pod (go_get svc) (Env c) (go_get res)"
      "\<forall>res'. r1 = Inr res' \<longrightarrow> distinct (go_keys res')"
    using envLoop_layers [OF assms, of lib pod "Env c" rm svc st] by blast
  then show ?thesis
    using Inr getServiceEnvVarMap_distinct [OF Inr]
    by (cases r1)
      (auto simp: makeEnvironmentMap_links service_layer_def appendServiceVars_under appendServiceVars_distinct loop(3) [symmetric])
qed

lemma literal_env:
  "env_map (c\<lparr>EnvFrom := [], Env := map literal_var m\<rparr>) = go_get m"
  "distinct (go_keys m) \<Longrightarrow> plain_env (c\<lparr>EnvFrom := [], Env := map literal_var m\<rparr>)"
  by (simp_all add: env_map_def plain_env_def literal_var_def go_keys_def comp_def list_all_iff)

lemma populate_container:
  assumes "data_keys_distinct rm"
  shows "\<exists>st' r. populateContainerEnvironment lib pod c rm st = Val (st', r) \<and> node_address lib st' = node_address lib st \<and>
    map_sum id env_map r = container_env lib rm (node_address lib st) pod c \<and>
    (\<forall>c'. r = Inr c' \<longrightarrow> plain_env c' \<and> c' = c\<lparr>EnvFrom := EnvFrom c', Env := Env c'\<rparr>)"
proof -
  obtain st1 r1 where from_: "makeEnvironmentMapBasedOnEnvFrom lib pod c rm st = (st1, r1)"
      "node_address lib st1 = node_address lib st"
      "map_sum id go_get r1 = envFrom_layers lib rm (Namespace (Meta pod)) (EnvFrom c) Map.empty"
      "\<forall>res'. r1 = Inr res' \<longrightarrow> distinct (go_keys res')"
    using envFromLoop_layers [OF assms, of "[]" lib pod "EnvFrom c" st]
    by (auto simp: makeEnvironmentMapBasedOnEnvFrom_def go_keys_def)
  show ?thesis
  proof (cases r1)
    case (Inl err)
    then show ?thesis
      using from_ by (simp add: populateContainerEnvironment_def container_env_def from_(3) [symmetric])
  next
    case (Inr tmp)
    then have d: "distinct (go_keys tmp)" using from_(4) by simp
    obtain st2 r2 where mk: "makeEnvironmentMap lib pod c rm tmp st1 = Val (st2, r2)"
        "node_address lib st2 = node_address lib st1"
        "map_sum id go_get r2 = (case service_layer lib rm pod of Inl err \<Rightarrow> Inl err
          | Inr svc \<Rightarrow> map_sum id (\<lambda>m. svc ++ m) (env_layers lib rm (node_address lib st1) pod svc (Env c) (go_get tmp)))"
        "\<forall>res'. r2 = Inr res' \<longrightarrow> distinct (go_keys res')"
      using makeEnvironmentMap_layers [OF d, of lib pod c rm st1] by blast
    have "container_env lib rm (node_address lib st) pod c = map_sum id go_get r2"
      using Inr by (simp add: container_env_def from_(3) [symmetric] mk(3) [unfolded from_(2)])
    then show ?thesis
      using from_ mk Inr by (cases r2) (simp_all add: populateContainerEnvironment_def literal_env)
  qed
qed

subsection \<open>Pods\<close>

text \<open>A container with its environment resolved, everything else kept.\<close>

definition resolved :: "Container \<Rightarrow> Container \<Rightarrow> bool" where
  "resolved c c' = (plain_env c' \<and> c' = c\<lparr>EnvFrom := EnvFrom c', Env := Env c'\<rparr>)"

definition resolved_or_same :: "Container \<Rightarrow> Container \<Rightarrow> bool" where
  "resolved_or_same c c' = (c' = c \<or> resolved c c')"

lemma resolved_or_same_refl: "list_all2 resolved_or_same cs cs"
  by (simp add: list_all2_refl resolved_or_same_def)

lemma nat_range_step: "i < n \<Longrightarrow> [i..<n] = i # [Suc i..<n]"
  by (rule upt_conv_Cons)

text \<open>The two loops over the containers have the same shape; \<open>get\<close> and \<open>put\<close> select the list they work on.\<close>

definition populates ::
    "(Pod \<Rightarrow> Container list) \<Rightarrow> (Container list \<Rightarrow> Pod \<Rightarrow> Pod) \<Rightarrow> Pod \<Rightarrow> nat \<Rightarrow> (env_state \<times> Pod \<times> goerror option) outcome \<Rightarrow> bool" where
  "populates get put pod i out =
     (\<exists>st' cs' err. out = Val (st', put cs' pod, err) \<and> length cs' = length (get pod) \<and> take i cs' = take i (get pod) \<and>
        list_all2 resolved_or_same (get pod) cs' \<and>
        (err = None \<longrightarrow> list_all2 resolved (drop i (get pod)) (drop i cs')))"

lemma populates_step:
  assumes "resolved (get pod ! i) c" and "i < length (get pod)"
    and gp: "\<And>cs p. get (put cs p) = cs" and pp: "\<And>cs cs' p. put cs (put cs' p) = put cs p"
    and out: "populates get put (put ((get pod)[i := c]) pod) (Suc i) out"
  shows "populates get put pod i out"
proof -
  obtain st' cs' err where o: "out = Val (st', put cs' pod, err)" "length cs' = length (get pod)"
      "take (Suc i) cs' = take (Suc i) ((get pod)[i := c])" "list_all2 resolved_or_same ((get pod)[i := c]) cs'"
      "err = None \<longrightarrow> list_all2 resolved (drop (Suc i) ((get pod)[i := c])) (drop (Suc i) cs')"
    using out by (auto simp: populates_def gp pp)
  have nth: "cs' ! i = c"
    using o(3) assms(2) by (metis lessI nth_list_update_eq nth_take)
  have "take i cs' = take i (get pod)"
    using arg_cong [OF o(3), of "take i"] by (simp add: min_def)
  moreover have "list_all2 resolved_or_same (get pod) cs'"
    unfolding list_all2_conv_all_nth
  proof (intro conjI allI impI)
    show "length (get pod) = length cs'" using o(2) by simp
    fix j assume "j < length (get pod)"
    then show "resolved_or_same (get pod ! j) (cs' ! j)"
      using list_all2_nthD2 [OF o(4), of j] nth assms(1) o(2)
      by (cases "j = i") (simp_all add: resolved_or_same_def)
  qed
  moreover have "err = None \<longrightarrow> list_all2 resolved (drop i (get pod)) (drop i cs')"
    using o(2,5) nth assms(1,2) by (simp add: drop_eq_nth_Cons)
  ultimately show ?thesis
    using o(1,2) by (auto simp: populates_def)
qed

lemma populates_stop:
  assumes "\<And>p. put (get p) p = p" and "err = None \<longrightarrow> length (get pod) \<le> i"
  shows "populates get put pod i (Val (st, pod, err))"
  unfolding populates_def
  by (intro exI [of _ st] exI [of _ "get pod"] exI [of _ err])
    (use assms in \<open>simp add: resolved_or_same_refl\<close>)

abbreviation put_containers :: "Container list \<Rightarrow> Pod \<Rightarrow> Pod" where
  "put_containers cs p \<equiv> p\<lparr>Spec := (Spec p)\<lparr>Containers := cs\<rparr>\<rparr>"

abbreviation put_init_containers :: "Container list \<Rightarrow> Pod \<Rightarrow> Pod" where
  "put_init_containers cs p \<equiv> p\<lparr>Spec := (Spec p)\<lparr>InitContainers := cs\<rparr>\<rparr>"

lemma populateContainers_populates:
  assumes "data_keys_distinct rm" and "n = length (Containers (Spec pod))" and "i \<le> n"
  shows "populates (\<lambda>p. Containers (Spec p)) put_containers pod i (populateContainers lib [i..<n] pod rm st)"
  using assms(2,3)
proof (induction "n - i" arbitrary: i pod st)
  case 0
  then show ?case by (simp add: populates_stop)
next
  case (Suc k)
  let ?c = "Containers (Spec pod) ! i"
  obtain st1 r1 where c: "populateContainerEnvironment lib pod ?c rm st = Val (st1, r1)"
      "\<forall>c'. r1 = Inr c' \<longrightarrow> resolved ?c c'"
    using populate_container [OF assms(1), of lib pod ?c st] unfolding resolved_def by blast
  have i: "i < n" using Suc.hyps(2) by simp
  show ?case
  proof (cases r1)
    case (Inl err)
    then show ?thesis using c i by (simp add: nat_range_step populates_stop del: upt_Suc)
  next
    case (Inr c')
    have rest: "populates (\<lambda>p. Containers (Spec p)) put_containers (put_containers ((Containers (Spec pod))[i := c']) pod) (Suc i)
        (populateContainers lib [Suc i..<n] (put_containers ((Containers (Spec pod))[i := c']) pod) rm st1)"
      using Suc i by (intro Suc.hyps) simp_all
    have "populates (\<lambda>p. Containers (Spec p)) put_containers pod i
        (populateContainers lib [Suc i..<n] (put_containers ((Containers (Spec pod))[i := c']) pod) rm st1)"
      by (rule populates_step [OF _ _ _ _ rest]) (use c(2) Inr i Suc.prems in simp_all)
    then show ?thesis
      using c(1) i Inr by (simp add: nat_range_step del: upt_Suc)
  qed
qed

lemma populateInitContainers_populates:
  assumes "data_keys_distinct rm" and "n = length (InitContainers (Spec pod))" and "i \<le> n"
  shows "populates (\<lambda>p. InitContainers (Spec p)) put_init_containers pod i (populateInitContainers lib [i..<n] pod rm st)"
  using assms(2,3)
proof (induction "n - i" arbitrary: i pod st)
  case 0
  then show ?case by (simp add: populates_stop)
next
  case (Suc k)
  let ?c = "InitContainers (Spec pod) ! i"
  obtain st1 r1 where c: "populateContainerEnvironment lib pod ?c rm st = Val (st1, r1)"
      "\<forall>c'. r1 = Inr c' \<longrightarrow> resolved ?c c'"
    using populate_container [OF assms(1), of lib pod ?c st] unfolding resolved_def by blast
  have i: "i < n" using Suc.hyps(2) by simp
  show ?case
  proof (cases r1)
    case (Inl err)
    then show ?thesis using c i by (simp add: nat_range_step populates_stop del: upt_Suc)
  next
    case (Inr c')
    have rest: "populates (\<lambda>p. InitContainers (Spec p)) put_init_containers (put_init_containers ((InitContainers (Spec pod))[i := c']) pod) (Suc i)
        (populateInitContainers lib [Suc i..<n] (put_init_containers ((InitContainers (Spec pod))[i := c']) pod) rm st1)"
      using Suc i by (intro Suc.hyps) simp_all
    have "populates (\<lambda>p. InitContainers (Spec p)) put_init_containers pod i
        (populateInitContainers lib [Suc i..<n] (put_init_containers ((InitContainers (Spec pod))[i := c']) pod) rm st1)"
      by (rule populates_step [OF _ _ _ _ rest]) (use c(2) Inr i Suc.prems in simp_all)
    then show ?thesis
      using c(1) i Inr by (simp add: nat_range_step del: upt_Suc)
  qed
qed

subsection \<open>Properties\<close>

text \<open>
  C7: Populating a container's environment never panics and implements the layered specification:
  it fails with exactly the error of the specification or gives a plain environment (no \<open>.envFrom\<close>,
  distinct names, literal values) that is the specified map: service variables overridden by
  \<open>.envFrom\<close>, overridden by \<open>.env\<close>, whose values are expanded against the variables set before.
  Only \<open>.env\<close> and \<open>.envFrom\<close> of the container change.
\<close>

theorem populate_refines_container_env:
  assumes "data_keys_distinct rm"
  shows "\<exists>st' r. populateContainerEnvironment lib pod c rm st = Val (st', r) \<and>
    map_sum id env_map r = container_env lib rm (node_address lib st) pod c \<and>
    (\<forall>c'. r = Inr c' \<longrightarrow> plain_env c' \<and> c' = c\<lparr>EnvFrom := EnvFrom c', Env := Env c'\<rparr>)"
  using populate_container [OF assms, of lib pod c st] by blast

definition sample_lib :: env_lib where
  "sample_lib = \<lparr>IsEnvVarName = (\<lambda>k. if k = [] then [''empty''] else []), IsServiceIPSet = (\<lambda>s. ClusterIP s \<noteq> []),
     FromServices = map (\<lambda>s. (ServiceName s @ ''_HOST'', ClusterIP s)),
     ConvertDownwardAPIFieldLabel = (\<lambda>v p. Inr p), ExtractFieldPathAsString = (\<lambda>p f. Inl (ErrorString ''no such field'')),
     api_IsNotFound = (\<lambda>e. True), Getenv = (\<lambda>n. ''10.0.0.1'')\<rparr>"

definition sample_rm :: ResourceManager where
  "sample_rm = \<lparr>podListerList = Inr [], podListerGet = (\<lambda>ns n. Inl (ErrorString ''none'')),
     secretListerGet = (\<lambda>ns n. Inl (ErrorString ''none'')),
     configMapListerGet = (\<lambda>ns n. if n = ''cm'' then Inr \<lparr>DataNamespace = ns, DataName = n, Data = [(''A'', ''1''), (''B'', ''2'')], StringData = []\<rparr>
        else Inl (ErrorString ''none'')),
     serviceListerList = Inr [\<lparr>ServiceName = ''db'', ServiceNamespace = ''n'', ClusterIP = ''10.0.0.9''\<rparr>]\<rparr>"

definition sample_container :: Container where
  "sample_container = emptyContainer\<lparr>
     EnvFrom := [\<lparr>Prefix = [], ConfigMapRef = Some \<lparr>FromName = ''cm'', FromOptional = None\<rparr>, SecretRef = None\<rparr>],
     Env := [literal_var (''A'', ''x$(B)''), literal_var (''C'', ''$(db_HOST)'')]\<rparr>"

lemma sample_rm_distinct: "data_keys_distinct sample_rm"
  by (simp add: data_keys_distinct_def sample_rm_def GetConfigMap_def GetSecret_def)

theorem populate_refines_container_env_witness:
  "data_keys_distinct sample_rm \<and>
   (\<exists>st' r. populateContainerEnvironment sample_lib (named_pod ''n'' ''p'') sample_container sample_rm \<lparr>recorded = [], nodeIp = []\<rparr> = Val (st', r) \<and>
     map_sum id env_map r = container_env sample_lib sample_rm (node_address sample_lib \<lparr>recorded = [], nodeIp = []\<rparr>) (named_pod ''n'' ''p'') sample_container \<and>
     (\<forall>c'. r = Inr c' \<longrightarrow> plain_env c' \<and> c' = sample_container\<lparr>EnvFrom := EnvFrom c', Env := Env c'\<rparr>))"
  using populate_refines_container_env [OF sample_rm_distinct] sample_rm_distinct by blast

text \<open>The specification on the example: \<open>.env\<close> wins over \<open>.envFrom\<close> and sees it and the services.\<close>

lemma sample_container_env:
  "populateContainerEnvironment sample_lib (named_pod ''n'' ''p'') sample_container sample_rm \<lparr>recorded = [], nodeIp = []\<rparr> =
    Val (\<lparr>recorded = [], nodeIp = []\<rparr>, Inr (sample_container\<lparr>EnvFrom := [], Env :=
      map literal_var [(''A'', ''x2''), (''B'', ''2''), (''C'', ''10.0.0.9''), (''db_HOST'', ''10.0.0.9'')]\<rparr>))"
  by code_simp

definition mandatory_unreadable :: "ResourceManager \<Rightarrow> string \<Rightarrow> EnvFromSource \<Rightarrow> bool" where
  "mandatory_unreadable rm ns e =
     (case (ConfigMapRef e, SecretRef e) of
        (Some ef, _) \<Rightarrow> \<not> is_optional (FromOptional ef) \<and> isl (GetConfigMap rm (FromName ef) ns)
      | (None, Some ef) \<Rightarrow> \<not> is_optional (FromOptional ef) \<and> isl (GetSecret rm (FromName ef) ns)
      | (None, None) \<Rightarrow> False)"

lemma envFromStep_isl:
  "isl (snd (envFromStep lib pod e rm res st)) \<longleftrightarrow> mandatory_unreadable rm (Namespace (Meta pod)) e"
  by (auto simp: envFromStep_def mandatory_unreadable_def envFromConfigMap_def envFromSecret_def Let_def
      split: option.splits sum.splits prod.splits)

lemma envFromLoop_isl:
  "isl (snd (envFromLoop lib pod es rm res st)) \<longleftrightarrow> (\<exists>e\<in>set es. mandatory_unreadable rm (Namespace (Meta pod)) e)"
proof (induction es arbitrary: res st)
  case (Cons e es)
  show ?case
    using Cons envFromStep_isl [of lib pod e rm res st] by (auto split: prod.splits sum.splits)
qed simp

text \<open>
  Building the \<open>.envFrom\<close> map fails if and only if some entry refers to a configmap or secret that
  cannot be read and is not marked optional. (A configmap reference hides a secret reference of the
  same entry.)
\<close>

theorem envFrom_fails_iff_mandatory_unreadable:
  "isl (snd (makeEnvironmentMapBasedOnEnvFrom lib pod c rm st)) \<longleftrightarrow>
    (\<exists>e\<in>set (EnvFrom c). mandatory_unreadable rm (Namespace (Meta pod)) e)"
  by (simp add: makeEnvironmentMapBasedOnEnvFrom_def envFromLoop_isl)

text \<open>
  Populating a pod never panics. Whatever happens every container keeps everything but its
  environment, and a container is either untouched or has a plain environment; when no error is
  returned, every init container and every container has a plain environment, and nothing else of the
  pod has changed.
\<close>

theorem PopulateEnvironmentVariables_resolves:
  assumes "data_keys_distinct rm"
  shows "\<exists>st' ics cs err. PopulateEnvironmentVariables lib pod rm st =
      Val (st', pod\<lparr>Spec := (Spec pod)\<lparr>InitContainers := ics, Containers := cs\<rparr>\<rparr>, err) \<and>
    list_all2 resolved_or_same (InitContainers (Spec pod)) ics \<and> list_all2 resolved_or_same (Containers (Spec pod)) cs \<and>
    (err = None \<longrightarrow> list_all2 resolved (InitContainers (Spec pod)) ics \<and> list_all2 resolved (Containers (Spec pod)) cs)"
proof -
  obtain st1 ics err1 where i: "populateInitContainers lib [0..<length (InitContainers (Spec pod))] pod rm st =
      Val (st1, put_init_containers ics pod, err1)" "list_all2 resolved_or_same (InitContainers (Spec pod)) ics"
      "err1 = None \<longrightarrow> list_all2 resolved (InitContainers (Spec pod)) ics"
    using populateInitContainers_populates [OF assms refl, of 0 pod lib st] by (auto simp: populates_def)
  let ?pod1 = "put_init_containers ics pod"
  obtain st2 cs err2 where c: "populateContainers lib [0..<length (Containers (Spec ?pod1))] ?pod1 rm st1 =
      Val (st2, put_containers cs ?pod1, err2)" "list_all2 resolved_or_same (Containers (Spec ?pod1)) cs"
      "err2 = None \<longrightarrow> list_all2 resolved (Containers (Spec ?pod1)) cs"
    using populateContainers_populates [OF assms refl, of 0 ?pod1 lib st1] by (auto simp: populates_def)
  show ?thesis
  proof (cases err1)
    case None
    then show ?thesis using i c by (auto simp: PopulateEnvironmentVariables_def)
  next
    case (Some e)
    then show ?thesis
      using i
      by (intro exI [of _ st1] exI [of _ ics] exI [of _ "Containers (Spec pod)"] exI [of _ err1])
        (simp add: PopulateEnvironmentVariables_def resolved_or_same_refl)
  qed
qed

theorem PopulateEnvironmentVariables_resolves_witness:
  "let pod = (named_pod ''n'' ''p'')\<lparr>Spec := emptySpec\<lparr>Containers := [sample_container]\<rparr>\<rparr> in
   \<exists>st' ics cs err. PopulateEnvironmentVariables sample_lib pod sample_rm \<lparr>recorded = [], nodeIp = []\<rparr> =
      Val (st', pod\<lparr>Spec := (Spec pod)\<lparr>InitContainers := ics, Containers := cs\<rparr>\<rparr>, err) \<and>
    list_all2 resolved_or_same (InitContainers (Spec pod)) ics \<and> list_all2 resolved_or_same (Containers (Spec pod)) cs \<and>
    (err = None \<longrightarrow> list_all2 resolved (InitContainers (Spec pod)) ics \<and> list_all2 resolved (Containers (Spec pod)) cs)"
  unfolding Let_def by (rule PopulateEnvironmentVariables_resolves [OF sample_rm_distinct])

end
