(* ===== verification/Work_Queue.thy ===== *)
theory Work_Queue
  imports Errdefs
begin

text \<open>
  The work queue (\<open>src/internal/queue/queue.go\<close>): a wrapper around client-go's rate limiting
  \<open>workqueue\<close>, which is not part of the repository and is a parameter: a record of its operations
  over a state type. The laws of it that the wrapper relies on (how the requeue counter moves) are
  the locale \<open>retry_queue\<close>; inside it the retry bound is proved for every such queue.
  \<open>fifo_workqueue\<close> is a concrete queue that satisfies the laws.
\<close>

record 'q workqueue =
  AddRateLimited :: "string \<Rightarrow> 'q \<Rightarrow> 'q"
  Add :: "string \<Rightarrow> 'q \<Rightarrow> 'q"
  AddAfter :: "string \<Rightarrow> int \<Rightarrow> 'q \<Rightarrow> 'q"
  ForgetItem :: "string \<Rightarrow> 'q \<Rightarrow> 'q"
  DoneItem :: "string \<Rightarrow> 'q \<Rightarrow> 'q"
  NumRequeues :: "'q \<Rightarrow> string \<Rightarrow> nat"
  Len :: "'q \<Rightarrow> nat"
  GetItem :: "'q \<Rightarrow> (string \<times> 'q) option"  \<comment> \<open>\<open>None\<close>: the queue is shut down\<close>
  ShutDown :: "'q \<Rightarrow> 'q"

definition MaxRetries :: nat where "MaxRetries = 20"

type_synonym 's ItemHandler = "string \<Rightarrow> 's \<Rightarrow> 's \<times> goerror option"

record 'q Queue =
  lock_held :: bool
  running :: bool
  queue_name :: string
  workqueue :: 'q

definition New :: "'q \<Rightarrow> string \<Rightarrow> 'q Queue" where
  "New wq_state name = \<lparr>lock_held = False, running = False, queue_name = name, workqueue = wq_state\<rparr>"

subsection \<open>The enqueueing operations\<close>

definition Enqueue :: "'q workqueue \<Rightarrow> string \<Rightarrow> 'q \<Rightarrow> 'q" where
  "Enqueue wq key q = AddRateLimited wq key q"

definition EnqueueWithoutRateLimit :: "'q workqueue \<Rightarrow> string \<Rightarrow> 'q \<Rightarrow> 'q" where
  "EnqueueWithoutRateLimit wq key q = Add wq key q"

definition Forget :: "'q workqueue \<Rightarrow> string \<Rightarrow> 'q \<Rightarrow> 'q" where
  "Forget wq key q = ForgetItem wq key q"

definition EnqueueAfter :: "'q workqueue \<Rightarrow> string \<Rightarrow> int \<Rightarrow> 'q \<Rightarrow> 'q" where
  "EnqueueAfter wq key after q = AddAfter wq key after q"

definition Empty :: "'q workqueue \<Rightarrow> 'q \<Rightarrow> bool" where
  "Empty wq q = (Len wq q = 0)"

subsection \<open>Handling\<close>

definition forgetting_msg :: "string \<Rightarrow> string" where
  "forgetting_msg key = ''forgetting '' @ fmt_q key @ '' due to maximum retries reached''"

text \<open>The deferred \<open>Done\<close> runs after the branch's \<open>AddRateLimited\<close> or \<open>Forget\<close>.\<close>

definition handleQueueItemObject ::
    "'q workqueue \<Rightarrow> 's ItemHandler \<Rightarrow> string \<Rightarrow> 'q \<Rightarrow> 's \<Rightarrow> 'q \<times> 's \<times> goerror option" where
  "handleQueueItemObject wq handler key q s =
     (let (s', err) = handler key s in
      case err of
        Some e \<Rightarrow>
          if NumRequeues wq q key < MaxRetries
          then (DoneItem wq key (AddRateLimited wq key q), s', None)
          else (DoneItem wq key (ForgetItem wq key q), s', Some (WithMessage (forgetting_msg key) e))
      | None \<Rightarrow> (DoneItem wq key (ForgetItem wq key q), s', None))"

text \<open>The result \<open>False\<close> stops the worker: only a shut down queue gives it.\<close>

definition handleQueueItem ::
    "'q workqueue \<Rightarrow> 's ItemHandler \<Rightarrow> 'q \<Rightarrow> 's \<Rightarrow> 'q \<times> 's \<times> bool" where
  "handleQueueItem wq handler q s =
     (case GetItem wq q of
        None \<Rightarrow> (q, s, False)
      | Some (key, q1) \<Rightarrow>
          let (q2, s2, err) = handleQueueItemObject wq handler key q1 s in (q2, s2, True))"

text \<open>\<open>for q.handleQueueItem(ctx) { }\<close>, with the number of rounds bounded by fuel.\<close>

fun worker :: "nat \<Rightarrow> 'q workqueue \<Rightarrow> 's ItemHandler \<Rightarrow> 'q \<Rightarrow> 's \<Rightarrow> ('q \<times> 's) option" where
  "worker 0 wq handler q s = None"
| "worker (Suc fuel) wq handler q s =
     (let (q1, s1, again) = handleQueueItem wq handler q s in
      if again then worker fuel wq handler q1 s1 else Some (q1, s1))"

text \<open>
  \<open>Run\<close> up to the start of its workers, and what its deferred function and its last line do. A second
  \<open>Run\<close> takes the lock, panics and never releases it.
\<close>

definition Run_begin :: "int \<Rightarrow> 'q Queue \<Rightarrow> 'q Queue \<times> unit outcome" where
  "Run_begin workers qu =
     (if workers \<le> 0 then (qu, Panic ''Workers must be greater than 0'')
      else let locked = qu\<lparr>lock_held := True\<rparr> in
        if running locked then (locked, Panic ''Queue is already running'')
        else (locked\<lparr>running := True, lock_held := False\<rparr>, Val ()))"

definition Run_end :: "'q workqueue \<Rightarrow> 'q Queue \<Rightarrow> 'q Queue" where
  "Run_end wq qu = qu\<lparr>workqueue := ShutDown wq (workqueue qu), running := False\<rparr>"

subsection \<open>Repeated handling of one key\<close>

fun handle_times :: "'q workqueue \<Rightarrow> 's ItemHandler \<Rightarrow> string \<Rightarrow> nat \<Rightarrow> 'q \<Rightarrow> 's
    \<Rightarrow> 'q \<times> 's \<times> goerror option list" where
  "handle_times wq handler key 0 q s = (q, s, [])"
| "handle_times wq handler key (Suc n) q s =
     (let (q1, s1, r) = handleQueueItemObject wq handler key q s;
          (q2, s2, rs) = handle_times wq handler key n q1 s1
      in (q2, s2, r # rs))"

subsection \<open>The contract of the rate limiting queue\<close>

locale retry_queue =
  fixes wq :: "'q workqueue"
  assumes num_rate_limited:
      "NumRequeues wq (AddRateLimited wq k q) k' = (if k' = k then Suc (NumRequeues wq q k') else NumRequeues wq q k')"
    and num_forget: "NumRequeues wq (ForgetItem wq k q) k' = (if k' = k then 0 else NumRequeues wq q k')"
    and num_done: "NumRequeues wq (DoneItem wq k q) k' = NumRequeues wq q k'"
begin

lemmas num_simps = num_rate_limited num_forget num_done

lemma handle_other_keys:
  "k' \<noteq> k \<Longrightarrow> handleQueueItemObject wq h k q s = (q', s', r) \<Longrightarrow> NumRequeues wq q' k' = NumRequeues wq q k'"
  by (auto simp: handleQueueItemObject_def num_simps split: prod.splits option.splits if_splits)

lemma handle_success:
  "h k s = (s', None) \<Longrightarrow>
    \<exists>q'. handleQueueItemObject wq h k q s = (q', s', None) \<and> NumRequeues wq q' k = 0"
  by (simp add: handleQueueItemObject_def num_simps)

lemma handle_failure:
  assumes "h k s = (s', Some e)"
  shows "\<exists>q'. handleQueueItemObject wq h k q s =
      (q', s', if NumRequeues wq q k < MaxRetries then None else Some (WithMessage (forgetting_msg k) e))
    \<and> NumRequeues wq q' k = (if NumRequeues wq q k < MaxRetries then Suc (NumRequeues wq q k) else 0)"
  using assms by (simp add: handleQueueItemObject_def num_simps)

lemma always_failing:
  assumes fails: "\<And>s. \<exists>s' e. h k s = (s', Some e)"
  shows "NumRequeues wq q k \<le> MaxRetries \<Longrightarrow> MaxRetries - NumRequeues wq q k = n \<Longrightarrow>
    \<exists>q' s' e. handle_times wq h k (Suc n) q s = (q', s', replicate n None @ [Some (WithMessage (forgetting_msg k) e)])
      \<and> NumRequeues wq q' k = 0"
proof (induction n arbitrary: q s)
  case 0
  obtain s1 e where h: "h k s = (s1, Some e)" using fails by blast
  from handle_failure [where h = h and k = k and s = s and q = q, OF h] 0 show ?case by auto
next
  case (Suc n)
  obtain s1 e where h: "h k s = (s1, Some e)" using fails by blast
  from handle_failure [where h = h and k = k and s = s and q = q, OF h] Suc.prems obtain q1 where
    one: "handleQueueItemObject wq h k q s = (q1, s1, None)" "NumRequeues wq q1 k = Suc (NumRequeues wq q k)"
    by auto
  with Suc.prems have "NumRequeues wq q1 k \<le> MaxRetries" "MaxRetries - NumRequeues wq q1 k = n" by auto
  from Suc.IH [OF this, of s1] one(1) show ?case by (auto simp del: handle_times.simps simp: handle_times.simps(2) [of wq h k "Suc n"])
qed

end

subsection \<open>A concrete queue\<close>

text \<open>
  Items in the order they were added, an item not added twice; a requeue counter per item; a shut
  down queue takes nothing new, gives out what it holds and then ends its workers.
\<close>

record fifo =
  items :: "string list"
  requeues :: "(string \<times> nat) list"
  delayed :: "(string \<times> int) list"
  stopped :: bool

definition fifo_put :: "string \<Rightarrow> fifo \<Rightarrow> fifo" where
  "fifo_put k q = (if stopped q \<or> k \<in> set (items q) then q else q\<lparr>items := items q @ [k]\<rparr>)"

definition fifo_count :: "fifo \<Rightarrow> string \<Rightarrow> nat" where
  "fifo_count q k = (case map_of (requeues q) k of Some n \<Rightarrow> n | None \<Rightarrow> 0)"

definition fifo_workqueue :: "fifo workqueue" where
  "fifo_workqueue =
     \<lparr>AddRateLimited = (\<lambda>k q. fifo_put k (q\<lparr>requeues := AList.update k (Suc (fifo_count q k)) (requeues q)\<rparr>)),
      Add = fifo_put,
      AddAfter = (\<lambda>k d q. if d \<le> 0 \<or> stopped q then fifo_put k q else q\<lparr>delayed := delayed q @ [(k, d)]\<rparr>),
      ForgetItem = (\<lambda>k q. q\<lparr>requeues := AList.delete k (requeues q)\<rparr>),
      DoneItem = (\<lambda>k q. q),
      NumRequeues = fifo_count,
      Len = (\<lambda>q. length (items q)),
      GetItem = (\<lambda>q. case items q of [] \<Rightarrow> None | k # ks \<Rightarrow> Some (k, q\<lparr>items := ks\<rparr>)),
      ShutDown = (\<lambda>q. q\<lparr>stopped := True\<rparr>)\<rparr>"

definition fifo_empty :: fifo where
  "fifo_empty = \<lparr>items = [], requeues = [], delayed = [], stopped = False\<rparr>"

lemma fifo_count_put [simp]: "fifo_count (fifo_put k q) k' = fifo_count q k'"
  by (simp add: fifo_put_def fifo_count_def)

interpretation fifo_q: retry_queue fifo_workqueue
  by unfold_locales
    (auto simp: fifo_workqueue_def fifo_count_def fifo_put_def AList.update_conv' AList.delete_conv')

subsection \<open>Properties\<close>

text \<open>
  C29: the retry bound. For every rate limiting queue that keeps its requeue counters as documented, a
  key whose handler always fails is handled \<open>MaxRetries - r + 1\<close> times, \<open>r\<close> being its counter at the
  start: every run but the last asks for another one and reports nothing, the last run forgets the
  key, reports the wrapped error and leaves the counter at zero.
\<close>

theorem failing_key_forgotten_after_max_retries:
  assumes "retry_queue wq"
    and "\<And>s. \<exists>s' e. h k s = (s', Some e)"
    and "NumRequeues wq q k \<le> MaxRetries"
  shows "\<exists>q' s' e. handle_times wq h k (Suc (MaxRetries - NumRequeues wq q k)) q s =
      (q', s', replicate (MaxRetries - NumRequeues wq q k) None @ [Some (WithMessage (forgetting_msg k) e)])
    \<and> NumRequeues wq q' k = 0"
  using retry_queue.always_failing [where h = h and k = k, OF assms(1,2,3) refl] by blast

theorem failing_key_forgotten_witness:
  "\<exists>q' s' e. handle_times fifo_workqueue (\<lambda>k s. (Suc s, Some (ErrorString ''boom''))) ''ns/p'' 20
      (AddRateLimited fifo_workqueue ''ns/p'' fifo_empty) (0::nat) =
      (q', s', replicate 19 None @ [Some (WithMessage (forgetting_msg ''ns/p'') e)])
    \<and> NumRequeues fifo_workqueue q' ''ns/p'' = 0"
proof -
  let ?q = "AddRateLimited fifo_workqueue ''ns/p'' fifo_empty"
  have n: "NumRequeues fifo_workqueue ?q ''ns/p'' = 1"
    by (simp add: fifo_workqueue_def fifo_count_def fifo_put_def fifo_empty_def)
  show ?thesis
    using failing_key_forgotten_after_max_retries [where h = "\<lambda>k s. (Suc s, Some (ErrorString ''boom''))"
        and k = "''ns/p''" and q = ?q and s = "0::nat", OF fifo_q.retry_queue_axioms]
    unfolding n MaxRetries_def by (simp del: handle_times.simps)
qed

text \<open>
  handling one key moves no other key's requeue counter, and a success resets the key's own
  counter to zero without reporting an error.
\<close>

theorem handling_is_local_to_key:
  assumes "retry_queue wq" and "handleQueueItemObject wq h k q s = (q', s', r)"
  shows "(k' \<noteq> k \<longrightarrow> NumRequeues wq q' k' = NumRequeues wq q k')
    \<and> (snd (h k s) = None \<longrightarrow> r = None \<and> NumRequeues wq q' k = 0)"
proof (intro conjI impI)
  assume "k' \<noteq> k"
  then show "NumRequeues wq q' k' = NumRequeues wq q k'"
    using retry_queue.handle_other_keys [OF assms(1) _ assms(2)] by blast
next
  assume "snd (h k s) = None"
  then have "h k s = (fst (h k s), None)" by (metis prod.collapse)
  from retry_queue.handle_success [where h = h and k = k and s = s, OF assms(1) this, of q] assms(2)
  show "r = None" "NumRequeues wq q' k = 0" by auto
qed

theorem handling_is_local_witness:
  "NumRequeues fifo_workqueue
     (fst (handleQueueItemObject fifo_workqueue (\<lambda>k s::nat. (s, None)) ''a'' (AddRateLimited fifo_workqueue ''b'' fifo_empty) 0))
     ''b'' = 1"
proof -
  let ?q = "AddRateLimited fifo_workqueue ''b'' fifo_empty"
  obtain q' s' r where h: "handleQueueItemObject fifo_workqueue (\<lambda>k s::nat. (s, None)) ''a'' ?q 0 = (q', s', r)"
    by (metis prod_cases3)
  have "NumRequeues fifo_workqueue q' ''b'' = NumRequeues fifo_workqueue ?q ''b''"
    using handling_is_local_to_key [OF fifo_q.retry_queue_axioms h, of "''b''"] by simp
  moreover have "NumRequeues fifo_workqueue ?q ''b'' = 1"
    by (simp add: fifo_workqueue_def fifo_count_def fifo_put_def fifo_empty_def)
  ultimately show ?thesis using h by simp
qed

text \<open>
  A second \<open>Run\<close> of a running queue panics between \<open>Lock\<close> and \<open>Unlock\<close>: the mutex stays locked, so the
  deferred function of the first run, which takes the same lock, can never proceed.
\<close>

lemma second_Run_leaves_lock_held:
  "0 < workers \<Longrightarrow> running qu \<Longrightarrow>
    lock_held (fst (Run_begin workers qu)) \<and> \<not> no_panic (snd (Run_begin workers qu))"
  by (simp add: Run_begin_def Let_def)

lemma Run_begin_end:
  "0 < workers \<Longrightarrow> \<not> running qu \<Longrightarrow>
    running (fst (Run_begin workers qu)) \<and> \<not> running (Run_end wq (fst (Run_begin workers qu)))"
  by (simp add: Run_begin_def Run_end_def Let_def)

end
