(* ===== verification/Provider.thy ===== *)
theory Provider
  imports K8s_Types
begin

text \<open>
  The interface between the pod controller and a provider (\<open>PodLifecycleHandler\<close> and \<open>PodNotifier\<close> of
  \<open>src/node/podcontroller.go\<close>). The record holds the methods as functions of the provider's state;
  an operation that changes the state also returns the pods it passed to the notify callback, in
  order. The locale \<open>pod_provider\<close> is the contract the controller relies on: what the provider knows
  (\<open>view\<close>, by the provider's own key) and how each operation changes it.
\<close>

type_synonym 'p provider_result = "('p \<times> Pod list \<times> goerror option) outcome"

record 'p PodLifecycleHandler =
  CreatePod :: "int \<Rightarrow> Pod \<Rightarrow> 'p \<Rightarrow> 'p provider_result"   \<comment> \<open>the first argument is the time of the call\<close>
  UpdatePod :: "int \<Rightarrow> Pod \<Rightarrow> 'p \<Rightarrow> 'p provider_result"
  DeletePod :: "int \<Rightarrow> Pod \<Rightarrow> 'p \<Rightarrow> 'p provider_result"
  GetPod :: "string \<Rightarrow> string \<Rightarrow> 'p \<Rightarrow> (Pod option \<times> goerror option) outcome"
  GetPodStatus :: "string \<Rightarrow> string \<Rightarrow> 'p \<Rightarrow> (PodStatus option \<times> goerror option) outcome"
  GetPods :: "'p \<Rightarrow> Pod list result"
  deletePodKey :: "(string \<Rightarrow> 'p \<Rightarrow> 'p) option"   \<comment> \<open>\<open>_deletePodKey\<close>, when the provider is a \<open>syncWrapper\<close>\<close>

locale pod_provider =
  fixes ops :: "'p PodLifecycleHandler"
    and key :: "string \<Rightarrow> string \<Rightarrow> string"
    and view :: "'p \<Rightarrow> string \<Rightarrow> Pod option"
    and ok :: "'p \<Rightarrow> bool"
  assumes view_key: "ok p \<Longrightarrow> view p k = Some pod \<Longrightarrow> k = key (Namespace (Meta pod)) (Name (Meta pod))"
    and pods_view: "ok p \<Longrightarrow> GetPods ops p = Inr ps \<Longrightarrow> set ps = ran (view p)"
    and get_view: "ok p \<Longrightarrow> \<exists>err. GetPod ops ns n p = Val (view p (key ns n), err) \<and>
      (view p (key ns n) \<noteq> None \<longrightarrow> err = None)"
    and create_view: "ok p \<Longrightarrow> CreatePod ops now pod p = Val (p', notes, err) \<Longrightarrow>
      ok p' \<and> (\<forall>k. k \<noteq> key (Namespace (Meta pod)) (Name (Meta pod)) \<longrightarrow> view p' k = view p k) \<and>
      (err = None \<longrightarrow> view p' (key (Namespace (Meta pod)) (Name (Meta pod))) \<noteq> None)"
    and update_view: "ok p \<Longrightarrow> UpdatePod ops now pod p = Val (p', notes, err) \<Longrightarrow>
      ok p' \<and> (\<forall>k. k \<noteq> key (Namespace (Meta pod)) (Name (Meta pod)) \<longrightarrow> view p' k = view p k) \<and>
      (err = None \<longrightarrow> view p' (key (Namespace (Meta pod)) (Name (Meta pod))) = Some pod)"
    and delete_view: "ok p \<Longrightarrow> DeletePod ops now pod p = Val (p', notes, err) \<Longrightarrow>
      ok p' \<and> (\<forall>k. k \<noteq> key (Namespace (Meta pod)) (Name (Meta pod)) \<longrightarrow> view p' k = view p k) \<and>
      (err = None \<or> IsNotFound err \<longrightarrow> view p' (key (Namespace (Meta pod)) (Name (Meta pod))) = None)"
begin

lemma get_known: "ok p \<Longrightarrow> GetPod ops ns n p = Val (pod, err) \<Longrightarrow> pod = view p (key ns n)"
  using get_view [of p ns n] by auto

lemma get_total: "ok p \<Longrightarrow> no_panic (GetPod ops ns n p)"
  using get_view [of p ns n] by auto

end

end
