(* ===== verification/Mock_Provider.thy ===== *)
theory Mock_Provider
  imports Provider
begin

text \<open>
  The in-memory provider (\<open>src/cmd/virtual-kubelet/internal/provider/mock/mock.go\<close>). Its pods are a Go
  map from \<open>buildKey\<close>; the callback is nil until \<open>NotifyPods\<close> sets it, and calling a nil function
  panics. \<open>mock_pods\<close> interprets the provider contract for it.
\<close>

record MockConfig =
  CPU :: string
  Memory :: string
  Pods :: string

record MockProvider =
  nodeName :: string
  operatingSystem :: string
  internalIP :: string
  daemonEndpointPort :: int
  pods :: "Pod gomap"
  config :: MockConfig
  startTime :: int
  notifier_set :: bool

definition defaultCPUCapacity :: string where "defaultCPUCapacity = ''20''"
definition defaultMemoryCapacity :: string where "defaultMemoryCapacity = ''100Gi''"
definition defaultPodCapacity :: string where "defaultPodCapacity = ''20''"

definition set_defaults :: "MockConfig \<Rightarrow> MockConfig" where
  "set_defaults c =
     (let c1 = (if CPU c = [] then c\<lparr>CPU := defaultCPUCapacity\<rparr> else c);
          c2 = (if Memory c1 = [] then c1\<lparr>Memory := defaultMemoryCapacity\<rparr> else c1)
      in if Pods c2 = [] then c2\<lparr>Pods := defaultPodCapacity\<rparr> else c2)"

definition NewMockProviderMockConfig ::
    "MockConfig \<Rightarrow> string \<Rightarrow> string \<Rightarrow> string \<Rightarrow> int \<Rightarrow> int \<Rightarrow> MockProvider result" where
  "NewMockProviderMockConfig cfg node os ip port now =
     Inr \<lparr>nodeName = node, operatingSystem = os, internalIP = ip, daemonEndpointPort = port, pods = [],
       config = set_defaults cfg, startTime = now, notifier_set = False\<rparr>"

text \<open>\<open>ParseQuantity\<close> is apimachinery's: whether a string is a quantity is a parameter.\<close>

definition loadConfig :: "(string \<Rightarrow> bool) \<Rightarrow> MockConfig result" where
  "loadConfig parses =
     (let c = set_defaults \<lparr>CPU = [], Memory = [], Pods = []\<rparr> in
      if \<not> parses (CPU c) then Inl (ErrorString (''Invalid CPU value '' @ CPU c))
      else if \<not> parses (Memory c) then Inl (ErrorString (''Invalid memory value '' @ Memory c))
      else if \<not> parses (Pods c) then Inl (ErrorString (''Invalid pods value '' @ Pods c))
      else Inr c)"

definition NewMockProvider ::
    "(string \<Rightarrow> bool) \<Rightarrow> string \<Rightarrow> string \<Rightarrow> string \<Rightarrow> int \<Rightarrow> int \<Rightarrow> MockProvider result" where
  "NewMockProvider parses node os ip port now =
     (case loadConfig parses of
        Inl err \<Rightarrow> Inl err
      | Inr cfg \<Rightarrow> NewMockProviderMockConfig cfg node os ip port now)"

subsection \<open>Keys\<close>

definition buildKeyFromNames :: "string \<Rightarrow> string \<Rightarrow> string" where
  "buildKeyFromNames namespace name = namespace @ ''-'' @ name"

definition buildKey :: "Pod \<Rightarrow> string result" where
  "buildKey pod =
     (if Namespace (Meta pod) = [] then Inl (ErrorString ''pod namespace not found'')
      else if Name (Meta pod) = [] then Inl (ErrorString ''pod name not found'')
      else Inr (buildKeyFromNames (Namespace (Meta pod)) (Name (Meta pod))))"

subsection \<open>Lifecycle\<close>

definition NotifyPods :: "MockProvider \<Rightarrow> MockProvider" where
  "NotifyPods p = p\<lparr>notifier_set := True\<rparr>"

definition call_notifier :: "MockProvider \<Rightarrow> Pod \<Rightarrow> MockProvider provider_result" where
  "call_notifier p pod = (if notifier_set p then Val (p, [pod], None) else Panic nil_deref)"

definition running_status :: "int \<Rightarrow> Container \<Rightarrow> ContainerStatus" where
  "running_status now c = \<lparr>StatusName = ContainerName c, State = emptyState\<lparr>Running := Some now\<rparr>,
     LastTerminationState = emptyState, Ready = True, RestartCount = 0, StatusImage = Image c, ImageID = [],
     ContainerID = [], Started = None\<rparr>"

definition condition :: "string \<Rightarrow> PodCondition" where
  "condition ty = \<lparr>CondType = ty, CondStatus = ''True''\<rparr>"

definition created_status :: "int \<Rightarrow> Pod \<Rightarrow> PodStatus" where
  "created_status now pod = emptyStatus\<lparr>Phase := PodRunning, HostIP := ''1.2.3.4'', PodIP := ''5.6.7.8'',
     StartTime := Some now, Conditions := [condition ''Initialized'', condition ''Ready'', condition ''PodScheduled''],
     ContainerStatuses := map (running_status now) (Containers (Spec pod))\<rparr>"

definition created_pod :: "int \<Rightarrow> Pod \<Rightarrow> Pod" where
  "created_pod now pod = pod\<lparr>Status := created_status now pod\<rparr>"

definition mock_CreatePod :: "int \<Rightarrow> Pod \<Rightarrow> MockProvider \<Rightarrow> MockProvider provider_result" where
  "mock_CreatePod now pod0 p =
     (case buildKey pod0 of
        Inl err \<Rightarrow> Val (p, [], Some err)
      | Inr k \<Rightarrow>
          let pod = created_pod now pod0
          in call_notifier (p\<lparr>pods := go_put k pod (pods p)\<rparr>) pod)"

definition mock_UpdatePod :: "int \<Rightarrow> Pod \<Rightarrow> MockProvider \<Rightarrow> MockProvider provider_result" where
  "mock_UpdatePod now pod p =
     (case buildKey pod of
        Inl err \<Rightarrow> Val (p, [], Some err)
      | Inr k \<Rightarrow> call_notifier (p\<lparr>pods := go_put k pod (pods p)\<rparr>) pod)"

text \<open>The loop over the statuses reads \<open>State.Running.StartedAt\<close> before it overwrites \<open>State\<close>.\<close>

definition terminated_state :: "int \<Rightarrow> int \<Rightarrow> ContainerState" where
  "terminated_state now started = emptyState\<lparr>Terminated := Some \<lparr>ExitCode = 0, TermReason = ''MockProviderPodContainerDeleted'',
     TermMessage = ''Mock provider terminated container upon deletion'', TermStartedAt = started, TermFinishedAt = now,
     TermContainerID = []\<rparr>\<rparr>"

fun terminateStatuses :: "int \<Rightarrow> ContainerStatus list \<Rightarrow> ContainerStatus list outcome" where
  "terminateStatuses now [] = Val []"
| "terminateStatuses now (cs # css) =
     obind (deref (Running (State cs))) (\<lambda>started.
     obind (terminateStatuses now css) (\<lambda>css'.
       Val (cs\<lparr>Ready := False, State := terminated_state now started\<rparr> # css')))"

definition mock_DeletePod :: "int \<Rightarrow> Pod \<Rightarrow> MockProvider \<Rightarrow> MockProvider provider_result" where
  "mock_DeletePod now pod p =
     (case buildKey pod of
        Inl err \<Rightarrow> Val (p, [], Some err)
      | Inr k \<Rightarrow>
          if go_get (pods p) k = None then Val (p, [], Some (NotFound ''pod not found''))
          else obind (terminateStatuses now (ContainerStatuses (Status pod))) (\<lambda>css.
            call_notifier (p\<lparr>pods := AList.delete k (pods p)\<rparr>)
              (pod\<lparr>Status := (Status pod)\<lparr>Phase := PodSucceeded, Reason := ''MockProviderPodDeleted'', ContainerStatuses := css\<rparr>\<rparr>)))"

definition mock_GetPod :: "string \<Rightarrow> string \<Rightarrow> MockProvider \<Rightarrow> (Pod option \<times> goerror option) outcome" where
  "mock_GetPod namespace name p =
     (case go_get (pods p) (buildKeyFromNames namespace name) of
        Some pod \<Rightarrow> Val (Some pod, None)
      | None \<Rightarrow> Val (None, Some (NotFoundf (''pod '' @ fmt_q (namespace @ ''/'' @ name) @ '' is not known to the provider''))))"

definition mock_GetPodStatus :: "string \<Rightarrow> string \<Rightarrow> MockProvider \<Rightarrow> (PodStatus option \<times> goerror option) outcome" where
  "mock_GetPodStatus namespace name p =
     obind (mock_GetPod namespace name p) (\<lambda>(pod, err).
       case err of Some e \<Rightarrow> Val (None, Some e) | None \<Rightarrow> obind (deref pod) (\<lambda>pd. Val (Some (Status pd), None)))"

definition mock_GetPods :: "MockProvider \<Rightarrow> Pod list result" where
  "mock_GetPods p = Inr (map snd (pods p))"

definition mock_handler :: "MockProvider PodLifecycleHandler" where
  "mock_handler = \<lparr>CreatePod = mock_CreatePod, UpdatePod = mock_UpdatePod, DeletePod = mock_DeletePod,
     GetPod = mock_GetPod, GetPodStatus = mock_GetPodStatus, GetPods = mock_GetPods, deletePodKey = None\<rparr>"

subsection \<open>Stats\<close>

text \<open>
  \<open>GetStatsSummary\<close>: the random usage values are a parameter, one pair of 32-bit numbers per
  container in the order they are drawn; the totals are 64-bit sums.
\<close>

record ContainerUsage =
  UsageName :: string
  UsageNanoCores :: nat
  UsageBytes :: nat

record PodUsage =
  UsagePod :: "string \<times> string \<times> string"
  UsageContainers :: "ContainerUsage list"
  TotalNanoCores :: nat
  TotalBytes :: nat

fun containerUsage :: "Container list \<Rightarrow> (nat \<times> nat) list \<Rightarrow> ContainerUsage list \<times> (nat \<times> nat) list" where
  "containerUsage [] rs = ([], rs)"
| "containerUsage (c # cs) rs =
     (let (r, rs') = (case rs of [] \<Rightarrow> ((0, 0), []) | x # xs \<Rightarrow> (x, xs));
          (us, rest) = containerUsage cs rs'
      in (\<lparr>UsageName = ContainerName c, UsageNanoCores = fst r mod 2 ^ 32, UsageBytes = snd r mod 2 ^ 32\<rparr> # us, rest))"

fun sum_uint64 :: "nat \<Rightarrow> nat list \<Rightarrow> nat" where
  "sum_uint64 acc [] = acc"
| "sum_uint64 acc (u # us) = sum_uint64 ((acc + u) mod 2 ^ 64) us"

definition podUsage :: "Pod \<Rightarrow> (nat \<times> nat) list \<Rightarrow> PodUsage \<times> (nat \<times> nat) list" where
  "podUsage pod rs =
     (let (us, rest) = containerUsage (Containers (Spec pod)) rs in
      (\<lparr>UsagePod = (Name (Meta pod), Namespace (Meta pod), UID (Meta pod)), UsageContainers = us,
        TotalNanoCores = sum_uint64 0 (map UsageNanoCores us), TotalBytes = sum_uint64 0 (map UsageBytes us)\<rparr>, rest))"

fun mock_GetStatsSummary :: "Pod list \<Rightarrow> (nat \<times> nat) list \<Rightarrow> PodUsage list" where
  "mock_GetStatsSummary [] rs = []"
| "mock_GetStatsSummary (pod # ps) rs = (let (u, rest) = podUsage pod rs in u # mock_GetStatsSummary ps rest)"

subsection \<open>The provider contract\<close>

definition mock_view :: "MockProvider \<Rightarrow> string \<Rightarrow> Pod option" where
  "mock_view p k = go_get (pods p) k"

definition mock_ok :: "MockProvider \<Rightarrow> bool" where
  "mock_ok p = (distinct (go_keys (pods p)) \<and>
     (\<forall>(k, pod) \<in> set (pods p). buildKey pod = Inr k))"

lemma buildKey_Inr: "buildKey pod = Inr k \<Longrightarrow> k = buildKeyFromNames (Namespace (Meta pod)) (Name (Meta pod))"
  by (simp add: buildKey_def split: if_splits)

lemma buildKey_Inl: "buildKey pod = Inl e \<Longrightarrow> \<not> IsNotFound (Some e)"
  by (auto simp: buildKey_def split: if_splits)

lemma buildKey_created [simp]: "buildKey (created_pod t pod) = buildKey pod"
  by (simp add: buildKey_def created_pod_def)

lemma call_notifier_Val: "call_notifier p pod = Val r \<longleftrightarrow> notifier_set p \<and> r = (p, [pod], None)"
  by (auto simp: call_notifier_def)

lemma set_go_put: "set (go_put k v m) \<subseteq> insert (k, v) (set m)"
  by (induction m) auto

lemma mock_ok_put:
  "mock_ok p \<Longrightarrow> buildKey pod = Inr k \<Longrightarrow>
    mock_ok (p\<lparr>pods := go_put k pod (pods p)\<rparr>)"
  using set_go_put [of k pod "pods p"] by (auto simp: mock_ok_def go_keys_distinct_put)

lemma mock_ok_delete: "mock_ok p \<Longrightarrow> mock_ok (p\<lparr>pods := AList.delete k (pods p)\<rparr>)"
  using AList.distinct_delete [of "pods p" k] by (auto simp: mock_ok_def go_keys_def AList.delete_eq)

lemmas mock_ops = mock_CreatePod_def mock_UpdatePod_def mock_DeletePod_def mock_GetPod_def

interpretation mock_pods: pod_provider mock_handler buildKeyFromNames mock_view mock_ok
proof
  show "k = buildKeyFromNames (Namespace (Meta pod)) (Name (Meta pod))" if "mock_ok p" "mock_view p k = Some pod" for p k pod
    using that map_of_SomeD [of "pods p" k pod] by (auto simp: mock_ok_def mock_view_def dest!: buildKey_Inr)
next
  show "set ps = ran (mock_view p)" if "mock_ok p" "GetPods mock_handler p = Inr ps" for p ps
  proof -
    have "mock_view p = go_get (pods p)" by (simp add: mock_view_def fun_eq_iff)
    moreover have "ps = map snd (pods p)" using that by (simp add: mock_handler_def mock_GetPods_def)
    ultimately show ?thesis using that by (simp add: mock_ok_def go_keys_def ran_distinct)
  qed
next
  show "\<exists>err. GetPod mock_handler ns n p = Val (mock_view p (buildKeyFromNames ns n), err) \<and>
      (mock_view p (buildKeyFromNames ns n) \<noteq> None \<longrightarrow> err = None)" for p ns n
    by (cases "go_get (pods p) (buildKeyFromNames ns n)") (simp_all add: mock_handler_def mock_GetPod_def mock_view_def)
next
  fix p p' :: MockProvider and now and pod :: Pod and ns :: "Pod list" and err
  assume ok: "mock_ok p"
  let ?k = "buildKeyFromNames (Namespace (Meta pod)) (Name (Meta pod))"
  show "mock_ok p' \<and> (\<forall>k. k \<noteq> ?k \<longrightarrow> mock_view p' k = mock_view p k) \<and> (err = None \<longrightarrow> mock_view p' ?k \<noteq> None)"
    if "CreatePod mock_handler now pod p = Val (p', ns, err)"
    using that ok mock_ok_put [OF ok, of pod] mock_ok_put [OF ok, of "created_pod now pod"]
    by (auto simp: mock_handler_def mock_ops call_notifier_Val mock_view_def go_get_put Let_def
        split: sum.splits dest: buildKey_Inr)
  show "mock_ok p' \<and> (\<forall>k. k \<noteq> ?k \<longrightarrow> mock_view p' k = mock_view p k) \<and> (err = None \<longrightarrow> mock_view p' ?k = Some pod)"
    if "UpdatePod mock_handler now pod p = Val (p', ns, err)"
    using that ok mock_ok_put [OF ok, of pod] mock_ok_put [OF ok, of "created_pod now pod"]
    by (auto simp: mock_handler_def mock_ops call_notifier_Val mock_view_def go_get_put Let_def
        split: sum.splits dest: buildKey_Inr)
  show "mock_ok p' \<and> (\<forall>k. k \<noteq> ?k \<longrightarrow> mock_view p' k = mock_view p k) \<and>
      (err = None \<or> IsNotFound err \<longrightarrow> mock_view p' ?k = None)"
    if "DeletePod mock_handler now pod p = Val (p', ns, err)"
    using that ok mock_ok_delete
    by (auto simp: mock_handler_def mock_ops call_notifier_Val mock_view_def AList.delete_conv'
        split: sum.splits if_splits dest: buildKey_Inr buildKey_Inl)
qed

subsection \<open>Properties\<close>

lemma terminateStatuses_running:
  "terminateStatuses now (map (running_status t) cs) =
    Val (map (\<lambda>c. (running_status t c)\<lparr>Ready := False, State := terminated_state now t\<rparr>) cs)"
  by (induction cs) (simp_all add: running_status_def)

lemma terminateStatuses_no_panic:
  "no_panic (terminateStatuses now css) \<longleftrightarrow> list_all (\<lambda>cs. Running (State cs) \<noteq> None) css"
proof (induction css)
  case (Cons cs css)
  then show ?case
    by (cases "Running (State cs)"; cases "terminateStatuses now css") (simp_all add: no_panic_iff)
qed simp

text \<open>
  The life of a pod in the mock provider: once the callback is set, creating a pod with a namespace
  and a name stores it running and notifies it, \<open>GetPod\<close> then returns it, and deleting what
  \<open>GetPod\<close> returned removes it and notifies a terminal pod: phase Succeeded, every container
  terminated with the time it had been started. Afterwards \<open>GetPod\<close> fails with a NotFound error.
\<close>

theorem mock_pod_lifecycle:
  assumes "notifier_set p" and "Namespace (Meta pod) \<noteq> []" and "Name (Meta pod) \<noteq> []"
  shows "\<exists>p1 p2 terminal err.
    mock_CreatePod t pod p = Val (p1, [created_pod t pod], None) \<and>
    mock_GetPod (Namespace (Meta pod)) (Name (Meta pod)) p1 = Val (Some (created_pod t pod), None) \<and>
    mock_DeletePod t' (created_pod t pod) p1 = Val (p2, [terminal], None) \<and>
    Phase (Status terminal) = PodSucceeded \<and>
    list_all (\<lambda>cs. \<not> Ready cs \<and> Terminated (State cs) \<noteq> None \<and>
      TermStartedAt (the (Terminated (State cs))) = t \<and> TermFinishedAt (the (Terminated (State cs))) = t')
      (ContainerStatuses (Status terminal)) \<and>
    mock_GetPod (Namespace (Meta pod)) (Name (Meta pod)) p2 = Val (None, Some err) \<and> IsNotFound (Some err)"
proof -
  let ?k = "buildKeyFromNames (Namespace (Meta pod)) (Name (Meta pod))"
  have key: "buildKey pod = Inr ?k" "buildKey (created_pod t pod) = Inr ?k"
    using assms(2,3) by (simp_all add: buildKey_def created_pod_def)
  have css: "terminateStatuses t' (ContainerStatuses (Status (created_pod t pod))) =
      Val (map (\<lambda>c. (running_status t c)\<lparr>Ready := False, State := terminated_state t' t\<rparr>) (Containers (Spec pod)))"
    by (simp add: created_pod_def created_status_def terminateStatuses_running)
  let ?p1 = "p\<lparr>pods := go_put ?k (created_pod t pod) (pods p)\<rparr>"
  have "mock_CreatePod t pod p = Val (?p1, [created_pod t pod], None)"
    by (simp add: mock_CreatePod_def key call_notifier_def assms(1) Let_def)
  moreover have "mock_GetPod (Namespace (Meta pod)) (Name (Meta pod)) ?p1 = Val (Some (created_pod t pod), None)"
    by (simp add: mock_GetPod_def go_get_put)
  ultimately show ?thesis
    by (simp add: mock_DeletePod_def key css call_notifier_def assms(1) go_get_put mock_GetPod_def AList.delete_conv'
        list_all_iff terminated_state_def NotFoundf_def)
qed

theorem mock_pod_lifecycle_witness:
  "\<exists>p1 p2 terminal err.
    mock_CreatePod 5 (named_pod ''ns'' ''web'') \<lparr>nodeName = [], operatingSystem = [], internalIP = [], daemonEndpointPort = 0,
        pods = [], config = \<lparr>CPU = [], Memory = [], Pods = []\<rparr>, startTime = 0, notifier_set = True\<rparr> =
      Val (p1, [created_pod 5 (named_pod ''ns'' ''web'')], None) \<and>
    mock_DeletePod 9 (created_pod 5 (named_pod ''ns'' ''web'')) p1 = Val (p2, [terminal], None) \<and>
    Phase (Status terminal) = PodSucceeded \<and>
    mock_GetPod ''ns'' ''web'' p2 = Val (None, Some err) \<and> IsNotFound (Some err)"
  using mock_pod_lifecycle [of "\<lparr>nodeName = [], operatingSystem = [], internalIP = [], daemonEndpointPort = 0,
        pods = [], config = \<lparr>CPU = [], Memory = [], Pods = []\<rparr>, startTime = 0, notifier_set = True\<rparr>"
      "named_pod ''ns'' ''web''" 5 9]
  by (simp add: zero_values) blast

text \<open>
  \<open>DeletePod\<close> of a known pod panics as soon as one of the container statuses it is given is not in
  the running state, for instance waiting, or terminated by an earlier call, although the
  interface allows it to be called several times.
\<close>

theorem mock_DeletePod_panics_iff:
  assumes "notifier_set p" and "buildKey pod = Inr k" and "go_get (pods p) k \<noteq> None"
  shows "\<not> no_panic (mock_DeletePod now pod p) \<longleftrightarrow>
    (\<exists>cs\<in>set (ContainerStatuses (Status pod)). Running (State cs) = None)"
proof -
  have "no_panic (mock_DeletePod now pod p) \<longleftrightarrow> no_panic (terminateStatuses now (ContainerStatuses (Status pod)))"
    using assms by (cases "terminateStatuses now (ContainerStatuses (Status pod))")
      (simp_all add: mock_DeletePod_def call_notifier_def)
  then show ?thesis by (auto simp: terminateStatuses_no_panic list_all_iff)
qed

theorem mock_DeletePod_panics_witness:
  "let pod = (named_pod ''ns'' ''web'')\<lparr>Status := emptyStatus\<lparr>ContainerStatuses :=
         [(running_status 0 emptyContainer)\<lparr>State := emptyState\<lparr>Waiting := Some ''ContainerCreating''\<rparr>\<rparr>]\<rparr>\<rparr>
   in \<not> no_panic (mock_DeletePod 1 pod \<lparr>nodeName = [], operatingSystem = [], internalIP = [], daemonEndpointPort = 0,
        pods = [(''ns-web'', pod)], config = \<lparr>CPU = [], Memory = [], Pods = []\<rparr>, startTime = 0, notifier_set = True\<rparr>)"
  unfolding Let_def
  by (subst mock_DeletePod_panics_iff [where k = "''ns-web''"])
    (simp_all add: zero_values buildKey_def buildKeyFromNames_def)

text \<open>
  The key joins namespace and name with a character that both may contain, so it is not injective: after
  a pod \<open>b-c\<close> of the namespace \<open>a\<close> is created, the pod \<open>c\<close> of the namespace \<open>a-b\<close> is gone and
  \<open>GetPod\<close> for it returns the other pod.
\<close>

theorem mock_key_collision:
  assumes "notifier_set p"
  shows "\<exists>p1 p2 n1 n2. mock_CreatePod t (named_pod ''a-b'' ''c'') p = Val (p1, n1, None) \<and>
    mock_CreatePod t (named_pod ''a'' ''b-c'') p1 = Val (p2, n2, None) \<and>
    (\<exists>other. mock_GetPod ''a-b'' ''c'' p2 = Val (Some other, None) \<and> Namespace (Meta other) = ''a'' \<and> Name (Meta other) = ''b-c'')"
  using assms
  by (simp add: mock_CreatePod_def mock_GetPod_def buildKey_def buildKeyFromNames_def zero_values call_notifier_def
      created_pod_def go_get_put Let_def)

theorem mock_key_collision_witness:
  "\<exists>p1 p2 n1 n2. mock_CreatePod 3 (named_pod ''a-b'' ''c'') (NotifyPods \<lparr>nodeName = [], operatingSystem = [], internalIP = [], daemonEndpointPort = 0,
        pods = [], config = \<lparr>CPU = [], Memory = [], Pods = []\<rparr>, startTime = 0, notifier_set = False\<rparr>) = Val (p1, n1, None) \<and>
    mock_CreatePod 3 (named_pod ''a'' ''b-c'') p1 = Val (p2, n2, None) \<and>
    (\<exists>other. mock_GetPod ''a-b'' ''c'' p2 = Val (Some other, None) \<and> Namespace (Meta other) = ''a'' \<and> Name (Meta other) = ''b-c'')"
  by (rule mock_key_collision) (simp add: NotifyPods_def)

lemma sum_uint64_exact: "acc + sum_list us < 2 ^ 64 \<Longrightarrow> sum_uint64 acc us = acc + sum_list us"
  by (induction us arbitrary: acc) (simp_all add: add.assoc)

lemma containerUsage_bounds:
  "list_all (\<lambda>u. UsageNanoCores u < 2 ^ 32 \<and> UsageBytes u < 2 ^ 32) (fst (containerUsage cs rs)) \<and>
   length (fst (containerUsage cs rs)) = length cs"
proof (induction cs rs rule: containerUsage.induct)
  case (2 c cs rs)
  then show ?case by (cases rs) (auto simp: Let_def split: prod.splits)
qed simp

lemma sum_list_bounded: "list_all (\<lambda>u. (u :: nat) < b) us \<Longrightarrow> us \<noteq> [] \<Longrightarrow> sum_list us < length us * b"
proof (induction us)
  case (Cons u us)
  then show ?case by (cases us) auto
qed simp

lemma sum_uint32_exact:
  assumes "list_all (\<lambda>u. u < 2 ^ 32) us" and "length us \<le> 2 ^ 32"
  shows "sum_uint64 0 us = sum_list us"
proof (cases "us = []")
  case False
  have "sum_list us < length us * 2 ^ 32" by (rule sum_list_bounded [OF assms(1) False])
  also have "\<dots> \<le> 2 ^ 32 * 2 ^ 32" using assms(2) by (rule mult_right_mono) simp
  finally show ?thesis by (simp add: sum_uint64_exact)
qed simp

text \<open>
  The per-pod totals of the stats summary are exact: since each container's value is a 32-bit number,
  the 64-bit sums do not wrap around (for any pod with at most \<open>2 ^ 32\<close> containers).
\<close>

theorem mock_stats_totals_exact:
  assumes "length (Containers (Spec pod)) \<le> 2 ^ 32"
  shows "TotalNanoCores (fst (podUsage pod rs)) = sum_list (map UsageNanoCores (UsageContainers (fst (podUsage pod rs)))) \<and>
    TotalBytes (fst (podUsage pod rs)) = sum_list (map UsageBytes (UsageContainers (fst (podUsage pod rs)))) \<and>
    length (UsageContainers (fst (podUsage pod rs))) = length (Containers (Spec pod))"
proof -
  let ?us = "fst (containerUsage (Containers (Spec pod)) rs)"
  have b: "list_all (\<lambda>u. u < 2 ^ 32) (map UsageNanoCores ?us)" "list_all (\<lambda>u. u < 2 ^ 32) (map UsageBytes ?us)"
      "length ?us = length (Containers (Spec pod))"
    using containerUsage_bounds [of "Containers (Spec pod)" rs] by (auto simp: list_all_iff)
  show ?thesis
    using sum_uint32_exact [OF b(1)] sum_uint32_exact [OF b(2)] assms b(3)
    by (cases "containerUsage (Containers (Spec pod)) rs") (simp add: podUsage_def)
qed

theorem mock_stats_totals_exact_witness:
  "TotalNanoCores (fst (podUsage ((named_pod ''n'' ''p'')\<lparr>Spec := emptySpec\<lparr>Containers := [emptyContainer, emptyContainer]\<rparr>\<rparr>)
     [(2 ^ 32 - 1, 7), (2 ^ 32 - 1, 8)])) = 2 * (2 ^ 32 - 1)"
  using mock_stats_totals_exact [of "(named_pod ''n'' ''p'')\<lparr>Spec := emptySpec\<lparr>Containers := [emptyContainer, emptyContainer]\<rparr>\<rparr>"
      "[(2 ^ 32 - 1, 7), (2 ^ 32 - 1, 8)]"]
  by (simp add: podUsage_def)

end
