(* ===== verification/Pod_Controller.thy ===== *)
theory Pod_Controller
  imports Pod_Env Work_Queue Mock_Provider
begin

text \<open>
  The pod controller (\<open>src/node/pod.go\<close>, \<open>src/node/podcontroller.go\<close>). The provider, the API client, the
  work queues and the informer cache are parameters (\<open>pc_env\<close>: one value of it is what they answer at
  one moment); the state is what the controller keeps: the provider's state, the queues, the
  recorded events and \<open>knownPods\<close>. The entries of \<open>knownPods\<close> are pointers that several handlers hold
  at once, so they are addresses into a heap. A handler runs as one step; the pods a provider
  operation notifies are delivered to \<open>enqueuePodStatusUpdate\<close> before the operation returns.
\<close>

record ('p, 'q, 'k) pc_env =
  handler :: "'p PodLifecycleHandler"
  wq :: "'q Work_Queue.workqueue"
  envlib :: env_lib
  resourceManager :: ResourceManager
  MetaNamespaceKeyFunc :: "Pod \<Rightarrow> string result"
  DeletionHandlingMetaNamespaceKeyFunc :: "Pod \<Rightarrow> string result"
  SplitMetaNamespaceKey :: "string \<Rightarrow> (string \<times> string) result"
  client_UpdateStatus :: "Pod \<Rightarrow> 'k \<Rightarrow> 'k \<times> goerror option"
  client_Delete :: "string \<Rightarrow> string \<Rightarrow> int option \<Rightarrow> 'k \<Rightarrow> 'k \<times> goerror option"
  errWaitTimeout :: goerror
  clock :: int

record knownPod =
  lastPodStatusReceivedFromProvider :: "Pod option"
  lastPodUsed :: "Pod option"
  lastPodStatusUpdateSkipped :: bool

record ('p, 'q, 'k) pc_state =
  provider :: 'p
  knownPods :: "string \<rightharpoonup> nat"
  heap :: "knownPod list"
  syncPodsFromKubernetes :: 'q
  deletePodsFromKubernetes :: 'q
  syncPodStatusFromProvider :: 'q
  client :: 'k
  envst :: env_state

definition new_knownPod :: knownPod where
  "new_knownPod = \<lparr>lastPodStatusReceivedFromProvider = None, lastPodUsed = None, lastPodStatusUpdateSkipped = False\<rparr>"

text \<open>\<open>knownPods.Store(key, &knownPod{})\<close> and a write through a pointer.\<close>

definition store_new_knownPod :: "string \<Rightarrow> ('p, 'q, 'k) pc_state \<Rightarrow> ('p, 'q, 'k) pc_state" where
  "store_new_knownPod key st = st\<lparr>heap := heap st @ [new_knownPod], knownPods := (knownPods st)(key \<mapsto> length (heap st))\<rparr>"

definition write_knownPod :: "nat \<Rightarrow> (knownPod \<Rightarrow> knownPod) \<Rightarrow> ('p, 'q, 'k) pc_state \<Rightarrow> ('p, 'q, 'k) pc_state" where
  "write_knownPod a f st = st\<lparr>heap := (heap st)[a := f (heap st ! a)]\<rparr>"

definition recorder_Event :: "Pod \<Rightarrow> string \<Rightarrow> string \<Rightarrow> string \<Rightarrow> ('p, 'q, 'k) pc_state \<Rightarrow> ('p, 'q, 'k) pc_state" where
  "recorder_Event pod ty reason msg st =
     st\<lparr>envst := (envst st)\<lparr>recorded := recorded (envst st) @ [pod_event pod ty reason msg]\<rparr>\<rparr>"

definition podsLister_Get :: "('p, 'q, 'k) pc_env \<Rightarrow> string \<Rightarrow> string \<Rightarrow> Pod result" where
  "podsLister_Get env namespace name = podListerGet (resourceManager env) namespace name"

subsection \<open>Comparing pods\<close>

text \<open>\<open>cmp.Equal\<close> on these fields is equality of their values (a nil and an empty map differ).\<close>

fun imageExists :: "Container \<Rightarrow> Container list \<Rightarrow> bool \<Rightarrow> bool" where
  "imageExists c1 [] exist = exist"
| "imageExists c1 (c2 # cs2) exist = imageExists c1 cs2 (if Image c1 = Image c2 then True else exist)"

fun containersImageEqual :: "Container list \<Rightarrow> Container list \<Rightarrow> bool" where
  "containersImageEqual [] cs2 = True"
| "containersImageEqual (c1 # cs1) cs2 = (if \<not> imageExists c1 cs2 False then False else containersImageEqual cs1 cs2)"

definition podsEqual :: "Pod \<Rightarrow> Pod \<Rightarrow> bool" where
  "podsEqual pod1 pod2 =
     (containersImageEqual (Containers (Spec pod1)) (Containers (Spec pod2)) \<and>
      containersImageEqual (InitContainers (Spec pod1)) (InitContainers (Spec pod2)) \<and>
      ActiveDeadlineSeconds (Spec pod1) = ActiveDeadlineSeconds (Spec pod2) \<and>
      Tolerations (Spec pod1) = Tolerations (Spec pod2) \<and>
      Labels (Meta pod1) = Labels (Meta pod2) \<and>
      Annotations (Meta pod1) = Annotations (Meta pod2))"

definition deleteGraceTimeEqual :: "int option \<Rightarrow> int option \<Rightarrow> bool" where
  "deleteGraceTimeEqual old new =
     (if old = None \<and> new = None then True
      else case (old, new) of (Some a, Some b) \<Rightarrow> a = b | _ \<Rightarrow> False)"

definition podShouldEnqueue :: "Pod \<Rightarrow> Pod \<Rightarrow> bool" where
  "podShouldEnqueue oldPod newPod =
     (if \<not> podsEqual oldPod newPod then True
      else if \<not> deleteGraceTimeEqual (DeletionGracePeriodSeconds (Meta oldPod)) (DeletionGracePeriodSeconds (Meta newPod)) then True
      else if DeletionTimestamp (Meta oldPod) \<noteq> DeletionTimestamp (Meta newPod) then True
      else False)"

text \<open>\<open>podsEffectivelyEqual\<close> ignores the paths \<open>ObjectMeta.ResourceVersion\<close> and \<open>Status\<close>.\<close>

definition podsEffectivelyEqual :: "Pod \<Rightarrow> Pod \<Rightarrow> bool" where
  "podsEffectivelyEqual p1 p2 =
     (Spec p1 = Spec p2 \<and> (Meta p1)\<lparr>ResourceVersion := []\<rparr> = (Meta p2)\<lparr>ResourceVersion := []\<rparr>)"

fun running :: "ContainerStatus list \<Rightarrow> bool" where
  "running [] = False"
| "running (status # statuses) =
     (if Terminated (State status) = None \<and> Waiting (State status) = None then True else running statuses)"

definition shouldSkipPodStatusUpdate :: "Pod \<Rightarrow> bool" where
  "shouldSkipPodStatusUpdate pod = (Phase (Status pod) = PodSucceeded \<or> Phase (Status pod) = PodFailed)"

definition loggablePodName :: "('p, 'q, 'k) pc_env \<Rightarrow> Pod \<Rightarrow> string" where
  "loggablePodName env pod = (case MetaNamespaceKeyFunc env pod of Inl err \<Rightarrow> ''(unknown)'' | Inr k \<Rightarrow> k)"

definition loggablePodNameFromCoordinates :: "string \<Rightarrow> string \<Rightarrow> string" where
  "loggablePodNameFromCoordinates namespace name = namespace @ ''/'' @ name"

subsection \<open>Statuses from the provider\<close>

text \<open>
  The poll of \<open>enqueuePodStatusUpdate\<close>: one element of the list per round until the timeout
  (\<open>notificationRetryPeriod * MaxRetries\<close>), holding what \<open>knownPods\<close> and the lister answer then.
\<close>

fun pollKnownPod :: "goerror \<Rightarrow> (nat option \<times> Pod result) list \<Rightarrow> nat result" where
  "pollKnownPod timeout [] = Inl timeout"
| "pollKnownPod timeout ((known, listed) # rounds) =
     (case known of
        Some a \<Rightarrow> Inr a
      | None \<Rightarrow> (case listed of Inl err \<Rightarrow> Inl err | Inr pod \<Rightarrow> pollKnownPod timeout rounds))"

definition enqueuePodStatusUpdate ::
    "('p, 'q, 'k) pc_env \<Rightarrow> (nat option \<times> Pod result) list \<Rightarrow> Pod \<Rightarrow> ('p, 'q, 'k) pc_state \<Rightarrow> ('p, 'q, 'k) pc_state" where
  "enqueuePodStatusUpdate env rounds pod st =
     (case MetaNamespaceKeyFunc env pod of
        Inl err \<Rightarrow> st
      | Inr key \<Rightarrow>
          (case pollKnownPod (errWaitTimeout env) rounds of
             Inl err \<Rightarrow> st
           | Inr a \<Rightarrow>
               if lastPodStatusReceivedFromProvider (heap st ! a) = Some pod then st
               else (write_knownPod a (\<lambda>k. k\<lparr>lastPodStatusReceivedFromProvider := Some pod\<rparr>) st)
                      \<lparr>syncPodStatusFromProvider := Enqueue (wq env) key (syncPodStatusFromProvider st)\<rparr>))"

text \<open>A notification while a handler runs: every round of the poll sees the same state.\<close>

definition notify_rounds :: "('p, 'q, 'k) pc_env \<Rightarrow> Pod \<Rightarrow> ('p, 'q, 'k) pc_state \<Rightarrow> (nat option \<times> Pod result) list" where
  "notify_rounds env pod st =
     replicate (Suc MaxRetries)
       (case MetaNamespaceKeyFunc env pod of Inr key \<Rightarrow> knownPods st key | Inl e \<Rightarrow> None,
        podsLister_Get env (Namespace (Meta pod)) (Name (Meta pod)))"

definition notify :: "('p, 'q, 'k) pc_env \<Rightarrow> Pod \<Rightarrow> ('p, 'q, 'k) pc_state \<Rightarrow> ('p, 'q, 'k) pc_state" where
  "notify env pod st = enqueuePodStatusUpdate env (notify_rounds env pod st) pod st"

type_synonym ('p, 'q, 'k) step_result = "(('p, 'q, 'k) pc_state \<times> goerror option) outcome"

definition call_provider ::
    "('p, 'q, 'k) pc_env \<Rightarrow> ('p \<Rightarrow> 'p provider_result) \<Rightarrow> ('p, 'q, 'k) pc_state \<Rightarrow> ('p, 'q, 'k) step_result" where
  "call_provider env f st =
     obind (f (provider st)) (\<lambda>(p', notified, err). Val (fold (notify env) notified (st\<lparr>provider := p'\<rparr>), err))"

subsection \<open>Creating, updating and deleting in the provider (pod.go)\<close>

definition handleProviderError :: "('p, 'q, 'k) pc_env \<Rightarrow> goerror \<Rightarrow> Pod \<Rightarrow> ('p, 'q, 'k) pc_state \<Rightarrow> ('p, 'q, 'k) pc_state" where
  "handleProviderError env origErr pod st =
     (let podPhase = (if RestartPolicyOf (Spec pod) = RestartPolicyNever then PodFailed else PodPending);
          pod' = pod\<lparr>Meta := (Meta pod)\<lparr>ResourceVersion := []\<rparr>,
                     Status := (Status pod)\<lparr>Phase := podPhase, Reason := ''ProviderFailed'', Message := Error origErr\<rparr>\<rparr>
      in st\<lparr>client := fst (client_UpdateStatus env pod' (client st))\<rparr>)"

definition updateInProvider :: "('p, 'q, 'k) pc_env \<Rightarrow> Pod \<Rightarrow> ('p, 'q, 'k) pc_state \<Rightarrow> ('p, 'q, 'k) step_result" where
  "updateInProvider env pod st =
     obind (call_provider env (UpdatePod (handler env) (clock env) pod) st) (\<lambda>(st1, origErr).
       case origErr of
         Some e \<Rightarrow> Val (recorder_Event pod EventTypeWarning ''ProviderUpdateFailed'' (Error e) (handleProviderError env e pod st1), Some e)
       | None \<Rightarrow>
           let st2 = recorder_Event pod EventTypeNormal ''ProviderUpdateSuccess'' ''Update pod in provider successfully'' st1
           in case MetaNamespaceKeyFunc env pod of
                Inl err \<Rightarrow> Val (st2, None)
              | Inr key \<Rightarrow> Val (store_new_knownPod key st2, None))"

definition createInProvider :: "('p, 'q, 'k) pc_env \<Rightarrow> Pod \<Rightarrow> ('p, 'q, 'k) pc_state \<Rightarrow> ('p, 'q, 'k) step_result" where
  "createInProvider env pod st =
     obind (call_provider env (CreatePod (handler env) (clock env) pod) st) (\<lambda>(st1, origErr).
       case origErr of
         Some e \<Rightarrow> Val (recorder_Event pod EventTypeWarning ''ProviderCreateFailed'' (Error e) (handleProviderError env e pod st1), Some e)
       | None \<Rightarrow> Val (recorder_Event pod EventTypeNormal ''ProviderCreateSuccess'' ''Create pod in provider successfully'' st1, None))"

definition createOrUpdatePod :: "('p, 'q, 'k) pc_env \<Rightarrow> Pod \<Rightarrow> ('p, 'q, 'k) pc_state \<Rightarrow> ('p, 'q, 'k) step_result" where
  "createOrUpdatePod env pod0 st0 =
     obind (PopulateEnvironmentVariables (envlib env) pod0 (resourceManager env) (envst st0)) (\<lambda>(es, pod, err).
       let st = st0\<lparr>envst := es\<rparr> in
       case err of
         Some e \<Rightarrow> Val (st, Some e)
       | None \<Rightarrow>
           obind (GetPod (handler env) (Namespace (Meta pod)) (Name (Meta pod)) (provider st)) (\<lambda>(podFromProvider, _).
             case podFromProvider of
               Some pfp \<Rightarrow> if \<not> podsEqual pfp pod then updateInProvider env pod st else Val (st, None)
             | None \<Rightarrow> createInProvider env pod st))"

definition deletePod :: "('p, 'q, 'k) pc_env \<Rightarrow> Pod \<Rightarrow> ('p, 'q, 'k) pc_state \<Rightarrow> ('p, 'q, 'k) step_result" where
  "deletePod env pod st =
     obind (call_provider env (DeletePod (handler env) (clock env) pod) st) (\<lambda>(st1, err).
       case err of
         Some e \<Rightarrow> Val (recorder_Event pod EventTypeWarning ''ProviderDeleteFailed'' (Error e) st1, Some e)
       | None \<Rightarrow> Val (recorder_Event pod EventTypeNormal ''ProviderDeleteSuccess'' ''Delete pod in provider successfully'' st1, None))"

definition api_IsNotFound_opt :: "('p, 'q, 'k) pc_env \<Rightarrow> goerror option \<Rightarrow> bool" where
  "api_IsNotFound_opt env err = (case err of None \<Rightarrow> False | Some e \<Rightarrow> api_IsNotFound (envlib env) e)"

text \<open>
  \<open>updatePodStatus\<close> in two parts: what it does under the lock of the known pod, and the calls to the
  API server after it. The copy of a nil pointer is nil, and reading its UID panics.
\<close>

definition deleteFromAPI ::
    "('p, 'q, 'k) pc_env \<Rightarrow> Pod \<Rightarrow> Pod \<Rightarrow> ('p, 'q, 'k) pc_state \<Rightarrow> ('p, 'q, 'k) pc_state \<times> goerror option" where
  "deleteFromAPI env podFromKubernetes podFromProvider st =
     (case (DeletionTimestamp (Meta podFromProvider), DeletionTimestamp (Meta podFromKubernetes)) of
        (Some t, None) \<Rightarrow>
          let grace = (if t < clock env then Some 0 else DeletionGracePeriodSeconds (Meta podFromProvider)) in
          if Status podFromKubernetes = Status podFromProvider then
            (let (k', err) = client_Delete env (Namespace (Meta podFromKubernetes)) (Name (Meta podFromKubernetes)) grace (client st)
             in (st\<lparr>client := k'\<rparr>,
                 if err \<noteq> None \<and> \<not> api_IsNotFound_opt env err then pkg_Wrap err ''error while delete pod in kubernetes'' else None))
          else (st, None)
      | _ \<Rightarrow> (st, None))"

definition updateStatusInAPI ::
    "('p, 'q, 'k) pc_env \<Rightarrow> Pod \<Rightarrow> ('p, 'q, 'k) pc_state \<Rightarrow> ('p, 'q, 'k) pc_state \<times> goerror option" where
  "updateStatusInAPI env podFromProvider st =
     (let pod = podFromProvider\<lparr>Meta := (Meta podFromProvider)\<lparr>ResourceVersion := ''0''\<rparr>\<rparr>;
          (k', err) = client_UpdateStatus env pod (client st)
      in (st\<lparr>client := k'\<rparr>,
          if err \<noteq> None \<and> \<not> api_IsNotFound_opt env err
          then pkg_Wrap err ''error while updating pod status in kubernetes'' else None))"

definition updatePodStatus ::
    "('p, 'q, 'k) pc_env \<Rightarrow> Pod \<Rightarrow> string \<Rightarrow> ('p, 'q, 'k) pc_state \<Rightarrow> ('p, 'q, 'k) step_result" where
  "updatePodStatus env podFromKubernetes key st =
     (if shouldSkipPodStatusUpdate podFromKubernetes then Val (st, None)
      else case knownPods st key of
        None \<Rightarrow> Val (st, None)
      | Some a \<Rightarrow>
          obind (deref (lastPodStatusReceivedFromProvider (heap st ! a))) (\<lambda>last.
            let podFromProvider = last\<lparr>Meta := (Meta last)\<lparr>UID := UID (Meta podFromKubernetes)\<rparr>\<rparr> in
            if Status podFromKubernetes = Status podFromProvider \<and> DeletionTimestamp (Meta podFromProvider) = None
            then Val (write_knownPod a (\<lambda>k. k\<lparr>lastPodStatusUpdateSkipped := True\<rparr>) st, None)
            else
              let st1 = write_knownPod a (\<lambda>k. k\<lparr>lastPodStatusUpdateSkipped := False\<rparr>) st;
                  (st2, err) = deleteFromAPI env podFromKubernetes podFromProvider st1
              in if err \<noteq> None then Val (st2, err) else Val (updateStatusInAPI env podFromProvider st2)))"

subsection \<open>The queue handlers\<close>

definition syncPodStatusFromProviderHandler ::
    "('p, 'q, 'k) pc_env \<Rightarrow> string \<Rightarrow> ('p, 'q, 'k) pc_state \<Rightarrow> ('p, 'q, 'k) step_result" where
  "syncPodStatusFromProviderHandler env key st =
     (case SplitMetaNamespaceKey env key of
        Inl err \<Rightarrow> Val (st, pkg_Wrap (Some err) ''error splitting cache key'')
      | Inr (namespace, name) \<Rightarrow>
          (case podsLister_Get env namespace name of
             Inl err \<Rightarrow> if api_IsNotFound (envlib env) err then Val (st, None)
                       else Val (st, pkg_Wrap (Some err) ''error looking up pod'')
           | Inr pod \<Rightarrow> updatePodStatus env pod key st))"

text \<open>The deferred \<open>_deletePodKey\<close> runs when the handler returns nil.\<close>

definition cleanDeletionCache :: "('p, 'q, 'k) pc_env \<Rightarrow> string \<Rightarrow> ('p, 'q, 'k) pc_state \<times> goerror option \<Rightarrow> ('p, 'q, 'k) pc_state \<times> goerror option" where
  "cleanDeletionCache env key r =
     (case (snd r, deletePodKey (handler env)) of
        (None, Some f) \<Rightarrow> ((fst r)\<lparr>provider := f key (provider (fst r))\<rparr>, None)
      | _ \<Rightarrow> r)"

definition deletePodsFromKubernetesHandler ::
    "('p, 'q, 'k) pc_env \<Rightarrow> string \<Rightarrow> ('p, 'q, 'k) pc_state \<Rightarrow> ('p, 'q, 'k) step_result" where
  "deletePodsFromKubernetesHandler env key st =
     (case SplitMetaNamespaceKey env key of
        Inl err \<Rightarrow> Val (st, None)
      | Inr (namespace, name) \<Rightarrow>
          Val (cleanDeletionCache env key
            (case podsLister_Get env namespace name of
               Inl err \<Rightarrow> if api_IsNotFound (envlib env) err then (st, None) else (st, Some err)
             | Inr k8sPod \<Rightarrow>
                 let (k', err) = client_Delete env namespace name (Some 0) (client st); st' = st\<lparr>client := k'\<rparr> in
                 if api_IsNotFound_opt env err then (st', None)
                 else if err \<noteq> None then (st', err)
                 else (st', None))))"

definition syncPodInProvider ::
    "('p, 'q, 'k) pc_env \<Rightarrow> Pod \<Rightarrow> string \<Rightarrow> ('p, 'q, 'k) pc_state \<Rightarrow> ('p, 'q, 'k) step_result" where
  "syncPodInProvider env pod key st =
     (if DeletionTimestamp (Meta pod) \<noteq> None \<and> \<not> running (ContainerStatuses (Status pod)) then
        Val (st\<lparr>deletePodsFromKubernetes := EnqueueWithoutRateLimit (wq env) key (deletePodsFromKubernetes st)\<rparr>, None)
      else case knownPods st key of
        None \<Rightarrow> Val (st, None)
      | Some a \<Rightarrow>
          if (case lastPodUsed (heap st ! a) of None \<Rightarrow> False | Some u \<Rightarrow> podsEffectivelyEqual u pod) then Val (st, None)
          else
            obind
             (if DeletionTimestamp (Meta pod) \<noteq> None then
                obind (deletePod env pod st) (\<lambda>(st1, err).
                  if err \<noteq> None \<and> \<not> IsNotFound err then
                    Val (st1, pkg_Wrap err (''failed to delete pod '' @ fmt_q (loggablePodName env pod) @ '' in the provider''))
                  else obind (deref (DeletionGracePeriodSeconds (Meta pod))) (\<lambda>grace.
                    Val (st1\<lparr>deletePodsFromKubernetes :=
                               EnqueueAfter (wq env) key (int64 (time_Second * grace)) (deletePodsFromKubernetes st1)\<rparr>, None)))
              else if Phase (Status pod) = PodFailed \<or> Phase (Status pod) = PodSucceeded then Val (st, None)
              else obind (createOrUpdatePod env pod st) (\<lambda>(st1, err).
                Val (st1, pkg_Wrap err (''failed to sync pod '' @ fmt_q (loggablePodName env pod) @ '' in the provider''))))
             (\<lambda>(st', retErr).
                if retErr = None then Val (write_knownPod a (\<lambda>k. k\<lparr>lastPodUsed := Some pod\<rparr>) st', None)
                else Val (st', retErr)))"

definition syncPodFromKubernetesHandler ::
    "('p, 'q, 'k) pc_env \<Rightarrow> string \<Rightarrow> ('p, 'q, 'k) pc_state \<Rightarrow> ('p, 'q, 'k) step_result" where
  "syncPodFromKubernetesHandler env key st =
     (case SplitMetaNamespaceKey env key of
        Inl err \<Rightarrow> Val (st, None)
      | Inr (namespace, name) \<Rightarrow>
          (case podsLister_Get env namespace name of
             Inr pod \<Rightarrow> syncPodInProvider env pod key st
           | Inl err \<Rightarrow>
               if \<not> api_IsNotFound (envlib env) err then
                 Val (st, pkg_Wrap (Some err) (''failed to fetch pod with key '' @ fmt_q key @ '' from lister''))
               else obind (GetPod (handler env) namespace name (provider st)) (\<lambda>(pod, err).
                 if err \<noteq> None \<and> \<not> IsNotFound err \<and> \<not> api_IsNotFound_opt env err then
                   Val (st, pkg_Wrap err (''failed to fetch pod with key '' @ fmt_q key @ '' from provider''))
                 else if IsNotFound err \<or> api_IsNotFound_opt env err then Val (st, None)
                 else case pod of
                     None \<Rightarrow> Val (st, None)
                   | Some pd \<Rightarrow>
                       obind (call_provider env (DeletePod (handler env) (clock env) pd) st) (\<lambda>(st1, err).
                         if IsNotFound err then Val (st1, None)
                         else Val (st1, pkg_Wrap err
                           (''failed to delete pod '' @ fmt_q (loggablePodNameFromCoordinates namespace name) @ '' in the provider''))))))"

subsection \<open>Dangling pods\<close>

fun collectDangling :: "('p, 'q, 'k) pc_env \<Rightarrow> Pod list \<Rightarrow> Pod list \<Rightarrow> Pod list result" where
  "collectDangling env [] ptd = Inr ptd"
| "collectDangling env (pp # pps) ptd =
     (case podsLister_Get env (Namespace (Meta pp)) (Name (Meta pp)) of
        Inr pod \<Rightarrow> collectDangling env pps ptd
      | Inl err \<Rightarrow> if api_IsNotFound (envlib env) err then collectDangling env pps (ptd @ [pp])
                  else Inl (WithMessage ''failed to fetch pod from the lister'' err))"

text \<open>The deletions run in goroutines; this is one order of them. Their errors are only logged.\<close>

fun deleteEach :: "('p, 'q, 'k) pc_env \<Rightarrow> Pod list \<Rightarrow> ('p, 'q, 'k) pc_state \<Rightarrow> ('p, 'q, 'k) pc_state outcome" where
  "deleteEach env [] st = Val st"
| "deleteEach env (pod # ptd) st =
     obind (call_provider env (DeletePod (handler env) (clock env) pod) st) (\<lambda>(st1, err). deleteEach env ptd st1)"

definition deleteDanglingPods :: "('p, 'q, 'k) pc_env \<Rightarrow> ('p, 'q, 'k) pc_state \<Rightarrow> ('p, 'q, 'k) pc_state outcome" where
  "deleteDanglingPods env st =
     (case GetPods (handler env) (provider st) of
        Inl err \<Rightarrow> Val st
      | Inr pps \<Rightarrow> (case collectDangling env pps [] of Inl err \<Rightarrow> Val st | Inr ptd \<Rightarrow> deleteEach env ptd st))"

subsection \<open>The informer's event handlers (set up in Run)\<close>

definition AddFunc :: "('p, 'q, 'k) pc_env \<Rightarrow> Pod \<Rightarrow> ('p, 'q, 'k) pc_state \<Rightarrow> ('p, 'q, 'k) pc_state" where
  "AddFunc env pod st =
     (case MetaNamespaceKeyFunc env pod of
        Inl err \<Rightarrow> st
      | Inr key \<Rightarrow> (store_new_knownPod key st)
          \<lparr>syncPodsFromKubernetes := Enqueue (wq env) key (syncPodsFromKubernetes st)\<rparr>)"

definition should_not_happen :: string where
  "should_not_happen = ''Pod not found in known pods. This should never happen.''"

definition UpdateFunc :: "('p, 'q, 'k) pc_env \<Rightarrow> Pod \<Rightarrow> Pod \<Rightarrow> ('p, 'q, 'k) pc_state \<Rightarrow> ('p, 'q, 'k) pc_state outcome" where
  "UpdateFunc env oldPod newPod st =
     (case MetaNamespaceKeyFunc env newPod of
        Inl err \<Rightarrow> Val st
      | Inr key \<Rightarrow>
          (case knownPods st key of
             None \<Rightarrow> Panic should_not_happen
           | Some a \<Rightarrow>
               obind
                 (if lastPodStatusUpdateSkipped (heap st ! a) then
                    obind (deref (lastPodStatusReceivedFromProvider (heap st ! a))) (\<lambda>last.
                      if Status newPod \<noteq> Status last then
                        Val ((write_knownPod a (\<lambda>k. k\<lparr>lastPodStatusUpdateSkipped := False\<rparr>) st)
                           \<lparr>syncPodStatusFromProvider := Enqueue (wq env) key (syncPodStatusFromProvider st)\<rparr>)
                      else Val st)
                  else Val st)
                 (\<lambda>st1. if podShouldEnqueue oldPod newPod
                    then Val (st1\<lparr>syncPodsFromKubernetes := Enqueue (wq env) key (syncPodsFromKubernetes st1)\<rparr>)
                    else Val st1)))"

definition DeleteFunc :: "('p, 'q, 'k) pc_env \<Rightarrow> Pod \<Rightarrow> ('p, 'q, 'k) pc_state \<Rightarrow> ('p, 'q, 'k) pc_state" where
  "DeleteFunc env pod st =
     (case DeletionHandlingMetaNamespaceKeyFunc env pod of
        Inl err \<Rightarrow> st
      | Inr key \<Rightarrow> st\<lparr>knownPods := (knownPods st)(key := None),
          syncPodsFromKubernetes := Enqueue (wq env) key (syncPodsFromKubernetes st),
          deletePodsFromKubernetes := Forget (wq env) key (deletePodsFromKubernetes st)\<rparr>)"

subsection \<open>Construction\<close>

record pc_config =
  has_PodClient :: bool
  has_EventRecorder :: bool
  has_PodInformer :: bool
  has_ConfigMapInformer :: bool
  has_SecretInformer :: bool
  has_ServiceInformer :: bool
  has_Provider :: bool
  has_RateLimiter :: bool

definition check_config :: "pc_config \<Rightarrow> goerror option" where
  "check_config cfg =
     (if \<not> has_PodClient cfg then Some (InvalidInput ''missing core client'')
      else if \<not> has_EventRecorder cfg then Some (InvalidInput ''missing event recorder'')
      else if \<not> has_PodInformer cfg then Some (InvalidInput ''missing pod informer'')
      else if \<not> has_ConfigMapInformer cfg then Some (InvalidInput ''missing config map informer'')
      else if \<not> has_SecretInformer cfg then Some (InvalidInput ''missing secret informer'')
      else if \<not> has_ServiceInformer cfg then Some (InvalidInput ''missing service informer'')
      else if \<not> has_Provider cfg then Some (InvalidInput ''missing provider'')
      else None)"

text \<open>
  The three queues are made from one \<open>RateLimiter\<close>; \<open>fresh\<close> is the state client-go gives a new queue.
\<close>

definition NewPodController ::
    "pc_config \<Rightarrow> 'p \<Rightarrow> 'q \<Rightarrow> 'k \<Rightarrow> ('p, 'q, 'k) pc_state result" where
  "NewPodController cfg p fresh k =
     (case check_config cfg of
        Some err \<Rightarrow> Inl err
      | None \<Rightarrow> Inr \<lparr>provider = p, knownPods = Map.empty, heap = [],
          syncPodsFromKubernetes = Work_Queue.workqueue (New fresh ''syncPodsFromKubernetes''),
          deletePodsFromKubernetes = Work_Queue.workqueue (New fresh ''deletePodsFromKubernetes''),
          syncPodStatusFromProvider = Work_Queue.workqueue (New fresh ''syncPodStatusFromProvider''),
          client = k, envst = \<lparr>recorded = [], nodeIp = []\<rparr>\<rparr>)"

end
