(* ===== verification/Pod_Controller_Props.thy ===== *)
theory Pod_Controller_Props
  imports Pod_Controller
begin

text \<open>
  Properties of the pod controller: the invariant of \<open>knownPods\<close> over every sequence of informer
  events, notifications and handler runs; convergence of the provider towards Kubernetes, proved
  once for every provider that keeps the contract \<open>pod_provider\<close> and stated here for the mock
  provider; what is written to the API server; and when the status handler panics.
\<close>

subsection \<open>What the building blocks leave alone\<close>

lemma write_knownPod_frame [simp]:
  "provider (write_knownPod a f st) = provider st" "knownPods (write_knownPod a f st) = knownPods st"
  "client (write_knownPod a f st) = client st" "envst (write_knownPod a f st) = envst st"
  "syncPodsFromKubernetes (write_knownPod a f st) = syncPodsFromKubernetes st"
  "deletePodsFromKubernetes (write_knownPod a f st) = deletePodsFromKubernetes st"
  "syncPodStatusFromProvider (write_knownPod a f st) = syncPodStatusFromProvider st"
  "length (heap (write_knownPod a f st)) = length (heap st)"
  by (simp_all add: write_knownPod_def)

lemma store_new_knownPod_frame [simp]:
  "provider (store_new_knownPod key st) = provider st" "client (store_new_knownPod key st) = client st"
  "deletePodsFromKubernetes (store_new_knownPod key st) = deletePodsFromKubernetes st"
  "syncPodStatusFromProvider (store_new_knownPod key st) = syncPodStatusFromProvider st"
  "knownPods (store_new_knownPod key st) key = Some (length (heap st))"
  "heap (store_new_knownPod key st) ! length (heap st) = new_knownPod"
  by (simp_all add: store_new_knownPod_def)

lemma recorder_Event_frame [simp]:
  "provider (recorder_Event pod ty r m st) = provider st" "client (recorder_Event pod ty r m st) = client st"
  "knownPods (recorder_Event pod ty r m st) = knownPods st" "heap (recorder_Event pod ty r m st) = heap st"
  "deletePodsFromKubernetes (recorder_Event pod ty r m st) = deletePodsFromKubernetes st"
  "syncPodStatusFromProvider (recorder_Event pod ty r m st) = syncPodStatusFromProvider st"
  by (simp_all add: recorder_Event_def)

lemma notify_frame [simp]:
  "provider (notify env pod st) = provider st" "client (notify env pod st) = client st"
  "knownPods (notify env pod st) = knownPods st" "length (heap (notify env pod st)) = length (heap st)"
  "deletePodsFromKubernetes (notify env pod st) = deletePodsFromKubernetes st"
  by (simp_all add: notify_def enqueuePodStatusUpdate_def split: sum.split)

lemma fold_notify_frame [simp]:
  "provider (fold (notify env) ps st) = provider st" "client (fold (notify env) ps st) = client st"
  "knownPods (fold (notify env) ps st) = knownPods st" "length (heap (fold (notify env) ps st)) = length (heap st)"
  "deletePodsFromKubernetes (fold (notify env) ps st) = deletePodsFromKubernetes st"
  by (induction ps arbitrary: st) simp_all

lemma call_provider_Val:
  "call_provider env f st = Val (st', err) \<longleftrightarrow>
    (\<exists>p' ns. f (provider st) = Val (p', ns, err) \<and> st' = fold (notify env) ns (st\<lparr>provider := p'\<rparr>))"
  by (auto simp: call_provider_def)

lemma handleProviderError_frame [simp]:
  "provider (handleProviderError env e pod st) = provider st" "knownPods (handleProviderError env e pod st) = knownPods st"
  "heap (handleProviderError env e pod st) = heap st"
  by (simp_all add: handleProviderError_def Let_def)

subsection \<open>The invariant of the known pods\<close>

text \<open>Pointers are valid, and a skipped status update implies that a status has been received.\<close>

definition knownPod_ok :: "knownPod \<Rightarrow> bool" where
  "knownPod_ok k = (lastPodStatusUpdateSkipped k \<longrightarrow> lastPodStatusReceivedFromProvider k \<noteq> None)"

definition pc_inv :: "('p, 'q, 'k) pc_state \<Rightarrow> bool" where
  "pc_inv st = ((\<forall>a\<in>ran (knownPods st). a < length (heap st)) \<and> list_all knownPod_ok (heap st))"

lemma pc_inv_cong: "knownPods st' = knownPods st \<Longrightarrow> heap st' = heap st \<Longrightarrow> pc_inv st' = pc_inv st"
  by (simp add: pc_inv_def)

lemma pc_inv_write [inv_intros]:
  assumes "pc_inv st" and "\<And>k. knownPod_ok k \<Longrightarrow> knownPod_ok (f k)"
  shows "pc_inv (write_knownPod a f st)"
  using assms by (cases "a < length (heap st)") (auto simp: pc_inv_def write_knownPod_def list_all_length nth_list_update)

lemma pc_inv_store [inv_intros]: "pc_inv st \<Longrightarrow> pc_inv (store_new_knownPod key st)"
  by (auto simp: pc_inv_def store_new_knownPod_def new_knownPod_def knownPod_ok_def ran_def split: if_splits)

lemma pc_inv_queues [simp]:
  "pc_inv (st\<lparr>syncPodsFromKubernetes := q\<rparr>) = pc_inv st" "pc_inv (st\<lparr>deletePodsFromKubernetes := q\<rparr>) = pc_inv st"
  "pc_inv (st\<lparr>syncPodStatusFromProvider := q\<rparr>) = pc_inv st" "pc_inv (st\<lparr>client := k\<rparr>) = pc_inv st"
  "pc_inv (st\<lparr>provider := p\<rparr>) = pc_inv st" "pc_inv (st\<lparr>envst := e\<rparr>) = pc_inv st"
  "pc_inv (recorder_Event pod ty r m st) = pc_inv st" "pc_inv (handleProviderError env e' pod st) = pc_inv st"
  by (simp_all add: pc_inv_def)

lemma pc_inv_enqueue [inv_intros]: "pc_inv st \<Longrightarrow> pc_inv (enqueuePodStatusUpdate env rounds pod st)"
  by (auto simp: enqueuePodStatusUpdate_def knownPod_ok_def intro!: pc_inv_write split: sum.split)

lemma pc_inv_notify [inv_intros]: "pc_inv st \<Longrightarrow> pc_inv (notify env pod st)"
  by (simp add: notify_def inv_intros)

lemma pc_inv_fold_notify [inv_intros]: "pc_inv st \<Longrightarrow> pc_inv (fold (notify env) ps st)"
  by (induction ps arbitrary: st) (simp_all add: inv_intros)

lemma pc_inv_call_provider [inv_intros]: "pc_inv st \<Longrightarrow> call_provider env f st = Val (st', err) \<Longrightarrow> pc_inv st'"
  by (auto simp: call_provider_Val intro!: inv_intros)

lemma pc_inv_updateInProvider [inv_intros]:
  assumes "pc_inv st" and "updateInProvider env pod st = Val (st', err)"
  shows "pc_inv st'"
proof -
  obtain st1 e where "call_provider env (UpdatePod (handler env) (clock env) pod) st = Val (st1, e)"
    using assms(2) by (auto simp: updateInProvider_def)
  moreover from this have "pc_inv st1" using assms(1) by (rule pc_inv_call_provider [rotated])
  ultimately show ?thesis
    using assms(2) by (cases e; cases "MetaNamespaceKeyFunc env pod") (auto simp: updateInProvider_def Let_def intro: pc_inv_store)
qed

lemma pc_inv_createInProvider [inv_intros]:
  assumes "pc_inv st" and "createInProvider env pod st = Val (st', err)"
  shows "pc_inv st'"
proof -
  obtain st1 e where "call_provider env (CreatePod (handler env) (clock env) pod) st = Val (st1, e)"
    using assms(2) by (auto simp: createInProvider_def)
  moreover from this have "pc_inv st1" using assms(1) by (rule pc_inv_call_provider [rotated])
  ultimately show ?thesis
    using assms(2) by (auto simp: createInProvider_def split: option.splits)
qed

lemma createOrUpdatePod_cases:
  assumes "createOrUpdatePod env pod0 st0 = Val (st', err)"
  obtains (env_error) es e where "st' = st0\<lparr>envst := es\<rparr>" "err = Some e"
  | (same) es pod pfp e' where "st' = st0\<lparr>envst := es\<rparr>" "err = None"
      "PopulateEnvironmentVariables (envlib env) pod0 (resourceManager env) (envst st0) = Val (es, pod, None)"
      "GetPod (handler env) (Namespace (Meta pod)) (Name (Meta pod)) (provider st0) = Val (Some pfp, e')" "podsEqual pfp pod"
  | (update) es pod pfp e' where "updateInProvider env pod (st0\<lparr>envst := es\<rparr>) = Val (st', err)"
      "PopulateEnvironmentVariables (envlib env) pod0 (resourceManager env) (envst st0) = Val (es, pod, None)"
      "GetPod (handler env) (Namespace (Meta pod)) (Name (Meta pod)) (provider st0) = Val (Some pfp, e')" "\<not> podsEqual pfp pod"
  | (create) es pod e' where "createInProvider env pod (st0\<lparr>envst := es\<rparr>) = Val (st', err)"
      "PopulateEnvironmentVariables (envlib env) pod0 (resourceManager env) (envst st0) = Val (es, pod, None)"
      "GetPod (handler env) (Namespace (Meta pod)) (Name (Meta pod)) (provider st0) = Val (None, e')"
proof -
  obtain es pod e where p: "PopulateEnvironmentVariables (envlib env) pod0 (resourceManager env) (envst st0) = Val (es, pod, e)"
    using assms by (auto simp: createOrUpdatePod_def)
  show thesis
  proof (cases e)
    case (Some e')
    then show thesis using assms p env_error [of es e'] by (auto simp: createOrUpdatePod_def)
  next
    case None
    obtain q e' where g: "GetPod (handler env) (Namespace (Meta pod)) (Name (Meta pod)) (provider st0) = Val (q, e')"
      using assms p None by (auto simp: createOrUpdatePod_def Let_def)
    show thesis
    proof (cases q)
      case None
      then show thesis using assms p \<open>e = None\<close> g create by (simp add: createOrUpdatePod_def)
    next
      case (Some pfp)
      then show thesis
        using assms p \<open>e = None\<close> g same [of es pod pfp e'] update [of pod es pfp e']
        by (cases "podsEqual pfp pod") (auto simp: createOrUpdatePod_def)
    qed
  qed
qed

lemma pc_inv_createOrUpdatePod [inv_intros]:
  assumes "pc_inv st" and "createOrUpdatePod env pod st = Val (st', err)"
  shows "pc_inv st'"
  using assms(2)
proof (cases rule: createOrUpdatePod_cases)
  case (update es)
  show ?thesis by (rule pc_inv_updateInProvider [OF _ update(1)]) (simp add: assms(1))
next
  case (create es)
  show ?thesis by (rule pc_inv_createInProvider [OF _ create(1)]) (simp add: assms(1))
qed (simp_all add: assms(1))

lemma pc_inv_deletePod [inv_intros]:
  assumes "pc_inv st" and "deletePod env pod st = Val (st', err)"
  shows "pc_inv st'"
proof -
  obtain st1 e where "call_provider env (DeletePod (handler env) (clock env) pod) st = Val (st1, e)"
    using assms(2) by (auto simp: deletePod_def)
  moreover from this have "pc_inv st1" using assms(1) by (rule pc_inv_call_provider [rotated])
  ultimately show ?thesis
    using assms(2) by (auto simp: deletePod_def split: option.splits)
qed

lemma pc_inv_deleteFromAPI:
  "pc_inv st \<Longrightarrow> deleteFromAPI env pk pp st = (st', err) \<Longrightarrow> pc_inv st' \<and> knownPods st' = knownPods st \<and> heap st' = heap st"
  by (auto simp: deleteFromAPI_def Let_def split: option.splits if_splits prod.splits)

lemma pc_inv_updateStatusInAPI:
  "pc_inv st \<Longrightarrow> updateStatusInAPI env pp st = (st', err) \<Longrightarrow> pc_inv st'"
  by (auto simp: updateStatusInAPI_def Let_def split: prod.splits)

lemma pc_inv_updatePodStatus [inv_intros]:
  assumes inv: "pc_inv st" and upd: "updatePodStatus env pod key st = Val (st', err)"
  shows "pc_inv st'"
proof (cases "shouldSkipPodStatusUpdate pod \<or> knownPods st key = None")
  case True
  then show ?thesis using assms by (auto simp: updatePodStatus_def split: if_splits)
next
  case False
  then obtain a where a: "knownPods st key = Some a" "\<not> shouldSkipPodStatusUpdate pod" by auto
  then obtain last where last: "lastPodStatusReceivedFromProvider (heap st ! a) = Some last"
    using upd by (auto simp: updatePodStatus_def)
  have al: "a < length (heap st)" using inv a(1) by (auto simp: pc_inv_def ran_def)
  have skipped: "pc_inv (write_knownPod a (\<lambda>k. k\<lparr>lastPodStatusUpdateSkipped := True\<rparr>) st)"
    using inv al last
    by (auto simp: pc_inv_def write_knownPod_def list_all_length nth_list_update knownPod_ok_def)
  have cleared: "pc_inv (write_knownPod a (\<lambda>k. k\<lparr>lastPodStatusUpdateSkipped := False\<rparr>) st)"
    by (rule pc_inv_write [OF inv]) (simp add: knownPod_ok_def)
  show ?thesis
    using upd a last skipped
    by (auto simp: updatePodStatus_def Let_def split: if_splits prod.splits
        dest!: pc_inv_deleteFromAPI [OF cleared] dest: pc_inv_updateStatusInAPI)
qed

lemma pc_inv_status_handler [inv_intros]:
  "pc_inv st \<Longrightarrow> syncPodStatusFromProviderHandler env key st = Val (st', err) \<Longrightarrow> pc_inv st'"
  by (auto simp: syncPodStatusFromProviderHandler_def split: sum.splits if_splits intro: pc_inv_updatePodStatus)

lemma pc_inv_delete_handler [inv_intros]:
  "pc_inv st \<Longrightarrow> deletePodsFromKubernetesHandler env key st = Val (st', err) \<Longrightarrow> pc_inv st'"
  by (auto simp: deletePodsFromKubernetesHandler_def cleanDeletionCache_def Let_def
      split: sum.splits if_splits prod.splits option.splits)

text \<open>What \<open>syncPodInProvider\<close> does once it has decided to work: the middle part between the lookup and the deferred write.\<close>

lemma syncPodInProvider_cases:
  assumes "syncPodInProvider env pod key st = Val (st', err)"
  obtains (force_delete) "DeletionTimestamp (Meta pod) \<noteq> None" "\<not> running (ContainerStatuses (Status pod))" "err = None"
      "st' = st\<lparr>deletePodsFromKubernetes := EnqueueWithoutRateLimit (wq env) key (deletePodsFromKubernetes st)\<rparr>"
  | (unknown) "knownPods st key = None" "st' = st" "err = None"
  | (used) a u where "knownPods st key = Some a" "lastPodUsed (heap st ! a) = Some u" "podsEffectivelyEqual u pod" "st' = st" "err = None"
  | (delete_failed) a where "knownPods st key = Some a" "DeletionTimestamp (Meta pod) \<noteq> None" "err \<noteq> None"
      "\<exists>e. deletePod env pod st = Val (st', e) \<and> e \<noteq> None \<and> \<not> IsNotFound e"
  | (deleted) a st1 e grace where "knownPods st key = Some a" "DeletionTimestamp (Meta pod) \<noteq> None" "err = None"
      "running (ContainerStatuses (Status pod))"
      "deletePod env pod st = Val (st1, e)" "e = None \<or> IsNotFound e" "DeletionGracePeriodSeconds (Meta pod) = Some grace"
      "st' = write_knownPod a (\<lambda>k. k\<lparr>lastPodUsed := Some pod\<rparr>) (st1\<lparr>deletePodsFromKubernetes :=
          EnqueueAfter (wq env) key (int64 (time_Second * grace)) (deletePodsFromKubernetes st1)\<rparr>)"
  | (terminal) a where "knownPods st key = Some a" "DeletionTimestamp (Meta pod) = None" "shouldSkipPodStatusUpdate pod" "err = None"
      "st' = write_knownPod a (\<lambda>k. k\<lparr>lastPodUsed := Some pod\<rparr>) st"
  | (synced) a st1 e where "knownPods st key = Some a" "DeletionTimestamp (Meta pod) = None" "\<not> shouldSkipPodStatusUpdate pod"
      "createOrUpdatePod env pod st = Val (st1, e)" "err = None \<longleftrightarrow> e = None"
      "st' = (if e = None then write_knownPod a (\<lambda>k. k\<lparr>lastPodUsed := Some pod\<rparr>) st1 else st1)"
proof (cases "DeletionTimestamp (Meta pod) \<noteq> None \<and> \<not> running (ContainerStatuses (Status pod))")
  case True
  then show thesis using assms force_delete by (simp add: syncPodInProvider_def)
next
  case live: False
  show thesis
  proof (cases "knownPods st key")
    case None
    then have "syncPodInProvider env pod key st = Val (st, None)"
      unfolding syncPodInProvider_def if_not_P [OF live] by simp
    then show thesis using assms unknown [OF None] by simp
  next
    case (Some a)
    consider u where "lastPodUsed (heap st ! a) = Some u" "podsEffectivelyEqual u pod"
      | "\<not> (case lastPodUsed (heap st ! a) of None \<Rightarrow> False | Some u \<Rightarrow> podsEffectivelyEqual u pod)"
      by (cases "lastPodUsed (heap st ! a)") auto
    then show thesis
    proof cases
      case 1
      then have "syncPodInProvider env pod key st = Val (st, None)"
        unfolding syncPodInProvider_def if_not_P [OF live] using Some by simp
      then show thesis using assms used [OF Some 1] by simp
    next
      case 2
      note go = assms [unfolded syncPodInProvider_def if_not_P [OF live] Some option.case if_not_P [OF 2]]
      show thesis
      proof (cases "DeletionTimestamp (Meta pod)")
        case (Some d)
        with go obtain st1 e where d: "deletePod env pod st = Val (st1, e)" by auto
        show thesis
        proof (cases "e \<noteq> None \<and> \<not> IsNotFound e")
          case True
          then have "st' = st1" "err \<noteq> None"
            using go Some d by (auto split: if_splits)
          then show thesis
            using Some d True \<open>knownPods st key = Some a\<close> by (intro delete_failed) auto
        next
          case False
          then obtain grace where g: "DeletionGracePeriodSeconds (Meta pod) = Some grace"
            using go Some d by (cases "DeletionGracePeriodSeconds (Meta pod)") auto
          show thesis
            by (rule deleted [OF \<open>knownPods st key = Some a\<close> _ _ _ d _ g]) (use go Some d g False live in auto)
        qed
      next
        case None
        show thesis
        proof (cases "shouldSkipPodStatusUpdate pod")
          case True
          then show thesis
            using go None by (intro terminal [OF \<open>knownPods st key = Some a\<close>]) (auto simp: shouldSkipPodStatusUpdate_def)
        next
          case False
          with go None obtain st1 e where c: "createOrUpdatePod env pod st = Val (st1, e)"
            by (auto simp: shouldSkipPodStatusUpdate_def)
          show thesis
            by (rule synced [OF \<open>knownPods st key = Some a\<close> None False c])
              (use go None False c in \<open>cases e; auto simp: shouldSkipPodStatusUpdate_def\<close>)+
        qed
      qed
    qed
  qed
qed

lemma pc_inv_syncPodInProvider [inv_intros]:
  assumes inv: "pc_inv st" and sync: "syncPodInProvider env pod key st = Val (st', err)"
  shows "pc_inv st'"
  using sync
proof (cases rule: syncPodInProvider_cases)
  case (delete_failed a)
  then show ?thesis using pc_inv_deletePod [OF inv] by blast
next
  case (deleted a st1 e grace)
  then show ?thesis
    using pc_inv_deletePod [OF inv deleted(5)] by (auto simp: knownPod_ok_def intro!: pc_inv_write)
next
  case (synced a st1 e)
  then show ?thesis
    using pc_inv_createOrUpdatePod [OF inv synced(4)] by (auto simp: knownPod_ok_def intro!: pc_inv_write)
qed (use inv in \<open>auto simp: knownPod_ok_def intro!: pc_inv_write\<close>)

text \<open>The handler on a pod that the lister does not find.\<close>

lemma sync_handler_missing_cases:
  assumes "syncPodFromKubernetesHandler env key st = Val (st', err)"
    and "SplitMetaNamespaceKey env key = Inr (namespace, name)" and "podsLister_Get env namespace name = Inl lerr"
  obtains (kept) "st' = st" "api_IsNotFound (envlib env) lerr \<Longrightarrow>
      (\<exists>pod gerr. GetPod (handler env) namespace name (provider st) = Val (pod, gerr) \<and> (err = None \<longrightarrow> pod = None \<or> gerr \<noteq> None))"
      "\<not> api_IsNotFound (envlib env) lerr \<Longrightarrow> err \<noteq> None"
  | (deleted) pd derr where "GetPod (handler env) namespace name (provider st) = Val (Some pd, None)"
      "call_provider env (DeletePod (handler env) (clock env) pd) st = Val (st', derr)" "err = None \<longleftrightarrow> derr = None \<or> IsNotFound derr"
proof (cases "api_IsNotFound (envlib env) lerr")
  case False
  then show thesis using assms kept by (auto simp: syncPodFromKubernetesHandler_def)
next
  case True
  from assms True obtain pod gerr where g: "GetPod (handler env) namespace name (provider st) = Val (pod, gerr)"
    by (auto simp: syncPodFromKubernetesHandler_def)
  show thesis
  proof (cases "gerr \<noteq> None \<or> pod = None")
    case True
    then show thesis
      using assms \<open>api_IsNotFound (envlib env) lerr\<close> g
      by (intro kept) (auto simp: syncPodFromKubernetesHandler_def split: if_splits option.splits)
  next
    case False
    then obtain pd where "pod = Some pd" "gerr = None" by auto
    then have run: "obind (call_provider env (DeletePod (handler env) (clock env) pd) st) (\<lambda>(st1, err).
        if IsNotFound err then Val (st1, None)
        else Val (st1, pkg_Wrap err (''failed to delete pod '' @ fmt_q (loggablePodNameFromCoordinates namespace name)
          @ '' in the provider''))) = Val (st', err)"
      using assms \<open>api_IsNotFound (envlib env) lerr\<close> g
      unfolding syncPodFromKubernetesHandler_def by (simp add: api_IsNotFound_opt_def del: obind_Val_iff)
    then obtain st1 derr where d: "call_provider env (DeletePod (handler env) (clock env) pd) st = Val (st1, derr)"
      by auto
    then have "st1 = st'" "err = None \<longleftrightarrow> derr = None \<or> IsNotFound derr"
      using run by (cases derr; auto split: if_splits)+
    then show thesis using deleted g d \<open>pod = Some pd\<close> \<open>gerr = None\<close> by blast
  qed
qed

lemma pc_inv_sync_handler [inv_intros]:
  assumes inv: "pc_inv st" and run: "syncPodFromKubernetesHandler env key st = Val (st', err)"
  shows "pc_inv st'"
proof (cases "SplitMetaNamespaceKey env key")
  case (Inl e)
  then show ?thesis using assms by (simp add: syncPodFromKubernetesHandler_def)
next
  case (Inr nn)
  obtain namespace name where nn: "nn = (namespace, name)" by fastforce
  show ?thesis
  proof (cases "podsLister_Get env namespace name")
    case (Inl lerr)
    from run Inr [unfolded nn] Inl show ?thesis
    proof (cases rule: sync_handler_missing_cases)
      case kept
      then show ?thesis using inv by simp
    next
      case (deleted pd derr)
      then show ?thesis by (blast intro: pc_inv_call_provider [OF inv])
    qed
  next
    case (Inr pod)
    then show ?thesis
      using run \<open>SplitMetaNamespaceKey env key = Inr nn\<close> nn pc_inv_syncPodInProvider [OF inv]
      by (simp add: syncPodFromKubernetesHandler_def)
  qed
qed

lemma pc_inv_AddFunc [inv_intros]: "pc_inv st \<Longrightarrow> pc_inv (AddFunc env pod st)"
  by (simp add: AddFunc_def pc_inv_store split: sum.split)

lemma pc_inv_DeleteFunc [inv_intros]: "pc_inv st \<Longrightarrow> pc_inv (DeleteFunc env pod st)"
  by (auto simp: DeleteFunc_def pc_inv_def ran_def split: sum.split)

lemma UpdateFunc_known:
  assumes inv: "pc_inv st" and key: "MetaNamespaceKeyFunc env newPod = Inr key" and a: "knownPods st key = Some a"
  shows "\<exists>st'. UpdateFunc env oldPod newPod st = Val st' \<and> pc_inv st'"
proof -
  have "a < length (heap st)" using inv a by (auto simp: pc_inv_def ran_def)
  then have k: "knownPod_ok (heap st ! a)" using inv by (simp add: pc_inv_def list_all_length)
  have w: "pc_inv (write_knownPod a (\<lambda>k. k\<lparr>lastPodStatusUpdateSkipped := False\<rparr>) st)"
    by (rule pc_inv_write [OF inv]) (simp add: knownPod_ok_def)
  show ?thesis
  proof (cases "lastPodStatusUpdateSkipped (heap st ! a)")
    case True
    then obtain last where "lastPodStatusReceivedFromProvider (heap st ! a) = Some last"
      using k by (auto simp: knownPod_ok_def)
    then show ?thesis
      using True w inv by (cases "Status newPod = Status last") (simp_all add: UpdateFunc_def key a del: obind_Val_iff)
  next
    case False
    then show ?thesis using inv by (simp add: UpdateFunc_def key a del: obind_Val_iff)
  qed
qed

subsection \<open>Runs of the controller\<close>

text \<open>
  What can happen, in any order: the informer reports a new pod, a changed one (only for a pod it has
  reported and not deleted since, which is its contract) or a deleted one; the provider notifies
  a status; a worker runs one of the three handlers. The environment \<open>env\<close> may differ at each step.
\<close>

inductive pc_step :: "('p, 'q, 'k) pc_state \<Rightarrow> ('p, 'q, 'k) pc_state \<Rightarrow> bool" where
  add: "pc_step st (AddFunc env pod st)"
| update: "MetaNamespaceKeyFunc env newPod = Inr key \<Longrightarrow> knownPods st key \<noteq> None \<Longrightarrow>
    UpdateFunc env oldPod newPod st = Val st' \<Longrightarrow> pc_step st st'"
| delete: "pc_step st (DeleteFunc env pod st)"
| notified: "pc_step st (notify env pod st)"
| sync: "syncPodFromKubernetesHandler env key st = Val (st', err) \<Longrightarrow> pc_step st st'"
| sync_status: "syncPodStatusFromProviderHandler env key st = Val (st', err) \<Longrightarrow> pc_step st st'"
| sync_delete: "deletePodsFromKubernetesHandler env key st = Val (st', err) \<Longrightarrow> pc_step st st'"

inductive pc_reachable :: "('p, 'q, 'k) pc_state \<Rightarrow> bool" where
  start: "NewPodController cfg p fresh k = Inr st \<Longrightarrow> pc_reachable st"
| step: "pc_reachable st \<Longrightarrow> pc_step st st' \<Longrightarrow> pc_reachable st'"

lemma pc_inv_NewPodController: "NewPodController cfg p fresh k = Inr st \<Longrightarrow> pc_inv st"
  by (auto simp: NewPodController_def pc_inv_def split: option.splits)

lemma pc_inv_step: "pc_step st st' \<Longrightarrow> pc_inv st \<Longrightarrow> pc_inv st'"
proof (induction rule: pc_step.induct)
  case (update env newPod key st oldPod st')
  then show ?case using UpdateFunc_known [of st env newPod key] by (metis not_Some_eq outcome.inject(1))
qed (auto intro: inv_intros)

lemma pc_reachable_inv: "pc_reachable st \<Longrightarrow> pc_inv st"
  by (induction rule: pc_reachable.induct) (auto intro: pc_inv_NewPodController pc_inv_step)


subsection \<open>A concrete environment\<close>

text \<open>
  For the examples: the mock provider, the \<open>fifo\<close> queue, an API server that logs the pods whose
  status is written, keys \<open>namespace/name\<close> as client-go makes them, and a lister over a list of pods.
\<close>

definition demo_lister :: "Pod list \<Rightarrow> string \<Rightarrow> string \<Rightarrow> Pod result" where
  "demo_lister ps ns n =
     (case find (\<lambda>p. Namespace (Meta p) = ns \<and> Name (Meta p) = n) ps of
        Some p \<Rightarrow> Inr p | None \<Rightarrow> Inl (StatusError ''NotFound'' ''not found''))"

definition demo_env :: "Pod list \<Rightarrow> (MockProvider, fifo, Pod list) pc_env" where
  "demo_env ps = \<lparr>handler = mock_handler, wq = fifo_workqueue, envlib = sample_lib,
     resourceManager = sample_rm\<lparr>podListerList := Inr ps, podListerGet := demo_lister ps\<rparr>,
     MetaNamespaceKeyFunc = (\<lambda>p. Inr (Namespace (Meta p) @ ''/'' @ Name (Meta p))),
     DeletionHandlingMetaNamespaceKeyFunc = (\<lambda>p. Inr (Namespace (Meta p) @ ''/'' @ Name (Meta p))),
     SplitMetaNamespaceKey = (\<lambda>k. Inr (takeWhile (\<lambda>c. c \<noteq> CHR ''/'') k, tl (dropWhile (\<lambda>c. c \<noteq> CHR ''/'') k))),
     client_UpdateStatus = (\<lambda>p log. (log @ [p], None)), client_Delete = (\<lambda>ns n g log. (log, None)),
     errWaitTimeout = ErrorString ''timed out waiting for the condition'', clock = 100\<rparr>"

definition demo_mock :: MockProvider where
  "demo_mock = \<lparr>nodeName = ''node'', operatingSystem = [], internalIP = [], daemonEndpointPort = 0, pods = [],
     config = \<lparr>CPU = [], Memory = [], Pods = []\<rparr>, startTime = 0, notifier_set = True\<rparr>"

definition demo_start :: "(MockProvider, fifo, Pod list) pc_state" where
  "demo_start = \<lparr>provider = demo_mock, knownPods = Map.empty, heap = [], syncPodsFromKubernetes = fifo_empty,
     deletePodsFromKubernetes = fifo_empty, syncPodStatusFromProvider = fifo_empty, client = [],
     envst = \<lparr>recorded = [], nodeIp = []\<rparr>\<rparr>"

definition web :: Pod where "web = named_pod ''ns'' ''web''"

lemmas demo_defs = demo_env_def demo_mock_def demo_start_def web_def

lemma demo_start_reachable: "pc_reachable demo_start"
proof (rule pc_reachable.start)
  show "NewPodController \<lparr>has_PodClient = True, has_EventRecorder = True, has_PodInformer = True, has_ConfigMapInformer = True,
      has_SecretInformer = True, has_ServiceInformer = True, has_Provider = True, has_RateLimiter = False\<rparr> demo_mock fifo_empty [] = Inr demo_start"
    by (simp add: NewPodController_def check_config_def demo_start_def New_def)
qed


subsection \<open>Convergence of the provider\<close>

text \<open>Environment variables do not change a pod's name, so the provider is asked about the right pod.\<close>

lemma populateInitContainers_Meta: "populateInitContainers lib idxs p rm s = Val (s', p', e) \<Longrightarrow> Meta p' = Meta p"
proof (induction idxs arbitrary: p s)
  case (Cons i idxs)
  obtain s1 r where "populateContainerEnvironment lib p (InitContainers (Spec p) ! i) rm s = Val (s1, r)"
    using Cons.prems by auto
  then show ?case using Cons by (cases r) auto
qed simp

lemma populateContainers_Meta: "populateContainers lib idxs p rm s = Val (s', p', e) \<Longrightarrow> Meta p' = Meta p"
proof (induction idxs arbitrary: p s)
  case (Cons i idxs)
  obtain s1 r where "populateContainerEnvironment lib p (Containers (Spec p) ! i) rm s = Val (s1, r)"
    using Cons.prems by auto
  then show ?case using Cons by (cases r) auto
qed simp

lemma Populate_names:
  assumes "PopulateEnvironmentVariables lib pod rm st = Val (st', pod', err)"
  shows "Meta pod' = Meta pod"
proof -
  obtain st1 pod1 err1 where i: "populateInitContainers lib [0..<length (InitContainers (Spec pod))] pod rm st = Val (st1, pod1, err1)"
    using assms by (auto simp: PopulateEnvironmentVariables_def)
  then have "Meta pod1 = Meta pod" by (rule populateInitContainers_Meta)
  then show ?thesis
    using assms i populateContainers_Meta [of lib _ pod1 rm st1 st' pod' err]
    by (cases err1) (simp_all add: PopulateEnvironmentVariables_def)
qed

context pod_provider
begin

abbreviation pod_key :: "Pod \<Rightarrow> string" where
  "pod_key pod \<equiv> key (Namespace (Meta pod)) (Name (Meta pod))"

definition frame :: "string \<Rightarrow> ('p, 'q, 'k) pc_state \<Rightarrow> ('p, 'q, 'k) pc_state \<Rightarrow> bool" where
  "frame k st st' = (ok (provider st') \<and> (\<forall>k'. k' \<noteq> k \<longrightarrow> view (provider st') k' = view (provider st) k'))"

lemma call_delete:
  assumes "handler env = ops" and "ok (provider st)"
    and "call_provider env (DeletePod (handler env) t pod) st = Val (st', err)"
  shows "frame (pod_key pod) st st' \<and> (err = None \<or> IsNotFound err \<longrightarrow> view (provider st') (pod_key pod) = None)"
proof -
  obtain p' ns where "DeletePod ops t pod (provider st) = Val (p', ns, err)" and "st' = fold (notify env) ns (st\<lparr>provider := p'\<rparr>)"
    using assms(1,3) by (auto simp: call_provider_Val)
  then show ?thesis using delete_view [OF assms(2), of t pod p' ns err] by (simp add: frame_def)
qed

lemma call_create:
  assumes "handler env = ops" and "ok (provider st)"
    and "call_provider env (CreatePod (handler env) t pod) st = Val (st', err)"
  shows "frame (pod_key pod) st st' \<and> (err = None \<longrightarrow> view (provider st') (pod_key pod) \<noteq> None)"
proof -
  obtain p' ns where "CreatePod ops t pod (provider st) = Val (p', ns, err)" and "st' = fold (notify env) ns (st\<lparr>provider := p'\<rparr>)"
    using assms(1,3) by (auto simp: call_provider_Val)
  then show ?thesis using create_view [OF assms(2), of t pod p' ns err] by (simp add: frame_def)
qed

lemma call_update:
  assumes "handler env = ops" and "ok (provider st)"
    and "call_provider env (UpdatePod (handler env) t pod) st = Val (st', err)"
  shows "frame (pod_key pod) st st' \<and> (err = None \<longrightarrow> view (provider st') (pod_key pod) = Some pod)"
proof -
  obtain p' ns where "UpdatePod ops t pod (provider st) = Val (p', ns, err)" and "st' = fold (notify env) ns (st\<lparr>provider := p'\<rparr>)"
    using assms(1,3) by (auto simp: call_provider_Val)
  then show ?thesis using update_view [OF assms(2), of t pod p' ns err] by (simp add: frame_def)
qed

text \<open>A pod that Kubernetes no longer has is gone from the provider when its key has been synced without error.\<close>

lemma sync_removes_missing:
  assumes h: "handler env = ops" and ok: "ok (provider st)"
    and split: "SplitMetaNamespaceKey env k = Inr (namespace, name)"
    and missing: "podsLister_Get env namespace name = Inl lerr" "api_IsNotFound (envlib env) lerr"
    and run: "syncPodFromKubernetesHandler env k st = Val (st', err)"
  shows "frame (key namespace name) st st' \<and> (err = None \<longrightarrow> view (provider st') (key namespace name) = None)"
  using run split missing(1)
proof (cases rule: sync_handler_missing_cases)
  case kept
  then obtain pod gerr where "GetPod ops namespace name (provider st) = Val (pod, gerr)" "err = None \<longrightarrow> pod = None \<or> gerr \<noteq> None"
    using missing(2) h by auto
  then show ?thesis
    using get_view [OF ok, of namespace name] kept(1) ok by (auto simp: frame_def)
next
  case (deleted pd derr)
  then have "view (provider st) (key namespace name) = Some pd"
    using get_known [OF ok, of namespace name] h by auto
  then have "pod_key pd = key namespace name" using view_key [OF ok] by metis
  then show ?thesis using call_delete [OF h ok deleted(2)] deleted(3) by simp
qed

lemma createOrUpdate_knows:
  assumes h: "handler env = ops" and ok: "ok (provider st)"
    and run: "createOrUpdatePod env pod st = Val (st', err)"
  shows "frame (pod_key pod) st st' \<and> (err = None \<longrightarrow> view (provider st') (pod_key pod) \<noteq> None)"
  using run
proof (cases rule: createOrUpdatePod_cases)
  case (env_error es e)
  then show ?thesis using ok by (simp add: frame_def)
next
  case (same es pd pfp e')
  then have "view (provider st) (pod_key pod) = Some pfp"
    using get_known [OF ok same(4) [unfolded h]] Populate_names [OF same(3)] by simp
  then show ?thesis using ok same(1) by (simp add: frame_def)
next
  case (update es pd pfp e')
  then show ?thesis
    using call_update [OF h, of "st\<lparr>envst := es\<rparr>"] ok Populate_names [OF update(2)]
    by (fastforce simp: updateInProvider_def frame_def Let_def split: option.splits sum.splits)
next
  case (create es pd e')
  then show ?thesis
    using call_create [OF h, of "st\<lparr>envst := es\<rparr>"] ok Populate_names [OF create(2)]
    by (fastforce simp: createInProvider_def frame_def split: option.splits)
qed

lemma sync_creates_live:
  assumes h: "handler env = ops" and ok: "ok (provider st)"
    and live: "DeletionTimestamp (Meta pod) = None" "\<not> shouldSkipPodStatusUpdate pod"
    and known: "knownPods st k = Some a" "lastPodUsed (heap st ! a) = None"
    and run: "syncPodInProvider env pod k st = Val (st', err)"
  shows "frame (pod_key pod) st st' \<and> (err = None \<longrightarrow> view (provider st') (pod_key pod) \<noteq> None)"
  using run
proof (cases rule: syncPodInProvider_cases)
  case (synced a' st1 e)
  then show ?thesis using createOrUpdate_knows [OF h ok synced(4)] by (auto simp: frame_def)
qed (use live known in auto)

lemma deleteEach_view:
  assumes "handler env = ops" and "ok (provider st)" and "deleteEach env ptd st = Val st'"
  shows "ok (provider st') \<and> (\<forall>k. k \<notin> pod_key ` set ptd \<longrightarrow> view (provider st') k = view (provider st) k)"
  using assms(2,3)
proof (induction ptd arbitrary: st)
  case (Cons pod ptd)
  then obtain st1 err where "call_provider env (DeletePod (handler env) (clock env) pod) st = Val (st1, err)"
      and rest: "deleteEach env ptd st1 = Val st'"
    by auto
  then have "frame (pod_key pod) st st1"
    using call_delete [OF assms(1) Cons.prems(1)] by blast
  then show ?case using Cons.IH [OF _ rest] by (auto simp: frame_def)
qed simp

end

text \<open>
  C1: When the sync handler returns without error for a key whose pod Kubernetes does not have, the
  (mock) provider does not know the pod either, and every other pod of the provider is untouched
  whatever the handler returns.
\<close>

theorem sync_deletes_missing_pod:
  assumes "handler env = mock_handler" and "mock_ok (provider st)"
    and "SplitMetaNamespaceKey env k = Inr (namespace, name)"
    and "podsLister_Get env namespace name = Inl lerr" and "api_IsNotFound (envlib env) lerr"
    and "syncPodFromKubernetesHandler env k st = Val (st', err)"
  shows "(err = None \<longrightarrow> mock_view (provider st') (buildKeyFromNames namespace name) = None) \<and>
    (\<forall>k'. k' \<noteq> buildKeyFromNames namespace name \<longrightarrow> mock_view (provider st') k' = mock_view (provider st) k')"
  using mock_pods.sync_removes_missing [OF assms] by (simp add: mock_pods.frame_def)

text \<open>
  C5: When the sync handler returns without error for a live pod (not terminal, not being deleted) that was
  not synced before, the (mock) provider knows the pod, and its other pods are untouched.
\<close>

theorem sync_creates_live_pod:
  assumes "handler env = mock_handler" and "mock_ok (provider st)"
    and "DeletionTimestamp (Meta pod) = None" and "\<not> shouldSkipPodStatusUpdate pod"
    and "knownPods st k = Some a" and "lastPodUsed (heap st ! a) = None"
    and "syncPodInProvider env pod k st = Val (st', err)"
  shows "(err = None \<longrightarrow> mock_view (provider st') (buildKeyFromNames (Namespace (Meta pod)) (Name (Meta pod))) \<noteq> None) \<and>
    (\<forall>k'. k' \<noteq> buildKeyFromNames (Namespace (Meta pod)) (Name (Meta pod)) \<longrightarrow>
      mock_view (provider st') k' = mock_view (provider st) k')"
  using mock_pods.sync_creates_live [OF assms] by (simp add: mock_pods.frame_def)

text \<open>The two examples: a pod added by the informer is created; deleted from Kubernetes, it is removed.\<close>

definition demo_added :: "(MockProvider, fifo, Pod list) pc_state" where
  "demo_added = AddFunc (demo_env [web]) web demo_start"

fun returns_nil :: "('p, 'q, 'k) step_result \<Rightarrow> bool" where
  "returns_nil (Val (st, None)) = True"
| "returns_nil r = False"

fun state_of :: "('p, 'q, 'k) step_result \<Rightarrow> ('p, 'q, 'k) pc_state" where
  "state_of (Val (st, err)) = st"

lemma returns_nil_run: "returns_nil r \<Longrightarrow> r = Val (state_of r, None)"
  by (cases r rule: returns_nil.cases) auto

definition demo_synced :: "(MockProvider, fifo, Pod list) pc_state" where
  "demo_synced = state_of (syncPodInProvider (demo_env [web]) web ''ns/web'' demo_added)"

lemma demo_synced_run: "syncPodInProvider (demo_env [web]) web ''ns/web'' demo_added = Val (demo_synced, None)"
  unfolding demo_synced_def by (rule returns_nil_run) code_simp

lemma demo_synced_pods: "pods (provider demo_synced) = [(''ns-web'', created_pod 100 web)]"
  by code_simp

lemma demo_added_pods: "pods (provider demo_added) = []"
  by code_simp

theorem sync_creates_live_pod_witness:
  "mock_view (provider demo_synced) (buildKeyFromNames ''ns'' ''web'') \<noteq> None"
proof -
  have "DeletionTimestamp (Meta web) = None" "\<not> shouldSkipPodStatusUpdate web"
    by (simp_all add: web_def zero_values shouldSkipPodStatusUpdate_def)
  moreover have "mock_ok (provider demo_added)" by (simp add: mock_ok_def demo_added_pods go_keys_def)
  moreover have "knownPods demo_added ''ns/web'' = Some 0" "lastPodUsed (heap demo_added ! 0) = None"
    by code_simp+
  moreover have "handler (demo_env [web]) = mock_handler" by (simp add: demo_env_def)
  ultimately show ?thesis
    using sync_creates_live_pod [OF _ _ _ _ _ _ demo_synced_run] by (simp add: web_def zero_values)
qed

theorem sync_deletes_missing_pod_witness:
  "\<exists>st'. syncPodFromKubernetesHandler (demo_env []) ''ns/web'' demo_synced = Val (st', None) \<and>
    mock_view (provider demo_synced) (buildKeyFromNames ''ns'' ''web'') \<noteq> None \<and>
    mock_view (provider st') (buildKeyFromNames ''ns'' ''web'') = None"
proof -
  have "returns_nil (syncPodFromKubernetesHandler (demo_env []) ''ns/web'' demo_synced)"
    by code_simp
  then have run: "\<exists>st'. syncPodFromKubernetesHandler (demo_env []) ''ns/web'' demo_synced = Val (st', None)"
    using returns_nil_run by blast
  have ok: "mock_ok (provider demo_synced)"
    by (simp add: mock_ok_def demo_synced_pods go_keys_def buildKey_def buildKeyFromNames_def created_pod_def web_def zero_values)
  have "mock_view (provider demo_synced) (buildKeyFromNames ''ns'' ''web'') \<noteq> None"
    by (simp add: mock_view_def demo_synced_pods buildKeyFromNames_def)
  moreover have "SplitMetaNamespaceKey (demo_env []) ''ns/web'' = Inr (''ns'', ''web'')" by (simp add: demo_env_def)
  moreover have "podsLister_Get (demo_env []) ''ns'' ''web'' = Inl (StatusError ''NotFound'' ''not found'')"
    by (simp add: demo_env_def podsLister_Get_def demo_lister_def)
  moreover have "api_IsNotFound (envlib (demo_env [])) (StatusError ''NotFound'' ''not found'')"
    by (simp add: demo_env_def sample_lib_def)
  moreover have "handler (demo_env []) = mock_handler" by (simp add: demo_env_def)
  ultimately show ?thesis using run ok sync_deletes_missing_pod by blast
qed

end
