(* ===== verification/Pod_Status.thy ===== *)
theory Pod_Status
  imports Pod_Controller_Props
begin

text \<open>
  More properties of the pod controller: what reaches the API server, when the status handler
  panics, what the comparison of pods sees, the deletion of a pod that is marked for deletion and of
  the dangling pods at start-up.
\<close>

subsection \<open>Statuses written to the API server\<close>

text \<open>
  \<open>updatePodStatus\<close> panics exactly when the pod is not terminal, is known, and no status has been
  received from the provider since its entry in \<open>knownPods\<close> was made.
\<close>

theorem updatePodStatus_panics_iff:
  "\<not> no_panic (updatePodStatus env pod key st) \<longleftrightarrow>
    \<not> shouldSkipPodStatusUpdate pod \<and>
    (\<exists>a. knownPods st key = Some a \<and> lastPodStatusReceivedFromProvider (heap st ! a) = None)"
  by (cases "knownPods st key"; cases "lastPodStatusReceivedFromProvider (heap st ! the (knownPods st key))")
    (auto simp: updatePodStatus_def Let_def split: prod.splits if_splits)

lemma updateInProvider_notified:
  assumes upd: "UpdatePod (handler env) (clock env) pod (provider st) = Val (p', [pod], None)"
    and key: "MetaNamespaceKeyFunc env pod = Inr key"
    and known: "knownPods st key = Some a" "lastPodStatusReceivedFromProvider (heap st ! a) \<noteq> Some pod"
  shows "\<exists>st'. updateInProvider env pod st = Val (st', None) \<and>
    syncPodStatusFromProvider st' = Enqueue (wq env) key (syncPodStatusFromProvider st) \<and>
    knownPods st' key = Some (length (heap st)) \<and> heap st' ! length (heap st) = new_knownPod"
proof -
  let ?st1 = "notify env pod (st\<lparr>provider := p'\<rparr>)"
  have "notify_rounds env pod (st\<lparr>provider := p'\<rparr>) = (Some a, podsLister_Get env (Namespace (Meta pod)) (Name (Meta pod))) #
      replicate MaxRetries (Some a, podsLister_Get env (Namespace (Meta pod)) (Name (Meta pod)))"
    by (simp add: notify_rounds_def key known(1))
  then have q: "syncPodStatusFromProvider ?st1 = Enqueue (wq env) key (syncPodStatusFromProvider st)"
    using known(2) by (simp add: notify_def enqueuePodStatusUpdate_def key)
  have "call_provider env (UpdatePod (handler env) (clock env) pod) st = Val (?st1, None)"
    by (simp add: call_provider_def upd del: obind_Val_iff)
  then have "updateInProvider env pod st = Val (store_new_knownPod key
      (recorder_Event pod EventTypeNormal ''ProviderUpdateSuccess'' ''Update pod in provider successfully'' ?st1), None)"
    by (simp add: updateInProvider_def key del: obind_Val_iff)
  then show ?thesis
    using q by (simp add: store_new_knownPod_def nth_append del: obind_Val_iff)
qed

text \<open>
  A status handler run after a successful update panics: a provider that notifies the updated pod
  has the key queued for a status update, but \<open>createOrUpdatePod\<close> then replaces the known pod by an
  empty one, and the queued handler reads the status through the nil pointer.
\<close>

theorem status_handler_panics_after_update:
  assumes "UpdatePod (handler env) (clock env) pod (provider st) = Val (p', [pod], None)"
    and "MetaNamespaceKeyFunc env pod = Inr key"
    and "knownPods st key = Some a" and "lastPodStatusReceivedFromProvider (heap st ! a) \<noteq> Some pod"
    and "SplitMetaNamespaceKey env key = Inr (namespace, name)"
    and "podsLister_Get env namespace name = Inr listed" and "\<not> shouldSkipPodStatusUpdate listed"
  shows "\<exists>st'. updateInProvider env pod st = Val (st', None) \<and>
    syncPodStatusFromProvider st' = Enqueue (wq env) key (syncPodStatusFromProvider st) \<and>
    syncPodStatusFromProviderHandler env key st' = Panic nil_deref"
  using updateInProvider_notified [OF assms(1-4)] assms(5-7)
  by (auto simp: syncPodStatusFromProviderHandler_def updatePodStatus_def new_knownPod_def)

text \<open>The example: a label of the pod changes after it has been created in the mock provider.\<close>

definition web2 :: Pod where
  "web2 = web\<lparr>Meta := (Meta web)\<lparr>Labels := Some [(''app'', ''web'')]\<rparr>\<rparr>"

theorem status_handler_panics_after_update_witness:
  "\<exists>st'. updateInProvider (demo_env [web2]) web2 demo_synced = Val (st', None) \<and>
    syncPodStatusFromProvider st' = Enqueue fifo_workqueue ''ns/web'' (syncPodStatusFromProvider demo_synced) \<and>
    syncPodStatusFromProviderHandler (demo_env [web2]) ''ns/web'' st' = Panic nil_deref"
proof -
  have "(case UpdatePod mock_handler 100 web2 (provider demo_synced) of Val (p', n, e) \<Rightarrow> n = [web2] \<and> e = None | Panic e \<Rightarrow> False)"
    by code_simp
  then obtain p' where upd: "UpdatePod (handler (demo_env [web2])) (clock (demo_env [web2])) web2 (provider demo_synced) = Val (p', [web2], None)"
    by (auto simp: demo_env_def split: outcome.splits)
  have k: "knownPods demo_synced ''ns/web'' = Some 0" "lastPodStatusReceivedFromProvider (heap demo_synced ! 0) \<noteq> Some web2"
    by code_simp+
  have d: "MetaNamespaceKeyFunc (demo_env [web2]) web2 = Inr ''ns/web''"
      "SplitMetaNamespaceKey (demo_env [web2]) ''ns/web'' = Inr (''ns'', ''web'')" "wq (demo_env [web2]) = fifo_workqueue"
    by (simp_all add: demo_env_def web2_def web_def zero_values)
  have l: "podsLister_Get (demo_env [web2]) ''ns'' ''web'' = Inr web2" "\<not> shouldSkipPodStatusUpdate web2"
    by (simp_all add: demo_env_def podsLister_Get_def demo_lister_def web2_def web_def zero_values shouldSkipPodStatusUpdate_def)
  show ?thesis
    using status_handler_panics_after_update [OF upd d(1) k d(2) l] d(3) by simp
qed

definition pushed_pod :: "Pod \<Rightarrow> Pod \<Rightarrow> Pod" where
  "pushed_pod podFromKubernetes lastp =
     lastp\<lparr>Meta := (Meta lastp)\<lparr>UID := UID (Meta podFromKubernetes), ResourceVersion := ''0''\<rparr>\<rparr>"



text \<open>
  C8: No status is lost when an update is skipped because the statuses agreed at that moment: if the informer then
  reports the pod with another status, the key is queued for a status update, once, since the mark is
  reset by it.
\<close>

theorem skipped_status_is_requeued:
  assumes "\<not> shouldSkipPodStatusUpdate pod" and "knownPods st key = Some a" and "a < length (heap st)"
    and "lastPodStatusReceivedFromProvider (heap st ! a) = Some lastp" and "DeletionTimestamp (Meta lastp) = None"
    and "Status pod = Status lastp" and "MetaNamespaceKeyFunc env newPod = Inr key" and "Status newPod \<noteq> Status lastp"
  shows "\<exists>st1 st2 st3. updatePodStatus env pod key st = Val (st1, None) \<and>
    UpdateFunc env pod newPod st1 = Val st2 \<and>
    syncPodStatusFromProvider st2 = Enqueue (wq env) key (syncPodStatusFromProvider st) \<and>
    UpdateFunc env newPod newPod st2 = Val st3 \<and> syncPodStatusFromProvider st3 = syncPodStatusFromProvider st2"
proof -
  let ?st1 = "write_knownPod a (\<lambda>k. k\<lparr>lastPodStatusUpdateSkipped := True\<rparr>) st"
  have s: "updatePodStatus env pod key st = Val (?st1, None)"
    using assms(1,2,4-6) by (simp add: updatePodStatus_def del: obind_Val_iff)
  have h: "heap ?st1 ! a = (heap st ! a)\<lparr>lastPodStatusUpdateSkipped := True\<rparr>"
    using assms(3) by (simp add: write_knownPod_def)
  let ?st2 = "(write_knownPod a (\<lambda>k. k\<lparr>lastPodStatusUpdateSkipped := False\<rparr>) ?st1)
      \<lparr>syncPodStatusFromProvider := Enqueue (wq env) key (syncPodStatusFromProvider st)\<rparr>"
  let ?st2' = "if podShouldEnqueue pod newPod
      then ?st2\<lparr>syncPodsFromKubernetes := Enqueue (wq env) key (syncPodsFromKubernetes st)\<rparr> else ?st2"
  have u: "UpdateFunc env pod newPod ?st1 = Val ?st2'"
    using assms(2,4,7,8) h by (simp add: UpdateFunc_def del: obind_Val_iff)
  have "\<not> lastPodStatusUpdateSkipped (heap ?st2' ! a)" "knownPods ?st2' key = Some a"
    using assms(2,3) by (simp_all add: write_knownPod_def)
  then have "\<exists>st3. UpdateFunc env newPod newPod ?st2' = Val st3 \<and> syncPodStatusFromProvider st3 = syncPodStatusFromProvider ?st2'"
    using assms(7) by (cases "podShouldEnqueue newPod newPod") (simp_all add: UpdateFunc_def del: obind_Val_iff)
  then show ?thesis using s u by (auto simp del: obind_Val_iff)
qed

theorem skipped_status_is_requeued_witness:
  "\<exists>st1 st2 st3. updatePodStatus (demo_env [web]) (created_pod 100 web) ''ns/web'' demo_synced = Val (st1, None) \<and>
    UpdateFunc (demo_env [web]) (created_pod 100 web) web st1 = Val st2 \<and>
    syncPodStatusFromProvider st2 = Enqueue (wq (demo_env [web])) ''ns/web'' (syncPodStatusFromProvider demo_synced) \<and>
    UpdateFunc (demo_env [web]) web web st2 = Val st3 \<and> syncPodStatusFromProvider st3 = syncPodStatusFromProvider st2"
proof (rule skipped_status_is_requeued [where a = 0 and lastp = "created_pod 100 web"])
  show "knownPods demo_synced ''ns/web'' = Some 0" by code_simp
  show "0 < length (heap demo_synced)" by code_simp
  show "lastPodStatusReceivedFromProvider (heap demo_synced ! 0) = Some (created_pod 100 web)" by code_simp
qed (simp_all add: web_def zero_values shouldSkipPodStatusUpdate_def created_pod_def created_status_def demo_env_def)

subsection \<open>What the comparison of pods sees\<close>

lemma imageExists_iff: "imageExists c cs b \<longleftrightarrow> b \<or> Image c \<in> Image ` set cs"
  by (induction cs arbitrary: b) auto

lemma containersImageEqual_iff: "containersImageEqual cs1 cs2 \<longleftrightarrow> Image ` set cs1 \<subseteq> Image ` set cs2"
  by (induction cs1) (auto simp: imageExists_iff)

text \<open>
  Despite its name \<open>containersImageEqual\<close> is inclusion of the sets of images, so \<open>podsEqual\<close> is
  not symmetric: a change that only adds images or swaps the images of two containers is not seen
  as a change, and the provider is not updated.
\<close>

theorem podsEqual_characterisation:
  "podsEqual p1 p2 \<longleftrightarrow>
    Image ` set (Containers (Spec p1)) \<subseteq> Image ` set (Containers (Spec p2)) \<and>
    Image ` set (InitContainers (Spec p1)) \<subseteq> Image ` set (InitContainers (Spec p2)) \<and>
    (ActiveDeadlineSeconds (Spec p1), Tolerations (Spec p1), Labels (Meta p1), Annotations (Meta p1)) =
    (ActiveDeadlineSeconds (Spec p2), Tolerations (Spec p2), Labels (Meta p2), Annotations (Meta p2))"
  by (auto simp: podsEqual_def containersImageEqual_iff)

lemma podsEqual_not_symmetric:
  "\<exists>p1 p2. podsEqual p1 p2 \<and> \<not> podsEqual p2 p1"
  by (intro exI [of _ "web\<lparr>Spec := emptySpec\<lparr>Containers := [emptyContainer\<lparr>Image := ''a''\<rparr>]\<rparr>\<rparr>"]
      exI [of _ "web\<lparr>Spec := emptySpec\<lparr>Containers := [emptyContainer\<lparr>Image := ''a''\<rparr>, emptyContainer\<lparr>Image := ''b''\<rparr>]\<rparr>\<rparr>"])
    (simp add: podsEqual_def web_def zero_values)

lemma podShouldEnqueue_refl: "\<not> podShouldEnqueue p p"
  by (simp add: podShouldEnqueue_def podsEqual_def containersImageEqual_iff deleteGraceTimeEqual_def split: option.split)

subsection \<open>Pods marked for deletion\<close>

context pod_provider
begin

lemma sync_deletes_marked:
  assumes h: "handler env = ops" and ok: "ok (provider st)"
    and marked: "DeletionTimestamp (Meta pod) \<noteq> None" "running (ContainerStatuses (Status pod))"
    and known: "knownPods st k = Some a" "lastPodUsed (heap st ! a) = None"
    and run: "syncPodInProvider env pod k st = Val (st', None)"
  shows "view (provider st') (key (Namespace (Meta pod)) (Name (Meta pod))) = None \<and>
    (\<exists>grace. DeletionGracePeriodSeconds (Meta pod) = Some grace \<and>
      deletePodsFromKubernetes st' = EnqueueAfter (wq env) k (int64 (time_Second * grace)) (deletePodsFromKubernetes st))"
  using run
proof (cases rule: syncPodInProvider_cases)
  case (deleted a' st1 e grace)
  then obtain st0 e0 where c: "call_provider env (DeletePod (handler env) (clock env) pod) st = Val (st0, e0)"
    by (auto simp: deletePod_def)
  then have st1: "provider st1 = provider st0" "deletePodsFromKubernetes st1 = deletePodsFromKubernetes st0" "e = e0"
    using deleted(5) by (auto simp: deletePod_def split: option.splits)
  have "deletePodsFromKubernetes st0 = deletePodsFromKubernetes st"
    using c by (auto simp: call_provider_Val)
  then show ?thesis
    using call_delete [OF h ok c] deleted st1 by auto
qed (use marked known in auto)

lemma collectDangling_set:
  "collectDangling env pps ptd = Inr r \<Longrightarrow>
    set r = set ptd \<union> {pp \<in> set pps. isl (podsLister_Get env (Namespace (Meta pp)) (Name (Meta pp)))}"
proof (induction pps arbitrary: ptd)
  case (Cons pp pps)
  then show ?case
    by (cases "podsLister_Get env (Namespace (Meta pp)) (Name (Meta pp))") (fastforce split: if_splits)+
qed simp

lemma deleteEach_deletes:
  assumes h: "handler env = ops" and "ok (provider st)" and "deleteEach env ptd st = Val st'" and "pod \<in> set ptd"
    and succeeds: "\<And>q p p' ns err. q \<in> set ptd \<Longrightarrow> ok p \<Longrightarrow> DeletePod ops (clock env) q p = Val (p', ns, err) \<Longrightarrow> err = None \<or> IsNotFound err"
  shows "view (provider st') (key (Namespace (Meta pod)) (Name (Meta pod))) = None"
  using assms(2-5)
proof (induction ptd arbitrary: st pod)
  case (Cons q ptd)
  from Cons.prems(2) obtain st1 err where c: "call_provider env (DeletePod (handler env) (clock env) q) st = Val (st1, err)"
      and rest: "deleteEach env ptd st1 = Val st'"
    by auto
  then obtain p' ns where "DeletePod ops (clock env) q (provider st) = Val (p', ns, err)"
    using h by (auto simp: call_provider_Val)
  then have "err = None \<or> IsNotFound err" using Cons.prems(1,4) by (meson list.set_intros(1))
  then have f: "ok (provider st1)" "view (provider st1) (key (Namespace (Meta q)) (Name (Meta q))) = None"
    using call_delete [OF h Cons.prems(1) c] by (simp_all add: frame_def)
  show ?case
  proof (cases "key (Namespace (Meta pod)) (Name (Meta pod)) \<in> (\<lambda>pod. key (Namespace (Meta pod)) (Name (Meta pod))) ` set ptd")
    case True
    then obtain pod2 where "pod2 \<in> set ptd"
        "key (Namespace (Meta pod2)) (Name (Meta pod2)) = key (Namespace (Meta pod)) (Name (Meta pod))" by auto
    moreover have "view (provider st') (key (Namespace (Meta pod2)) (Name (Meta pod2))) = None"
      by (rule Cons.IH [OF f(1) rest \<open>pod2 \<in> set ptd\<close>]) (use Cons.prems(4) in \<open>metis list.set_intros(2)\<close>)
    ultimately show ?thesis by metis
  next
    case False
    then show ?thesis
      using deleteEach_view [OF h f(1) rest] f(2) Cons.prems(3) by auto
  qed
qed simp

end

text \<open>
  A running pod that is marked for deletion and has not been synced since is, when the handler
  returns without error, gone from the (mock) provider, and its key is queued so that it is removed
  from the API server after its grace period.
\<close>

theorem marked_pod_is_deleted:
  assumes "handler env = mock_handler" and "mock_ok (provider st)"
    and "DeletionTimestamp (Meta pod) \<noteq> None" and "Pod_Controller.running (ContainerStatuses (Status pod))"
    and "knownPods st k = Some a" and "lastPodUsed (heap st ! a) = None"
    and "syncPodInProvider env pod k st = Val (st', None)"
  shows "mock_view (provider st') (buildKeyFromNames (Namespace (Meta pod)) (Name (Meta pod))) = None \<and>
    (\<exists>grace. DeletionGracePeriodSeconds (Meta pod) = Some grace \<and>
      deletePodsFromKubernetes st' = EnqueueAfter (wq env) k (int64 (time_Second * grace)) (deletePodsFromKubernetes st))"
  by (rule mock_pods.sync_deletes_marked [OF assms])

lemma mock_delete_known:
  assumes "buildKey q = Inr k" and "DeletePod mock_handler t q p = Val (p', ns, err)"
  shows "err = None \<or> IsNotFound err"
  using assms by (auto simp: mock_handler_def mock_DeletePod_def call_notifier_Val NotFound_def split: if_splits)

text \<open>
  At start-up the (mock) provider is left with exactly those of its pods that Kubernetes has, provided
  the lister fails only for missing pods.
\<close>

theorem dangling_pods_are_deleted:
  assumes h: "handler env = mock_handler" and ok: "mock_ok (provider st)"
    and lister: "collectDangling env (map snd (pods (provider st))) [] = Inr ptd"
    and run: "deleteDanglingPods env st = Val st'"
  shows "mock_view (provider st') k =
    (case mock_view (provider st) k of
       None \<Rightarrow> None
     | Some pod \<Rightarrow> if isl (podsLister_Get env (Namespace (Meta pod)) (Name (Meta pod))) then None else Some pod)"
proof -
  have get: "GetPods mock_handler (provider st) = Inr (map snd (pods (provider st)))"
    by (simp add: mock_handler_def mock_GetPods_def)
  have del: "deleteEach env ptd st = Val st'"
    using run h get lister by (simp add: deleteDanglingPods_def)
  have ps: "set (map snd (pods (provider st))) = ran (mock_view (provider st))"
    by (rule mock_pods.pods_view [OF ok get])
  have ptd: "set ptd = {pp \<in> ran (mock_view (provider st)). isl (podsLister_Get env (Namespace (Meta pp)) (Name (Meta pp)))}"
    using mock_pods.collectDangling_set [OF lister] ps by simp
  have key: "key' = buildKeyFromNames (Namespace (Meta pod)) (Name (Meta pod))" if "mock_view (provider st) key' = Some pod" for key' pod
    by (rule mock_pods.view_key [OF ok that])
  have deletable: "err = None \<or> IsNotFound err"
    if "q \<in> set ptd" "DeletePod mock_handler (clock env) q p = Val (p', ns, err)" for q p p' ns err
  proof -
    from that(1) have "q \<in> ran (mock_view (provider st))" unfolding ptd by simp
    then obtain k where "mock_view (provider st) k = Some q" unfolding ran_def by blast
    then have "(k, q) \<in> set (pods (provider st))" unfolding mock_view_def by (rule map_of_SomeD)
    then have "\<exists>k. buildKey q = Inr k" using ok by (auto simp: mock_ok_def)
    then show ?thesis using mock_delete_known that(2) by blast
  qed
  have kept: "mock_view (provider st') k = mock_view (provider st) k"
    if "k \<notin> (\<lambda>pod. buildKeyFromNames (Namespace (Meta pod)) (Name (Meta pod))) ` set ptd"
    using mock_pods.deleteEach_view [OF h ok del] that by blast
  have gone: "mock_view (provider st') k = None"
    if "pod \<in> set ptd" "k = buildKeyFromNames (Namespace (Meta pod)) (Name (Meta pod))" for pod
    using mock_pods.deleteEach_deletes [OF h ok del that(1)] deletable that(2) by blast
  show ?thesis
  proof (cases "mock_view (provider st) k")
    case None
    then have "k \<notin> (\<lambda>pod. buildKeyFromNames (Namespace (Meta pod)) (Name (Meta pod))) ` set ptd"
      using key unfolding ptd by (auto simp: ran_def)
    then show ?thesis using kept None by simp
  next
    case (Some pod)
    show ?thesis
    proof (cases "isl (podsLister_Get env (Namespace (Meta pod)) (Name (Meta pod)))")
      case True
      then have "pod \<in> set ptd" using Some unfolding ptd by (auto simp: ran_def)
      then show ?thesis using gone key [OF Some] Some True by simp
    next
      case False
      have "k \<notin> (\<lambda>pod. buildKeyFromNames (Namespace (Meta pod)) (Name (Meta pod))) ` set ptd"
        using key Some False unfolding ptd by (auto simp: ran_def)
      then show ?thesis using kept Some False by simp
    qed
  qed
qed

text \<open>The examples: the pod of \<open>demo_synced\<close> is marked for deletion; and after a restart it is unknown to Kubernetes.\<close>

definition marked_web :: Pod where
  "marked_web = web\<lparr>Meta := (Meta web)\<lparr>DeletionTimestamp := Some 90, DeletionGracePeriodSeconds := Some 30\<rparr>,
     Status := emptyStatus\<lparr>ContainerStatuses := [running_status 5 emptyContainer]\<rparr>\<rparr>"

definition demo_resynced :: "(MockProvider, fifo, Pod list) pc_state" where
  "demo_resynced = demo_synced\<lparr>heap := [new_knownPod]\<rparr>"

theorem marked_pod_is_deleted_witness:
  "\<exists>st'. syncPodInProvider (demo_env [marked_web]) marked_web ''ns/web'' demo_resynced = Val (st', None) \<and>
    mock_view (provider st') (buildKeyFromNames ''ns'' ''web'') = None"
proof -
  have "returns_nil (syncPodInProvider (demo_env [marked_web]) marked_web ''ns/web'' demo_resynced)"
    by code_simp
  then obtain st' where run: "syncPodInProvider (demo_env [marked_web]) marked_web ''ns/web'' demo_resynced = Val (st', None)"
    using returns_nil_run by blast
  have ok: "mock_ok (provider demo_resynced)"
    by (simp add: demo_resynced_def mock_ok_def demo_synced_pods go_keys_def buildKey_def buildKeyFromNames_def created_pod_def web_def zero_values)
  have m: "DeletionTimestamp (Meta marked_web) \<noteq> None" "Pod_Controller.running (ContainerStatuses (Status marked_web))"
    by code_simp+
  have k: "knownPods demo_resynced ''ns/web'' = Some 0" "lastPodUsed (heap demo_resynced ! 0) = None"
    by code_simp+
  have "handler (demo_env [marked_web]) = mock_handler" by (simp add: demo_env_def)
  then have "mock_view (provider st') (buildKeyFromNames (Namespace (Meta marked_web)) (Name (Meta marked_web))) = None"
    using marked_pod_is_deleted [OF _ ok m k run] by blast
  then show ?thesis using run by (auto simp: marked_web_def web_def zero_values)
qed

theorem dangling_pods_are_deleted_witness:
  "\<exists>st'. deleteDanglingPods (demo_env []) demo_synced = Val st' \<and>
    mock_view (provider demo_synced) ''ns-web'' \<noteq> None \<and> mock_view (provider st') ''ns-web'' = None"
proof -
  have "no_panic (deleteDanglingPods (demo_env []) demo_synced)" by code_simp
  then obtain st' where run: "deleteDanglingPods (demo_env []) demo_synced = Val st'" by (auto simp: no_panic_iff)
  have ok: "mock_ok (provider demo_synced)"
    by (simp add: mock_ok_def demo_synced_pods go_keys_def buildKey_def buildKeyFromNames_def created_pod_def web_def zero_values)
  have l: "collectDangling (demo_env []) (map snd (pods (provider demo_synced))) [] = Inr [created_pod 100 web]"
    by code_simp
  have h: "handler (demo_env []) = mock_handler" by (simp add: demo_env_def)
  have v: "mock_view (provider demo_synced) ''ns-web'' = Some (created_pod 100 web)"
    by (simp add: mock_view_def demo_synced_pods)
  have "isl (podsLister_Get (demo_env []) (Namespace (Meta (created_pod 100 web))) (Name (Meta (created_pod 100 web))))"
    by code_simp
  then have "mock_view (provider st') ''ns-web'' = None"
    using dangling_pods_are_deleted [OF h ok l run, of "''ns-web''"] v by simp
  then show ?thesis using run v by blast
qed

end
