(* ===== verification/Sync_Wrapper.thy ===== *)
theory Sync_Wrapper
  imports Pod_Status
begin

text \<open>
  The wrapper that gives a provider without notifications the behaviour of one with them
  (\<open>src/node/sync.go\<close>): it remembers the pods it has been asked to delete, notifies their end itself and
  polls the statuses of the others. It is again a provider: \<open>wrapped_provider\<close> shows that it keeps the
  provider contract of what it wraps. \<open>cache.MetaNamespaceKeyFunc\<close> is the parameter \<open>keyfunc\<close>.
\<close>

record 'p syncProviderWrapper =
  inner :: 'p
  deletedPods :: "string \<rightharpoonup> Pod"
  notify_set :: bool

definition wrap_new :: "'p \<Rightarrow> 'p syncProviderWrapper" where
  "wrap_new p = \<lparr>inner = p, deletedPods = Map.empty, notify_set = False\<rparr>"

definition wrap_NotifyPods :: "'p syncProviderWrapper \<Rightarrow> 'p syncProviderWrapper" where
  "wrap_NotifyPods w = w\<lparr>notify_set := True\<rparr>"

definition wrap_deletePodKey :: "string \<Rightarrow> 'p syncProviderWrapper \<Rightarrow> 'p syncProviderWrapper" where
  "wrap_deletePodKey key w = w\<lparr>deletedPods := (deletedPods w)(key := None)\<rparr>"

definition call_notify :: "'p syncProviderWrapper \<Rightarrow> Pod list \<Rightarrow> Pod \<Rightarrow> 'p syncProviderWrapper provider_result" where
  "call_notify w before pod = (if notify_set w then Val (w, before @ [pod], None) else Panic nil_deref)"

subsection \<open>Deleting\<close>

definition terminate_status :: "int \<Rightarrow> ContainerStatus \<Rightarrow> ContainerStatus" where
  "terminate_status now cs = cs\<lparr>State := (State cs)\<lparr>Terminated := Some
     \<lparr>ExitCode = 0, TermReason = ''Terminated'',
      TermMessage = ''Container was terminated. The exit code may not reflect the real exit code'',
      TermStartedAt = (case Running (State cs) of None \<Rightarrow> 0 | Some t \<Rightarrow> t), TermFinishedAt = now, TermContainerID = []\<rparr>\<rparr>\<rparr>"

definition terminated_pod :: "int \<Rightarrow> Pod \<Rightarrow> Pod" where
  "terminated_pod now pod = pod\<lparr>Status := (Status pod)\<lparr>Phase := PodSucceeded,
     ContainerStatuses := map (terminate_status now) (ContainerStatuses (Status pod)), Reason := ''Terminated''\<rparr>\<rparr>"

definition wrap_DeletePod ::
    "'p PodLifecycleHandler \<Rightarrow> (Pod \<Rightarrow> string result) \<Rightarrow> int \<Rightarrow> Pod \<Rightarrow> 'p syncProviderWrapper \<Rightarrow> 'p syncProviderWrapper provider_result" where
  "wrap_DeletePod ops keyfunc now pod w =
     (case keyfunc pod of
        Inl err \<Rightarrow> Val (w, [], Some err)
      | Inr key \<Rightarrow>
          let w1 = w\<lparr>deletedPods := (deletedPods w)(key \<mapsto> pod)\<rparr> in
          obind (DeletePod ops now pod (inner w1)) (\<lambda>(p', ns, err).
            case err of
              Some e \<Rightarrow> Val (w1\<lparr>inner := p', deletedPods := (deletedPods w1)(key := None)\<rparr>, ns, Some e)
            | None \<Rightarrow>
                if shouldSkipPodStatusUpdate pod then Val (w1\<lparr>inner := p'\<rparr>, ns, None)
                else call_notify (w1\<lparr>inner := p'\<rparr>) ns (terminated_pod now pod)))"

text \<open>The other methods are those of the embedded handler.\<close>

definition lift_op :: "('p \<Rightarrow> 'p provider_result) \<Rightarrow> 'p syncProviderWrapper \<Rightarrow> 'p syncProviderWrapper provider_result" where
  "lift_op f w = obind (f (inner w)) (\<lambda>(p', ns, err). Val (w\<lparr>inner := p'\<rparr>, ns, err))"

definition wrap_handler ::
    "'p PodLifecycleHandler \<Rightarrow> (Pod \<Rightarrow> string result) \<Rightarrow> 'p syncProviderWrapper PodLifecycleHandler" where
  "wrap_handler ops keyfunc =
     \<lparr>CreatePod = (\<lambda>now pod. lift_op (CreatePod ops now pod)), UpdatePod = (\<lambda>now pod. lift_op (UpdatePod ops now pod)),
      DeletePod = wrap_DeletePod ops keyfunc,
      GetPod = (\<lambda>ns n w. GetPod ops ns n (inner w)), GetPodStatus = (\<lambda>ns n w. GetPodStatus ops ns n (inner w)),
      GetPods = (\<lambda>w. GetPods ops (inner w)), deletePodKey = Some wrap_deletePodKey\<rparr>"

subsection \<open>Polling the statuses\<close>

definition lost_container :: "int \<Rightarrow> ContainerStatus \<Rightarrow> ContainerStatus" where
  "lost_container now c =
     (case Running (State c) of
        None \<Rightarrow> c
      | Some started \<Rightarrow> c\<lparr>State := (State c)\<lparr>Terminated := Some
          \<lparr>ExitCode = -137, TermReason = ''NotFound'', TermMessage = ''Container was not found and was likely deleted'',
           TermStartedAt = started, TermFinishedAt = now, TermContainerID = ContainerID c\<rparr>, Running := None\<rparr>\<rparr>)"

definition lost_pod :: "int \<Rightarrow> Pod \<Rightarrow> Pod" where
  "lost_pod now pod = pod\<lparr>Status := (Status pod)\<lparr>Phase := PodFailed, Reason := ''NotFound'',
     Message := ''The pod status was not found and may have been deleted from the provider'',
     ContainerStatuses := map (lost_container now) (ContainerStatuses (Status pod))\<rparr>\<rparr>"

definition wrap_updatePodStatus ::
    "'p PodLifecycleHandler \<Rightarrow> (Pod \<Rightarrow> string result) \<Rightarrow> int \<Rightarrow> Pod \<Rightarrow> 'p syncProviderWrapper \<Rightarrow> 'p syncProviderWrapper provider_result" where
  "wrap_updatePodStatus ops keyfunc now podFromKubernetes w =
     obind (GetPodStatus ops (Namespace (Meta podFromKubernetes)) (Name (Meta podFromKubernetes)) (inner w)) (\<lambda>(podStatus, err).
       if err \<noteq> None \<and> \<not> IsNotFound err then Val (w, [], err)
       else let statusErr = err in
         case podStatus of
           Some s \<Rightarrow> call_notify w [] (podFromKubernetes\<lparr>Status := s\<rparr>)
         | None \<Rightarrow>
             (case keyfunc podFromKubernetes of
                Inl kerr \<Rightarrow> Val (w, [], Some kerr)
              | Inr key \<Rightarrow>
                  if deletedPods w key \<noteq> None then Val (w, [], None)
                  else if Phase (Status podFromKubernetes) \<noteq> PodRunning \<and>
                          now - CreationTimestamp (Meta podFromKubernetes) \<le> time_Minute then Val (w, [], statusErr)
                  else call_notify w [] (lost_pod now podFromKubernetes)))"

text \<open>One round of the poll: the errors of single pods are logged.\<close>

fun updateEach ::
    "'p PodLifecycleHandler \<Rightarrow> (Pod \<Rightarrow> string result) \<Rightarrow> int \<Rightarrow> Pod list \<Rightarrow> 'p syncProviderWrapper \<Rightarrow> Pod list outcome" where
  "updateEach ops keyfunc now [] w = Val []"
| "updateEach ops keyfunc now (pod # ps) w =
     (if shouldSkipPodStatusUpdate pod then updateEach ops keyfunc now ps w
      else obind (wrap_updatePodStatus ops keyfunc now pod w) (\<lambda>(w', ns, err).
        obind (updateEach ops keyfunc now ps w') (\<lambda>ns'. Val (ns @ ns'))))"

definition syncPodStatuses ::
    "'p PodLifecycleHandler \<Rightarrow> (Pod \<Rightarrow> string result) \<Rightarrow> int \<Rightarrow> Pod list result \<Rightarrow> 'p syncProviderWrapper \<Rightarrow> Pod list outcome" where
  "syncPodStatuses ops keyfunc now listed w =
     (case listed of Inl err \<Rightarrow> Val [] | Inr ps \<Rightarrow> updateEach ops keyfunc now ps w)"

text \<open>
  The loop of \<open>run\<close>: each time the \<open>select\<close> sees the end of the context (\<open>None\<close>) or the timer, with the time and what the lister returns then. The pods notified, and whether the loop has returned.
\<close>

fun sync_run ::
    "'p PodLifecycleHandler \<Rightarrow> (Pod \<Rightarrow> string result) \<Rightarrow> (int \<times> Pod list result) option list \<Rightarrow> 'p syncProviderWrapper \<Rightarrow> (Pod list \<times> bool) outcome" where
  "sync_run ops keyfunc [] w = Val ([], False)"
| "sync_run ops keyfunc (None # evs) w = Val ([], True)"
| "sync_run ops keyfunc (Some (now, listed) # evs) w =
     obind (syncPodStatuses ops keyfunc now listed w) (\<lambda>ns.
     obind (sync_run ops keyfunc evs w) (\<lambda>(ns', stop). Val (ns @ ns', stop)))"

lemma sync_run_returns_iff_cancelled: "sync_run ops keyfunc evs w = Val (ns, stop) \<Longrightarrow> stop \<longleftrightarrow> None \<in> set evs"
  by (induction ops keyfunc evs w arbitrary: ns rule: sync_run.induct) auto

subsection \<open>The wrapper keeps the provider contract\<close>

locale wrapped_provider = pod_provider ops key view ok
  for ops :: "'p PodLifecycleHandler" and key view ok +
  fixes keyfunc :: "Pod \<Rightarrow> string result"
  assumes keyfunc_error: "keyfunc pod = Inl e \<Longrightarrow> \<not> IsNotFound (Some e)"
begin

lemma lift_op_Val:
  "lift_op f w = Val (w', ns, err) \<longleftrightarrow> (\<exists>p'. f (inner w) = Val (p', ns, err) \<and> w' = w\<lparr>inner := p'\<rparr>)"
  by (auto simp: lift_op_def)

lemma wrap_delete_view:
  assumes ok: "ok (inner w)" and run: "wrap_DeletePod ops keyfunc now pod w = Val (w', ns, err)"
  shows "ok (inner w') \<and>
    (\<forall>k. k \<noteq> key (Namespace (Meta pod)) (Name (Meta pod)) \<longrightarrow> view (inner w') k = view (inner w) k) \<and>
    (err = None \<or> IsNotFound err \<longrightarrow> view (inner w') (key (Namespace (Meta pod)) (Name (Meta pod))) = None)"
proof (cases "keyfunc pod")
  case (Inl e)
  then show ?thesis using run ok keyfunc_error [OF Inl] by (auto simp: wrap_DeletePod_def)
next
  case (Inr k)
  then obtain p' ns1 e where d: "DeletePod ops now pod (inner w) = Val (p', ns1, e)"
    using run by (auto simp: wrap_DeletePod_def Let_def)
  then have "inner w' = p'" "err = e"
    using run Inr by (auto simp: wrap_DeletePod_def Let_def call_notify_def split: option.splits if_splits)
  then show ?thesis using delete_view [OF ok d] by simp
qed

end

sublocale wrapped_provider \<subseteq> wrap: pod_provider "wrap_handler ops keyfunc" key "\<lambda>w. view (inner w)" "\<lambda>w. ok (inner w)"
proof
  fix w w' :: "'p syncProviderWrapper" and now k n and pod :: Pod and ns :: "Pod list" and err nm ps
  assume ok: "ok (inner w)"
  show "view (inner w) k = Some pod \<Longrightarrow> k = key (Namespace (Meta pod)) (Name (Meta pod))"
    by (rule view_key [OF ok])
  show "GetPods (wrap_handler ops keyfunc) w = Inr ps \<Longrightarrow> set ps = ran (view (inner w))"
    using pods_view [OF ok] by (simp add: wrap_handler_def)
  show "\<exists>err. GetPod (wrap_handler ops keyfunc) nm n w = Val (view (inner w) (key nm n), err) \<and>
      (view (inner w) (key nm n) \<noteq> None \<longrightarrow> err = None)"
    using get_view [OF ok] by (simp add: wrap_handler_def)
  show "ok (inner w') \<and> (\<forall>k. k \<noteq> key (Namespace (Meta pod)) (Name (Meta pod)) \<longrightarrow> view (inner w') k = view (inner w) k) \<and>
      (err = None \<longrightarrow> view (inner w') (key (Namespace (Meta pod)) (Name (Meta pod))) \<noteq> None)"
    if "CreatePod (wrap_handler ops keyfunc) now pod w = Val (w', ns, err)"
    using that create_view [OF ok] by (auto simp: wrap_handler_def lift_op_Val)
  show "ok (inner w') \<and> (\<forall>k. k \<noteq> key (Namespace (Meta pod)) (Name (Meta pod)) \<longrightarrow> view (inner w') k = view (inner w) k) \<and>
      (err = None \<longrightarrow> view (inner w') (key (Namespace (Meta pod)) (Name (Meta pod))) = Some pod)"
    if "UpdatePod (wrap_handler ops keyfunc) now pod w = Val (w', ns, err)"
    using that update_view [OF ok] by (auto simp: wrap_handler_def lift_op_Val)
  show "ok (inner w') \<and> (\<forall>k. k \<noteq> key (Namespace (Meta pod)) (Name (Meta pod)) \<longrightarrow> view (inner w') k = view (inner w) k) \<and>
      (err = None \<or> IsNotFound err \<longrightarrow> view (inner w') (key (Namespace (Meta pod)) (Name (Meta pod))) = None)"
    if "DeletePod (wrap_handler ops keyfunc) now pod w = Val (w', ns, err)"
    using that wrap_delete_view [OF ok] by (simp add: wrap_handler_def)
qed

definition slash_key :: "Pod \<Rightarrow> string result" where
  "slash_key pod = Inr (Namespace (Meta pod) @ ''/'' @ Name (Meta pod))"

interpretation wrapped_mock: wrapped_provider mock_handler buildKeyFromNames mock_view mock_ok slash_key
  by unfold_locales (simp add: slash_key_def)

subsection \<open>Properties\<close>

text \<open>
  The wrapped provider still converges: when the sync handler returns without error for a key whose pod
  Kubernetes does not have, the wrapped (mock) provider no longer knows the pod.
\<close>

theorem wrapped_sync_deletes_missing_pod:
  assumes "handler env = wrap_handler mock_handler slash_key" and "mock_ok (inner (provider st))"
    and "SplitMetaNamespaceKey env k = Inr (namespace, name)"
    and "podsLister_Get env namespace name = Inl lerr" and "api_IsNotFound (envlib env) lerr"
    and "syncPodFromKubernetesHandler env k st = Val (st', None)"
  shows "mock_view (inner (provider st')) (buildKeyFromNames namespace name) = None"
  using wrapped_mock.wrap.sync_removes_missing [OF assms] by simp

text \<open>
  C39: A pod that is running in Kubernetes but that the provider does not know, and that nobody asked to delete,
  is notified as failed: exactly one notification, phase Failed, and each container that was running
  is terminated with exit code -137, keeping its start time; no container is left running.
\<close>

theorem lost_running_pod_is_failed:
  assumes "GetPodStatus ops (Namespace (Meta pod)) (Name (Meta pod)) (inner w) = Val (None, err)"
    and "err = None \<or> IsNotFound err" and "keyfunc pod = Inr key" and "deletedPods w key = None" and "notify_set w"
    and "Phase (Status pod) = PodRunning"
  shows "\<exists>failed. wrap_updatePodStatus ops keyfunc now pod w = Val (w, [failed], None) \<and>
    Phase (Status failed) = PodFailed \<and> Meta failed = Meta pod \<and> Spec failed = Spec pod \<and>
    list_all2 (\<lambda>c c'. Running (State c') = None \<and>
        (\<forall>t. Running (State c) = Some t \<longrightarrow> (\<exists>term. Terminated (State c') = Some term \<and> ExitCode term = -137 \<and>
          TermStartedAt term = t \<and> TermFinishedAt term = now)))
      (ContainerStatuses (Status pod)) (ContainerStatuses (Status failed))"
proof -
  have "wrap_updatePodStatus ops keyfunc now pod w = Val (w, [lost_pod now pod], None)"
    using assms by (auto simp: wrap_updatePodStatus_def call_notify_def simp del: obind_Val_iff)
  moreover have "list_all2 (\<lambda>c c'. Running (State c') = None \<and>
      (\<forall>t. Running (State c) = Some t \<longrightarrow> (\<exists>term. Terminated (State c') = Some term \<and> ExitCode term = -137 \<and>
          TermStartedAt term = t \<and> TermFinishedAt term = now)))
      cs (map (lost_container now) cs)" for cs
    by (induction cs) (auto simp: lost_container_def split: option.split)
  ultimately show ?thesis by (auto simp: lost_pod_def)
qed

theorem lost_running_pod_is_failed_witness:
  "let pod = (created_pod 5 web); w = wrap_NotifyPods (wrap_new demo_mock) in
   \<exists>failed. wrap_updatePodStatus mock_handler slash_key 77 pod w = Val (w, [failed], None) \<and> Phase (Status failed) = PodFailed"
proof -
  obtain err where g: "GetPodStatus mock_handler (Namespace (Meta (created_pod 5 web))) (Name (Meta (created_pod 5 web)))
      (inner (wrap_NotifyPods (wrap_new demo_mock))) = Val (None, err)" "err = None \<or> IsNotFound err"
    by (simp add: mock_handler_def mock_GetPodStatus_def mock_GetPod_def wrap_NotifyPods_def wrap_new_def demo_mock_def NotFoundf_def)
  show ?thesis
    using lost_running_pod_is_failed [where keyfunc = slash_key and now = 77 and key = "''ns/web''", OF g]
    by (simp add: Let_def slash_key_def wrap_NotifyPods_def wrap_new_def created_pod_def created_status_def web_def zero_values) blast
qed

text \<open>
  A pod whose deletion the provider accepted is never reported as lost: from the moment \<open>DeletePod\<close>
  returned nil until its key is cleaned up, polling it notifies nothing although the provider does
  not know it any more. A failed deletion leaves no trace in the cache.
\<close>

theorem deleted_pod_is_not_reported_lost:
  assumes "keyfunc pod = Inr key" and "wrap_DeletePod ops keyfunc now pod w = Val (w', ns, err)"
  shows "(err = None \<longrightarrow> deletedPods w' key = Some pod \<and>
      (\<forall>polled serr t. keyfunc polled = Inr key \<and>
        GetPodStatus ops (Namespace (Meta polled)) (Name (Meta polled)) (inner w') = Val (None, serr) \<and>
        (serr = None \<or> IsNotFound serr) \<longrightarrow>
        wrap_updatePodStatus ops keyfunc t polled w' = Val (w', [], None))) \<and>
    (err \<noteq> None \<longrightarrow> deletedPods w' key = None)"
proof -
  obtain p' ns1 where d: "DeletePod ops now pod (inner w) = Val (p', ns1, err)"
    using assms by (auto simp: wrap_DeletePod_def Let_def call_notify_def split: option.splits if_splits)
  then have k: "deletedPods w' key = (if err = None then Some pod else None)"
    using assms by (auto simp: wrap_DeletePod_def Let_def call_notify_def split: option.splits if_splits)
  have "wrap_updatePodStatus ops keyfunc t polled w' = Val (w', [], None)"
    if "err = None" "keyfunc polled = Inr key" "serr = None \<or> IsNotFound serr"
      "GetPodStatus ops (Namespace (Meta polled)) (Name (Meta polled)) (inner w') = Val (None, serr)" for polled serr t
    using that k by (auto simp: wrap_updatePodStatus_def simp del: obind_Val_iff)
  then show ?thesis using k by auto
qed

definition demo_wrapped :: "MockProvider syncProviderWrapper" where
  "demo_wrapped = (wrap_NotifyPods (wrap_new (provider demo_synced)))"

theorem deleted_pod_is_not_reported_lost_witness:
  "\<exists>w' ns. wrap_DeletePod mock_handler slash_key 200 (created_pod 100 web) demo_wrapped = Val (w', ns, None) \<and>
    wrap_updatePodStatus mock_handler slash_key 201 (created_pod 100 web) w' = Val (w', [], None)"
proof -
  have k: "slash_key (created_pod 100 web) = Inr ''ns/web''" by code_simp
  have "(case wrap_DeletePod mock_handler slash_key 200 (created_pod 100 web) demo_wrapped of
      Val (w', ns, err) \<Rightarrow> err = None \<and> (case GetPodStatus mock_handler ''ns'' ''web'' (inner w') of
          Val (None, serr) \<Rightarrow> IsNotFound serr | _ \<Rightarrow> False) | Panic e \<Rightarrow> False)"
    by code_simp
  then obtain w' ns serr where run: "wrap_DeletePod mock_handler slash_key 200 (created_pod 100 web) demo_wrapped = Val (w', ns, None)"
      and s: "GetPodStatus mock_handler ''ns'' ''web'' (inner w') = Val (None, serr)" "IsNotFound serr"
    by (auto split: outcome.splits option.splits)
  have "Namespace (Meta (created_pod 100 web)) = ''ns''" "Name (Meta (created_pod 100 web)) = ''web''" by code_simp+
  then show ?thesis
    using deleted_pod_is_not_reported_lost [OF k run] run s k by auto
qed

text \<open>
  A pod that is not yet running and at most one minute old is never failed for being unknown to the
  provider; the poll only reports the provider's error.
\<close>

theorem young_pod_is_not_failed:
  assumes "GetPodStatus ops (Namespace (Meta pod)) (Name (Meta pod)) (inner w) = Val (None, err)"
    and "keyfunc pod = Inr key" and "Phase (Status pod) \<noteq> PodRunning"
    and "now - CreationTimestamp (Meta pod) \<le> time_Minute"
  shows "\<exists>err'. wrap_updatePodStatus ops keyfunc now pod w = Val (w, [], err') \<and> (err' = None \<or> err' = err)"
  using assms by (auto simp: wrap_updatePodStatus_def simp del: obind_Val_iff)

theorem young_pod_is_not_failed_witness:
  "\<exists>err'. wrap_updatePodStatus mock_handler slash_key 50 web (wrap_new demo_mock) = Val (wrap_new demo_mock, [], err')"
proof -
  obtain err where g: "GetPodStatus mock_handler (Namespace (Meta web)) (Name (Meta web)) (inner (wrap_new demo_mock)) = Val (None, err)"
    by (simp add: mock_handler_def mock_GetPodStatus_def mock_GetPod_def wrap_new_def demo_mock_def)
  show ?thesis
    using young_pod_is_not_failed [where keyfunc = slash_key and now = 50, OF g]
    by (auto simp: slash_key_def web_def zero_values time_Minute_def)
qed

definition demo_wrapped_env :: "(MockProvider syncProviderWrapper, fifo, Pod list) pc_env" where
  "demo_wrapped_env = \<lparr>handler = wrap_handler mock_handler slash_key, wq = fifo_workqueue, envlib = sample_lib,
     resourceManager = sample_rm\<lparr>podListerGet := demo_lister []\<rparr>, MetaNamespaceKeyFunc = slash_key,
     DeletionHandlingMetaNamespaceKeyFunc = slash_key,
     SplitMetaNamespaceKey = (\<lambda>k. Inr (takeWhile (\<lambda>c. c \<noteq> CHR ''/'') k, tl (dropWhile (\<lambda>c. c \<noteq> CHR ''/'') k))),
     client_UpdateStatus = (\<lambda>p log. (log @ [p], None)), client_Delete = (\<lambda>ns n g log. (log, None)),
     errWaitTimeout = ErrorString ''timed out waiting for the condition'', clock = 100\<rparr>"

definition demo_wrapped_state :: "(MockProvider syncProviderWrapper, fifo, Pod list) pc_state" where
  "demo_wrapped_state = \<lparr>provider = demo_wrapped, knownPods = Map.empty, heap = [], syncPodsFromKubernetes = fifo_empty,
     deletePodsFromKubernetes = fifo_empty, syncPodStatusFromProvider = fifo_empty, client = [],
     envst = \<lparr>recorded = [], nodeIp = []\<rparr>\<rparr>"

theorem wrapped_sync_deletes_missing_pod_witness:
  "\<exists>st'. syncPodFromKubernetesHandler demo_wrapped_env ''ns/web'' demo_wrapped_state = Val (st', None) \<and>
    mock_view (inner (provider st')) (buildKeyFromNames ''ns'' ''web'') = None"
proof -
  have "returns_nil (syncPodFromKubernetesHandler demo_wrapped_env ''ns/web'' demo_wrapped_state)" by code_simp
  then obtain st' where run: "syncPodFromKubernetesHandler demo_wrapped_env ''ns/web'' demo_wrapped_state = Val (st', None)"
    using returns_nil_run by blast
  have ok: "mock_ok (inner (provider demo_wrapped_state))"
    by (simp add: demo_wrapped_state_def demo_wrapped_def wrap_NotifyPods_def wrap_new_def mock_ok_def demo_synced_pods
        go_keys_def buildKey_def buildKeyFromNames_def created_pod_def web_def zero_values)
  have l: "podsLister_Get demo_wrapped_env ''ns'' ''web'' = Inl (StatusError ''NotFound'' ''not found'')"
    by (simp add: demo_wrapped_env_def podsLister_Get_def demo_lister_def)
  have "SplitMetaNamespaceKey demo_wrapped_env ''ns/web'' = Inr (''ns'', ''web'')"
      "api_IsNotFound (envlib demo_wrapped_env) (StatusError ''NotFound'' ''not found'')"
      "handler demo_wrapped_env = wrap_handler mock_handler slash_key"
    by (simp_all add: demo_wrapped_env_def sample_lib_def)
  then show ?thesis using wrapped_sync_deletes_missing_pod [OF _ ok _ l _ run] run by blast
qed

end
