(* ===== verification/Pod_Dangling.thy ===== *)
theory Pod_Dangling
  imports Sync_Wrapper
begin

text \<open>
  The concurrent part of \<open>deleteDanglingPods\<close> (\<open>src/node/podcontroller.go\<close>): one goroutine per dangling pod, at most \<open>threadiness\<close> of them
  between the send to the semaphore and the receive from it. A goroutine is its pod and its place; a step moves one of them. It is shown that the bound holds, that \<open>wg.Wait\<close>
  returns, and that every interleaving leaves the provider with the same pods. The provider of a running controller is asynchronous or wrapped (\<open>asyncProvider\<close>).
\<close>

subsection \<open>The provider of a running controller\<close>

text \<open>\<open>Run\<close> takes a provider that notifies as it is and wraps any other. The two cases are again a provider.\<close>

datatype 'p asyncProvider = AsyncProvider 'p | WrappedProvider "'p syncProviderWrapper"

definition chooseProvider :: "bool \<Rightarrow> 'p \<Rightarrow> 'p asyncProvider" where
  "chooseProvider implements_notifier p = (if implements_notifier then AsyncProvider p else WrappedProvider (wrap_NotifyPods (wrap_new p)))"

fun inner_provider :: "'p asyncProvider \<Rightarrow> 'p" where
  "inner_provider (AsyncProvider p) = p"
| "inner_provider (WrappedProvider w) = inner w"

definition async_op ::
    "('p \<Rightarrow> 'p provider_result) \<Rightarrow> ('p syncProviderWrapper \<Rightarrow> 'p syncProviderWrapper provider_result) \<Rightarrow> 'p asyncProvider \<Rightarrow> 'p asyncProvider provider_result" where
  "async_op f g a =
     (case a of
        AsyncProvider p \<Rightarrow> obind (f p) (\<lambda>(p', ns, err). Val (AsyncProvider p', ns, err))
      | WrappedProvider w \<Rightarrow> obind (g w) (\<lambda>(w', ns, err). Val (WrappedProvider w', ns, err)))"

fun async_deletePodKey :: "string \<Rightarrow> 'p asyncProvider \<Rightarrow> 'p asyncProvider" where
  "async_deletePodKey key (AsyncProvider p) = AsyncProvider p"
| "async_deletePodKey key (WrappedProvider w) = WrappedProvider (wrap_deletePodKey key w)"

definition async_handler :: "'p PodLifecycleHandler \<Rightarrow> (Pod \<Rightarrow> string result) \<Rightarrow> 'p asyncProvider PodLifecycleHandler" where
  "async_handler ops keyfunc =
     \<lparr>CreatePod = (\<lambda>now pod. async_op (CreatePod ops now pod) (CreatePod (wrap_handler ops keyfunc) now pod)),
      UpdatePod = (\<lambda>now pod. async_op (UpdatePod ops now pod) (UpdatePod (wrap_handler ops keyfunc) now pod)),
      DeletePod = (\<lambda>now pod. async_op (DeletePod ops now pod) (DeletePod (wrap_handler ops keyfunc) now pod)),
      GetPod = (\<lambda>ns n a. GetPod ops ns n (inner_provider a)),
      GetPodStatus = (\<lambda>ns n a. GetPodStatus ops ns n (inner_provider a)),
      GetPods = (\<lambda>a. GetPods ops (inner_provider a)),
      deletePodKey = Some async_deletePodKey\<rparr>"

lemma async_op_cases:
  assumes "async_op f g a = Val (a', ns, err)"
  obtains (plain) p' where "a' = AsyncProvider p'" "f (inner_provider a) = Val (inner_provider a', ns, err)"
  | (wrapped) w w' where "inner w = inner_provider a" "inner w' = inner_provider a'" "g w = Val (w', ns, err)"
  using assms by (cases a) (auto simp: async_op_def)

sublocale wrapped_provider \<subseteq> async: pod_provider "async_handler ops keyfunc" key "\<lambda>a. view (inner_provider a)" "\<lambda>a. ok (inner_provider a)"
proof
  fix a a' :: "'p asyncProvider" and now k n and pod :: Pod and ns :: "Pod list" and err nm ps
  assume ok: "ok (inner_provider a)"
  show "view (inner_provider a) k = Some pod \<Longrightarrow> k = key (Namespace (Meta pod)) (Name (Meta pod))"
    by (rule view_key [OF ok])
  show "GetPods (async_handler ops keyfunc) a = Inr ps \<Longrightarrow> set ps = ran (view (inner_provider a))"
    using pods_view [OF ok] by (simp add: async_handler_def)
  show "\<exists>err. GetPod (async_handler ops keyfunc) nm n a = Val (view (inner_provider a) (key nm n), err) \<and>
      (view (inner_provider a) (key nm n) \<noteq> None \<longrightarrow> err = None)"
    using get_view [OF ok] by (simp add: async_handler_def)
  show "ok (inner_provider a') \<and> (\<forall>k. k \<noteq> key (Namespace (Meta pod)) (Name (Meta pod)) \<longrightarrow> view (inner_provider a') k = view (inner_provider a) k) \<and>
      (err = None \<longrightarrow> view (inner_provider a') (key (Namespace (Meta pod)) (Name (Meta pod))) \<noteq> None)"
    if "CreatePod (async_handler ops keyfunc) now pod a = Val (a', ns, err)"
    using that [unfolded async_handler_def, simplified]
  proof (cases rule: async_op_cases)
    case plain
    show ?thesis by (rule create_view [OF ok plain(2)])
  next
    case (wrapped w w')
    show ?thesis using wrap.create_view [of w, OF _ wrapped(3)] ok wrapped(1,2) by simp
  qed
  show "ok (inner_provider a') \<and> (\<forall>k. k \<noteq> key (Namespace (Meta pod)) (Name (Meta pod)) \<longrightarrow> view (inner_provider a') k = view (inner_provider a) k) \<and>
      (err = None \<longrightarrow> view (inner_provider a') (key (Namespace (Meta pod)) (Name (Meta pod))) = Some pod)"
    if "UpdatePod (async_handler ops keyfunc) now pod a = Val (a', ns, err)"
    using that [unfolded async_handler_def, simplified]
  proof (cases rule: async_op_cases)
    case plain
    show ?thesis by (rule update_view [OF ok plain(2)])
  next
    case (wrapped w w')
    show ?thesis using wrap.update_view [of w, OF _ wrapped(3)] ok wrapped(1,2) by simp
  qed
  show "ok (inner_provider a') \<and> (\<forall>k. k \<noteq> key (Namespace (Meta pod)) (Name (Meta pod)) \<longrightarrow> view (inner_provider a') k = view (inner_provider a) k) \<and>
      (err = None \<or> IsNotFound err \<longrightarrow> view (inner_provider a') (key (Namespace (Meta pod)) (Name (Meta pod))) = None)"
    if "DeletePod (async_handler ops keyfunc) now pod a = Val (a', ns, err)"
    using that [unfolded async_handler_def, simplified]
  proof (cases rule: async_op_cases)
    case plain
    show ?thesis by (rule delete_view [OF ok plain(2)])
  next
    case (wrapped w w')
    show ?thesis using wrap.delete_view [of w, OF _ wrapped(3)] ok wrapped(1,2) by simp
  qed
qed

subsection \<open>The goroutines\<close>

datatype del_place = DelSpawned | DelAcquired | DelCalled | DelDone

type_synonym goroutines = "(Pod \<times> del_place) list"

text \<open>The number of goroutines that have sent to the semaphore and not yet received from it.\<close>

definition holders :: "goroutines \<Rightarrow> nat" where
  "holders gs = length (filter (\<lambda>(pod, place). place = DelAcquired \<or> place = DelCalled) gs)"

definition all_done :: "goroutines \<Rightarrow> bool" where
  "all_done gs = list_all (\<lambda>(pod, place). place = DelDone) gs"

text \<open>\<open>None\<close>: the goroutine cannot move. The error of \<open>DeletePod\<close> is logged.\<close>

definition advanceDelete ::
    "('p, 'q, 'k) pc_env \<Rightarrow> nat \<Rightarrow> nat \<Rightarrow> goroutines \<Rightarrow> ('p, 'q, 'k) pc_state \<Rightarrow> (goroutines \<times> ('p, 'q, 'k) pc_state) option outcome" where
  "advanceDelete env threadiness i gs st =
     (let pod = fst (gs ! i) in
      case snd (gs ! i) of
        DelSpawned \<Rightarrow> Val (if holders gs < threadiness then Some (gs[i := (pod, DelAcquired)], st) else None)
      | DelAcquired \<Rightarrow> obind (call_provider env (DeletePod (handler env) (clock env) pod) st) (\<lambda>(st', err). Val (Some (gs[i := (pod, DelCalled)], st')))
      | DelCalled \<Rightarrow> Val (Some (gs[i := (pod, DelDone)], st))
      | DelDone \<Rightarrow> Val None)"

text \<open>What \<open>deleteDanglingPods\<close> does before it waits; a channel of negative capacity cannot be made.\<close>

definition spawnDeletes :: "('p, 'q, 'k) pc_env \<Rightarrow> int \<Rightarrow> ('p, 'q, 'k) pc_state \<Rightarrow> goroutines outcome" where
  "spawnDeletes env threadiness st =
     (case GetPods (handler env) (provider st) of
        Inl err \<Rightarrow> Val []
      | Inr pps \<Rightarrow> (case collectDangling env pps [] of
          Inl err \<Rightarrow> Val []
        | Inr ptd \<Rightarrow> if threadiness < 0 then Panic ''makechan: size out of range'' else Val (map (\<lambda>pod. (pod, DelSpawned)) ptd)))"

inductive dangling_step ::
    "'p PodLifecycleHandler \<Rightarrow> nat \<Rightarrow> goroutines \<times> ('p, 'q, 'k) pc_state \<Rightarrow> goroutines \<times> ('p, 'q, 'k) pc_state \<Rightarrow> bool" for ops threadiness where
  "i < length gs \<Longrightarrow> handler env = ops \<Longrightarrow> advanceDelete env threadiness i gs st = Val (Some (gs', st')) \<Longrightarrow>
    dangling_step ops threadiness (gs, st) (gs', st')"

inductive_simps dangling_step_iff: "dangling_step ops threadiness (gs, st) (gs', st')"

fun del_weight :: "del_place \<Rightarrow> nat" where
  "del_weight DelSpawned = 3"
| "del_weight DelAcquired = 2"
| "del_weight DelCalled = 1"
| "del_weight DelDone = 0"

definition dangling_measure :: "goroutines \<Rightarrow> nat" where
  "dangling_measure gs = sum_list (map (\<lambda>g. del_weight (snd g)) gs)"

subsection \<open>Bound, progress and end\<close>

lemma sum_list_map_update:
  "i < length xs \<Longrightarrow> sum_list (map f (xs[i := y])) + f (xs ! i) = sum_list (map f xs) + (f y :: nat)"
  by (induction xs arbitrary: i) (auto split: nat.split simp: less_Suc_eq_0_disj)

lemma filter_length_sum: "length (filter P xs) = sum_list (map (\<lambda>x. if P x then 1 else 0) xs)"
  by (induction xs) auto

lemma filter_length_update:
  "i < length xs \<Longrightarrow> length (filter P (xs[i := y])) + (if P (xs ! i) then 1 else 0) = length (filter P xs) + (if P y then 1 else 0)"
  unfolding filter_length_sum by (rule sum_list_map_update)

lemma holders_update:
  assumes "i < length gs"
  shows "holders (gs[i := (pod, pl)]) + (if snd (gs ! i) \<in> {DelAcquired, DelCalled} then 1 else 0) =
    holders gs + (if pl \<in> {DelAcquired, DelCalled} then 1 else 0)"
  using filter_length_update [OF assms, of "\<lambda>(pod, place). place = DelAcquired \<or> place = DelCalled" "(pod, pl)"]
  by (auto simp: holders_def case_prod_beta)

lemma advanceDelete_cases:
  assumes "advanceDelete env n i gs st = Val (Some (gs', st'))"
  obtains (acquire) "snd (gs ! i) = DelSpawned" "holders gs < n" "gs' = gs[i := (fst (gs ! i), DelAcquired)]" "st' = st"
  | (call) err where "snd (gs ! i) = DelAcquired" "gs' = gs[i := (fst (gs ! i), DelCalled)]"
      "call_provider env (DeletePod (handler env) (clock env) (fst (gs ! i))) st = Val (st', err)"
  | (release) "snd (gs ! i) = DelCalled" "gs' = gs[i := (fst (gs ! i), DelDone)]" "st' = st"
  using assms by (cases "snd (gs ! i)") (auto simp: advanceDelete_def Let_def split: if_splits)

lemma dangling_holders_step:
  assumes "i < length gs" and "advanceDelete env n i gs st = Val (Some (gs', st'))" and "holders gs \<le> n"
  shows "holders gs' \<le> n"
  using assms(2)
proof (cases rule: advanceDelete_cases)
  case acquire
  then show ?thesis using holders_update [OF assms(1), of "fst (gs ! i)" DelAcquired] by simp
next
  case call
  then show ?thesis using holders_update [OF assms(1), of "fst (gs ! i)" DelCalled] assms(3) by simp
next
  case release
  then show ?thesis using holders_update [OF assms(1), of "fst (gs ! i)" DelDone] assms(3) by simp
qed

lemma dangling_measure_step:
  assumes "i < length gs" and "advanceDelete env n i gs st = Val (Some (gs', st'))"
  shows "dangling_measure gs' < dangling_measure gs"
proof -
  have "dangling_measure (gs[i := (fst (gs ! i), pl)]) + del_weight (snd (gs ! i)) = dangling_measure gs + del_weight pl" for pl
    using sum_list_map_update [OF assms(1), of "\<lambda>g. del_weight (snd g)" "(fst (gs ! i), pl)"] by (simp add: dangling_measure_def)
  from assms(2) this [of DelAcquired] this [of DelCalled] this [of DelDone] show ?thesis
    by (cases rule: advanceDelete_cases) simp_all
qed

lemma dangling_progress:
  assumes "0 < n" and "\<not> all_done gs"
  shows "\<exists>i<length gs. advanceDelete env n i gs st \<noteq> Val None"
proof (cases "holders gs < n")
  case True
  from assms(2) obtain i where "i < length gs" "snd (gs ! i) \<noteq> DelDone"
    by (auto simp: all_done_def list_all_length case_prod_beta)
  then show ?thesis
    using True by (intro exI [of _ i]) (cases "snd (gs ! i)"; auto simp: advanceDelete_def Let_def)
next
  case False
  then have "filter (\<lambda>(pod, place). place = DelAcquired \<or> place = DelCalled) gs \<noteq> []"
    using assms(1) by (auto simp: holders_def)
  then obtain i where "i < length gs" "snd (gs ! i) = DelAcquired \<or> snd (gs ! i) = DelCalled"
    by (auto simp: filter_empty_conv in_set_conv_nth case_prod_beta)
  then show ?thesis
    by (intro exI [of _ i]) (auto simp: advanceDelete_def Let_def)
qed

lemma dangling_stuck_without_threads:
  assumes "list_all (\<lambda>g. snd g = DelSpawned) gs" and "i < length gs"
  shows "advanceDelete env 0 i gs st = Val None"
  using assms by (simp add: advanceDelete_def list_all_length)

subsection \<open>What every interleaving leaves in the provider\<close>

definition called :: "goroutines \<Rightarrow> Pod set" where
  "called gs = fst ` {g \<in> set gs. snd g = DelCalled \<or> snd g = DelDone}"

lemma called_all_done: "all_done gs \<Longrightarrow> called gs = fst ` set gs"
  by (auto simp: called_def all_done_def list_all_iff)

lemma called_spawned: "called (map (\<lambda>pod. (pod, DelSpawned)) ptd) = {}"
  by (auto simp: called_def)

lemma called_Cons: "called (g # gs) = (if snd g = DelCalled \<or> snd g = DelDone then {fst g} else {}) \<union> called gs"
  by (auto simp: called_def)

lemma called_append: "called (gs @ gs') = called gs \<union> called gs'"
  by (auto simp: called_def)

lemma called_update:
  assumes "i < length gs"
  shows "called (gs[i := (fst (gs ! i), DelCalled)]) = insert (fst (gs ! i)) (called gs)"
    and "snd (gs ! i) = DelSpawned \<Longrightarrow> called (gs[i := (fst (gs ! i), DelAcquired)]) = called gs"
    and "snd (gs ! i) = DelCalled \<Longrightarrow> called (gs[i := (fst (gs ! i), DelDone)]) = called gs"
proof -
  have old: "called gs = called (take i gs @ gs ! i # drop (Suc i) gs)" by (simp add: id_take_nth_drop [OF assms, symmetric])
  have new: "called (gs[i := g]) = called (take i gs @ g # drop (Suc i) gs)" for g by (simp add: upd_conv_take_nth_drop [OF assms])
  show "called (gs[i := (fst (gs ! i), DelCalled)]) = insert (fst (gs ! i)) (called gs)"
    unfolding old new by (auto simp: called_append called_Cons)
  show "called (gs[i := (fst (gs ! i), DelAcquired)]) = called gs" if "snd (gs ! i) = DelSpawned"
    unfolding old new using that by (simp add: called_append called_Cons)
  show "called (gs[i := (fst (gs ! i), DelDone)]) = called gs" if "snd (gs ! i) = DelCalled"
    unfolding old new using that by (simp add: called_append called_Cons)
qed

lemma map_fst_update: "map fst (gs[i := (fst (gs ! i), pl)]) = map fst gs"
  by (cases "i < length gs") (simp_all add: map_update list_update_same_conv list_update_beyond)

lemma advance_pods: "advanceDelete env n i gs st = Val (Some (gs', st')) \<Longrightarrow> map fst gs' = map fst gs"
  by (erule advanceDelete_cases) (simp_all only: map_fst_update)

context pod_provider
begin

text \<open>Deletions of the pods in \<open>P\<close> are accepted.\<close>

definition deletes_accepted :: "Pod set \<Rightarrow> bool" where
  "deletes_accepted P = (\<forall>q\<in>P. \<forall>now p p' ns err. ok p \<longrightarrow> DeletePod ops now q p = Val (p', ns, err) \<longrightarrow> err = None \<or> IsNotFound err)"

definition dangling_view :: "('p, 'q, 'k) pc_state \<Rightarrow> goroutines \<times> ('p, 'q, 'k) pc_state \<Rightarrow> bool" where
  "dangling_view st0 c = (ok (provider (snd c)) \<and>
     (\<forall>k. view (provider (snd c)) k = (if k \<in> pod_key ` called (fst c) then None else view (provider st0) k)))"

lemma dangling_view_step:
  assumes inv: "dangling_view st0 (gs, st)" and i: "i < length gs" and h: "handler env = ops"
    and run: "advanceDelete env n i gs st = Val (Some (gs', st'))" and acc: "deletes_accepted (fst ` set gs)"
  shows "dangling_view st0 (gs', st')"
  using run
proof (cases rule: advanceDelete_cases)
  case acquire
  then show ?thesis using inv called_update(2) [OF i] by (simp add: dangling_view_def)
next
  case (call err)
  let ?q = "fst (gs ! i)"
  have ok: "ok (provider st)" using inv by (simp add: dangling_view_def)
  obtain p' ns where "DeletePod ops (clock env) ?q (provider st) = Val (p', ns, err)"
    using call(3) h by (auto simp: call_provider_Val)
  then have "err = None \<or> IsNotFound err" using acc ok i unfolding deletes_accepted_def by (meson image_eqI nth_mem)
  then have f: "frame (pod_key ?q) st st'" "view (provider st') (pod_key ?q) = None"
    using call_delete [OF h ok call(3)] by auto
  have "view (provider st') k = (if k \<in> pod_key ` called gs' then None else view (provider st0) k)" for k
    using f inv called_update(1) [OF i] call(2) by (cases "k = pod_key ?q") (simp_all add: dangling_view_def frame_def)
  then show ?thesis using f(1) by (simp add: dangling_view_def frame_def)
next
  case release
  then show ?thesis using inv called_update(3) [OF i] by (simp add: dangling_view_def)
qed

lemma dangling_run:
  assumes "(dangling_step ops n)\<^sup>*\<^sup>* (gs0, st0) (gs, st)" and "dangling_view st0 (gs0, st0)"
    and "holders gs0 \<le> n" and "deletes_accepted (fst ` set gs0)"
  shows "dangling_view st0 (gs, st) \<and> map fst gs = map fst gs0 \<and> holders gs \<le> n"
  using assms(1)
proof (induction rule: rtranclp_induct2)
  case refl
  show ?case using assms by simp
next
  case (step gs st gs' st')
  from step(2) obtain i env where i: "i < length gs" "handler env = ops" "advanceDelete env n i gs st = Val (Some (gs', st'))"
    by (auto simp: dangling_step_iff)
  have "fst ` set gs = fst ` set gs0" using step.IH by (metis list.set_map)
  then show ?case
    using dangling_view_step [OF _ i] dangling_holders_step [OF i(1,3)] advance_pods [OF i(3)] step.IH assms(4) by auto
qed

lemma dangling_case:
  assumes ok: "ok (provider st)" and get: "GetPods ops (provider st) = Inr pps" and coll: "collectDangling env pps [] = Inr ptd"
  shows "(if k \<in> pod_key ` set ptd then None else view (provider st) k) =
    (case view (provider st) k of
       None \<Rightarrow> None
     | Some pod \<Rightarrow> if isl (podsLister_Get env (Namespace (Meta pod)) (Name (Meta pod))) then None else Some pod)"
proof -
  have ptd: "set ptd = {pp \<in> ran (view (provider st)). isl (podsLister_Get env (Namespace (Meta pp)) (Name (Meta pp)))}"
    using collectDangling_set [OF coll] pods_view [OF ok get] by simp
  have "k \<in> pod_key ` set ptd \<longleftrightarrow> pod \<in> set ptd" if v: "view (provider st) k = Some pod" for pod
  proof
    assume "k \<in> pod_key ` set ptd"
    then obtain q k' where "k = pod_key q" "q \<in> set ptd" "view (provider st) k' = Some q" unfolding ptd by (auto simp: ran_def)
    then show "pod \<in> set ptd" using view_key [OF ok, of k' q] v by simp
  next
    assume "pod \<in> set ptd"
    then show "k \<in> pod_key ` set ptd" using view_key [OF ok v] by blast
  qed
  then show ?thesis by (cases "view (provider st) k") (auto simp: ptd ran_def)
qed

lemma dangling_end:
  assumes h: "handler env = ops" and ok: "ok (provider st)" and get: "GetPods ops (provider st) = Inr pps"
    and coll: "collectDangling env pps [] = Inr ptd" and acc: "deletes_accepted (set ptd)"
    and run: "(dangling_step ops n)\<^sup>*\<^sup>* (map (\<lambda>pod. (pod, DelSpawned)) ptd, st) (gs, st')"
  shows "holders gs \<le> n \<and> ok (provider st') \<and> (all_done gs \<longrightarrow> (\<forall>k. view (provider st') k =
    (case view (provider st) k of
       None \<Rightarrow> None
     | Some pod \<Rightarrow> if isl (podsLister_Get env (Namespace (Meta pod)) (Name (Meta pod))) then None else Some pod)))"
proof -
  have start: "dangling_view st (map (\<lambda>pod. (pod, DelSpawned)) ptd, st)" "holders (map (\<lambda>pod. (pod, DelSpawned)) ptd) \<le> n"
    using ok by (simp_all add: dangling_view_def called_spawned holders_def)
  have r: "dangling_view st (gs, st')" "map fst gs = ptd" "holders gs \<le> n"
    using dangling_run [OF run start] acc by (simp_all add: comp_def image_comp)
  then have "all_done gs \<Longrightarrow> called gs = set ptd" by (metis called_all_done list.set_map)
  then show ?thesis using r dangling_case [OF ok get coll] by (simp add: dangling_view_def)
qed

end

subsection \<open>Properties\<close>

lemma mock_deletes_accepted:
  assumes "mock_ok (provider st)" and "collectDangling env (map snd (pods (provider st))) [] = Inr ptd"
  shows "mock_pods.deletes_accepted (set ptd)"
  unfolding mock_pods.deletes_accepted_def
proof (intro ballI allI impI)
  fix q now p p' ns err
  assume "q \<in> set ptd" and del: "DeletePod mock_handler now q p = Val (p', ns, err)"
  then have "q \<in> snd ` set (pods (provider st))" using mock_pods.collectDangling_set [OF assms(2)] by auto
  then have "\<exists>k. buildKey q = Inr k" using assms(1) by (auto simp: mock_ok_def)
  then show "err = None \<or> IsNotFound err" using mock_delete_known del by blast
qed

text \<open>
  C23: Every interleaving of the goroutines that delete dangling pods from the (mock) provider at start-up keeps at most \<open>threadiness\<close> of them in the
  provider at once; while one of them has not ended, one can move, and every move comes closer to the end, so the wait for them returns; and when all
  have ended, in whatever order, the provider has exactly those of its pods that Kubernetes has.
\<close>

theorem dangling_deletes_any_order:
  assumes h: "handler env = mock_handler" and ok: "mock_ok (provider st)" and n: "0 < threadiness"
    and lister: "collectDangling env (map snd (pods (provider st))) [] = Inr ptd"
  shows "\<exists>gs0. spawnDeletes env threadiness st = Val gs0 \<and>
    (\<forall>gs st'. (dangling_step mock_handler (nat threadiness))\<^sup>*\<^sup>* (gs0, st) (gs, st') \<longrightarrow>
      holders gs \<le> nat threadiness \<and>
      (\<not> all_done gs \<longrightarrow> (\<exists>i<length gs. advanceDelete env (nat threadiness) i gs st' \<noteq> Val None)) \<and>
      (\<forall>c. dangling_step mock_handler (nat threadiness) (gs, st') c \<longrightarrow> dangling_measure (fst c) < dangling_measure gs) \<and>
      (all_done gs \<longrightarrow> (\<forall>k. mock_view (provider st') k =
        (case mock_view (provider st) k of
           None \<Rightarrow> None
         | Some pod \<Rightarrow> if isl (podsLister_Get env (Namespace (Meta pod)) (Name (Meta pod))) then None else Some pod))))"
proof (intro exI [of _ "map (\<lambda>pod. (pod, DelSpawned)) ptd"] conjI allI impI)
  have get: "GetPods mock_handler (provider st) = Inr (map snd (pods (provider st)))"
    by (simp add: mock_handler_def mock_GetPods_def)
  show "spawnDeletes env threadiness st = Val (map (\<lambda>pod. (pod, DelSpawned)) ptd)"
    using n by (simp add: spawnDeletes_def h get lister)
  fix gs st' assume run: "(dangling_step mock_handler (nat threadiness))\<^sup>*\<^sup>* (map (\<lambda>pod. (pod, DelSpawned)) ptd, st) (gs, st')"
  note fin = mock_pods.dangling_end [OF h ok get lister mock_deletes_accepted [OF ok lister] run]
  show "holders gs \<le> nat threadiness" using fin by blast
  show "\<exists>i<length gs. advanceDelete env (nat threadiness) i gs st' \<noteq> Val None" if "\<not> all_done gs"
    by (rule dangling_progress [OF _ that]) (use n in simp)
  show "mock_view (provider st') k = (case mock_view (provider st) k of None \<Rightarrow> None
      | Some pod \<Rightarrow> if isl (podsLister_Get env (Namespace (Meta pod)) (Name (Meta pod))) then None else Some pod)" if "all_done gs" for k
    using fin that by blast
  show "dangling_measure (fst c) < dangling_measure gs" if "dangling_step mock_handler (nat threadiness) (gs, st') c" for c
    using that by (cases c) (auto simp: dangling_step_iff dest: dangling_measure_step)
qed

text \<open>The example: the pod of \<open>demo_synced\<close> is gone from Kubernetes; its goroutine acquires, deletes and releases.\<close>

theorem dangling_deletes_any_order_witness:
  "\<exists>st'. (dangling_step mock_handler 1)\<^sup>*\<^sup>* ([(created_pod 100 web, DelSpawned)], demo_synced) ([(created_pod 100 web, DelDone)], st') \<and>
    mock_view (provider demo_synced) ''ns-web'' \<noteq> None \<and> mock_view (provider st') ''ns-web'' = None"
proof -
  let ?web = "created_pod 100 web" and ?step = "dangling_step mock_handler (nat 1) :: goroutines \<times> (MockProvider, fifo, Pod list) pc_state \<Rightarrow> _"
  have h: "handler (demo_env []) = mock_handler" "clock (demo_env []) = 100" by (simp_all add: demo_env_def)
  have "no_panic (call_provider (demo_env []) (DeletePod (handler (demo_env [])) (clock (demo_env [])) ?web) demo_synced)" by code_simp
  then obtain st' err where d: "call_provider (demo_env []) (DeletePod (handler (demo_env [])) (clock (demo_env [])) ?web) demo_synced = Val (st', err)"
    by (auto simp: no_panic_iff)
  have "?step ([(?web, DelSpawned)], demo_synced) ([(?web, DelAcquired)], demo_synced)"
    by (rule dangling_step.intros [of 0 _ "demo_env []"]) (simp_all add: h advanceDelete_def holders_def)
  moreover have "?step ([(?web, DelAcquired)], demo_synced) ([(?web, DelCalled)], st')"
    by (rule dangling_step.intros [of 0 _ "demo_env []"]) (use d h in \<open>simp_all add: advanceDelete_def Let_def\<close>)
  moreover have "?step ([(?web, DelCalled)], st') ([(?web, DelDone)], st')"
    by (rule dangling_step.intros [of 0 _ "demo_env []"]) (simp_all add: h advanceDelete_def)
  ultimately have run: "?step\<^sup>*\<^sup>* ([(?web, DelSpawned)], demo_synced) ([(?web, DelDone)], st')"
    by (meson rtranclp.rtrancl_into_rtrancl rtranclp.rtrancl_refl)
  have ok: "mock_ok (provider demo_synced)"
    by (simp add: mock_ok_def demo_synced_pods go_keys_def buildKey_def buildKeyFromNames_def created_pod_def web_def zero_values)
  have l: "collectDangling (demo_env []) (map snd (pods (provider demo_synced))) [] = Inr [?web]" by code_simp
  have s: "spawnDeletes (demo_env []) 1 demo_synced = Val [(?web, DelSpawned)]"
    using l by (simp add: spawnDeletes_def h mock_handler_def mock_GetPods_def)
  have v: "mock_view (provider demo_synced) ''ns-web'' = Some ?web" by (simp add: mock_view_def demo_synced_pods)
  have g: "isl (podsLister_Get (demo_env []) (Namespace (Meta ?web)) (Name (Meta ?web)))" by code_simp
  from dangling_deletes_any_order [OF h(1) ok _ l, of 1] s run have "all_done [(?web, DelDone)] \<longrightarrow> mock_view (provider st') ''ns-web'' = None"
    using v g by auto
  then show ?thesis using run v by (auto simp: all_done_def)
qed

text \<open>A negative number of workers, which \<open>runRootCommand\<close> does not refuse, ends the program at start-up.\<close>

lemma negative_workers_panic:
  assumes "GetPods (handler env) (provider st) = Inr pps" and "collectDangling env pps [] = Inr ptd" and "threadiness < 0"
  shows "\<not> no_panic (spawnDeletes env threadiness st)"
  using assms by (simp add: spawnDeletes_def)

end
