(* ===== verification/Pod_Lifecycle.thy ===== *)
theory Pod_Lifecycle
  imports Pod_Dangling
begin

text \<open>
  The life of the pod controller (\<open>PodController.Run\<close> of \<open>src/node/podcontroller.go\<close> with \<open>Queue.Run\<close> of \<open>src/internal/queue/queue.go\<close>): the goroutine of \<open>Run\<close>, one
  goroutine per queue, the workers of each queue and the goroutines that delete dangling pods, each at a place of its code. A step moves one of them, or is an
  event from outside: an event of the informer, a notification of the provider, the end of the context. Handlers run as one step; a panic in any goroutine ends the process (\<open>crashed\<close>).
  It is shown that no handler runs before start-up is complete or after \<open>Done\<close>, and that a controller whose context has ended comes to its end.
\<close>

subsection \<open>Places\<close>

datatype queue_id = SyncPods | DeletePods | SyncStatus

fun queue_of :: "queue_id \<Rightarrow> ('p, 'q, 'k) pc_state \<Rightarrow> 'q" where
  "queue_of SyncPods st = syncPodsFromKubernetes st"
| "queue_of DeletePods st = deletePodsFromKubernetes st"
| "queue_of SyncStatus st = syncPodStatusFromProvider st"

fun set_queue :: "queue_id \<Rightarrow> 'q \<Rightarrow> ('p, 'q, 'k) pc_state \<Rightarrow> ('p, 'q, 'k) pc_state" where
  "set_queue SyncPods q st = st\<lparr>syncPodsFromKubernetes := q\<rparr>"
| "set_queue DeletePods q st = st\<lparr>deletePodsFromKubernetes := q\<rparr>"
| "set_queue SyncStatus q st = st\<lparr>syncPodStatusFromProvider := q\<rparr>"

fun queue_handler :: "queue_id \<Rightarrow> ('p, 'q, 'k) pc_env \<Rightarrow> string \<Rightarrow> ('p, 'q, 'k) pc_state \<Rightarrow> ('p, 'q, 'k) step_result" where
  "queue_handler SyncPods = syncPodFromKubernetesHandler"
| "queue_handler DeletePods = deletePodsFromKubernetesHandler"
| "queue_handler SyncStatus = syncPodStatusFromProviderHandler"

datatype worker_place = WorkerGet | WorkerHandling string | WorkerExited

datatype queue_place = QueueUnstarted | QueueStarting | QueueWaiting | QueueJoining | QueueReturned

record queue_run =
  qplace :: queue_place
  qworkers :: "worker_place list"
  qlock :: "unit Queue"

datatype run_place = RunProvider | RunCaches | RunHandlers | RunDangling | RunWaitDangling goroutines | RunWorkers | RunReady | RunServing | RunJoining | RunReturned

record ('p, 'q, 'k) life =
  place :: run_place
  ctrl :: "('p, 'q, 'k) pc_state"
  ctx_done :: bool
  ready_closed :: bool
  done_closed :: bool
  pc_err :: "goerror option"
  notifying :: bool
  handlers_added :: bool
  queues :: "queue_id \<Rightarrow> queue_run"
  crashed :: bool

definition life_start :: "('p, 'q, 'k) pc_state \<Rightarrow> ('p, 'q, 'k) life" where
  "life_start st = \<lparr>place = RunProvider, ctrl = st, ctx_done = False, ready_closed = False, done_closed = False, pc_err = None,
     notifying = False, handlers_added = False, queues = (\<lambda>x. \<lparr>qplace = QueueUnstarted, qworkers = [], qlock = New () []\<rparr>), crashed = False\<rparr>"

definition crash :: "('p, 'q, 'k) life \<Rightarrow> ('p, 'q, 'k) life" where
  "crash l = l\<lparr>crashed := True\<rparr>"

subsection \<open>The goroutine of Run\<close>

text \<open>The deferred functions of \<open>Run\<close>, in their order, when it returns \<open>retErr\<close>. Closing a closed channel panics.\<close>

definition finishRun :: "goerror option \<Rightarrow> ('p, 'q, 'k) life \<Rightarrow> ('p, 'q, 'k) life" where
  "finishRun retErr l =
     (if done_closed l then crash (l\<lparr>pc_err := retErr\<rparr>)
      else l\<lparr>pc_err := retErr, done_closed := True, ctx_done := True, place := RunReturned\<rparr>)"

text \<open>
  One step of \<open>Run\<close>; \<open>None\<close> while it is blocked. \<open>synced\<close> is what \<open>WaitForCacheSync\<close> would answer now: it waits while the caches are not in sync and the
  context has not ended.
\<close>

definition runAdvance :: "('p, 'q, 'k) pc_env \<Rightarrow> int \<Rightarrow> bool \<Rightarrow> ('p, 'q, 'k) life \<Rightarrow> ('p, 'q, 'k) life option" where
  "runAdvance env podSyncWorkers synced l =
     (case place l of
        RunProvider \<Rightarrow> Some (l\<lparr>notifying := True, place := RunCaches\<rparr>)
      | RunCaches \<Rightarrow>
          if synced then Some (l\<lparr>place := RunHandlers\<rparr>)
          else if ctx_done l then Some (finishRun (Some (ErrorString ''failed to wait for caches to sync'')) l)
          else None
      | RunHandlers \<Rightarrow> Some (l\<lparr>handlers_added := True, place := RunDangling\<rparr>)
      | RunDangling \<Rightarrow> (case spawnDeletes env podSyncWorkers (ctrl l) of
            Panic e \<Rightarrow> Some (crash l)
          | Val gs \<Rightarrow> Some (l\<lparr>place := RunWaitDangling gs\<rparr>))
      | RunWaitDangling gs \<Rightarrow> if all_done gs then Some (l\<lparr>place := RunWorkers\<rparr>) else None
      | RunWorkers \<Rightarrow> Some (l\<lparr>queues := (\<lambda>x. (queues l x)\<lparr>qplace := QueueStarting\<rparr>), place := RunReady\<rparr>)
      | RunReady \<Rightarrow> if ready_closed l then Some (crash l) else Some (l\<lparr>ready_closed := True, place := RunServing\<rparr>)
      | RunServing \<Rightarrow> if ctx_done l then Some (l\<lparr>place := RunJoining\<rparr>) else None
      | RunJoining \<Rightarrow> if (\<forall>x\<in>{SyncPods, DeletePods, SyncStatus}. qplace (queues l x) = QueueReturned) then Some (finishRun None l) else None
      | RunReturned \<Rightarrow> None)"

text \<open>One step of the goroutine that deletes the \<open>i\<close>-th dangling pod.\<close>

definition danglingAdvance :: "('p, 'q, 'k) pc_env \<Rightarrow> int \<Rightarrow> nat \<Rightarrow> ('p, 'q, 'k) life \<Rightarrow> ('p, 'q, 'k) life option" where
  "danglingAdvance env podSyncWorkers i l =
     (case place l of
        RunWaitDangling gs \<Rightarrow>
          if i < length gs then
            (case advanceDelete env (nat podSyncWorkers) i gs (ctrl l) of
               Panic e \<Rightarrow> Some (crash l)
             | Val None \<Rightarrow> None
             | Val (Some (gs', st')) \<Rightarrow> Some (l\<lparr>place := RunWaitDangling gs', ctrl := st'\<rparr>))
          else None
      | _ \<Rightarrow> None)"

subsection \<open>Queue.Run and its workers\<close>

definition set_run :: "queue_id \<Rightarrow> queue_run \<Rightarrow> ('p, 'q, 'k) life \<Rightarrow> ('p, 'q, 'k) life" where
  "set_run x r l = l\<lparr>queues := (queues l)(x := r)\<rparr>"

definition queueAdvance :: "'q workqueue \<Rightarrow> int \<Rightarrow> queue_id \<Rightarrow> ('p, 'q, 'k) life \<Rightarrow> ('p, 'q, 'k) life option" where
  "queueAdvance w workers x l =
     (let r = queues l x in
      case qplace r of
        QueueUnstarted \<Rightarrow> None
      | QueueStarting \<Rightarrow>
          (case Run_begin workers (qlock r) of
             (k, Panic e) \<Rightarrow> Some (crash (set_run x (r\<lparr>qlock := k\<rparr>) l))
           | (k, Val _) \<Rightarrow> Some (set_run x (r\<lparr>qplace := QueueWaiting, qworkers := replicate (nat workers) WorkerGet, qlock := k\<rparr>) l))
      | QueueWaiting \<Rightarrow>
          if ctx_done l then
            Some ((set_run x (r\<lparr>qplace := QueueJoining\<rparr>) l)\<lparr>ctrl := set_queue x (ShutDown w (queue_of x (ctrl l))) (ctrl l)\<rparr>)
          else None
      | QueueJoining \<Rightarrow>
          if list_all (\<lambda>p. p = WorkerExited) (qworkers r) then Some (set_run x (r\<lparr>qplace := QueueReturned, qlock := (qlock r)\<lparr>running := False\<rparr>\<rparr>) l)
          else None
      | QueueReturned \<Rightarrow> None)"

text \<open>The handler runs on the state of the controller; the outcome for the key follows on the queue as it is then.\<close>

definition handleItem :: "('p, 'q, 'k) pc_env \<Rightarrow> queue_id \<Rightarrow> string \<Rightarrow> ('p, 'q, 'k) pc_state \<Rightarrow> ('p, 'q, 'k) step_result" where
  "handleItem env x key st =
     obind (queue_handler x env key st) (\<lambda>(st1, err).
       let (q, u, err') = handleQueueItemObject (wq env) (\<lambda>k u. (u, err)) key (queue_of x st1) ()
       in Val (set_queue x q st1, err'))"

text \<open>\<open>Get\<close> waits while the queue is empty and not shut down; a worker of a queue that is shut down and empty ends.\<close>

definition workerAdvance :: "('p, 'q, 'k) pc_env \<Rightarrow> queue_id \<Rightarrow> nat \<Rightarrow> ('p, 'q, 'k) life \<Rightarrow> ('p, 'q, 'k) life option" where
  "workerAdvance env x i l =
     (let r = queues l x; moved = (\<lambda>p st. Some ((set_run x (r\<lparr>qworkers := (qworkers r)[i := p]\<rparr>) l)\<lparr>ctrl := st\<rparr>)) in
      if \<not> i < length (qworkers r) then None
      else case qworkers r ! i of
        WorkerGet \<Rightarrow>
          (case GetItem (wq env) (queue_of x (ctrl l)) of
             Some (key, q) \<Rightarrow> moved (WorkerHandling key) (set_queue x q (ctrl l))
           | None \<Rightarrow> if qplace r = QueueJoining then moved WorkerExited (ctrl l) else None)
      | WorkerHandling key \<Rightarrow>
          (case handleItem env x key (ctrl l) of
             Panic e \<Rightarrow> Some (crash l)
           | Val (st, err) \<Rightarrow> moved WorkerGet st)
      | WorkerExited \<Rightarrow> None)"

subsection \<open>Runs\<close>

text \<open>
  Steps of the program and events from outside. What the caches and the API server answer may differ at each step; the provider and the queue implementation
  are those of the controller.
\<close>

inductive life_step :: "'p PodLifecycleHandler \<Rightarrow> 'q workqueue \<Rightarrow> int \<Rightarrow> ('p, 'q, 'k) life \<Rightarrow> ('p, 'q, 'k) life \<Rightarrow> bool" for ops w workers where
  run: "\<not> crashed l \<Longrightarrow> handler env = ops \<Longrightarrow> wq env = w \<Longrightarrow> runAdvance env workers synced l = Some l' \<Longrightarrow> life_step ops w workers l l'"
| dangling: "\<not> crashed l \<Longrightarrow> handler env = ops \<Longrightarrow> wq env = w \<Longrightarrow> danglingAdvance env workers i l = Some l' \<Longrightarrow> life_step ops w workers l l'"
| queue: "\<not> crashed l \<Longrightarrow> queueAdvance w workers x l = Some l' \<Longrightarrow> life_step ops w workers l l'"
| worker: "\<not> crashed l \<Longrightarrow> handler env = ops \<Longrightarrow> wq env = w \<Longrightarrow> workerAdvance env x i l = Some l' \<Longrightarrow> life_step ops w workers l l'"

inductive life_event :: "'q workqueue \<Rightarrow> ('p, 'q, 'k) life \<Rightarrow> ('p, 'q, 'k) life \<Rightarrow> bool" for w where
  cancel: "life_event w l (l\<lparr>ctx_done := True\<rparr>)"
| add: "handlers_added l \<Longrightarrow> wq env = w \<Longrightarrow> life_event w l (l\<lparr>ctrl := AddFunc env pod (ctrl l)\<rparr>)"
| update: "handlers_added l \<Longrightarrow> wq env = w \<Longrightarrow> UpdateFunc env oldPod newPod (ctrl l) = Val st \<Longrightarrow> life_event w l (l\<lparr>ctrl := st\<rparr>)"
| delete: "handlers_added l \<Longrightarrow> wq env = w \<Longrightarrow> life_event w l (l\<lparr>ctrl := DeleteFunc env pod (ctrl l)\<rparr>)"
| notified: "notifying l \<Longrightarrow> wq env = w \<Longrightarrow> life_event w l (l\<lparr>ctrl := notify env pod (ctrl l)\<rparr>)"

inductive life_reachable :: "'p PodLifecycleHandler \<Rightarrow> 'q workqueue \<Rightarrow> int \<Rightarrow> ('p, 'q, 'k) life \<Rightarrow> bool" for ops w workers where
  start: "life_reachable ops w workers (life_start st)"
| step: "life_reachable ops w workers l \<Longrightarrow> life_step ops w workers l l' \<Longrightarrow> life_reachable ops w workers l'"
| event: "life_reachable ops w workers l \<Longrightarrow> life_event w l l' \<Longrightarrow> life_reachable ops w workers l'"

subsection \<open>The event filter\<close>

text \<open>
  With a \<open>PodEventFilterFunc\<close> the handlers are behind a filter of client-go, which calls them for the objects that pass. An informer that has missed the deletion itself reports a
  tombstone (\<open>DeletedFinalStateUnknown\<close>) in place of the pod.
\<close>

datatype informer_obj = PodObject Pod | DeletedFinalStateUnknown Pod

fun FilterFunc :: "(Pod \<Rightarrow> bool) \<Rightarrow> informer_obj \<Rightarrow> bool" where
  "FilterFunc podEventFilterFunc (PodObject p) = podEventFilterFunc p"
| "FilterFunc podEventFilterFunc (DeletedFinalStateUnknown p) = False"

fun object_pod :: "informer_obj \<Rightarrow> Pod" where
  "object_pod (PodObject p) = p"
| "object_pod (DeletedFinalStateUnknown p) = p"

definition OnDelete :: "(Pod \<Rightarrow> bool) option \<Rightarrow> ('p, 'q, 'k) pc_env \<Rightarrow> informer_obj \<Rightarrow> ('p, 'q, 'k) pc_state \<Rightarrow> ('p, 'q, 'k) pc_state" where
  "OnDelete podEventFilterFunc env obj st =
     (if (case podEventFilterFunc of None \<Rightarrow> True | Some f \<Rightarrow> FilterFunc f obj) then DeleteFunc env (object_pod obj) st else st)"

text \<open>With any filter, even one that passes every pod, a tombstone is dropped: the pod stays known and its key is not queued. Without one the pod is forgotten and its key queued.\<close>

lemma filter_drops_tombstones:
  assumes "DeletionHandlingMetaNamespaceKeyFunc env pod = Inr key"
  shows "OnDelete (Some f) env (DeletedFinalStateUnknown pod) st = st"
    and "knownPods (OnDelete None env (DeletedFinalStateUnknown pod) st) key = None"
    and "syncPodsFromKubernetes (OnDelete None env (DeletedFinalStateUnknown pod) st) = Enqueue (wq env) key (syncPodsFromKubernetes st)"
  using assms by (simp_all add: OnDelete_def DeleteFunc_def)

subsection \<open>The invariant\<close>

text \<open>The queues have been started: from \<open>RunReady\<close> on, unless \<open>Run\<close> gave up before.\<close>

definition queues_started :: "run_place \<Rightarrow> bool \<Rightarrow> bool" where
  "queues_started p ready = (p = RunReady \<or> p = RunServing \<or> p = RunJoining \<or> (p = RunReturned \<and> ready))"

definition run_ok :: "('p, 'q, 'k) life \<Rightarrow> bool" where
  "run_ok l =
     ((done_closed l \<longleftrightarrow> place l = RunReturned) \<and>
      (ready_closed l \<longrightarrow> place l = RunServing \<or> place l = RunJoining \<or> place l = RunReturned) \<and>
      (place l = RunServing \<or> place l = RunJoining \<longrightarrow> ready_closed l) \<and>
      (pc_err l \<noteq> None \<longleftrightarrow> place l = RunReturned \<and> \<not> ready_closed l) \<and>
      (place l = RunJoining \<or> place l = RunReturned \<longrightarrow> ctx_done l) \<and>
      (handlers_added l \<longleftrightarrow> place l \<notin> {RunProvider, RunCaches, RunHandlers} \<and> (place l = RunReturned \<longrightarrow> ready_closed l)))"

definition queue_ok :: "run_place \<Rightarrow> bool \<Rightarrow> bool \<Rightarrow> queue_run \<Rightarrow> bool" where
  "queue_ok p ready ctx r =
     ((qplace r \<noteq> QueueUnstarted \<longleftrightarrow> queues_started p ready) \<and>
      (p = RunReturned \<and> ready \<longrightarrow> qplace r = QueueReturned) \<and>
      (qplace r = QueueUnstarted \<or> qplace r = QueueStarting \<longrightarrow> qworkers r = []) \<and>
      (qplace r = QueueJoining \<or> qplace r = QueueReturned \<longrightarrow> ctx) \<and>
      (qplace r = QueueReturned \<longrightarrow> list_all (\<lambda>p. p = WorkerExited) (qworkers r)) \<and>
      \<not> lock_held (qlock r) \<and> (Work_Queue.running (qlock r) \<longleftrightarrow> qplace r = QueueWaiting \<or> qplace r = QueueJoining))"

definition life_inv :: "('p, 'q, 'k) life \<Rightarrow> bool" where
  "life_inv l = (run_ok l \<and> (\<forall>x. queue_ok (place l) (ready_closed l) (ctx_done l) (queues l x)))"

lemmas life_defs = life_inv_def run_ok_def queue_ok_def queues_started_def

lemma crash_simps [simp]:
  "crashed (crash l)" "place (crash l) = place l" "ctrl (crash l) = ctrl l" "done_closed (crash l) = done_closed l" "queues (crash l) = queues l"
  by (simp_all add: crash_def)

lemma set_run_simps [simp]:
  "crashed (set_run x r l) = crashed l" "place (set_run x r l) = place l" "ctrl (set_run x r l) = ctrl l" "done_closed (set_run x r l) = done_closed l"
  "ready_closed (set_run x r l) = ready_closed l" "ctx_done (set_run x r l) = ctx_done l" "pc_err (set_run x r l) = pc_err l"
  "handlers_added (set_run x r l) = handlers_added l" "queues (set_run x r l) = (queues l)(x := r)"
  by (simp_all add: set_run_def)

lemma all_queues: "(\<forall>x\<in>{SyncPods, DeletePods, SyncStatus}. P x) \<longleftrightarrow> (\<forall>x. P x)"
  by (metis insert_iff queue_id.exhaust)

lemma life_inv_start: "life_inv (life_start st)"
  by (simp add: life_defs life_start_def New_def)

lemma queue_ok_move:
  assumes "queue_ok p r c q" and "queues_started p' r' = queues_started p r" and "p' = RunReturned \<and> r' \<longrightarrow> qplace q = QueueReturned" and "c \<longrightarrow> c'"
  shows "queue_ok p' r' c' q"
  using assms by (simp add: queue_ok_def)

lemma queue_ok_start: "queue_ok RunWorkers r c q \<Longrightarrow> queue_ok RunReady r c (q\<lparr>qplace := QueueStarting\<rparr>)"
  by (simp add: queue_ok_def queues_started_def)

lemma life_inv_place:
  assumes "life_inv l" and "run_ok l'" and "queues l' = queues l" and "ctx_done l \<longrightarrow> ctx_done l'"
    and "queues_started (place l') (ready_closed l') = queues_started (place l) (ready_closed l)"
    and "place l' = RunReturned \<and> ready_closed l' \<longrightarrow> (\<forall>x. qplace (queues l x) = QueueReturned)"
  shows "life_inv l'"
  using assms queue_ok_move [of "place l" "ready_closed l" "ctx_done l" _ "place l'" "ready_closed l'" "ctx_done l'"] by (simp add: life_inv_def)

lemma life_inv_run:
  assumes inv: "life_inv l" and adv: "runAdvance env n synced l = Some l'" and alive: "\<not> crashed l'"
  shows "life_inv l'"
proof -
  have r: "run_ok l" using inv by (simp add: life_inv_def)
  show ?thesis
  proof (cases "place l")
    case RunJoining
    then have "\<forall>x. qplace (queues l x) = QueueReturned" "l' = finishRun None l"
      using adv unfolding runAdvance_def all_queues by (auto split: if_splits)
    then show ?thesis using r RunJoining by (intro life_inv_place [OF inv]) (auto simp: run_ok_def finishRun_def queues_started_def)
  next
    case RunWorkers
    then have l': "l' = l\<lparr>queues := (\<lambda>x. (queues l x)\<lparr>qplace := QueueStarting\<rparr>), place := RunReady\<rparr>" using adv by (simp add: runAdvance_def)
    have "queue_ok RunWorkers (ready_closed l) (ctx_done l) (queues l x)" for x using inv RunWorkers by (simp add: life_inv_def)
    then show ?thesis using r RunWorkers queue_ok_start unfolding l' by (simp add: life_inv_def run_ok_def)
  next
    case RunDangling
    then show ?thesis
      using r adv alive by (intro life_inv_place [OF inv]) (auto simp: runAdvance_def run_ok_def queues_started_def split: outcome.splits)
  next
    case RunCaches
    then show ?thesis
      using r adv by (intro life_inv_place [OF inv]) (auto simp: runAdvance_def run_ok_def finishRun_def queues_started_def split: if_splits)
  qed (use r adv alive in \<open>(intro life_inv_place [OF inv]; force simp: runAdvance_def run_ok_def queues_started_def split: if_splits)\<close>)+
qed

lemma life_inv_dangling:
  assumes "life_inv l" and "danglingAdvance env n i l = Some l'"
  shows "crashed l' \<or> life_inv l'"
  using assms by (auto simp: danglingAdvance_def life_defs split: run_place.splits if_splits outcome.splits option.splits)

lemma life_inv_set_run:
  assumes "life_inv l" and "queue_ok (place l) (ready_closed l) (ctx_done l) r"
  shows "life_inv (set_run x r l)"
  using assms by (simp add: life_inv_def run_ok_def)

lemma life_inv_ctrl [simp]: "life_inv (l\<lparr>ctrl := st\<rparr>) = life_inv l"
  by (simp add: life_inv_def run_ok_def)

lemma life_inv_queue:
  assumes inv: "life_inv l" and adv: "queueAdvance w n x l = Some l'" and alive: "\<not> crashed l'"
  shows "life_inv l'"
proof -
  let ?r = "queues l x"
  have q: "queue_ok (place l) (ready_closed l) (ctx_done l) ?r" using inv by (simp add: life_inv_def)
  show ?thesis
  proof (cases "qplace ?r")
    case QueueStarting
    then obtain k where k: "Run_begin n (qlock ?r) = (k, Val ())"
        "l' = set_run x (?r\<lparr>qplace := QueueWaiting, qworkers := replicate (nat n) WorkerGet, qlock := k\<rparr>) l"
      using adv alive by (auto simp: queueAdvance_def Let_def split: prod.splits outcome.splits)
    then have "queue_ok (place l) (ready_closed l) (ctx_done l) (?r\<lparr>qplace := QueueWaiting, qworkers := replicate (nat n) WorkerGet, qlock := k\<rparr>)"
      using q QueueStarting by (auto simp: queue_ok_def Run_begin_def Let_def split: if_splits)
    then show ?thesis unfolding k(2) by (rule life_inv_set_run [OF inv])
  next
    case QueueWaiting
    then have "l' = (set_run x (?r\<lparr>qplace := QueueJoining\<rparr>) l)\<lparr>ctrl := set_queue x (ShutDown w (queue_of x (ctrl l))) (ctrl l)\<rparr>" "ctx_done l"
      using adv by (auto simp: queueAdvance_def Let_def split: if_splits)
    moreover from this have "queue_ok (place l) (ready_closed l) (ctx_done l) (?r\<lparr>qplace := QueueJoining\<rparr>)"
      using q QueueWaiting by (auto simp: queue_ok_def)
    ultimately show ?thesis using life_inv_set_run [OF inv] by simp
  next
    case QueueJoining
    then have "l' = set_run x (?r\<lparr>qplace := QueueReturned, qlock := (qlock ?r)\<lparr>running := False\<rparr>\<rparr>) l" "list_all (\<lambda>p. p = WorkerExited) (qworkers ?r)"
      using adv by (auto simp: queueAdvance_def Let_def split: if_splits)
    moreover from this have "queue_ok (place l) (ready_closed l) (ctx_done l) (?r\<lparr>qplace := QueueReturned, qlock := (qlock ?r)\<lparr>running := False\<rparr>\<rparr>)"
      using q QueueJoining by (auto simp: queue_ok_def)
    ultimately show ?thesis using life_inv_set_run [OF inv] by simp
  qed (use adv in \<open>auto simp: queueAdvance_def Let_def\<close>)
qed

text \<open>A worker that moves belongs to a queue that waits or joins.\<close>

lemma workerAdvance_cases:
  assumes "workerAdvance env x i l = Some l'"
  obtains (take) key q where "i < length (qworkers (queues l x))" "qworkers (queues l x) ! i = WorkerGet"
      "GetItem (wq env) (queue_of x (ctrl l)) = Some (key, q)"
      "l' = (set_run x ((queues l x)\<lparr>qworkers := (qworkers (queues l x))[i := WorkerHandling key]\<rparr>) l)\<lparr>ctrl := set_queue x q (ctrl l)\<rparr>"
  | (exit) "i < length (qworkers (queues l x))" "qworkers (queues l x) ! i = WorkerGet" "GetItem (wq env) (queue_of x (ctrl l)) = None"
      "qplace (queues l x) = QueueJoining"
      "l' = (set_run x ((queues l x)\<lparr>qworkers := (qworkers (queues l x))[i := WorkerExited]\<rparr>) l)\<lparr>ctrl := ctrl l\<rparr>"
  | (panic) key e where "i < length (qworkers (queues l x))" "qworkers (queues l x) ! i = WorkerHandling key" "handleItem env x key (ctrl l) = Panic e" "l' = crash l"
  | (handled) key st err where "i < length (qworkers (queues l x))" "qworkers (queues l x) ! i = WorkerHandling key"
      "handleItem env x key (ctrl l) = Val (st, err)"
      "l' = (set_run x ((queues l x)\<lparr>qworkers := (qworkers (queues l x))[i := WorkerGet]\<rparr>) l)\<lparr>ctrl := st\<rparr>"
proof (cases "i < length (qworkers (queues l x))")
  case False
  then show thesis using assms by (simp add: workerAdvance_def)
next
  case i: True
  show thesis
  proof (cases "qworkers (queues l x) ! i")
    case WorkerGet
    then show thesis
      using assms i take exit by (cases "GetItem (wq env) (queue_of x (ctrl l))") (auto simp: workerAdvance_def Let_def split: if_splits prod.splits)
  next
    case (WorkerHandling key)
    then show thesis
      using assms i panic handled by (cases "handleItem env x key (ctrl l)") (auto simp: workerAdvance_def Let_def split: prod.splits)
  next
    case WorkerExited
    then show thesis using assms by (simp add: workerAdvance_def Let_def split: if_splits)
  qed
qed

lemma workerAdvance_busy:
  "workerAdvance env x i l = Some l' \<Longrightarrow> i < length (qworkers (queues l x)) \<and> qworkers (queues l x) ! i \<noteq> WorkerExited"
  by (erule workerAdvance_cases) auto

lemma queue_ok_worker:
  assumes "queue_ok p ready ctx r" and "i < length (qworkers r)" and "qworkers r ! i \<noteq> WorkerExited"
  shows "queue_ok p ready ctx (r\<lparr>qworkers := (qworkers r)[i := v]\<rparr>) \<and> (qplace r = QueueWaiting \<or> qplace r = QueueJoining)"
  using assms by (cases "qplace r") (auto simp: queue_ok_def list_all_length)

lemma life_inv_worker:
  assumes inv: "life_inv l" and adv: "workerAdvance env x i l = Some l'" and alive: "\<not> crashed l'"
  shows "life_inv l'"
proof -
  have q: "queue_ok (place l) (ready_closed l) (ctx_done l) (queues l x)" using inv by (simp add: life_inv_def)
  note keep = life_inv_set_run [OF inv conjunct1 [OF queue_ok_worker [OF q]]]
  from adv show ?thesis
    by (cases rule: workerAdvance_cases) (use alive in \<open>auto intro!: keep simp del: fun_upd_apply\<close>)
qed

lemma life_inv_event: "life_inv l \<Longrightarrow> life_event w l l' \<Longrightarrow> life_inv l'"
  by (erule life_event.cases) (auto simp: life_defs)

lemma life_inv_step:
  assumes "life_inv l" and "life_step ops w n l l'" and "\<not> crashed l'"
  shows "life_inv l'"
  using assms(2)
proof cases
  case (dangling env i)
  then show ?thesis using life_inv_dangling [OF assms(1)] assms(3) by blast
qed (use assms life_inv_run life_inv_queue life_inv_worker in blast)+

lemma life_step_alive: "life_step ops w n l l' \<Longrightarrow> \<not> crashed l"
  by (erule life_step.cases) simp_all

lemma life_event_crashed: "life_event w l l' \<Longrightarrow> crashed l' = crashed l"
  by (erule life_event.cases) auto

lemma life_reachable_inv: "life_reachable ops w n l \<Longrightarrow> crashed l \<or> life_inv l"
proof (induction rule: life_reachable.induct)
  case (step l l')
  then show ?case using life_inv_step life_step_alive by blast
next
  case (event l l')
  then show ?case using life_inv_event life_event_crashed by blast
qed (simp add: life_inv_start)

subsection \<open>No handler outside of the life of the controller\<close>

lemma life_done_no_step:
  assumes inv: "life_inv l" and fin: "done_closed l"
  shows "\<not> life_step ops w n l l'"
proof
  have ret: "place l = RunReturned" using assms by (simp add: life_inv_def run_ok_def)
  have q: "queue_ok RunReturned (ready_closed l) (ctx_done l) (queues l x)" for x
    using inv ret by (simp add: life_inv_def)
  have idle: "qplace (queues l x) = QueueUnstarted \<or> qplace (queues l x) = QueueReturned" for x
    using q [of x] by (cases "qplace (queues l x)") (auto simp: queue_ok_def queues_started_def)
  assume "life_step ops w n l l'"
  then show False
  proof cases
    case (run env synced)
    then show False using ret by (simp add: runAdvance_def)
  next
    case (dangling env i)
    then show False using ret by (simp add: danglingAdvance_def)
  next
    case (queue x)
    then show False using idle [of x] by (auto simp: queueAdvance_def)
  next
    case (worker env x i)
    then show False using workerAdvance_busy [OF worker(4)] queue_ok_worker [OF q [of x]] idle [of x] by auto
  qed
qed

lemma UpdateFunc_frame: "UpdateFunc env oldPod newPod st = Val st' \<Longrightarrow> provider st' = provider st \<and> client st' = client st"
  by (auto simp: UpdateFunc_def split: sum.splits option.splits if_splits)

lemma life_event_frame: "life_event w l l' \<Longrightarrow> provider (ctrl l') = provider (ctrl l) \<and> client (ctrl l') = client (ctrl l)"
proof (erule life_event.cases)
  fix l0 env oldPod newPod st
  assume "l = l0" "l' = l0\<lparr>ctrl := st\<rparr>" "UpdateFunc env oldPod newPod (ctrl l0) = Val st"
  then show ?thesis using UpdateFunc_frame [of env oldPod newPod "ctrl l0" st] by simp
qed (simp_all add: AddFunc_def DeleteFunc_def split: sum.split)

text \<open>
  C10: In every state that a pod controller reaches, in any interleaving of its goroutines with events of the informer, notifications and the end of its context: a
  worker handles a key only after the caches are in sync, the event handlers are added and the dangling pods are deleted, and before \<open>Done\<close> is closed. When \<open>Done\<close> is
  closed nothing of the controller moves any more and no event reaches the provider or the API server; \<open>Err\<close> is nil exactly if the controller had become ready.
\<close>

theorem handlers_run_only_while_alive:
  assumes "life_reachable ops w n l" and "\<not> crashed l"
  shows "(\<forall>x key. WorkerHandling key \<in> set (qworkers (queues l x)) \<longrightarrow>
      (place l = RunReady \<or> place l = RunServing \<or> place l = RunJoining) \<and> handlers_added l \<and> \<not> done_closed l) \<and>
    (done_closed l \<longrightarrow> ctx_done l \<and> (pc_err l = None \<longleftrightarrow> ready_closed l) \<and> (\<forall>l'. \<not> life_step ops w n l l') \<and>
      (\<forall>l'. life_event w l l' \<longrightarrow> provider (ctrl l') = provider (ctrl l) \<and> client (ctrl l') = client (ctrl l)))"
proof -
  have inv: "life_inv l" using life_reachable_inv [OF assms(1)] assms(2) by blast
  then have r: "run_ok l" and q: "queue_ok (place l) (ready_closed l) (ctx_done l) (queues l x)" for x by (simp_all add: life_inv_def)
  have "(place l = RunReady \<or> place l = RunServing \<or> place l = RunJoining) \<and> handlers_added l \<and> \<not> done_closed l"
    if handling: "WorkerHandling key \<in> set (qworkers (queues l x))" for x key
  proof -
    obtain i where "i < length (qworkers (queues l x))" "qworkers (queues l x) ! i = WorkerHandling key"
      using handling by (auto simp: in_set_conv_nth)
    then have at: "qplace (queues l x) \<noteq> QueueUnstarted" "qplace (queues l x) \<noteq> QueueReturned"
      using queue_ok_worker [OF q [of x]] by force+
    then have "queues_started (place l) (ready_closed l)" "\<not> (place l = RunReturned \<and> ready_closed l)"
      using q [of x] unfolding queue_ok_def by blast+
    then have "place l = RunReady \<or> place l = RunServing \<or> place l = RunJoining" by (simp add: queues_started_def)
    then show ?thesis using r by (elim disjE) (simp_all add: run_ok_def)
  qed
  moreover have "ctx_done l \<and> (pc_err l = None \<longleftrightarrow> ready_closed l)" if "done_closed l"
    using r that by (cases "pc_err l") (simp_all add: run_ok_def)
  moreover have "\<not> life_step ops w n l l'" if "done_closed l" for l' by (rule life_done_no_step [OF inv that])
  ultimately show ?thesis using life_event_frame by (intro conjI allI impI) blast+
qed

subsection \<open>Schedules\<close>

text \<open>A schedule is a list of moves; playing it leads to reachable states.\<close>

datatype life_move = MoveRun bool | MoveDangling nat | MoveQueue queue_id | MoveWorker queue_id nat | MoveCancel | MoveAdd Pod

fun make_move :: "('p, 'q, 'k) pc_env \<Rightarrow> int \<Rightarrow> life_move \<Rightarrow> ('p, 'q, 'k) life \<Rightarrow> ('p, 'q, 'k) life option" where
  "make_move env n (MoveRun synced) l = (if crashed l then None else runAdvance env n synced l)"
| "make_move env n (MoveDangling i) l = (if crashed l then None else danglingAdvance env n i l)"
| "make_move env n (MoveQueue x) l = (if crashed l then None else queueAdvance (wq env) n x l)"
| "make_move env n (MoveWorker x i) l = (if crashed l then None else workerAdvance env x i l)"
| "make_move env n MoveCancel l = Some (l\<lparr>ctx_done := True\<rparr>)"
| "make_move env n (MoveAdd pod) l = (if handlers_added l then Some (l\<lparr>ctrl := AddFunc env pod (ctrl l)\<rparr>) else None)"

fun life_play :: "('p, 'q, 'k) pc_env \<Rightarrow> int \<Rightarrow> life_move list \<Rightarrow> ('p, 'q, 'k) life \<Rightarrow> ('p, 'q, 'k) life option" where
  "life_play env n [] l = Some l"
| "life_play env n (m # ms) l = (case make_move env n m l of None \<Rightarrow> None | Some l' \<Rightarrow> life_play env n ms l')"

lemma make_move_reachable:
  assumes "make_move env n m l = Some l'" and "life_reachable (handler env) (wq env) n l"
  shows "life_reachable (handler env) (wq env) n l'"
proof (cases m)
  case MoveCancel
  then show ?thesis using assms life_reachable.event [OF assms(2) life_event.cancel] by simp
next
  case (MoveAdd pod)
  then show ?thesis using assms life_reachable.event [OF assms(2) life_event.add [OF _ refl]] by (auto split: if_splits)
qed (use assms in \<open>auto split: if_splits intro: life_reachable.step [OF assms(2)] life_step.intros\<close>)

lemma life_play_reachable:
  "life_play env n ms l = Some l' \<Longrightarrow> life_reachable (handler env) (wq env) n l \<Longrightarrow> life_reachable (handler env) (wq env) n l'"
  by (induction ms arbitrary: l) (auto split: option.splits intro: make_move_reachable)

text \<open>The example: start-up with an empty mock provider, a pod is added, and a worker takes its key.\<close>

definition demo_schedule :: "life_move list" where
  "demo_schedule = [MoveRun True, MoveRun True, MoveRun True, MoveRun True, MoveRun True, MoveRun True, MoveRun True,
     MoveQueue SyncPods, MoveQueue DeletePods, MoveQueue SyncStatus, MoveAdd web, MoveWorker SyncPods 0]"

definition demo_life :: "(MockProvider, fifo, Pod list) life option" where
  "demo_life = life_play (demo_env [web]) 1 demo_schedule (life_start demo_start)"

lemma demo_life_run:
  "\<exists>l. demo_life = Some l \<and> \<not> crashed l \<and> place l = RunServing \<and> qworkers (queues l SyncPods) = [WorkerHandling ''ns/web''] \<and>
    life_reachable mock_handler fifo_workqueue 1 l"
proof -
  have "case demo_life of None \<Rightarrow> False | Some l \<Rightarrow> \<not> crashed l \<and> place l = RunServing \<and> qworkers (queues l SyncPods) = [WorkerHandling ''ns/web'']"
    by code_simp
  moreover have "handler (demo_env [web]) = mock_handler" "wq (demo_env [web]) = fifo_workqueue" by (simp_all add: demo_env_def)
  ultimately show ?thesis
    using life_play_reachable [of "demo_env [web]" 1 demo_schedule "life_start demo_start"] life_reachable.start
    unfolding demo_life_def by (auto split: option.splits)
qed

theorem handlers_run_only_while_alive_witness:
  "\<exists>l. demo_life = Some l \<and> WorkerHandling ''ns/web'' \<in> set (qworkers (queues l SyncPods)) \<and> handlers_added l \<and> \<not> done_closed l"
proof -
  obtain l where l: "demo_life = Some l" "\<not> crashed l" "qworkers (queues l SyncPods) = [WorkerHandling ''ns/web'']"
      "life_reachable mock_handler fifo_workqueue 1 l"
    using demo_life_run by blast
  then have h: "WorkerHandling ''ns/web'' \<in> set (qworkers (queues l SyncPods))" by simp
  then have "handlers_added l \<and> \<not> done_closed l" using handlers_run_only_while_alive [OF l(4,2)] by blast
  then show ?thesis using l(1) h by blast
qed

end
