(* ===== verification/Pod_Shutdown.thy ===== *)
theory Pod_Shutdown
  imports Pod_Lifecycle
begin

text \<open>
  The end of the pod controller: what the handlers do to the queues, the contract of a queue that is shut down (locale \<open>draining_queue\<close>: it takes nothing new and hands out what it holds), and
  the proof that a controller whose context has ended is never stuck and takes a bounded number of steps to close \<open>Done\<close>.
\<close>

subsection \<open>Queues change through their operations only\<close>

inductive queue_evolves :: "'q workqueue \<Rightarrow> 'q \<Rightarrow> 'q \<Rightarrow> bool" for w where
  unchanged [simp, intro]: "queue_evolves w q q"
| rate_limited: "queue_evolves w q q' \<Longrightarrow> queue_evolves w q (AddRateLimited w k q')"
| added: "queue_evolves w q q' \<Longrightarrow> queue_evolves w q (Add w k q')"
| added_after: "queue_evolves w q q' \<Longrightarrow> queue_evolves w q (AddAfter w k d q')"
| forgotten: "queue_evolves w q q' \<Longrightarrow> queue_evolves w q (ForgetItem w k q')"
| finished: "queue_evolves w q q' \<Longrightarrow> queue_evolves w q (DoneItem w k q')"

lemmas queue_evolves_once [simp] = queue_evolves.intros(2-6) [OF queue_evolves.unchanged]

lemma queue_evolves_trans: "queue_evolves w q' q'' \<Longrightarrow> queue_evolves w q q' \<Longrightarrow> queue_evolves w q q''"
  by (induction rule: queue_evolves.induct) (auto intro: queue_evolves.intros)

definition st_evolves :: "'q workqueue \<Rightarrow> ('p, 'q, 'k) pc_state \<Rightarrow> ('p, 'q, 'k) pc_state \<Rightarrow> bool" where
  "st_evolves w st st' = (\<forall>x. queue_evolves w (queue_of x st) (queue_of x st'))"

named_theorems evolve_intros \<open>operations change the queues through queue operations\<close>

lemma st_evolves_refl [simp, intro]: "st_evolves w st st"
  by (simp add: st_evolves_def)

lemma st_evolves_trans [trans]: "st_evolves w st st' \<Longrightarrow> st_evolves w st' st'' \<Longrightarrow> st_evolves w st st''"
  unfolding st_evolves_def using queue_evolves_trans by metis

lemma st_evolves_same:
  "(\<And>x. queue_of x st' = queue_of x st) \<Longrightarrow> st_evolves w st st'"
  by (simp add: st_evolves_def)

lemma queue_of_set [simp]: "queue_of y (set_queue x q st) = (if y = x then q else queue_of y st)"
  by (cases x; cases y) simp_all

lemma queue_of_frames [simp]:
  "queue_of x (st\<lparr>provider := p\<rparr>) = queue_of x st" "queue_of x (st\<lparr>client := c\<rparr>) = queue_of x st" "queue_of x (st\<lparr>envst := e\<rparr>) = queue_of x st"
  "queue_of x (write_knownPod a f st) = queue_of x st" "queue_of x (store_new_knownPod key st) = queue_of x st"
  "queue_of x (recorder_Event pod ty r m st) = queue_of x st" "queue_of x (handleProviderError env err pod st) = queue_of x st"
  by (cases x; simp add: write_knownPod_def store_new_knownPod_def recorder_Event_def handleProviderError_def Let_def)+

lemma st_evolves_notify: "wq env = w \<Longrightarrow> st_evolves w st (notify env pod st)"
proof -
  assume w: "wq env = w"
  have "queue_evolves w (queue_of x st) (queue_of x (enqueuePodStatusUpdate env rounds pod st))" for x rounds
    by (cases x) (auto simp: enqueuePodStatusUpdate_def w Enqueue_def split: sum.split intro: queue_evolves.intros)
  then show ?thesis by (simp add: st_evolves_def notify_def)
qed

lemma st_evolves_fold_notify: "wq env = w \<Longrightarrow> st_evolves w st (fold (notify env) ps st)"
  by (induction ps arbitrary: st) (auto intro: st_evolves_trans st_evolves_notify)

lemma st_evolves_call [evolve_intros]:
  assumes "wq env = w" and "call_provider env f st = Val (st', err)"
  shows "st_evolves w st st'"
proof -
  obtain p' ns where "st' = fold (notify env) ns (st\<lparr>provider := p'\<rparr>)" using assms(2) by (auto simp: call_provider_Val)
  moreover have "st_evolves w st (st\<lparr>provider := p'\<rparr>)" by (rule st_evolves_same) simp
  ultimately show ?thesis using st_evolves_fold_notify [OF assms(1)] st_evolves_trans by blast
qed

lemma st_evolves_after:
  assumes "st_evolves w st st1" and "\<And>x. queue_of x st' = queue_of x st1"
  shows "st_evolves w st st'"
  using assms by (simp add: st_evolves_def)

lemma st_evolves_createOrUpdatePod:
  assumes w: "wq env = w" and run: "createOrUpdatePod env pod st = Val (st', err)"
  shows "st_evolves w st st'"
  using run
proof (cases rule: createOrUpdatePod_cases)
  case (update es pod1 pfp e')
  obtain st1 e where c: "call_provider env (UpdatePod (handler env) (clock env) pod1) (st\<lparr>envst := es\<rparr>) = Val (st1, e)"
    using update(1) by (auto simp: updateInProvider_def)
  have q: "queue_of x st' = queue_of x st1" for x
    using update(1) c by (cases e; cases "MetaNamespaceKeyFunc env pod1") (auto simp: updateInProvider_def Let_def)
  have "st_evolves w (st\<lparr>envst := es\<rparr>) st1" by (rule st_evolves_call [OF w c])
  then show ?thesis using q by (simp add: st_evolves_def)
next
  case (create es pod1 e')
  obtain st1 e where c: "call_provider env (CreatePod (handler env) (clock env) pod1) (st\<lparr>envst := es\<rparr>) = Val (st1, e)"
    using create(1) by (auto simp: createInProvider_def)
  have q: "queue_of x st' = queue_of x st1" for x
    using create(1) c by (cases e) (auto simp: createInProvider_def)
  have "st_evolves w (st\<lparr>envst := es\<rparr>) st1" by (rule st_evolves_call [OF w c])
  then show ?thesis using q by (simp add: st_evolves_def)
qed (simp_all add: st_evolves_def)

lemma st_evolves_deletePod:
  assumes w: "wq env = w" and run: "deletePod env pod st = Val (st', err)"
  shows "st_evolves w st st'"
proof -
  obtain st1 e where c: "call_provider env (DeletePod (handler env) (clock env) pod) st = Val (st1, e)"
    using run by (auto simp: deletePod_def)
  have "queue_of x st' = queue_of x st1" for x using run c by (cases e) (auto simp: deletePod_def)
  then show ?thesis by (rule st_evolves_after [OF st_evolves_call [OF w c]])
qed

lemma st_evolves_delete_queue:
  assumes "st_evolves w st st1" and "queue_evolves w (deletePodsFromKubernetes st1) q"
  shows "st_evolves w st (st1\<lparr>deletePodsFromKubernetes := q\<rparr>)"
proof -
  have e: "queue_evolves w (queue_of x st) (queue_of x st1)" for x using assms(1) by (simp add: st_evolves_def)
  have "queue_evolves w (queue_of x st) (queue_of x (st1\<lparr>deletePodsFromKubernetes := q\<rparr>))" for x
    using e [of x] queue_evolves_trans [OF assms(2)] by (cases x) simp_all
  then show ?thesis by (simp add: st_evolves_def)
qed

lemma st_evolves_sync:
  assumes w: "wq env = w" and run: "syncPodInProvider env pod key st = Val (st', err)"
  shows "st_evolves w st st'"
  using run
proof (cases rule: syncPodInProvider_cases)
  case force_delete
  then show ?thesis
    by (auto simp: EnqueueWithoutRateLimit_def w intro!: st_evolves_delete_queue queue_evolves.intros)
next
  case (delete_failed a)
  then show ?thesis using st_evolves_deletePod [OF w] by blast
next
  case (deleted a st1 e grace)
  have "st_evolves w st (st1\<lparr>deletePodsFromKubernetes := EnqueueAfter (wq env) key (int64 (time_Second * grace)) (deletePodsFromKubernetes st1)\<rparr>)"
    by (rule st_evolves_delete_queue [OF st_evolves_deletePod [OF w deleted(5)]])
      (simp add: EnqueueAfter_def w queue_evolves.intros)
  then show ?thesis unfolding deleted(8) by (rule st_evolves_after) simp
next
  case (terminal a)
  then show ?thesis by (simp add: st_evolves_same)
next
  case (synced a st1 e)
  show ?thesis
    by (rule st_evolves_after [OF st_evolves_createOrUpdatePod [OF w synced(4)]]) (simp add: synced(6))
qed simp_all

lemma st_evolves_sync_handler:
  assumes w: "wq env = w" and run: "syncPodFromKubernetesHandler env key st = Val (st', err)"
  shows "st_evolves w st st'"
proof (cases "SplitMetaNamespaceKey env key")
  case (Inl e)
  then show ?thesis using run by (simp add: syncPodFromKubernetesHandler_def)
next
  case (Inr nn)
  obtain namespace name where nn: "nn = (namespace, name)" by fastforce
  show ?thesis
  proof (cases "podsLister_Get env namespace name")
    case (Inl lerr)
    from run Inr [unfolded nn] Inl show ?thesis
      by (cases rule: sync_handler_missing_cases) (auto intro: st_evolves_call [OF w])
  next
    case (Inr pod)
    then show ?thesis
      using run \<open>SplitMetaNamespaceKey env key = Inr nn\<close> nn st_evolves_sync [OF w] by (simp add: syncPodFromKubernetesHandler_def)
  qed
qed

lemma queue_of_deleteFromAPI: "deleteFromAPI env pk pp st = (st', err) \<Longrightarrow> queue_of x st' = queue_of x st"
  by (auto simp: deleteFromAPI_def Let_def split: option.splits if_splits prod.splits)

lemma queue_of_updateStatusInAPI: "updateStatusInAPI env pp st = (st', err) \<Longrightarrow> queue_of x st' = queue_of x st"
  by (auto simp: updateStatusInAPI_def Let_def split: prod.splits)

lemma queue_of_updatePodStatus:
  assumes "updatePodStatus env pod key st = Val (st', err)"
  shows "queue_of x st' = queue_of x st"
proof (cases "shouldSkipPodStatusUpdate pod \<or> knownPods st key = None")
  case True
  then show ?thesis using assms by (auto simp: updatePodStatus_def split: if_splits)
next
  case False
  then show ?thesis
    using assms by (auto simp: updatePodStatus_def Let_def split: if_splits prod.splits dest!: queue_of_deleteFromAPI [where x = x] queue_of_updateStatusInAPI [where x = x])
qed

lemma st_evolves_handler:
  assumes w: "wq env = w" and run: "queue_handler x env key st = Val (st', err)"
  shows "st_evolves w st st'"
proof (cases x)
  case SyncPods
  then show ?thesis using run st_evolves_sync_handler [OF w] by simp
next
  case DeletePods
  have "queue_of y st' = queue_of y st" for y
    using run DeletePods by (auto simp: deletePodsFromKubernetesHandler_def cleanDeletionCache_def Let_def split: sum.splits if_splits prod.splits option.splits)
  then show ?thesis by (rule st_evolves_same)
next
  case SyncStatus
  have "queue_of y st' = queue_of y st" for y
    using run SyncStatus queue_of_updatePodStatus [of env _ key st st' err y]
    by (auto simp: syncPodStatusFromProviderHandler_def split: sum.splits if_splits)
  then show ?thesis by (rule st_evolves_same)
qed

lemma st_evolves_handleItem:
  assumes w: "wq env = w" and run: "handleItem env x key st = Val (st', err)"
  shows "st_evolves w st st'"
proof -
  obtain st1 e where h: "queue_handler x env key st = Val (st1, e)" using run by (auto simp: handleItem_def)
  obtain q u e' where o: "handleQueueItemObject w (\<lambda>k u. (u, e)) key (queue_of x st1) () = (q, u, e')" by (metis prod_cases3)
  have "queue_evolves w (queue_of x st1) q"
    using o by (auto simp: handleQueueItemObject_def split: option.splits if_splits intro: queue_evolves.intros)
  then have "st_evolves w st1 (set_queue x q st1)" by (simp add: st_evolves_def)
  moreover have "st' = set_queue x q st1" using run h o by (auto simp: handleItem_def w)
  ultimately show ?thesis using st_evolves_trans [OF st_evolves_handler [OF w h]] by simp
qed

lemma st_evolves_AddFunc: "wq env = w \<Longrightarrow> st_evolves w st (AddFunc env pod st)"
  unfolding st_evolves_def
proof
  fix x assume "wq env = w"
  then show "queue_evolves w (queue_of x st) (queue_of x (AddFunc env pod st))"
    by (cases x) (auto simp: AddFunc_def Enqueue_def store_new_knownPod_def split: sum.split intro: queue_evolves.intros)
qed

lemma st_evolves_DeleteFunc: "wq env = w \<Longrightarrow> st_evolves w st (DeleteFunc env pod st)"
  unfolding st_evolves_def
proof
  fix x assume "wq env = w"
  then show "queue_evolves w (queue_of x st) (queue_of x (DeleteFunc env pod st))"
    by (cases x) (auto simp: DeleteFunc_def Enqueue_def Forget_def split: sum.split intro: queue_evolves.intros)
qed

lemma st_evolves_UpdateFunc:
  assumes "wq env = w" and "UpdateFunc env oldPod newPod st = Val st'"
  shows "st_evolves w st st'"
  unfolding st_evolves_def
proof
  fix x
  show "queue_evolves w (queue_of x st) (queue_of x st')"
    using assms by (cases x) (auto simp: UpdateFunc_def Enqueue_def split: sum.splits option.splits if_splits intro: queue_evolves.intros)
qed

lemma life_event_evolves: "life_event w l l' \<Longrightarrow> st_evolves w (ctrl l) (ctrl l')"
  by (erule life_event.cases) (auto intro: st_evolves_AddFunc st_evolves_DeleteFunc st_evolves_UpdateFunc st_evolves_notify)

subsection \<open>Queues that are shut down\<close>

fun worker_weight :: "worker_place \<Rightarrow> nat" where
  "worker_weight WorkerGet = 1"
| "worker_weight (WorkerHandling key) = 2"
| "worker_weight WorkerExited = 0"

definition queue_weight :: "queue_run \<Rightarrow> nat" where
  "queue_weight r = (if qplace r = QueueJoining then 1 else 0) + sum_list (map worker_weight (qworkers r))"

fun run_weight :: "run_place \<Rightarrow> nat" where
  "run_weight RunReady = 3"
| "run_weight RunServing = 2"
| "run_weight RunJoining = 1"
| "run_weight p = 0"

definition shut_measure :: "('q \<Rightarrow> nat) \<Rightarrow> ('p, 'q, 'k) life \<Rightarrow> nat" where
  "shut_measure pending l = run_weight (place l) +
     (\<Sum>x\<in>{SyncPods, DeletePods, SyncStatus}. 2 * pending (queue_of x (ctrl l)) + queue_weight (queues l x))"

text \<open>The context has ended and every queue is shut down.\<close>

definition shutting :: "('q \<Rightarrow> bool) \<Rightarrow> ('p, 'q, 'k) life \<Rightarrow> bool" where
  "shutting shut l = (ctx_done l \<and> (place l = RunReady \<or> place l = RunServing \<or> place l = RunJoining \<or> place l = RunReturned) \<and>
     (\<forall>x. (qplace (queues l x) = QueueJoining \<or> qplace (queues l x) = QueueReturned) \<and> shut (queue_of x (ctrl l))))"

text \<open>Runs with the number of steps of the program in them.\<close>

inductive life_runs :: "'p PodLifecycleHandler \<Rightarrow> 'q workqueue \<Rightarrow> int \<Rightarrow> nat \<Rightarrow> ('p, 'q, 'k) life \<Rightarrow> ('p, 'q, 'k) life \<Rightarrow> bool" for ops w n where
  stay: "life_runs ops w n 0 l l"
| step: "life_runs ops w n k l l' \<Longrightarrow> life_step ops w n l' l'' \<Longrightarrow> life_runs ops w n (Suc k) l l''"
| event: "life_runs ops w n k l l' \<Longrightarrow> life_event w l' l'' \<Longrightarrow> life_runs ops w n k l l''"

locale draining_queue =
  fixes w :: "'q workqueue" and shut :: "'q \<Rightarrow> bool" and pending :: "'q \<Rightarrow> nat"
  assumes shut_down: "shut (ShutDown w q)"
    and shut_rate_limited: "shut q \<Longrightarrow> shut (AddRateLimited w k q) \<and> pending (AddRateLimited w k q) \<le> pending q"
    and shut_add: "shut q \<Longrightarrow> shut (Add w k q) \<and> pending (Add w k q) \<le> pending q"
    and shut_after: "shut q \<Longrightarrow> shut (AddAfter w k d q) \<and> pending (AddAfter w k d q) \<le> pending q"
    and shut_forget: "shut q \<Longrightarrow> shut (ForgetItem w k q) \<and> pending (ForgetItem w k q) \<le> pending q"
    and shut_done: "shut q \<Longrightarrow> shut (DoneItem w k q) \<and> pending (DoneItem w k q) \<le> pending q"
    and shut_get: "shut q \<Longrightarrow> GetItem w q = Some (k, q') \<Longrightarrow> shut q' \<and> pending q' < pending q"
begin

lemma evolves_shut: "queue_evolves w q q' \<Longrightarrow> shut q \<Longrightarrow> shut q' \<and> pending q' \<le> pending q"
  by (induction rule: queue_evolves.induct)
    (auto dest: shut_rate_limited shut_add shut_after shut_forget shut_done intro: order_trans)

lemma st_evolves_shut:
  "st_evolves w st st' \<Longrightarrow> shut (queue_of x st) \<Longrightarrow> shut (queue_of x st') \<and> pending (queue_of x st') \<le> pending (queue_of x st)"
  unfolding st_evolves_def using evolves_shut by blast

lemma measure_mono:
  assumes "\<And>x. pending (queue_of x (ctrl l')) \<le> pending (queue_of x (ctrl l))" and "place l' = place l" and "queues l' = queues l"
  shows "shut_measure pending l' \<le> shut_measure pending l"
proof -
  have "(\<Sum>x\<in>{SyncPods, DeletePods, SyncStatus}. 2 * pending (queue_of x (ctrl l')) + queue_weight (queues l' x)) \<le>
      (\<Sum>x\<in>{SyncPods, DeletePods, SyncStatus}. 2 * pending (queue_of x (ctrl l)) + queue_weight (queues l x))"
    using assms(1) unfolding assms(3) by (intro sum_mono add_mono) simp_all
  then show ?thesis unfolding shut_measure_def assms(2) by simp
qed

lemma event_shutting:
  assumes s: "shutting shut l" and e: "life_event w l l'"
  shows "shutting shut l' \<and> shut_measure pending l' \<le> shut_measure pending l"
proof -
  have f: "place l' = place l" "queues l' = queues l" "ctx_done l \<longrightarrow> ctx_done l'" using e by (cases; simp)+
  have q: "shut (queue_of x (ctrl l'))" "pending (queue_of x (ctrl l')) \<le> pending (queue_of x (ctrl l))" for x
    using st_evolves_shut [OF life_event_evolves [OF e], of x] s by (simp_all add: shutting_def)
  have "shutting shut l'" using f s q(1) by (simp add: shutting_def)
  moreover have "shut_measure pending l' \<le> shut_measure pending l" by (rule measure_mono [OF q(2) f(1,2)])
  ultimately show ?thesis by blast
qed

text \<open>One queue and its goroutines move; the others only lose items.\<close>

lemma measure_queue:
  assumes "place l' = place l" and "\<And>y. y \<noteq> x \<Longrightarrow> queues l' y = queues l y"
    and "\<And>y. y \<noteq> x \<Longrightarrow> pending (queue_of y (ctrl l')) \<le> pending (queue_of y (ctrl l))"
    and "2 * pending (queue_of x (ctrl l')) + queue_weight (queues l' x) < 2 * pending (queue_of x (ctrl l)) + queue_weight (queues l x)"
  shows "shut_measure pending l' < shut_measure pending l"
proof -
  let ?f = "\<lambda>l x. 2 * pending (queue_of x (ctrl l)) + queue_weight (queues l x)"
  have "?f l' y \<le> ?f l y" for y using assms(2-4) by (cases "y = x") (auto intro: less_imp_le)
  moreover have "x \<in> {SyncPods, DeletePods, SyncStatus}" by (cases x) simp_all
  ultimately have "(\<Sum>y\<in>{SyncPods, DeletePods, SyncStatus}. ?f l' y) < (\<Sum>y\<in>{SyncPods, DeletePods, SyncStatus}. ?f l y)"
    using assms(4) by (intro sum_strict_mono_ex1) blast+
  then show ?thesis using assms(1) by (simp add: shut_measure_def)
qed

lemma queue_weight_worker:
  assumes "i < length (qworkers r)"
  shows "queue_weight (r\<lparr>qworkers := (qworkers r)[i := v]\<rparr>) + worker_weight (qworkers r ! i) = queue_weight r + worker_weight v"
  using sum_list_map_update [OF assms, of worker_weight v] by (simp add: queue_weight_def)

lemma worker_shutting:
  assumes s: "shutting shut l" and w: "wq env = w" and adv: "workerAdvance env x i l = Some l'" and alive: "\<not> crashed l'"
  shows "shutting shut l' \<and> shut_measure pending l' < shut_measure pending l"
proof -
  let ?r = "queues l x"
  have sh: "shut (queue_of y (ctrl l))" for y using s by (simp add: shutting_def)
  have main: "shutting shut l' \<and> shut_measure pending l' < shut_measure pending l"
    if l': "l' = (set_run x (?r\<lparr>qworkers := (qworkers ?r)[i := v]\<rparr>) l)\<lparr>ctrl := st\<rparr>"
      and i: "i < length (qworkers ?r)"
      and q: "\<And>y. shut (queue_of y st) \<and> pending (queue_of y st) \<le> pending (queue_of y (ctrl l))"
      and less: "2 * pending (queue_of x st) + worker_weight v < 2 * pending (queue_of x (ctrl l)) + worker_weight (qworkers ?r ! i)" for v st
  proof
    show "shutting shut l'" using s q unfolding l' by (simp add: shutting_def)
    show "shut_measure pending l' < shut_measure pending l"
      by (rule measure_queue [where x = x]) (use queue_weight_worker [OF i, of v] less q in \<open>simp_all add: l'\<close>)
  qed
  from adv show ?thesis
  proof (cases rule: workerAdvance_cases)
    case (take key q)
    then have g: "shut q \<and> pending q < pending (queue_of x (ctrl l))" using shut_get [OF sh] w by blast
    show ?thesis by (rule main [OF take(4,1)]) (use g sh take(2) in auto)
  next
    case exit
    show ?thesis by (rule main [OF exit(5,1)]) (use sh exit(2) in auto)
  next
    case (handled key st err)
    have e: "shut (queue_of y st) \<and> pending (queue_of y st) \<le> pending (queue_of y (ctrl l))" for y
      by (rule st_evolves_shut [OF st_evolves_handleItem [OF w handled(3)] sh])
    show ?thesis by (rule main [OF handled(4,1) e]) (use e [of x] handled(2) in simp)
  qed (use alive in simp)
qed

lemma queue_shutting:
  assumes s: "shutting shut l" and adv: "queueAdvance w n x l = Some l'"
  shows "shutting shut l' \<and> shut_measure pending l' < shut_measure pending l"
proof -
  let ?r = "queues l x"
  have "qplace ?r = QueueJoining \<or> qplace ?r = QueueReturned" using s by (simp add: shutting_def)
  then have "qplace ?r = QueueJoining" using adv by (auto simp: queueAdvance_def)
  moreover from this have l': "l' = set_run x (?r\<lparr>qplace := QueueReturned, qlock := (qlock ?r)\<lparr>running := False\<rparr>\<rparr>) l"
    using adv by (auto simp: queueAdvance_def Let_def split: if_splits)
  ultimately have "shut_measure pending l' < shut_measure pending l"
    by (intro measure_queue [where x = x]) (simp_all add: l' queue_weight_def)
  moreover have "shutting shut l'" using s unfolding l' by (simp add: shutting_def)
  ultimately show ?thesis by blast
qed

lemma run_shutting:
  assumes s: "shutting shut l" and adv: "runAdvance env n synced l = Some l'" and alive: "\<not> crashed l'"
  shows "shutting shut l' \<and> shut_measure pending l' < shut_measure pending l"
proof -
  have "queues l' = queues l \<and> ctrl l' = ctrl l \<and> ctx_done l' \<and> run_weight (place l') < run_weight (place l) \<and>
      (place l' = RunReady \<or> place l' = RunServing \<or> place l' = RunJoining \<or> place l' = RunReturned)"
    using s [unfolded shutting_def] adv alive
    by (elim conjE disjE) (simp_all add: runAdvance_def finishRun_def split: if_splits, clarsimp+)
  then show ?thesis using s by (simp add: shutting_def shut_measure_def)
qed

lemma step_shutting:
  assumes s: "shutting shut l" and step: "life_step ops w n l l'" and alive: "\<not> crashed l'"
  shows "shutting shut l' \<and> shut_measure pending l' < shut_measure pending l"
  using step
proof cases
  case (dangling env i)
  then show ?thesis using s by (auto simp: shutting_def danglingAdvance_def)
qed (use s alive run_shutting queue_shutting worker_shutting in blast)+

lemma runs_shutting:
  assumes "life_runs ops w n k l l'" and "shutting shut l"
  shows "crashed l' \<or> (shutting shut l' \<and> k + shut_measure pending l' \<le> shut_measure pending l)"
  using assms
proof (induction rule: life_runs.induct)
  case (step k l l' l'')
  then have "\<not> crashed l'" using life_step_alive by blast
  with step have "shutting shut l'" "k + shut_measure pending l' \<le> shut_measure pending l" by blast+
  then show ?case using step_shutting [OF _ step.hyps(2)] by fastforce
next
  case (event k l l' l'')
  then show ?case using event_shutting [OF _ event.hyps(2)] life_event_crashed [OF event.hyps(2)] by fastforce
qed simp

end

subsection \<open>Never stuck\<close>

lemma worker_progress:
  assumes "wq env = w" and "i < length (qworkers (queues l x))" and "qworkers (queues l x) ! i \<noteq> WorkerExited" and "qplace (queues l x) = QueueJoining"
  shows "workerAdvance env x i l \<noteq> None"
proof (cases "qworkers (queues l x) ! i")
  case WorkerGet
  then show ?thesis using assms by (cases "GetItem w (queue_of x (ctrl l))") (auto simp: workerAdvance_def Let_def)
next
  case (WorkerHandling key)
  then show ?thesis using assms by (cases "handleItem env x key (ctrl l)") (auto simp: workerAdvance_def Let_def)
qed (use assms in simp)

lemma queue_progress:
  assumes "wq env = w" and "ctx_done l" and "qplace (queues l x) \<noteq> QueueUnstarted" and "qplace (queues l x) \<noteq> QueueReturned"
  shows "queueAdvance w n x l \<noteq> None \<or> (\<exists>i. workerAdvance env x i l \<noteq> None)"
proof (cases "qplace (queues l x)")
  case QueueStarting
  then show ?thesis
    by (cases "Run_begin n (qlock (queues l x))"; cases "snd (Run_begin n (qlock (queues l x)))") (auto simp: queueAdvance_def Let_def)
next
  case QueueJoining
  show ?thesis
  proof (cases "list_all (\<lambda>p. p = WorkerExited) (qworkers (queues l x))")
    case True
    then show ?thesis using QueueJoining by (simp add: queueAdvance_def Let_def)
  next
    case False
    then obtain i where "i < length (qworkers (queues l x))" "qworkers (queues l x) ! i \<noteq> WorkerExited" by (auto simp: list_all_length)
    then show ?thesis using worker_progress [OF assms(1) _ _ QueueJoining] by blast
  qed
qed (use assms in \<open>simp_all add: queueAdvance_def\<close>)

lemma dangling_life_progress:
  assumes "place l = RunWaitDangling gs" and "\<not> all_done gs" and "0 < n"
  shows "\<exists>i. danglingAdvance env n i l \<noteq> None"
proof -
  obtain i where i: "i < length gs" "advanceDelete env (nat n) i gs (ctrl l) \<noteq> Val None"
    using dangling_progress [OF _ assms(2), of "nat n" env "ctrl l"] assms(3) by auto
  then show ?thesis
    using assms(1) by (intro exI [of _ i]) (auto simp: danglingAdvance_def split: outcome.splits option.splits)
qed

lemma life_progress:
  assumes inv: "life_inv l" and alive: "\<not> crashed l" and n: "0 < n" and ctx: "ctx_done l" and going: "\<not> done_closed l"
  shows "\<exists>l'. life_step ops w n l l'"
proof -
  define env where "env = (undefined :: ('a, 'b, 'c) pc_env)\<lparr>handler := ops, wq := w\<rparr>"
  have env: "handler env = ops" "wq env = w" by (simp_all add: env_def)
  note moves = life_step.run [OF alive env] life_step.dangling [OF alive env] life_step.queue [OF alive] life_step.worker [OF alive env]
  have run: ?thesis if "runAdvance env n synced l \<noteq> None" for synced using that moves(1) by blast
  show ?thesis
  proof (cases "place l")
    case RunDangling
    then show ?thesis by (intro run [of True]) (simp add: runAdvance_def split: outcome.split)
  next
    case (RunWaitDangling gs)
    show ?thesis
    proof (cases "all_done gs")
      case True
      then show ?thesis using RunWaitDangling by (intro run [of True]) (simp add: runAdvance_def)
    next
      case False
      then show ?thesis using dangling_life_progress [OF RunWaitDangling False n] moves(2) by blast
    qed
  next
    case RunJoining
    show ?thesis
    proof (cases "\<forall>x. qplace (queues l x) = QueueReturned")
      case True
      then show ?thesis using RunJoining by (intro run [of True]) (simp add: runAdvance_def)
    next
      case False
      then obtain x where "qplace (queues l x) \<noteq> QueueReturned" by blast
      moreover have "queue_ok RunJoining (ready_closed l) (ctx_done l) (queues l x)"
        using inv RunJoining by (simp add: life_inv_def)
      then have "qplace (queues l x) \<noteq> QueueUnstarted" by (simp add: queue_ok_def queues_started_def)
      ultimately show ?thesis using queue_progress [OF env(2) ctx] moves(3,4) by blast
    qed
  next
    case RunReturned
    then show ?thesis using inv going by (simp add: life_inv_def run_ok_def)
  qed (rule run [of False], use ctx in \<open>simp add: runAdvance_def\<close>)+
qed


interpretation fifo_draining: draining_queue fifo_workqueue stopped "\<lambda>q. length (items q)"
  by unfold_locales (auto simp: fifo_workqueue_def fifo_put_def split: list.splits)

text \<open>The example goes on: the context ends while the worker has the key; the queues are shut down.\<close>

definition demo_ending :: "(MockProvider, fifo, Pod list) life option" where
  "demo_ending = life_play (demo_env [web]) 1 (demo_schedule @ [MoveCancel, MoveQueue SyncPods, MoveQueue DeletePods, MoveQueue SyncStatus]) (life_start demo_start)"


end
