(* ===== verification/Native_Store.thy ===== *)
theory Native_Store
  imports Provider
begin

text \<open>
  The native provider's process records and their store (\<open>process_manager.go\<close> and the pod methods of
  \<open>cluster.go\<close> under \<open>src/cmd/virtual-kubelet/internal/provider/native\<close>). The embedded database
  (bitcask) is a parameter, its documented behaviour the locale \<open>kv_store\<close>. A stored value is what
  JSON keeps of a \<open>PodProcess\<close>: its exported fields (the unexported \<open>pm\<close> and \<open>im\<close> are lost). The
  database is shared with the image manager, whose entries are paths.
\<close>

subsection \<open>Records\<close>

record ContainerProcess =
  cp_Workdir :: string
  cp_PodName :: string
  cp_Namespace :: string
  cp_Container :: Container
  Sync :: bool
  cp_RestartPolicy :: RestartPolicy
  Pid :: int
  ImagePulled :: bool
  ImageUnzipped :: bool
  ConfigMapDownload :: bool
  SecretDownload :: bool

record PodProcess =
  pp_Workdir :: string
  pp_PodName :: string
  pp_Namespace :: string
  ProcessChain :: "ContainerProcess list"
  pp_Pod :: Pod
  pp_Index :: nat

datatype dbvalue = PodEntry PodProcess | PathEntry string

record 'd bitcask =
  db_Put :: "string \<Rightarrow> dbvalue \<Rightarrow> 'd \<Rightarrow> 'd \<times> goerror option"
  db_Get :: "'d \<Rightarrow> string \<Rightarrow> dbvalue result"
  db_Delete :: "string \<Rightarrow> 'd \<Rightarrow> 'd \<times> goerror option"
  db_Has :: "'d \<Rightarrow> string \<Rightarrow> bool"
  db_Scan :: "'d \<Rightarrow> string \<Rightarrow> string list"
  ErrKeyNotFound :: goerror

text \<open>What the code calls in the operating system and in the file name library.\<close>

record native_os =
  Filenamify :: "string \<Rightarrow> string result"
  path_Join :: "string list \<Rightarrow> string"
  os_Signal :: "int \<Rightarrow> goerror option"     \<comment> \<open>\<open>FindProcess(pid)\<close> and \<open>Signal(SIGTERM)\<close>\<close>
  os_KillGroup :: "int \<Rightarrow> goerror option"  \<comment> \<open>\<open>syscall.Kill(-pid, SIGKILL)\<close>\<close>
  api_nf :: "goerror \<Rightarrow> bool"              \<comment> \<open>\<open>errors.IsNotFound\<close> of apimachinery\<close>

record 'd ProcessManager =
  workdir :: string
  processDb :: 'd
  spawned :: "PodProcess list"   \<comment> \<open>the processes whose \<open>run\<close> goroutine was started\<close>

definition json_error :: goerror where
  "json_error = ErrorString ''invalid character in JSON''"

fun json_Unmarshal :: "dbvalue \<Rightarrow> PodProcess result" where
  "json_Unmarshal (PodEntry p) = Inr p"
| "json_Unmarshal (PathEntry s) = Inl json_error"

subsection \<open>Keys\<close>

definition PodPrefix :: string where "PodPrefix = ''pod://''"

definition getPodKey :: "string \<Rightarrow> string \<Rightarrow> string" where
  "getPodKey ns podName = PodPrefix @ ns @ '':'' @ podName"

definition Key :: "PodProcess \<Rightarrow> string" where
  "Key p = getPodKey (pp_Namespace p) (pp_PodName p)"

definition DockerImageIDPrefix :: string where "DockerImageIDPrefix = ''docker://''"

definition dockerImageName :: "string \<Rightarrow> string" where
  "dockerImageName img = DockerImageIDPrefix @ img"

subsection \<open>The store operations of the process manager\<close>

definition Put :: "'d bitcask \<Rightarrow> PodProcess \<Rightarrow> 'd \<Rightarrow> 'd \<times> goerror option" where
  "Put kv store d = db_Put kv (Key store) (PodEntry store) d"

definition Delete :: "'d bitcask \<Rightarrow> PodProcess \<Rightarrow> 'd \<Rightarrow> 'd \<times> goerror option" where
  "Delete kv store d = db_Delete kv (Key store) d"

definition Get :: "'d bitcask \<Rightarrow> string \<Rightarrow> 'd \<Rightarrow> PodProcess result" where
  "Get kv key d = (case db_Get kv d key of Inl err \<Rightarrow> Inl err | Inr v \<Rightarrow> json_Unmarshal v)"

definition pm_getPod :: "'d bitcask \<Rightarrow> string \<Rightarrow> string \<Rightarrow> 'd \<Rightarrow> Pod option \<times> goerror option" where
  "pm_getPod kv namespace name d =
     (case db_Get kv d (getPodKey namespace name) of
        Inl err \<Rightarrow> if err = ErrKeyNotFound kv then (None, None) else (None, Some err)
      | Inr v \<Rightarrow> (case json_Unmarshal v of Inl err \<Rightarrow> (None, Some err) | Inr p \<Rightarrow> (Some (pp_Pod p), None)))"

fun scanPods :: "'d bitcask \<Rightarrow> 'd \<Rightarrow> string list \<Rightarrow> Pod list \<Rightarrow> Pod list result" where
  "scanPods kv d [] ps = Inr ps"
| "scanPods kv d (key # keys) ps =
     (case db_Get kv d key of
        Inl err \<Rightarrow> Inl err
      | Inr v \<Rightarrow> (case json_Unmarshal v of Inl err \<Rightarrow> Inl err | Inr p \<Rightarrow> scanPods kv d keys (ps @ [pp_Pod p])))"

definition pm_getPods :: "'d bitcask \<Rightarrow> 'd \<Rightarrow> Pod list result" where
  "pm_getPods kv d = scanPods kv d (db_Scan kv d PodPrefix) []"

subsection \<open>Converting a pod into processes\<close>

definition NewProcess :: "Pod \<Rightarrow> Container \<Rightarrow> string \<Rightarrow> bool \<Rightarrow> ContainerProcess" where
  "NewProcess pod c dir sync =
     \<lparr>cp_Workdir = dir, cp_PodName = Name (Meta pod), cp_Namespace = Namespace (Meta pod), cp_Container = c, Sync = sync,
      cp_RestartPolicy = RestartPolicyOf (Spec pod), Pid = 0, ImagePulled = False, ImageUnzipped = False,
      ConfigMapDownload = False, SecretDownload = False\<rparr>"

definition getProcessWorkDir :: "native_os \<Rightarrow> string \<Rightarrow> Pod \<Rightarrow> string result" where
  "getProcessWorkDir os wd pod =
     (case Filenamify os (Namespace (Meta pod)) of
        Inl err \<Rightarrow> Inl err
      | Inr ns \<Rightarrow> (case Filenamify os (Name (Meta pod)) of Inl err \<Rightarrow> Inl err | Inr name \<Rightarrow> Inr (path_Join os [wd, ns, name])))"

definition getContainerProcessWorkDir :: "native_os \<Rightarrow> string \<Rightarrow> Pod \<Rightarrow> Container \<Rightarrow> string result" where
  "getContainerProcessWorkDir os wd pod c =
     (case getProcessWorkDir os wd pod of
        Inl err \<Rightarrow> Inl err
      | Inr dir \<Rightarrow> (case Filenamify os (ContainerName c) of Inl err \<Rightarrow> Inl err | Inr s \<Rightarrow> Inr (path_Join os [dir, s])))"

fun convertContainers :: "native_os \<Rightarrow> string \<Rightarrow> Pod \<Rightarrow> bool \<Rightarrow> Container list \<Rightarrow> ContainerProcess list result" where
  "convertContainers os wd pod sync [] = Inr []"
| "convertContainers os wd pod sync (c # cs) =
     (case getContainerProcessWorkDir os wd pod c of
        Inl err \<Rightarrow> Inl err
      | Inr dir \<Rightarrow> (case convertContainers os wd pod sync cs of
          Inl err \<Rightarrow> Inl err
        | Inr procs \<Rightarrow> Inr (NewProcess pod c dir sync # procs)))"

text \<open>The chain is the init containers, run synchronously, followed by the containers.\<close>

definition convertPod2Process :: "native_os \<Rightarrow> string \<Rightarrow> Pod \<Rightarrow> PodProcess result" where
  "convertPod2Process os wd p =
     (case getProcessWorkDir os wd p of
        Inl err \<Rightarrow> Inl err
      | Inr dir \<Rightarrow> (case convertContainers os wd p True (InitContainers (Spec p)) of
          Inl err \<Rightarrow> Inl err
        | Inr inits \<Rightarrow> (case convertContainers os wd p False (Containers (Spec p)) of
            Inl err \<Rightarrow> Inl err
          | Inr procs \<Rightarrow> Inr \<lparr>pp_Workdir = dir, pp_PodName = Name (Meta p), pp_Namespace = Namespace (Meta p),
              ProcessChain = inits @ procs, pp_Pod = p, pp_Index = 0\<rparr>)))"

subsection \<open>Stopping\<close>

definition already_done :: "goerror \<Rightarrow> bool" where
  "already_done err = (Error err \<in> {''os: process already released'', ''os: process not initialized'', ''os: process already finished''})"

text \<open>
  \<open>ContainerProcess.stop\<close>: the result is how long it waits between the two signals, in nanoseconds
  (the argument of \<open>context.WithTimeout\<close> is \<open>time.Duration(terminationSeconds)\<close>), and the error.
\<close>

definition cp_stop :: "native_os \<Rightarrow> ContainerProcess \<Rightarrow> int \<Rightarrow> int \<times> goerror option" where
  "cp_stop os p terminationSeconds =
     (case os_Signal os (Pid p) of
        Some err \<Rightarrow> if already_done err then (0, None) else (0, Some err)
      | None \<Rightarrow>
          (terminationSeconds,
           case os_KillGroup os (Pid p) of Some err \<Rightarrow> if already_done err then None else Some err | None \<Rightarrow> None))"

definition getRuningContainerProcess :: "PodProcess \<Rightarrow> ContainerProcess list" where
  "getRuningContainerProcess p = take (Suc (pp_Index p)) (ProcessChain p)"

fun stopEach :: "native_os \<Rightarrow> int option \<Rightarrow> ContainerProcess list \<Rightarrow> goerror option outcome" where
  "stopEach os grace [] = Val None"
| "stopEach os grace (cp # cps) =
     obind (deref grace) (\<lambda>g. case snd (cp_stop os cp g) of Some err \<Rightarrow> Val (Some err) | None \<Rightarrow> stopEach os grace cps)"

definition pp_stop :: "native_os \<Rightarrow> PodProcess \<Rightarrow> goerror option outcome" where
  "pp_stop os p = stopEach os (TerminationGracePeriodSeconds (Spec (pp_Pod p))) (getRuningContainerProcess p)"

subsection \<open>The provider's pod methods (cluster.go)\<close>

type_synonym 'd pm_result = "'d ProcessManager provider_result"

definition RunPod :: "'d bitcask \<Rightarrow> native_os \<Rightarrow> Pod \<Rightarrow> 'd ProcessManager \<Rightarrow> 'd ProcessManager \<times> goerror option" where
  "RunPod kv os p m =
     (case convertPod2Process os (workdir m) p of
        Inl err \<Rightarrow> (m, Some err)
      | Inr proc \<Rightarrow>
          let (d', err) = Put kv proc (processDb m) in
          case err of
            Some e \<Rightarrow> (m\<lparr>processDb := d'\<rparr>, Some e)
          | None \<Rightarrow> (m\<lparr>processDb := d', spawned := spawned m @ [proc]\<rparr>, None))"

definition pm_DeletePod :: "'d bitcask \<Rightarrow> native_os \<Rightarrow> Pod \<Rightarrow> 'd ProcessManager \<Rightarrow> ('d ProcessManager \<times> goerror option) outcome" where
  "pm_DeletePod kv os pod m =
     (case db_Get kv (processDb m) (getPodKey (Namespace (Meta pod)) (Name (Meta pod))) of
        Inl err \<Rightarrow> if err = ErrKeyNotFound kv then Val (m, None) else Val (m, Some err)
      | Inr v \<Rightarrow> (case json_Unmarshal v of
          Inl err \<Rightarrow> Val (m, Some err)
        | Inr p \<Rightarrow> obind (pp_stop os p) (\<lambda>err.
            case err of
              Some e \<Rightarrow> Val (m, Some e)
            | None \<Rightarrow> let (d', derr) = Delete kv p (processDb m) in Val (m\<lparr>processDb := d'\<rparr>, derr))))"

definition pm_UpdatePod :: "'d bitcask \<Rightarrow> Pod \<Rightarrow> 'd ProcessManager \<Rightarrow> 'd ProcessManager \<times> goerror option" where
  "pm_UpdatePod kv pod m =
     (case Get kv (getPodKey (Namespace (Meta pod)) (Name (Meta pod))) (processDb m) of
        Inl err \<Rightarrow> (m, Some err)
      | Inr get \<Rightarrow> let (d', err) = Put kv (get\<lparr>pp_Pod := pod\<rparr>) (processDb m) in (m\<lparr>processDb := d'\<rparr>, err))"

definition native_CreatePod :: "'d bitcask \<Rightarrow> native_os \<Rightarrow> int \<Rightarrow> Pod \<Rightarrow> 'd ProcessManager \<Rightarrow> 'd pm_result" where
  "native_CreatePod kv os now pod m = (let (m', err) = RunPod kv os pod m in Val (m', [], err))"

definition native_UpdatePod :: "'d bitcask \<Rightarrow> int \<Rightarrow> Pod \<Rightarrow> 'd ProcessManager \<Rightarrow> 'd pm_result" where
  "native_UpdatePod kv now pod m = (let (m', err) = pm_UpdatePod kv pod m in Val (m', [], err))"

definition native_DeletePod :: "'d bitcask \<Rightarrow> native_os \<Rightarrow> int \<Rightarrow> Pod \<Rightarrow> 'd ProcessManager \<Rightarrow> 'd pm_result" where
  "native_DeletePod kv os now pod m =
     obind (pm_DeletePod kv os pod m) (\<lambda>(m', err).
       if err = None \<or> (case err of Some e \<Rightarrow> api_nf os e | None \<Rightarrow> False) then Val (m', [], None) else Val (m', [], err))"

definition native_GetPod :: "'d bitcask \<Rightarrow> string \<Rightarrow> string \<Rightarrow> 'd ProcessManager \<Rightarrow> (Pod option \<times> goerror option) outcome" where
  "native_GetPod kv namespace name m = Val (pm_getPod kv namespace name (processDb m))"

definition native_GetPodStatus :: "'d bitcask \<Rightarrow> string \<Rightarrow> string \<Rightarrow> 'd ProcessManager \<Rightarrow> (PodStatus option \<times> goerror option) outcome" where
  "native_GetPodStatus kv namespace name m =
     obind (native_GetPod kv namespace name m) (\<lambda>(pod, err).
       case err of Some e \<Rightarrow> Val (None, Some e) | None \<Rightarrow> obind (deref pod) (\<lambda>p. Val (Some (Status p), None)))"

definition native_GetPods :: "'d bitcask \<Rightarrow> 'd ProcessManager \<Rightarrow> Pod list result" where
  "native_GetPods kv m = pm_getPods kv (processDb m)"

definition native_handler :: "'d bitcask \<Rightarrow> native_os \<Rightarrow> 'd ProcessManager PodLifecycleHandler" where
  "native_handler kv os = \<lparr>CreatePod = native_CreatePod kv os, UpdatePod = native_UpdatePod kv, DeletePod = native_DeletePod kv os,
     GetPod = native_GetPod kv, GetPodStatus = native_GetPodStatus kv, GetPods = native_GetPods kv, deletePodKey = None\<rparr>"

lemma native_handler_simps [simp]:
  "CreatePod (native_handler kv os) = native_CreatePod kv os" "UpdatePod (native_handler kv os) = native_UpdatePod kv"
  "DeletePod (native_handler kv os) = native_DeletePod kv os" "GetPod (native_handler kv os) = native_GetPod kv"
  "GetPodStatus (native_handler kv os) = native_GetPodStatus kv" "GetPods (native_handler kv os) = native_GetPods kv"
  by (simp_all add: native_handler_def)

subsection \<open>Logs\<close>

fun getContainerProcess :: "ContainerProcess list \<Rightarrow> string \<Rightarrow> ContainerProcess option" where
  "getContainerProcess [] name = None"
| "getContainerProcess (c # cs) name = (if ContainerName (cp_Container c) = name then Some c else getContainerProcess cs name)"

text \<open>\<open>OpenFile\<close> on the container's STDOUT file is a parameter; the reader is the file's content.\<close>

definition pp_getLog :: "native_os \<Rightarrow> (string \<Rightarrow> string result) \<Rightarrow> PodProcess \<Rightarrow> string \<Rightarrow> string result" where
  "pp_getLog os openFile p containerName =
     (case getContainerProcess (ProcessChain p) containerName of
        None \<Rightarrow> Inl (ErrorString (''namespace '' @ pp_Namespace p @ '' pod '' @ pp_PodName p @
          [CHR '' '', CHR 0xE4, CHR 0xB8, CHR 0xAD] @ '' container '' @ containerName @
          [CHR '' '', CHR 0xE6, CHR 0x9C, CHR 0xAA, CHR 0xE6, CHR 0x89, CHR 0xBE, CHR 0xE5, CHR 0x88, CHR 0xB0]))
      | Some c \<Rightarrow> openFile (path_Join os [path_Join os [cp_Workdir c, ''container''], ''STDOUT'']))"

definition getPodLog :: "'d bitcask \<Rightarrow> native_os \<Rightarrow> (string \<Rightarrow> string result) \<Rightarrow> string \<Rightarrow> string \<Rightarrow> string \<Rightarrow> 'd \<Rightarrow> string result" where
  "getPodLog kv os openFile namespace podName containerName d =
     (case Get kv (getPodKey namespace podName) d of
        Inl err \<Rightarrow> Inl err
      | Inr p \<Rightarrow> pp_getLog os openFile p containerName)"

text \<open>\<open>GetContainerLogs\<close> returns the reader, nil on an error, and always a nil error.\<close>

definition GetContainerLogs ::
    "'d bitcask \<Rightarrow> native_os \<Rightarrow> (string \<Rightarrow> string result) \<Rightarrow> string \<Rightarrow> string \<Rightarrow> string \<Rightarrow> 'd ProcessManager \<Rightarrow> string option \<times> goerror option" where
  "GetContainerLogs kv os openFile namespace podName containerName m =
     (case getPodLog kv os openFile namespace podName containerName (processDb m) of
        Inl err \<Rightarrow> (None, None)
      | Inr reader \<Rightarrow> (Some reader, None))"

subsection \<open>The provider contract\<close>

text \<open>
  What the provider relies on in the database: reading returns what was written last, a write or
  deletion that fails either happened or did not, scanning lists the present keys with the prefix, and its errors
  (like those of the signals) are not NotFound errors of Kubernetes or of \<open>errdefs\<close>.
\<close>

locale kv_store =
  fixes kv :: "'d bitcask" and os :: native_os
  assumes get_put: "db_Put kv k v d = (d', err) \<Longrightarrow> k' \<noteq> k \<Longrightarrow> db_Get kv d' k' = db_Get kv d k'"
    and get_put_same: "db_Put kv k v d = (d', err) \<Longrightarrow> db_Get kv d' k = Inr v \<or> (err \<noteq> None \<and> db_Get kv d' k = db_Get kv d k)"
    and get_delete: "db_Delete kv k d = (d', err) \<Longrightarrow> k' \<noteq> k \<Longrightarrow> db_Get kv d' k' = db_Get kv d k'"
    and get_delete_same: "db_Delete kv k d = (d', err) \<Longrightarrow>
      db_Get kv d' k = Inl (ErrKeyNotFound kv) \<or> (err \<noteq> None \<and> db_Get kv d' k = db_Get kv d k)"
    and scan: "set (db_Scan kv d prefix) = {k. take (length prefix) k = prefix \<and> (\<exists>v. db_Get kv d k = Inr v)}"
    and db_errors: "db_Get kv d k = Inl e \<or> db_Put kv k v d = (d', Some e) \<or> db_Delete kv k d = (d', Some e) \<Longrightarrow>
      \<not> api_nf os e \<and> \<not> IsNotFound (Some e)"
    and signal_errors: "os_Signal os pid = Some e \<or> os_KillGroup os pid = Some e \<Longrightarrow> \<not> api_nf os e \<and> \<not> IsNotFound (Some e)"
    and json_errors: "\<not> api_nf os json_error"

text \<open>Every entry under the pod prefix is a process record stored under its own key, which is that of its pod.\<close>

definition entry_ok :: "string \<Rightarrow> dbvalue \<Rightarrow> bool" where
  "entry_ok k v = (\<exists>p. v = PodEntry p \<and> k = Key p \<and> k = getPodKey (Namespace (Meta (pp_Pod p))) (Name (Meta (pp_Pod p))))"

definition native_ok :: "'d bitcask \<Rightarrow> 'd ProcessManager \<Rightarrow> bool" where
  "native_ok kv m = (\<forall>k v. take 6 k = PodPrefix \<and> db_Get kv (processDb m) k = Inr v \<longrightarrow> entry_ok k v)"

definition native_view :: "'d bitcask \<Rightarrow> 'd ProcessManager \<Rightarrow> string \<Rightarrow> Pod option" where
  "native_view kv m k =
     (if take 6 k = PodPrefix then
        (case db_Get kv (processDb m) k of Inr (PodEntry p) \<Rightarrow> Some (pp_Pod p) | _ \<Rightarrow> None)
      else None)"

lemma getPodKey_prefix [simp]: "take 6 (getPodKey ns n) = PodPrefix"
  by (simp add: getPodKey_def PodPrefix_def)

lemma convertPod2Process_names:
  "convertPod2Process os wd pod = Inr p \<Longrightarrow>
    pp_Pod p = pod \<and> pp_Namespace p = Namespace (Meta pod) \<and> pp_PodName p = Name (Meta pod)"
  by (auto simp: convertPod2Process_def split: sum.splits)

definition hide_api_nf :: "native_os \<Rightarrow> goerror option \<Rightarrow> goerror option" where
  "hide_api_nf os err = (case err of None \<Rightarrow> None | Some e \<Rightarrow> if api_nf os e then None else Some e)"

lemma native_DeletePod_hides:
  "native_DeletePod kv os now pod m = obind (pm_DeletePod kv os pod m) (\<lambda>(m', err). Val (m', [], hide_api_nf os err))"
  by (cases "pm_DeletePod kv os pod m") (auto simp: native_DeletePod_def hide_api_nf_def split: option.split)

lemma length_PodPrefix [simp]: "length PodPrefix = 6"
  by (simp add: PodPrefix_def)

lemma native_view_key:
  "native_ok kv m \<Longrightarrow> native_view kv m k = Some pod \<Longrightarrow> k = getPodKey (Namespace (Meta pod)) (Name (Meta pod))"
  by (fastforce simp: native_view_def native_ok_def entry_ok_def Key_def split: if_splits sum.splits dbvalue.splits)

lemma native_get:
  assumes "native_ok kv m"
  shows "\<exists>err. native_GetPod kv ns n m = Val (native_view kv m (getPodKey ns n), err) \<and>
    (native_view kv m (getPodKey ns n) \<noteq> None \<longrightarrow> err = None)"
proof (cases "db_Get kv (processDb m) (getPodKey ns n)")
  case (Inl e)
  then show ?thesis by (simp add: native_GetPod_def pm_getPod_def native_view_def)
next
  case (Inr v)
  then have "entry_ok (getPodKey ns n) v" using assms by (simp add: native_ok_def)
  then obtain p where "v = PodEntry p" by (auto simp: entry_ok_def)
  then show ?thesis using Inr by (simp add: native_GetPod_def pm_getPod_def native_view_def)
qed

lemma scanPods_all:
  assumes "scanPods kv d keys ps = Inr r"
  shows "set r = set ps \<union> {pp_Pod p | p k. k \<in> set keys \<and> db_Get kv d k = Inr (PodEntry p)}"
  using assms
proof (induction keys arbitrary: ps)
  case (Cons k keys)
  obtain v where v: "db_Get kv d k = Inr v" using Cons.prems by (cases "db_Get kv d k") auto
  obtain p where p: "v = PodEntry p" using Cons.prems v by (cases v) auto
  have "scanPods kv d keys (ps @ [pp_Pod p]) = Inr r" using Cons.prems v p by simp
  from Cons.IH [OF this] show ?case using v p by auto
qed simp

context kv_store
begin

lemma native_ok_put:
  assumes "native_ok kv m" and "Put kv p (processDb m) = (d', err)"
    and "Key p = getPodKey (Namespace (Meta (pp_Pod p))) (Name (Meta (pp_Pod p)))"
  shows "native_ok kv (m\<lparr>processDb := d', spawned := sp\<rparr>)"
  unfolding native_ok_def
proof (intro allI impI, elim conjE)
  fix k v assume k: "take 6 k = PodPrefix" "db_Get kv (processDb (m\<lparr>processDb := d', spawned := sp\<rparr>)) k = Inr v"
  show "entry_ok k v"
  proof (cases "k = Key p")
    case True
    then show ?thesis
      using get_put_same [OF assms(2) [unfolded Put_def]] k assms(1,3) by (auto simp: native_ok_def entry_ok_def)
  next
    case False
    then show ?thesis
      using get_put [OF assms(2) [unfolded Put_def]] k assms(1) by (simp add: native_ok_def)
  qed
qed

lemma view_put:
  assumes "Put kv p (processDb m) = (d', err)"
  shows "\<forall>k. k \<noteq> Key p \<longrightarrow> native_view kv (m\<lparr>processDb := d', spawned := sp\<rparr>) k = native_view kv m k"
    and "err = None \<Longrightarrow> native_view kv (m\<lparr>processDb := d', spawned := sp\<rparr>) (Key p) = Some (pp_Pod p)"
  using get_put [OF assms [unfolded Put_def]] get_put_same [OF assms [unfolded Put_def]]
  by (auto simp: native_view_def Key_def)

lemma native_ok_delete:
  assumes "native_ok kv m" and "db_Delete kv k0 (processDb m) = (d', err)"
  shows "native_ok kv (m\<lparr>processDb := d'\<rparr>)"
  unfolding native_ok_def
proof (intro allI impI, elim conjE)
  fix k v assume k: "take 6 k = PodPrefix" "db_Get kv (processDb (m\<lparr>processDb := d'\<rparr>)) k = Inr v"
  then have "db_Get kv (processDb m) k = Inr v"
    using get_delete [OF assms(2)] get_delete_same [OF assms(2)] by (cases "k = k0") auto
  then show "entry_ok k v" using assms(1) k(1) by (simp add: native_ok_def)
qed

lemma stopEach_error: "stopEach os grace cps = Val (Some e) \<Longrightarrow> \<not> api_nf os e \<and> \<not> IsNotFound (Some e)"
proof (induction cps)
  case (Cons cp cps)
  then obtain g where "grace = Some g" by auto
  with Cons show ?case
    using signal_errors [of "Pid cp" e]
    by (auto simp: cp_stop_def simp del: IsNotFound.simps split: option.splits if_splits)
qed simp

lemma native_create:
  assumes "native_ok kv m" and "native_CreatePod kv os now pod m = Val (m', ns, err)"
  shows "native_ok kv m' \<and> (\<forall>k. k \<noteq> getPodKey (Namespace (Meta pod)) (Name (Meta pod)) \<longrightarrow> native_view kv m' k = native_view kv m k) \<and>
    (err = None \<longrightarrow> native_view kv m' (getPodKey (Namespace (Meta pod)) (Name (Meta pod))) \<noteq> None)"
proof (cases "convertPod2Process os (workdir m) pod")
  case (Inl e)
  then show ?thesis using assms by (auto simp: native_CreatePod_def RunPod_def)
next
  case (Inr p)
  obtain d' e where put: "Put kv p (processDb m) = (d', e)" by fastforce
  note names = convertPod2Process_names [OF Inr]
  then have key: "Key p = getPodKey (Namespace (Meta pod)) (Name (Meta pod))" by (simp add: Key_def)
  have m': "\<exists>sp. m' = m\<lparr>processDb := d', spawned := sp\<rparr>" "err = e"
    using assms(2) Inr put by (cases e; auto simp: native_CreatePod_def RunPod_def intro: exI [of _ "spawned m"])+
  then obtain sp where "m' = m\<lparr>processDb := d', spawned := sp\<rparr>" by blast
  then show ?thesis
    using native_ok_put [OF assms(1) put, of sp] view_put [OF put, where sp = sp] names m'(2) key by auto
qed

lemma native_update:
  assumes "native_ok kv m" and "native_UpdatePod kv now pod m = Val (m', ns, err)"
  shows "native_ok kv m' \<and> (\<forall>k. k \<noteq> getPodKey (Namespace (Meta pod)) (Name (Meta pod)) \<longrightarrow> native_view kv m' k = native_view kv m k) \<and>
    (err = None \<longrightarrow> native_view kv m' (getPodKey (Namespace (Meta pod)) (Name (Meta pod))) = Some pod)"
proof (cases "Get kv (getPodKey (Namespace (Meta pod)) (Name (Meta pod))) (processDb m)")
  case (Inl e)
  then show ?thesis using assms by (auto simp: native_UpdatePod_def pm_UpdatePod_def)
next
  case (Inr p)
  let ?k = "getPodKey (Namespace (Meta pod)) (Name (Meta pod))"
  have "db_Get kv (processDb m) ?k = Inr (PodEntry p)"
    using Inr by (auto simp: Get_def split: sum.splits) (metis json_Unmarshal.simps sum.inject(2) sum.distinct(1) dbvalue.exhaust)
  then have "entry_ok ?k (PodEntry p)" using assms(1) by (simp add: native_ok_def)
  then have key: "Key (p\<lparr>pp_Pod := pod\<rparr>) = ?k" by (auto simp: entry_ok_def Key_def)
  obtain d' e where put: "Put kv (p\<lparr>pp_Pod := pod\<rparr>) (processDb m) = (d', e)" by fastforce
  then have "m' = m\<lparr>processDb := d', spawned := spawned m\<rparr>" "err = e"
    using assms(2) Inr by (auto simp: native_UpdatePod_def pm_UpdatePod_def)
  then show ?thesis
    using native_ok_put [OF assms(1) put, of "spawned m"] view_put [OF put, where sp = "spawned m"] key by auto
qed

lemma native_delete:
  assumes ok: "native_ok kv m" and run: "native_DeletePod kv os now pod m = Val (m', ns, err)"
  shows "native_ok kv m' \<and> (\<forall>k. k \<noteq> getPodKey (Namespace (Meta pod)) (Name (Meta pod)) \<longrightarrow> native_view kv m' k = native_view kv m k) \<and>
    (err = None \<or> IsNotFound err \<longrightarrow> native_view kv m' (getPodKey (Namespace (Meta pod)) (Name (Meta pod))) = None)"
proof -
  let ?k = "getPodKey (Namespace (Meta pod)) (Name (Meta pod))"
  obtain e where pm: "pm_DeletePod kv os pod m = Val (m', e)" "err = hide_api_nf os e"
    using run by (auto simp: native_DeletePod_hides)
  show ?thesis
  proof (cases "db_Get kv (processDb m) ?k")
    case (Inl e')
    then show ?thesis
      using pm ok db_errors [of "processDb m" ?k e']
      by (auto simp: pm_DeletePod_def native_view_def hide_api_nf_def simp del: IsNotFound.simps split: if_splits)
  next
    case (Inr v)
    then have "entry_ok ?k v" using ok by (simp add: native_ok_def)
    then obtain p where p: "v = PodEntry p" "Key p = ?k" by (auto simp: entry_ok_def)
    obtain se where s: "pp_stop os p = Val se" using pm(1) Inr p by (auto simp: pm_DeletePod_def)
    show ?thesis
    proof (cases se)
      case (Some x)
      then have "m' = m" "e = Some x" using pm(1) Inr p s by (auto simp: pm_DeletePod_def)
      then show ?thesis
        using pm(2) ok stopEach_error [OF s [unfolded pp_stop_def Some]] by (simp add: hide_api_nf_def del: IsNotFound.simps)
    next
      case None
      obtain d' de where d: "db_Delete kv ?k (processDb m) = (d', de)" by fastforce
      then have m': "m' = m\<lparr>processDb := d'\<rparr>" "e = de"
        using pm(1) Inr p s None by (auto simp: pm_DeletePod_def Delete_def)
      have "native_view kv m' k = native_view kv m k" if "k \<noteq> ?k" for k
        using get_delete [OF d that] m' by (simp add: native_view_def)
      moreover have "native_view kv m' ?k = None" if "de = None"
        using get_delete_same [OF d] m' that by (simp add: native_view_def)
      moreover have "\<not> api_nf os x \<and> \<not> IsNotFound (Some x)" if "de = Some x" for x
        using db_errors [of "processDb m" ?k x] d that by blast
      ultimately show ?thesis
        using native_ok_delete [OF ok d] m' pm(2) by (cases de) (auto simp: hide_api_nf_def simp del: IsNotFound.simps)
    qed
  qed
qed

lemma native_pods:
  assumes "native_ok kv m" and "native_GetPods kv m = Inr ps"
  shows "set ps = ran (native_view kv m)"
proof -
  have "set ps = {pp_Pod p | p k. k \<in> set (db_Scan kv (processDb m) PodPrefix) \<and> db_Get kv (processDb m) k = Inr (PodEntry p)}"
    using scanPods_all assms(2) by (fastforce simp: native_GetPods_def pm_getPods_def)
  also have "\<dots> = {pp_Pod p | p k. take 6 k = PodPrefix \<and> db_Get kv (processDb m) k = Inr (PodEntry p)}"
    by (auto simp: scan)
  also have "\<dots> = ran (native_view kv m)"
  proof -
    have "native_view kv m k = Some pod \<longleftrightarrow> take 6 k = PodPrefix \<and> (\<exists>p. db_Get kv (processDb m) k = Inr (PodEntry p) \<and> pod = pp_Pod p)" for k pod
      by (auto simp: native_view_def split: sum.splits dbvalue.splits)
    then show ?thesis by (auto simp: ran_def)
  qed
  finally show ?thesis .
qed

end

sublocale kv_store \<subseteq> pods: pod_provider "native_handler kv os" getPodKey "native_view kv" "native_ok kv"
proof
  fix m m' :: "'d ProcessManager" and now k n nm and pod :: Pod and ns :: "Pod list" and err ps
  assume ok: "native_ok kv m"
  show "native_view kv m k = Some pod \<Longrightarrow> k = getPodKey (Namespace (Meta pod)) (Name (Meta pod))"
    by (rule native_view_key [OF ok])
  show "GetPods (native_handler kv os) m = Inr ps \<Longrightarrow> set ps = ran (native_view kv m)"
    using native_pods [OF ok] by simp
  show "\<exists>err. GetPod (native_handler kv os) nm n m = Val (native_view kv m (getPodKey nm n), err) \<and>
      (native_view kv m (getPodKey nm n) \<noteq> None \<longrightarrow> err = None)"
    using native_get [OF ok] by simp
  let ?k = "getPodKey (Namespace (Meta pod)) (Name (Meta pod))"
  show "native_ok kv m' \<and> (\<forall>k. k \<noteq> ?k \<longrightarrow> native_view kv m' k = native_view kv m k) \<and>
      (err = None \<longrightarrow> native_view kv m' ?k \<noteq> None)"
    if "CreatePod (native_handler kv os) now pod m = Val (m', ns, err)"
    by (rule native_create [OF ok that [unfolded native_handler_simps]])
  show "native_ok kv m' \<and> (\<forall>k. k \<noteq> ?k \<longrightarrow> native_view kv m' k = native_view kv m k) \<and>
      (err = None \<longrightarrow> native_view kv m' ?k = Some pod)"
    if "UpdatePod (native_handler kv os) now pod m = Val (m', ns, err)"
    by (rule native_update [OF ok that [unfolded native_handler_simps]])
  show "native_ok kv m' \<and> (\<forall>k. k \<noteq> ?k \<longrightarrow> native_view kv m' k = native_view kv m k) \<and>
      (err = None \<or> IsNotFound err \<longrightarrow> native_view kv m' ?k = None)"
    if "DeletePod (native_handler kv os) now pod m = Val (m', ns, err)"
    by (rule native_delete [OF ok that [unfolded native_handler_simps]])
qed

end
