(* ===== verification/Strconv.thy ===== *)
theory Strconv
  imports Errdefs
begin

text \<open>
  The functions of Go's \<open>strconv\<close> and \<open>strings\<close> that the sources call on decimal numbers, booleans and lists: \<open>Itoa\<close>,
  \<open>Atoi\<close> with its 64-bit range, \<open>ParseBool\<close>, \<open>Split\<close> and \<open>SplitN\<close>. \<open>Atoi\<close> reads back what \<open>Itoa\<close> writes.
\<close>

fun digits :: "nat \<Rightarrow> string" where
  "digits n = (if n < 10 then [char_of (48 + n)] else digits (n div 10) @ [char_of (48 + n mod 10)])"

declare digits.simps [simp del]

definition Itoa :: "int \<Rightarrow> string" where
  "Itoa i = (if i < 0 then CHR ''-'' # digits (nat (- i)) else digits (nat i))"

definition digit_of :: "char \<Rightarrow> nat option" where
  "digit_of c = (let n = of_char c :: nat in if 48 \<le> n \<and> n \<le> 57 then Some (n - 48) else None)"

fun parse_digits :: "nat \<Rightarrow> string \<Rightarrow> nat option" where
  "parse_digits acc [] = Some acc"
| "parse_digits acc (c # cs) = (case digit_of c of None \<Rightarrow> None | Some d \<Rightarrow> parse_digits (10 * acc + d) cs)"

definition num_error :: "string \<Rightarrow> string \<Rightarrow> string \<Rightarrow> goerror" where
  "num_error fn s what = ErrorString (''strconv.'' @ fn @ '': parsing '' @ fmt_q s @ '': '' @ what)"

definition Atoi :: "string \<Rightarrow> int result" where
  "Atoi s =
     (let neg = (s \<noteq> [] \<and> hd s = CHR ''-'');
          ds = (if s \<noteq> [] \<and> (hd s = CHR ''-'' \<or> hd s = CHR ''+'') then tl s else s) in
      if ds = [] then Inl (num_error ''Atoi'' s ''invalid syntax'')
      else case parse_digits 0 ds of
        None \<Rightarrow> Inl (num_error ''Atoi'' s ''invalid syntax'')
      | Some n \<Rightarrow>
          let v = (if neg then - int n else int n) in
          if - (2 ^ 63) \<le> v \<and> v < 2 ^ 63 then Inr v else Inl (num_error ''Atoi'' s ''value out of range''))"

definition ParseBool :: "string \<Rightarrow> bool result" where
  "ParseBool s =
     (if s \<in> set [''1'', ''t'', ''T'', ''true'', ''TRUE'', ''True''] then Inr True
      else if s \<in> set [''0'', ''f'', ''F'', ''false'', ''FALSE'', ''False''] then Inr False
      else Inl (num_error ''ParseBool'' s ''invalid syntax''))"

definition FormatBool :: "bool \<Rightarrow> string" where
  "FormatBool b = (if b then ''true'' else ''false'')"

text \<open>\<open>strings.Split\<close> at one character, \<open>strings.SplitN(s, c, 2)\<close>, and \<open>strings.ToLower\<close> on ASCII.\<close>

fun split_at :: "char \<Rightarrow> string \<Rightarrow> string list" where
  "split_at x [] = [[]]"
| "split_at x (c # cs) = (if c = x then [] # split_at x cs else case split_at x cs of [] \<Rightarrow> [[c]] | w # ws \<Rightarrow> (c # w) # ws)"

definition SplitN2 :: "char \<Rightarrow> string \<Rightarrow> string list" where
  "SplitN2 x s = (let a = takeWhile (\<lambda>c. c \<noteq> x) s in if a = s then [s] else [a, drop (Suc (length a)) s])"

definition lower_char :: "char \<Rightarrow> char" where
  "lower_char c = (let n = of_char c :: nat in if 65 \<le> n \<and> n \<le> 90 then char_of (n + 32) else c)"

definition ToLower :: "string \<Rightarrow> string" where
  "ToLower s = map lower_char s"

text \<open>\<open>strings.HasPrefix\<close>.\<close>

definition HasPrefix :: "string \<Rightarrow> string \<Rightarrow> bool" where
  "HasPrefix s p = (take (length p) s = p)"

subsection \<open>Reading back\<close>

lemma digit_of_char [simp]: "d < 10 \<Longrightarrow> digit_of (char_of (48 + d)) = Some d"
  by (simp add: digit_of_def Let_def)

lemma parse_digits_append: "parse_digits acc (a @ b) = Option.bind (parse_digits acc a) (\<lambda>n. parse_digits n b)"
  by (induction acc a rule: parse_digits.induct) (auto split: option.split)

lemma parse_digits: "parse_digits 0 (digits n) = Some n"
proof (induction n rule: digits.induct)
  case (1 n)
  show ?case
  proof (cases "n < 10")
    case True
    then show ?thesis by (simp add: digits.simps [of n])
  next
    case False
    have "digits n = digits (n div 10) @ [char_of (48 + n mod 10)]" using False by (simp add: digits.simps [of n])
    moreover have "digit_of (char_of (48 + n mod 10)) = Some (n mod 10)" by (rule digit_of_char) simp
    moreover have "10 * (n div 10) + n mod 10 = n" by simp
    ultimately show ?thesis using "1.IH" False by (simp add: parse_digits_append)
  qed
qed

lemma digits_Cons: "\<exists>d ds. d < 10 \<and> digits n = char_of (48 + d :: nat) # ds"
proof (induction n rule: digits.induct)
  case (1 n)
  then show ?case by (cases "n < 10") (auto simp: digits.simps [of n])
qed

lemma digit_char_ne_sign: "d < 10 \<Longrightarrow> char_of (48 + d :: nat) \<noteq> CHR ''-'' \<and> char_of (48 + d :: nat) \<noteq> CHR ''+''"
proof (intro conjI notI)
  assume d: "d < 10"
  show False if "char_of (48 + d) = CHR ''-''"
    using arg_cong [OF that, of digit_of] d by (simp add: digit_of_def)
  show False if "char_of (48 + d) = CHR ''+''"
    using arg_cong [OF that, of digit_of] d by (simp add: digit_of_def)
qed

lemma Itoa_ne [simp]: "Itoa i \<noteq> []"
  using digits_Cons [of "nat i"] by (auto simp: Itoa_def)

lemma Atoi_Itoa:
  assumes "- (2 ^ 63) \<le> i" and "i < 2 ^ 63"
  shows "Atoi (Itoa i) = Inr i"
proof (cases "i < 0")
  case True
  obtain d ds where "digits (nat (- i)) = char_of (48 + d :: nat) # ds" using digits_Cons by blast
  then show ?thesis using True assms parse_digits [of "nat (- i)"] by (simp add: Atoi_def Itoa_def Let_def)
next
  case False
  obtain d ds where d: "d < 10" "digits (nat i) = char_of (48 + d :: nat) # ds" using digits_Cons by blast
  then show ?thesis
    using False assms parse_digits [of "nat i"] digit_char_ne_sign [OF d(1)] by (simp add: Atoi_def Itoa_def Let_def)
qed

lemma ParseBool_FormatBool [simp]: "ParseBool (FormatBool b) = Inr b"
  by (cases b) (simp_all add: ParseBool_def FormatBool_def)

lemma SplitN2_cases: "SplitN2 x s = (if x \<in> set s then [takeWhile (\<lambda>c. c \<noteq> x) s, tl (dropWhile (\<lambda>c. c \<noteq> x) s)] else [s])"
proof -
  have "takeWhile (\<lambda>c. c \<noteq> x) s = s \<longleftrightarrow> x \<notin> set s" by (auto simp: takeWhile_eq_all_conv)
  moreover have "drop (Suc (length (takeWhile (\<lambda>c. c \<noteq> x) s))) s = tl (dropWhile (\<lambda>c. c \<noteq> x) s)"
    by (metis drop_Suc dropWhile_eq_drop tl_drop)
  ultimately show ?thesis by (simp add: SplitN2_def Let_def)
qed

lemma lower_digit: "d < 10 \<Longrightarrow> lower_char (char_of (48 + d :: nat)) = char_of (48 + d)"
  by (simp add: lower_char_def)

lemma ToLower_digits: "ToLower (digits n) = digits n"
proof (induction n rule: digits.induct)
  case (1 n)
  then show ?case by (cases "n < 10") (auto simp: digits.simps [of n] ToLower_def lower_digit)
qed

lemma ToLower_Itoa [simp]: "ToLower (Itoa i) = Itoa i"
proof -
  have "lower_char (CHR ''-'') = CHR ''-''" by code_simp
  then show ?thesis using ToLower_digits by (simp add: Itoa_def ToLower_def)
qed

end
