(* ===== verification/Native_Events.thy ===== *)
theory Native_Events
  imports Native_Store Strconv
begin

text \<open>
  The native provider's events and their three subscribers (\<open>event.go\<close>, \<open>pod.go\<close>, and the recorder, the
  dispatcher and the container daemon of \<open>process_manager.go\<close>). The process records in memory are shared
  by pointer between the goroutine that runs the pod and the subscribers, so they are addresses
  into a heap; the database holds copies. An event reaches the subscribers in the order in which
  they subscribed, which the goroutines race for: it is an argument.
\<close>

subsection \<open>Events\<close>

record BaseProcessEvent =
  ev_p :: nat                 \<comment> \<open>address of the \<open>PodProcess\<close>\<close>
  ev_cp :: "nat option"       \<comment> \<open>position of the \<open>ContainerProcess\<close> in its chain\<close>
  ev_err :: "goerror option"
  ev_msg :: string

text \<open>A process state is its exit code (\<open>-1\<close> for a signal); a nil state is \<open>None\<close>.\<close>

datatype ProcessEvent =
    PlainEvent BaseProcessEvent
  | DownloadResource BaseProcessEvent
  | PodProcessStart BaseProcessEvent int
  | ContainerProcessRun BaseProcessEvent int int            \<comment> \<open>pid, index\<close>
  | ContainerProcessFinish BaseProcessEvent int int "int option"  \<comment> \<open>pid, index, state\<close>

fun base :: "ProcessEvent \<Rightarrow> BaseProcessEvent" where
  "base (PlainEvent b) = b"
| "base (DownloadResource b) = b"
| "base (PodProcessStart b t) = b"
| "base (ContainerProcessRun b pid i) = b"
| "base (ContainerProcessFinish b pid i s) = b"

definition getPodProcess :: "ProcessEvent \<Rightarrow> nat" where "getPodProcess e = ev_p (base e)"
definition getError :: "ProcessEvent \<Rightarrow> goerror option" where "getError e = ev_err (base e)"
definition getMsg :: "ProcessEvent \<Rightarrow> string" where "getMsg e = ev_msg (base e)"

subsection \<open>The pod's status (PodEventHandler)\<close>

definition started_status :: "Container \<Rightarrow> ContainerStatus" where
  "started_status c = \<lparr>StatusName = ContainerName c, State = emptyState, LastTerminationState = emptyState, Ready = False,
     RestartCount = -1, StatusImage = Image c, ImageID = Image c, ContainerID = [], Started = Some False\<rparr>"

definition OnPodStart :: "string \<Rightarrow> int \<Rightarrow> Pod \<Rightarrow> Pod" where
  "OnPodStart hostIp t pod = pod\<lparr>Status := emptyStatus\<lparr>Phase := PodRunning, HostIP := hostIp, PodIP := hostIp, PodIPs := [hostIp],
     StartTime := Some t, QOSClass := ''Guaranteed'',
     InitContainerStatuses := map started_status (InitContainers (Spec pod)),
     ContainerStatuses := map started_status (Containers (Spec pod))\<rparr>\<rparr>"

definition ran_status :: "int \<Rightarrow> int \<Rightarrow> ContainerStatus \<Rightarrow> ContainerStatus" where
  "ran_status t pid cs = cs\<lparr>RestartCount := RestartCount cs + 1, State := emptyState\<lparr>Running := Some t\<rparr>,
     LastTerminationState := emptyState\<lparr>Running := Some t\<rparr>, Ready := True, ContainerID := Itoa pid, Started := Some True\<rparr>"

definition OnContainerRun :: "int \<Rightarrow> int \<Rightarrow> int \<Rightarrow> Pod \<Rightarrow> Pod outcome" where
  "OnContainerRun t pid index pod =
     (let status = Status pod; initLen = int (length (InitContainers (Spec pod))) in
      obind
        (if initLen < index then
           obind (go_index (InitContainerStatuses status) index) (\<lambda>cs.
           obind (go_store (InitContainerStatuses status) index (ran_status t pid cs)) (\<lambda>css.
             Val (status\<lparr>InitContainerStatuses := css\<rparr>)))
         else
           obind (go_index (ContainerStatuses status) (index - initLen)) (\<lambda>cs.
           obind (go_store (ContainerStatuses status) index (ran_status t pid cs)) (\<lambda>css.
             Val (status\<lparr>ContainerStatuses := css\<rparr>))))
        (\<lambda>status1.
           let status2 = (if index + 1 = int (length (Containers (Spec pod))) + int (length (InitContainers (Spec pod)))
                then status1\<lparr>Conditions := Conditions status1 @ [\<lparr>CondType = ''Ready'', CondStatus = ''True''\<rparr>]\<rparr> else status1)
           in Val (pod\<lparr>Status := status2\<rparr>)))"

text \<open>\<open>setPhase\<close> returns early on a non-zero exit code; a container that has not terminated is passed over.\<close>

fun all_exited_zero :: "ContainerStatus list \<Rightarrow> bool" where
  "all_exited_zero [] = True"
| "all_exited_zero (s # ss) =
     (case Terminated (LastTerminationState s) of
        None \<Rightarrow> all_exited_zero ss
      | Some t \<Rightarrow> if ExitCode t \<noteq> 0 then False else all_exited_zero ss)"

definition setPhase :: "Pod \<Rightarrow> int \<Rightarrow> Pod" where
  "setPhase pod exitCode =
     (if exitCode \<noteq> 0 then pod
      else if \<not> all_exited_zero (InitContainerStatuses (Status pod)) then pod
      else if \<not> all_exited_zero (ContainerStatuses (Status pod)) then pod
      else pod\<lparr>Status := (Status pod)\<lparr>Phase := PodSucceeded\<rparr>\<rparr>)"

definition finished_state :: "int \<Rightarrow> int \<Rightarrow> string \<Rightarrow> int \<Rightarrow> ContainerStatus \<Rightarrow> ContainerStatus" where
  "finished_state now exitCode msg pid cs =
     (let startAt = (case Running (State cs) of None \<Rightarrow> 0 | Some t \<Rightarrow> t);
          c = \<lparr>ExitCode = exitCode, TermReason = [], TermMessage = msg, TermStartedAt = startAt, TermFinishedAt = now,
               TermContainerID = Itoa pid\<rparr>
      in cs\<lparr>State := (State cs)\<lparr>Terminated := Some c\<rparr>, LastTerminationState := (LastTerminationState cs)\<lparr>Terminated := Some c\<rparr>\<rparr>)"

definition OnFinish :: "int \<Rightarrow> string \<Rightarrow> int \<Rightarrow> int \<Rightarrow> int option \<Rightarrow> Pod \<Rightarrow> Pod outcome" where
  "OnFinish now msg pid index state pod =
     (let initLen = int (length (InitContainers (Spec pod)));
          exitCode = (case state of None \<Rightarrow> -1 | Some c \<Rightarrow> c) in
      if initLen < index then
        obind (go_index (InitContainerStatuses (Status pod)) index) (\<lambda>cs.
        obind (go_store (InitContainerStatuses (Status pod)) index (finished_state now exitCode msg pid cs)) (\<lambda>css.
          Val (setPhase (pod\<lparr>Status := (Status pod)\<lparr>InitContainerStatuses := css\<rparr>\<rparr>) exitCode)))
      else
        obind (go_index (ContainerStatuses (Status pod)) (index - initLen)) (\<lambda>cs.
        obind (go_store (ContainerStatuses (Status pod)) (index - initLen) (finished_state now exitCode msg pid cs)) (\<lambda>css.
          Val (setPhase (pod\<lparr>Status := (Status pod)\<lparr>Conditions := [\<lparr>CondType = ''Initialized'', CondStatus = ''True''\<rparr>],
            ContainerStatuses := css\<rparr>\<rparr>) exitCode))))"

definition OnDownloadResource :: "goerror option \<Rightarrow> Pod \<Rightarrow> Pod" where
  "OnDownloadResource err pod = (if err \<noteq> None then pod\<lparr>Status := (Status pod)\<lparr>Phase := PodFailed\<rparr>\<rparr> else pod)"

fun handlePodEvent :: "string \<Rightarrow> int \<Rightarrow> ProcessEvent \<Rightarrow> Pod \<Rightarrow> Pod outcome" where
  "handlePodEvent hostIp now (PodProcessStart b t) pod = Val (OnPodStart hostIp t pod)"
| "handlePodEvent hostIp now (ContainerProcessRun b pid i) pod = OnContainerRun now pid i pod"
| "handlePodEvent hostIp now (ContainerProcessFinish b pid i s) pod = OnFinish now (ev_msg b) pid i s pod"
| "handlePodEvent hostIp now (DownloadResource b) pod = Val (OnDownloadResource (ev_err b) pod)"
| "handlePodEvent hostIp now (PlainEvent b) pod = Val pod"

subsection \<open>The subscribers\<close>

datatype subscriber = Recorder | ContainerDaemon | PodHandler

record 'd native_state =
  db :: 'd
  procs :: "PodProcess list"           \<comment> \<open>the heap of process records\<close>
  events_recorded :: "event list"
  pods_notified :: "Pod list"          \<comment> \<open>the calls of \<open>notifyFunc\<close>\<close>
  restarts :: "(nat \<times> int) list"      \<comment> \<open>the calls of \<open>cp.run\<close> by the daemon: process and index\<close>

record native_cfg =
  HostIp :: string
  nrm :: ResourceManager
  ev_now :: int

definition recordEvent :: "ProcessEvent \<Rightarrow> 'd native_state \<Rightarrow> 'd native_state" where
  "recordEvent event st =
     (let eventtype = (if getError event \<noteq> None then EventTypeWarning else EventTypeNormal) in
      st\<lparr>events_recorded := events_recorded st @ [pod_event (pp_Pod (procs st ! getPodProcess event)) eventtype ''ProcessEvent'' (getMsg event)]\<rparr>)"

definition recorder_step :: "'d bitcask \<Rightarrow> ProcessEvent \<Rightarrow> 'd native_state \<Rightarrow> 'd native_state" where
  "recorder_step kv event st =
     (let st1 = recordEvent event st
      in st1\<lparr>db := fst (Put kv (procs st1 ! getPodProcess event) (db st1))\<rparr>)"

text \<open>Whether the daemon runs the container again after its process has finished.\<close>

definition should_restart :: "'d bitcask \<Rightarrow> native_cfg \<Rightarrow> PodProcess \<Rightarrow> ContainerProcess \<Rightarrow> goerror option \<Rightarrow> int option \<Rightarrow> 'd \<Rightarrow> bool" where
  "should_restart kv cfg p cp err state d =
     (if Sync cp then False
      else case pm_getPod kv (pp_Namespace p) (pp_PodName p) d of
        (_, Some e) \<Rightarrow> False
      | (None, None) \<Rightarrow> False
      | (Some pod, None) \<Rightarrow>
          if DeletionTimestamp (Meta pod) \<noteq> None \<and> DeletionTimestamp (Meta pod) \<noteq> Some 0 then False
          else (case rm_GetPod (nrm cfg) (pp_Namespace p) (pp_PodName p) of
            Inl e \<Rightarrow> False
          | Inr getPod \<Rightarrow>
              if UID (Meta pod) \<noteq> UID (Meta getPod) then False
              else (case RestartPolicyOf (Spec (pp_Pod p)) of
                RestartPolicyOnFailure \<Rightarrow> \<not> (err = None \<and> (case state of None \<Rightarrow> False | Some c \<Rightarrow> c = 0))
              | RestartPolicyNever \<Rightarrow> False
              | _ \<Rightarrow> True)))"

definition daemon_step :: "'d bitcask \<Rightarrow> native_cfg \<Rightarrow> ProcessEvent \<Rightarrow> 'd native_state \<Rightarrow> 'd native_state" where
  "daemon_step kv cfg event st =
     (case event of
        ContainerProcessFinish b pid index state \<Rightarrow>
          let p = procs st ! ev_p b; cp = ProcessChain p ! the (ev_cp b) in
          if should_restart kv cfg p cp (ev_err b) state (db st)
          then st\<lparr>restarts := restarts st @ [(ev_p b, index)]\<rparr> else st
      | _ \<Rightarrow> st)"

definition handler_step :: "native_cfg \<Rightarrow> ProcessEvent \<Rightarrow> 'd native_state \<Rightarrow> 'd native_state outcome" where
  "handler_step cfg event st =
     (let a = getPodProcess event; p = procs st ! a in
      obind (handlePodEvent (HostIp cfg) (ev_now cfg) event (pp_Pod p)) (\<lambda>pod.
        Val (st\<lparr>procs := (procs st)[a := p\<lparr>pp_Pod := pod\<rparr>], pods_notified := pods_notified st @ [pod]\<rparr>)))"

fun subscriber_step :: "'d bitcask \<Rightarrow> native_cfg \<Rightarrow> ProcessEvent \<Rightarrow> subscriber \<Rightarrow> 'd native_state \<Rightarrow> 'd native_state outcome" where
  "subscriber_step kv cfg event Recorder st = Val (recorder_step kv event st)"
| "subscriber_step kv cfg event ContainerDaemon st = Val (daemon_step kv cfg event st)"
| "subscriber_step kv cfg event PodHandler st = handler_step cfg event st"

text \<open>The dispatcher sends one event to each subscriber in turn.\<close>

fun dispatch :: "'d bitcask \<Rightarrow> native_cfg \<Rightarrow> subscriber list \<Rightarrow> ProcessEvent \<Rightarrow> 'd native_state \<Rightarrow> 'd native_state outcome" where
  "dispatch kv cfg [] event st = Val st"
| "dispatch kv cfg (v # subscribes) event st =
     obind (subscriber_step kv cfg event v st) (\<lambda>st'. dispatch kv cfg subscribes event st')"

subsection \<open>Statuses and indices\<close>

text \<open>Statuses as \<open>OnPodStart\<close> makes them: one per container.\<close>

definition statuses_match :: "Pod \<Rightarrow> bool" where
  "statuses_match pod = (length (InitContainerStatuses (Status pod)) = length (InitContainers (Spec pod)) \<and>
     length (ContainerStatuses (Status pod)) = length (Containers (Spec pod)))"

lemma OnPodStart_statuses: "statuses_match (OnPodStart ip t pod)"
  by (simp add: statuses_match_def OnPodStart_def)

lemma go_index_no_panic: "no_panic (go_index s i) \<longleftrightarrow> 0 \<le> i \<and> i < int (length s)"
  by (simp add: go_index_def)

lemma no_panic_obind_iff: "no_panic (obind m f) \<longleftrightarrow> (\<exists>a. m = Val a \<and> no_panic (f a))"
  by (cases m) auto

lemma go_index_Val: "go_index s i = Val x \<longleftrightarrow> 0 \<le> i \<and> i < int (length s) \<and> x = s ! nat i"
  by (auto simp: go_index_def)

lemma go_store_Val: "go_store s i v = Val s' \<longleftrightarrow> 0 \<le> i \<and> i < int (length s) \<and> s' = s[nat i := v]"
  by (auto simp: go_store_def)

text \<open>
  For a pod whose statuses were made by \<open>OnPodStart\<close>, the handler of a container's start panics (and with
  it the kubelet) for every container of the chain except one: the first container after the init
  containers, and that one too when there are at least as many init containers as containers. The
  test \<open>initLen < event.index\<close> selects the init statuses for the wrong half of the chain.
\<close>

theorem OnContainerRun_panics_iff:
  assumes "statuses_match pod"
  shows "no_panic (OnContainerRun t pid index pod) \<longleftrightarrow>
    index = int (length (InitContainers (Spec pod))) \<and> length (InitContainers (Spec pod)) < length (Containers (Spec pod))"
  using assms
  by (auto simp: OnContainerRun_def Let_def no_panic_obind_iff go_index_Val go_store_Val statuses_match_def)

theorem OnContainerRun_panics_witness:
  "\<not> no_panic (OnContainerRun 5 42 1 (OnPodStart ''10.0.0.1'' 4
      ((named_pod ''ns'' ''web'')\<lparr>Spec := emptySpec\<lparr>Containers := [emptyContainer, emptyContainer]\<rparr>\<rparr>)))"
  unfolding OnContainerRun_panics_iff [OF OnPodStart_statuses] by (simp add: OnPodStart_def zero_values)

text \<open>
  The handler of a container's end is right for the same container only: it panics for every index but the first
  after the init containers.
\<close>

theorem OnFinish_panics_iff:
  assumes "statuses_match pod"
  shows "no_panic (OnFinish now msg pid index state pod) \<longleftrightarrow>
    index = int (length (InitContainers (Spec pod))) \<and> Containers (Spec pod) \<noteq> []"
  using assms
  by (auto simp: OnFinish_def Let_def no_panic_obind_iff go_index_Val go_store_Val statuses_match_def)

theorem OnFinish_panics_witness:
  "\<not> no_panic (OnFinish 5 [] 42 0 (Some 0) (OnPodStart ''10.0.0.1'' 4
      ((named_pod ''ns'' ''web'')\<lparr>Spec := emptySpec\<lparr>InitContainers := [emptyContainer], Containers := [emptyContainer]\<rparr>\<rparr>)))"
  unfolding OnFinish_panics_iff [OF OnPodStart_statuses] by (simp add: OnPodStart_def zero_values)

lemma all_exited_zero_iff:
  "all_exited_zero ss \<longleftrightarrow> (\<forall>s\<in>set ss. \<forall>t. Terminated (LastTerminationState s) = Some t \<longrightarrow> ExitCode t = 0)"
  by (induction ss) (auto split: option.split)

text \<open>
  A pod is declared succeeded as soon as one container exits with 0 and none has failed: the first container of
  a pod without init containers that finishes well makes the phase Succeeded although every other
  container is still running.
\<close>

theorem finish_succeeds_pod_with_running_containers:
  assumes "Containers (Spec pod) = c # cs" and "InitContainers (Spec pod) = []"
  shows "\<exists>pod'. OnFinish now msg pid 0 (Some 0) (OnPodStart ip t pod) = Val pod' \<and> Phase (Status pod') = PodSucceeded \<and>
    (\<forall>i. 0 < i \<and> i < length (ContainerStatuses (Status pod')) \<longrightarrow> Terminated (State (ContainerStatuses (Status pod') ! i)) = None)"
proof -
  let ?f = "finished_state now 0 msg pid (started_status c)"
  let ?ss = "?f # map started_status cs"
  have run: "OnFinish now msg pid 0 (Some 0) (OnPodStart ip t pod) =
      Val (setPhase ((OnPodStart ip t pod)\<lparr>Status := (Status (OnPodStart ip t pod))\<lparr>
        Conditions := [\<lparr>CondType = ''Initialized'', CondStatus = ''True''\<rparr>], ContainerStatuses := ?ss\<rparr>\<rparr>) 0)"
    using assms by (simp add: OnFinish_def OnPodStart_def go_index_def go_store_def)
  have z: "all_exited_zero ?ss"
    by (auto simp: all_exited_zero_iff finished_state_def started_status_def emptyState_def Let_def)
  have "setPhase ((OnPodStart ip t pod)\<lparr>Status := (Status (OnPodStart ip t pod))\<lparr>
        Conditions := [\<lparr>CondType = ''Initialized'', CondStatus = ''True''\<rparr>], ContainerStatuses := ?ss\<rparr>\<rparr>) 0 =
      (OnPodStart ip t pod)\<lparr>Status := (Status (OnPodStart ip t pod))\<lparr>
        Conditions := [\<lparr>CondType = ''Initialized'', CondStatus = ''True''\<rparr>], ContainerStatuses := ?ss, Phase := PodSucceeded\<rparr>\<rparr>"
    using z assms(2) unfolding setPhase_def by (simp add: OnPodStart_def del: all_exited_zero.simps(2))
  moreover have "Terminated (State (?ss ! i)) = None" if "0 < i" "i < length ?ss" for i
    using that by (cases i) (simp_all add: started_status_def emptyState_def)
  ultimately show ?thesis unfolding run by (auto simp: less_Suc_eq_0_disj started_status_def emptyState_def)
qed

theorem finish_succeeds_pod_with_running_containers_witness:
  "\<exists>pod'. OnFinish 9 [] 42 0 (Some 0) (OnPodStart ''10.0.0.1'' 4
      ((named_pod ''ns'' ''web'')\<lparr>Spec := emptySpec\<lparr>Containers := [emptyContainer, emptyContainer]\<rparr>\<rparr>)) = Val pod' \<and>
    Phase (Status pod') = PodSucceeded"
  using finish_succeeds_pod_with_running_containers
    [of "(named_pod ''ns'' ''web'')\<lparr>Spec := emptySpec\<lparr>Containers := [emptyContainer, emptyContainer]\<rparr>\<rparr>" emptyContainer "[emptyContainer]" 9 "[]" 42 "''10.0.0.1''" 4]
  by (auto simp: zero_values)

subsection \<open>Pods with one container\<close>

text \<open>One life of the container: it is started and finishes with the exit code \<open>c\<close>.\<close>

definition one_run :: "int \<times> int \<times> int \<Rightarrow> Pod \<Rightarrow> Pod outcome" where
  "one_run r pod = (case r of (t, pid, c) \<Rightarrow> obind (OnContainerRun t pid 0 pod) (OnFinish t [] pid 0 (Some c)))"

fun run_all :: "(int \<times> int \<times> int) list \<Rightarrow> Pod \<Rightarrow> Pod outcome" where
  "run_all [] pod = Val pod"
| "run_all (r # rs) pod = obind (one_run r pod) (run_all rs)"

definition single :: "Pod \<Rightarrow> bool" where
  "single pod = (InitContainers (Spec pod) = [] \<and> length (Containers (Spec pod)) = 1)"

lemma setPhase_keeps [simp]:
  "Spec (setPhase pod c) = Spec pod" "ContainerStatuses (Status (setPhase pod c)) = ContainerStatuses (Status pod)"
  "InitContainerStatuses (Status (setPhase pod c)) = InitContainerStatuses (Status pod)"
  by (simp_all add: setPhase_def)

lemma one_run_single:
  assumes "single pod" and "ContainerStatuses (Status pod) = [cs]"
  shows "\<exists>pod' cs'. one_run (t, pid, c) pod = Val pod' \<and> Spec pod' = Spec pod \<and> ContainerStatuses (Status pod') = [cs'] \<and>
    RestartCount cs' = RestartCount cs + 1 \<and> (\<exists>term. Terminated (State cs') = Some term \<and> ExitCode term = c \<and> TermStartedAt term = t)"
  using assms
  by (simp add: one_run_def single_def OnContainerRun_def OnFinish_def go_index_def go_store_def Let_def del: obind_Val_iff)
    (simp add: finished_state_def ran_status_def Let_def)

text \<open>
  For a pod with one container and no init containers the events are handled without a panic however often
  the container is restarted, and the restart count is the number of times it has been run, less one;
  the last state is the termination with the exit code of the last run.
\<close>

theorem restart_count_of_single_container:
  assumes "single pod" and "rs = rs0 @ [(t, pid, c)]"
  shows "\<exists>pod' cs. run_all rs (OnPodStart ip t0 pod) = Val pod' \<and> ContainerStatuses (Status pod') = [cs] \<and>
    RestartCount cs = int (length rs) - 1 \<and>
    (\<exists>term. Terminated (State cs) = Some term \<and> ExitCode term = c \<and> TermStartedAt term = t)"
proof -
  have count: "\<exists>q cs. run_all xs p = Val q \<and> single q \<and> ContainerStatuses (Status q) = [cs] \<and> RestartCount cs = n + int (length xs)"
    if "single p" "ContainerStatuses (Status p) = [cs0]" "RestartCount cs0 = n" for xs p cs0 n
    using that
  proof (induction xs arbitrary: p cs0 n)
    case (Cons x xs)
    obtain t pid c where x: "x = (t, pid, c)" by (cases x)
    obtain p1 cs1 where "one_run x p = Val p1" "single p1" "ContainerStatuses (Status p1) = [cs1]" "RestartCount cs1 = n + 1"
      using one_run_single [OF Cons.prems(1,2), of t pid c] Cons.prems(1,3) x by (auto simp: single_def)
    then show ?case using Cons.IH [of p1 cs1 "n + 1"] by auto
  qed simp
  obtain k where k: "Containers (Spec pod) = [k]" using assms(1) by (auto simp: single_def length_Suc_conv)
  have "single (OnPodStart ip t0 pod)" "ContainerStatuses (Status (OnPodStart ip t0 pod)) = [started_status k]"
      "RestartCount (started_status k) = -1"
    using assms(1) k by (simp_all add: single_def OnPodStart_def started_status_def)
  then obtain q cs where q: "run_all rs0 (OnPodStart ip t0 pod) = Val q" "single q" "ContainerStatuses (Status q) = [cs]"
      "RestartCount cs = -1 + int (length rs0)"
    using count by blast
  have append: "run_all (xs @ ys) p = obind (run_all xs p) (run_all ys)" for xs ys p
  proof (induction xs arbitrary: p)
    case (Cons x xs)
    then show ?case by (cases "one_run x p") (simp_all del: obind_Val_iff)
  qed simp
  show ?thesis
    using one_run_single [OF q(2,3), of t pid c] q(1,4) assms(2) append [of rs0 "[(t, pid, c)]"] by auto
qed

theorem restart_count_of_single_container_witness:
  "\<exists>pod' cs. run_all ([(5, 101, 1), (6, 102, 1)] @ [(7, 103, 0)]) (OnPodStart ''ip'' 4
      ((named_pod ''ns'' ''web'')\<lparr>Spec := emptySpec\<lparr>Containers := [emptyContainer]\<rparr>\<rparr>)) = Val pod' \<and>
    ContainerStatuses (Status pod') = [cs] \<and> RestartCount cs = 2"
  using restart_count_of_single_container [of "(named_pod ''ns'' ''web'')\<lparr>Spec := emptySpec\<lparr>Containers := [emptyContainer]\<rparr>\<rparr>"
      "[(5, 101, 1), (6, 102, 1), (7, 103, 0)]" "[(5, 101, 1), (6, 102, 1)]" 7 103 0 "''ip''" 4]
  by (auto simp: single_def zero_values)

end
