(* ===== verification/Native_Run.thy ===== *)
theory Native_Run
  imports Native_Events
begin

text \<open>
  Running a container as a process: \<open>image_puller.go\<close>, \<open>resource_downloader.go\<close>, \<open>process_runner.go\<close>, and
  \<open>ContainerProcess.run\<close> and \<open>PodProcess.run\<close> of \<open>process_manager.go\<close>. What the steps call in the image
  manager, the file system and the operating system are parameters (\<open>run_ext\<close>). A step returns the
  changed container process, its effects in order (events sent on the bus and calls with an effect outside the
  program), and its error. Spans and log lines are left out.
\<close>

record run_ext =
  im_PullImage :: "string \<Rightarrow> goerror option"
  im_UnzipImage :: "string \<Rightarrow> string \<Rightarrow> goerror option"
  ioutil_WriteFile :: "string \<Rightarrow> string \<Rightarrow> goerror option"
  PidExists :: "int \<Rightarrow> bool result"
  os_OpenFile :: "string \<Rightarrow> goerror option"
  cmd_Start :: "string list \<Rightarrow> string \<Rightarrow> string \<Rightarrow> int result"   \<comment> \<open>environment, directory, shell command\<close>
  proc_Wait :: "int \<Rightarrow> int result"                              \<comment> \<open>\<open>FindProcess\<close> and \<open>Wait\<close>: the exit code\<close>
  state_String :: "int \<Rightarrow> string"
  os_Environ :: "string list"
  filepath_Join :: "string \<Rightarrow> string \<Rightarrow> string"
  fieldpath_Extract :: "Pod \<Rightarrow> string \<Rightarrow> string result"
  ers_IsNotFound :: "goerror \<Rightarrow> bool"
  ext_rm :: ResourceManager
  ext_nodeIp :: string
  ctx_done :: bool                                              \<comment> \<open>the \<open>select\<close> of the run takes \<open>ctx.Done()\<close>\<close>

datatype run_effect =
    Bus ProcessEvent
  | Call_PullImage string
  | Call_UnzipImage string string
  | Call_WriteFile string string
  | Call_Start "string list" string string

type_synonym run_result = "(ContainerProcess \<times> run_effect list \<times> goerror option) outcome"

text \<open>One step after another: an error ends the sequence (\<open>if err := ...; err != nil { return err }\<close>).\<close>

definition run_then :: "run_result \<Rightarrow> (ContainerProcess \<Rightarrow> run_result) \<Rightarrow> run_result" where
  "run_then m f = obind m (\<lambda>(p, es, err). case err of
     Some e \<Rightarrow> Val (p, es, Some e)
   | None \<Rightarrow> obind (f p) (\<lambda>(p', es', err'). Val (p', es @ es', err')))"

text \<open>An event of the container at position \<open>i\<close> of the process at address \<open>a\<close>.\<close>

definition cp_event :: "nat \<Rightarrow> nat \<Rightarrow> goerror option \<Rightarrow> string \<Rightarrow> BaseProcessEvent" where
  "cp_event a i err msg = \<lparr>ev_p = a, ev_cp = Some i, ev_err = err, ev_msg = msg\<rparr>"

subsection \<open>Images\<close>

text \<open>\<open>strings.ToTitle\<close> on the ASCII characters an image reference may have.\<close>

definition upper :: "char \<Rightarrow> char" where
  "upper c = (let n = of_char c :: nat in if 97 \<le> n \<and> n \<le> 122 then char_of (n - 32) else c)"

definition ImageLatestSuffix :: string where "ImageLatestSuffix = '':LATEST''"

definition ImageLatest :: "string \<Rightarrow> bool" where
  "ImageLatest img = (let s = map upper img; n = length ImageLatestSuffix in
     n \<le> length s \<and> drop (length s - n) s = ImageLatestSuffix)"

definition needPullImage :: "ContainerProcess \<Rightarrow> bool" where
  "needPullImage p = (\<not> ImagePulled p \<or> ImagePullPolicy (cp_Container p) = ''Always'' \<or> ImageLatest (Image (cp_Container p)))"

definition pull :: "run_ext \<Rightarrow> nat \<Rightarrow> nat \<Rightarrow> string \<Rightarrow> ContainerProcess \<Rightarrow> run_result" where
  "pull ext a i imageName p =
     (let img = Image (cp_Container p);
          start = [Bus (PlainEvent (cp_event a i None (''start pull image '' @ img))), Call_PullImage imageName];
          finish = Bus (PlainEvent (cp_event a i None (''image '' @ img @ '' pull finish'')))
      in if needPullImage p then
           (case im_PullImage ext imageName of
              Some err \<Rightarrow> Val (p, start @ [Bus (PlainEvent (cp_event a i (Some err) (''image '' @ img @ '' pull error'')))], Some err)
            | None \<Rightarrow> Val (p\<lparr>ImagePulled := True\<rparr>, start @ [finish], None))
         else Val (p\<lparr>ImagePulled := True\<rparr>, [finish], None))"

definition unzip :: "run_ext \<Rightarrow> nat \<Rightarrow> nat \<Rightarrow> ContainerProcess \<Rightarrow> run_result" where
  "unzip ext a i p =
     (let img = Image (cp_Container p);
          what = ''ImageUnzipped '' @ img @ '' to workdir '' @ cp_Workdir p;
          start = [Bus (PlainEvent (cp_event a i None (''start '' @ what))), Call_UnzipImage img (cp_Workdir p)];
          finish = Bus (PlainEvent (cp_event a i None (what @ '' finish'')))
      in if \<not> ImageUnzipped p then
           (case im_UnzipImage ext img (cp_Workdir p) of
              Some err \<Rightarrow> Val (p, start @ [Bus (PlainEvent (cp_event a i (Some err) (what @ '' error '' @ Error err)))], Some err)
            | None \<Rightarrow> Val (p\<lparr>ImageUnzipped := True\<rparr>, start @ [finish], None))
         else Val (p\<lparr>ImageUnzipped := True\<rparr>, [finish], None))"

subsection \<open>Configmaps and secrets as files\<close>

fun findMount :: "VolumeMount list \<Rightarrow> string \<Rightarrow> string \<Rightarrow> string" where
  "findMount [] volume path = path"
| "findMount (m # ms) volume path = (if MountName m = volume \<and> SubPath m = path then MountPath m else findMount ms volume path)"

text \<open>
  The files of one volume, each key in turn, as calls of \<open>WriteFile\<close>; \<open>missing\<close> is the error for a key that
  is not there.
\<close>

fun writeItems ::
    "run_ext \<Rightarrow> VolumeMount list \<Rightarrow> string \<Rightarrow> string \<Rightarrow> bool option \<Rightarrow> string gomap \<Rightarrow> (string \<Rightarrow> goerror) \<Rightarrow> (string \<times> string) list
      \<Rightarrow> run_effect list \<times> goerror option" where
  "writeItems ext mounts wd volume optional data missing [] = ([], None)"
| "writeItems ext mounts wd volume optional data missing ((key, path) # its) =
     (case go_get data key of
        None \<Rightarrow>
          (case optional of
             Some True \<Rightarrow> writeItems ext mounts wd volume optional data missing its
           | _ \<Rightarrow> ([], Some (missing key)))
      | Some bytes \<Rightarrow>
          let file = filepath_Join ext wd (findMount mounts volume path) in
          case ioutil_WriteFile ext file bytes of
            Some err \<Rightarrow> ([Call_WriteFile file bytes], Some err)
          | None \<Rightarrow> (let (ws, err) = writeItems ext mounts wd volume optional data missing its in (Call_WriteFile file bytes # ws, err)))"

definition volume_paths :: "VolumeSource \<Rightarrow> DataObject \<Rightarrow> (string \<times> string) list" where
  "volume_paths src obj = (if length (Items src) = 0 then map (\<lambda>k. (k, k)) (go_keys (Data obj)) else Items src)"

definition not_found_key :: "string \<Rightarrow> string \<Rightarrow> string \<Rightarrow> string \<Rightarrow> goerror" where
  "not_found_key kind name ns key = ErrorString (''not found volume '' @ kind @ '' '' @ name @ '' key '' @ key @ '' in namespace '' @ ns)"

text \<open>\<open>*volume.ConfigMap.Optional\<close> is read when the object is not found: a nil pointer there panics.\<close>

definition download_volume ::
    "run_ext \<Rightarrow> VolumeMount list \<Rightarrow> string \<Rightarrow> string \<Rightarrow> string \<Rightarrow> string \<Rightarrow> VolumeSource \<Rightarrow> DataObject result
      \<Rightarrow> (run_effect list \<times> goerror option) outcome" where
  "download_volume ext mounts wd kind namespace volume src got =
     (case got of
        Inl err \<Rightarrow>
          if ers_IsNotFound ext err then
            obind (deref (SourceOptional src)) (\<lambda>opt. if opt then Val ([], None) else Val ([], Some err))
          else Val ([], Some err)
      | Inr obj \<Rightarrow>
          Val (writeItems ext mounts wd volume (SourceOptional src) (Data obj) (not_found_key kind (SourceName src) namespace)
            (volume_paths src obj)))"

fun downloadConfigMapVolumes ::
    "run_ext \<Rightarrow> VolumeMount list \<Rightarrow> string \<Rightarrow> string \<Rightarrow> Volume list \<Rightarrow> (run_effect list \<times> goerror option) outcome" where
  "downloadConfigMapVolumes ext mounts wd namespace [] = Val ([], None)"
| "downloadConfigMapVolumes ext mounts wd namespace (v # vs) =
     (case VolumeConfigMap v of
        None \<Rightarrow> downloadConfigMapVolumes ext mounts wd namespace vs
      | Some src \<Rightarrow>
          obind (download_volume ext mounts wd ''configmap'' namespace (VolumeName v) src (GetConfigMap (ext_rm ext) (SourceName src) namespace))
            (\<lambda>(ws, err). case err of
               Some e \<Rightarrow> Val (ws, Some e)
             | None \<Rightarrow> obind (downloadConfigMapVolumes ext mounts wd namespace vs) (\<lambda>(ws', err'). Val (ws @ ws', err'))))"

fun downloadSecretVolumes ::
    "run_ext \<Rightarrow> VolumeMount list \<Rightarrow> string \<Rightarrow> string \<Rightarrow> Volume list \<Rightarrow> (run_effect list \<times> goerror option) outcome" where
  "downloadSecretVolumes ext mounts wd namespace [] = Val ([], None)"
| "downloadSecretVolumes ext mounts wd namespace (v # vs) =
     (case VolumeSecret v of
        None \<Rightarrow> downloadSecretVolumes ext mounts wd namespace vs
      | Some src \<Rightarrow>
          obind (download_volume ext mounts wd ''secret'' namespace (VolumeName v) src (GetSecret (ext_rm ext) (SourceName src) namespace))
            (\<lambda>(ws, err). case err of
               Some e \<Rightarrow> Val (ws, Some e)
             | None \<Rightarrow> obind (downloadSecretVolumes ext mounts wd namespace vs) (\<lambda>(ws', err'). Val (ws @ ws', err'))))"

definition downloadConfigMaps :: "run_ext \<Rightarrow> ContainerProcess \<Rightarrow> Pod \<Rightarrow> string \<Rightarrow> (run_effect list \<times> goerror option) outcome" where
  "downloadConfigMaps ext p pod wd =
     downloadConfigMapVolumes ext (VolumeMounts (cp_Container p)) wd (Namespace (Meta pod)) (Volumes (Spec pod))"

definition downloadSecrets :: "run_ext \<Rightarrow> ContainerProcess \<Rightarrow> Pod \<Rightarrow> string \<Rightarrow> (run_effect list \<times> goerror option) outcome" where
  "downloadSecrets ext p pod wd =
     downloadSecretVolumes ext (VolumeMounts (cp_Container p)) wd (Namespace (Meta pod)) (Volumes (Spec pod))"

text \<open>One of the two kinds: done once, with an event for its end or its error.\<close>

definition download_kind ::
    "nat \<Rightarrow> nat \<Rightarrow> string \<Rightarrow> ContainerProcess \<Rightarrow> (ContainerProcess \<Rightarrow> ContainerProcess) \<Rightarrow> (run_effect list \<times> goerror option) outcome
      \<Rightarrow> run_result" where
  "download_kind a i kind p mark got =
     obind got (\<lambda>(ws, err). case err of
         Some e \<Rightarrow> Val (p, ws @ [Bus (DownloadResource (cp_event a i (Some e) (''download '' @ kind @ '' error image:'' @ Image (cp_Container p)
                      @ '',err:'' @ Error e)))], Some e)
       | None \<Rightarrow> Val (mark p, ws @ [Bus (DownloadResource (cp_event a i None (''download '' @ kind @ '' finish image:'' @ Image (cp_Container p))))], None))"

definition downloadResource :: "run_ext \<Rightarrow> nat \<Rightarrow> nat \<Rightarrow> Pod \<Rightarrow> string \<Rightarrow> ContainerProcess \<Rightarrow> run_result" where
  "downloadResource ext a i pod wd p =
     run_then
       (if \<not> ConfigMapDownload p
        then download_kind a i ''configmap'' p (\<lambda>q. q\<lparr>ConfigMapDownload := True\<rparr>) (downloadConfigMaps ext p pod wd)
        else Val (p, [], None))
       (\<lambda>p1.
          if \<not> SecretDownload p1
          then download_kind a i ''secret'' p1 (\<lambda>q. q\<lparr>SecretDownload := True\<rparr>) (downloadSecrets ext p1 pod wd)
          else Val (p1, [], None))"

subsection \<open>The environment of the process\<close>

definition formatEnv :: "string \<Rightarrow> string \<Rightarrow> string" where
  "formatEnv name val = name @ ''='' @ val"

definition key_entry :: "run_ext \<Rightarrow> string \<Rightarrow> string \<Rightarrow> KeySelector \<Rightarrow> DataObject result \<Rightarrow> (DataObject \<Rightarrow> string gomap) \<Rightarrow> string result outcome" where
  "key_entry ext kind namespace sel got dataof =
     (case got of
        Inl err \<Rightarrow>
          if ers_IsNotFound ext err then
            obind (deref (RefOptional sel)) (\<lambda>opt. if opt then Val (Inr []) else Val (Inl err))
          else Val (Inl err)
      | Inr obj \<Rightarrow>
          (case go_get (dataof obj) (RefKey sel) of
             Some s \<Rightarrow> Val (Inr s)
           | None \<Rightarrow> obind (deref (RefOptional sel)) (\<lambda>opt.
               if opt then Val (Inr [])
               else Val (Inl (ErrorString (''not found '' @ kind @ '' '' @ RefName sel @ '' key '' @ RefKey sel @ '' at namespace '' @ namespace))))))"

definition buildEvnEntry :: "run_ext \<Rightarrow> EnvVarSource \<Rightarrow> Pod \<Rightarrow> string result outcome" where
  "buildEvnEntry ext vf pod =
     (case FieldRef vf of
        Some (_, path) \<Rightarrow>
          if path \<in> {''status.phase'', ''status.hostIP'', ''status.podIP'', ''status.podIPs'', ''spec.host''} then Val (Inr (ext_nodeIp ext))
          else Val (fieldpath_Extract ext pod path)
      | None \<Rightarrow> (case ConfigMapKeyRef vf of
          Some sel \<Rightarrow> key_entry ext ''configmap'' (Namespace (Meta pod)) sel (GetConfigMap (ext_rm ext) (RefName sel) (Namespace (Meta pod))) Data
        | None \<Rightarrow> (case SecretKeyRef vf of
            Some sel \<Rightarrow> key_entry ext ''secret'' (Namespace (Meta pod)) sel (GetSecret (ext_rm ext) (RefName sel) (Namespace (Meta pod))) StringData
          | None \<Rightarrow> if ResourceFieldRef vf \<noteq> None then Val (Inl (ErrorString ''unsupport ResourceFieldRef'')) else Val (Inr []))))"

fun buildEnvLoop :: "run_ext \<Rightarrow> EnvVar list \<Rightarrow> Pod \<Rightarrow> string list \<Rightarrow> string list result outcome" where
  "buildEnvLoop ext [] pod environ = Val (Inr environ)"
| "buildEnvLoop ext (envVar # vars) pod environ =
     (case ValueFrom envVar of
        None \<Rightarrow> buildEnvLoop ext vars pod (environ @ [formatEnv (EnvName envVar) (EnvValue envVar)])
      | Some vf \<Rightarrow> obind (buildEvnEntry ext vf pod) (\<lambda>r. case r of
          Inl err \<Rightarrow> Val (Inl err)
        | Inr val \<Rightarrow> buildEnvLoop ext vars pod (environ @ [formatEnv (EnvName envVar) val])))"

definition buildContainerEnvs :: "run_ext \<Rightarrow> ContainerProcess \<Rightarrow> Pod \<Rightarrow> string list result outcome" where
  "buildContainerEnvs ext p pod = buildEnvLoop ext (Env (cp_Container p)) pod (os_Environ ext)"

subsection \<open>The process\<close>

fun join_args :: "string list \<Rightarrow> string" where
  "join_args [] = []"
| "join_args [x] = x"
| "join_args (x # y # xs) = x @ '' '' @ join_args (y # xs)"

definition fmt_strings :: "string list \<Rightarrow> string" where
  "fmt_strings xs = ''['' @ join_args xs @ '']''"

text \<open>\<open>runProcess\<close>: the error is what is sent on the signal channel.\<close>

definition start_cmd :: "run_ext \<Rightarrow> nat \<Rightarrow> nat \<Rightarrow> string \<Rightarrow> string list \<Rightarrow> ContainerProcess \<Rightarrow> run_result" where
  "start_cmd ext a index containerWorkDir envs p =
     (let c = cp_Container p;
          dir = filepath_Join ext containerWorkDir (WorkingDir c);
          cmd = join_args (Command c @ Args c);
          what = '' image:'' @ Image c @ '',workdir:'' @ dir @ '',cmd:'' @ fmt_strings (Command c) @ '',args:'' @ fmt_strings (Args c) in
      case cmd_Start ext envs dir cmd of
        Inl err \<Rightarrow>
          Val (p, [Call_Start envs dir cmd,
             Bus (ContainerProcessRun (cp_event a index (Some err) (''start cmd error'' @ what @ '',err:'' @ Error err)) (Pid p) (int index))], Some err)
      | Inr pid \<Rightarrow>
          Val (p\<lparr>Pid := pid\<rparr>, [Call_Start envs dir cmd,
             Bus (ContainerProcessRun (cp_event a index None (''start cmd with Pid '' @ Itoa pid @ what)) pid (int index))], None))"

definition runProcess :: "run_ext \<Rightarrow> nat \<Rightarrow> nat \<Rightarrow> Pod \<Rightarrow> string \<Rightarrow> ContainerProcess \<Rightarrow> run_result" where
  "runProcess ext a index pod containerWorkDir p =
     (case (if Pid p \<noteq> 0 then PidExists ext (Pid p) else Inr False) of
        Inl err \<Rightarrow> Val (p, [], Some err)
      | Inr True \<Rightarrow> Val (p, [], None)
      | Inr False \<Rightarrow>
          obind (buildContainerEnvs ext p pod) (\<lambda>envs. case envs of
            Inl err \<Rightarrow> Val (p, [], Some err)
          | Inr es \<Rightarrow>
              (case os_OpenFile ext (filepath_Join ext containerWorkDir ''STDOUT'') of
                 Some err \<Rightarrow> Val (p, [], Some err)
               | None \<Rightarrow> start_cmd ext a index containerWorkDir es p)))"

definition processWaiter :: "run_ext \<Rightarrow> nat \<Rightarrow> nat \<Rightarrow> ContainerProcess \<Rightarrow> run_result" where
  "processWaiter ext a index p =
     (let img = Image (cp_Container p) in
      case proc_Wait ext (Pid p) of
        Inl err \<Rightarrow> Val (p, [Bus (ContainerProcessFinish (cp_event a index (Some err) (''run cmd end image:'' @ img @ '',err:'' @ Error err))
            (Pid p) (int index) None)], None)
      | Inr code \<Rightarrow> Val (p, [Bus (ContainerProcessFinish (cp_event a index None
            (''run cmd end image:'' @ img @ '',exitCode:'' @ Itoa code @ '',resion:'' @ state_String ext code)) (Pid p) (int index) (Some code))], None))"

text \<open>The goroutine of the health check looks for the process once and panics if that fails.\<close>

definition startHealthCheck :: "run_ext \<Rightarrow> ContainerProcess \<Rightarrow> unit outcome" where
  "startHealthCheck ext p = (case PidExists ext (Pid p) of Inl err \<Rightarrow> Panic (Error err) | Inr exists \<Rightarrow> Val ())"

subsection \<open>ContainerProcess.run\<close>

text \<open>The function \<open>f\<close>: the steps in order, each ending the run with its error.\<close>

definition run_steps :: "run_ext \<Rightarrow> nat \<Rightarrow> nat \<Rightarrow> Pod \<Rightarrow> ContainerProcess \<Rightarrow> run_result" where
  "run_steps ext a index pod p =
     run_then (pull ext a index (dockerImageName (Image (cp_Container p))) p) (\<lambda>p1.
     run_then (unzip ext a index p1) (\<lambda>p2.
       let wd = filepath_Join ext (cp_Workdir p2) ''container'' in
     run_then (downloadResource ext a index pod wd p2) (\<lambda>p3.
       if ctx_done ext then obind (runProcess ext a index pod wd p3) (\<lambda>(p4, es, err). Val (p4, es, None))
       else run_then (runProcess ext a index pod wd p3) (\<lambda>p4.
              obind (startHealthCheck ext p4) (\<lambda>_. processWaiter ext a index p4)))))"

text \<open>The function \<open>startFunc\<close>.\<close>

definition startFunc :: "run_ext \<Rightarrow> nat \<Rightarrow> nat \<Rightarrow> Pod \<Rightarrow> ContainerProcess \<Rightarrow> run_result" where
  "startFunc ext a index pod p =
     obind (run_steps ext a index pod p) (\<lambda>(p', es, err). case err of
       None \<Rightarrow> Val (p', es, None)
     | Some e \<Rightarrow> Val (p', es @ [Bus (ContainerProcessFinish (cp_event a index (Some e) (''run container process error,index:'' @ Itoa (int index)))
         (-1) (int index) None)], Some e))"

text \<open>
  A synchronous container (an init container) is run to its end; for another one a goroutine is started, whose
  run is a \<open>startFunc\<close> of its own, and the result is nil.
\<close>

datatype pod_act = PodSent ProcessEvent | RanSync nat "run_effect list" "goerror option" | SpawnedRun nat

definition cp_run :: "run_ext \<Rightarrow> nat \<Rightarrow> nat \<Rightarrow> Pod \<Rightarrow> ContainerProcess \<Rightarrow> (ContainerProcess \<times> pod_act \<times> goerror option) outcome" where
  "cp_run ext a index pod p =
     (if Sync p then obind (startFunc ext a index pod p) (\<lambda>(p', es, err). Val (p', RanSync index es err, err))
      else Val (p, SpawnedRun index, None))"

subsection \<open>PodProcess.run\<close>

text \<open>
  The loop over the chain, which may go on for ever: a failed run is tried again after ten seconds. What one
  round meets in its environment is a \<open>round\<close> (whether the context is done, what reading the pod's record
  gives, what the run calls); the list of rounds is how far the loop is followed, and \<open>StillRunning\<close> is a loop
  that has not ended by then.
\<close>

record round =
  r_done :: bool
  r_get :: "Pod option \<times> goerror option"
  r_now :: int
  r_ext :: run_ext

datatype pod_end = Returned | StillRunning

definition marked_deleted :: "Pod \<Rightarrow> bool" where
  "marked_deleted pod = (DeletionTimestamp (Meta pod) \<noteq> None \<and> DeletionTimestamp (Meta pod) \<noteq> Some 0)"

definition pod_start :: "nat \<Rightarrow> nat \<Rightarrow> int \<Rightarrow> pod_act list" where
  "pod_start a index now =
     (if index = 0 then [PodSent (PodProcessStart \<lparr>ev_p = a, ev_cp = None, ev_err = None, ev_msg = []\<rparr> now)] else [])"

fun podRun :: "nat \<Rightarrow> round list \<Rightarrow> PodProcess \<Rightarrow> nat \<Rightarrow> (pod_end \<times> PodProcess \<times> pod_act list) outcome" where
  "podRun a [] p index = Val (StillRunning, p, [])"
| "podRun a (r # rs) p index =
     (if r_done r \<or> length (ProcessChain p) \<le> index then Val (Returned, p, [])
      else case r_get r of
        (pod, Some err) \<Rightarrow> Val (Returned, p, [])
      | (pod, None) \<Rightarrow>
          obind (deref pod) (\<lambda>pd.
            if marked_deleted pd then Val (Returned, p, [])
            else
              obind (cp_run (r_ext r) a index (pp_Pod p) (ProcessChain p ! index)) (\<lambda>(cp, act, err).
                let p1 = p\<lparr>ProcessChain := (ProcessChain p)[index := cp]\<rparr> in
                obind (if err \<noteq> None then podRun a rs p1 index
                       else podRun a rs (p1\<lparr>pp_Index := Suc (pp_Index p1)\<rparr>) (Suc index))
                  (\<lambda>(how, p', acts). Val (how, p', pod_start a index (r_now r) @ act # acts)))))"

definition PodProcess_run :: "nat \<Rightarrow> round list \<Rightarrow> PodProcess \<Rightarrow> (pod_end \<times> PodProcess \<times> pod_act list) outcome" where
  "PodProcess_run a rs p = podRun a rs p (pp_Index p)"

subsection \<open>What a run does\<close>

text \<open>A rule for sequences: \<open>run_ends m P\<close> says that \<open>P\<close> holds of the process, the effects and the error with which \<open>m\<close> ends.\<close>

definition run_ends :: "run_result \<Rightarrow> (ContainerProcess \<Rightarrow> run_effect list \<Rightarrow> goerror option \<Rightarrow> bool) \<Rightarrow> bool" where
  "run_ends m P = (\<forall>p es err. m = Val (p, es, err) \<longrightarrow> P p es err)"

lemma run_ends_Val [simp]: "run_ends (Val (p, es, err)) P \<longleftrightarrow> P p es err"
  by (simp add: run_ends_def)

lemma run_endsD: "run_ends m P \<Longrightarrow> m = Val (p, es, err) \<Longrightarrow> P p es err"
  by (simp add: run_ends_def)

lemma run_ends_then:
  assumes "run_ends m Q" and "\<And>p es e. Q p es (Some e) \<Longrightarrow> P p es (Some e)"
    and "\<And>p es. Q p es None \<Longrightarrow> run_ends (f p) (\<lambda>p' es' err. P p' (es @ es') err)"
  shows "run_ends (run_then m f) P"
  using assms by (fastforce simp: run_ends_def run_then_def split: option.splits)

lemma run_ends_mono: "run_ends m Q \<Longrightarrow> (\<And>p es err. Q p es err \<Longrightarrow> P p es err) \<Longrightarrow> run_ends m P"
  by (simp add: run_ends_def)

lemma run_ends_obind: "(\<And>a. m = Val a \<Longrightarrow> run_ends (f a) P) \<Longrightarrow> run_ends (obind m f) P"
  by (cases m) (auto simp: run_ends_def)

fun is_start :: "run_effect \<Rightarrow> bool" where
  "is_start (Call_Start env dir cmd) = True"
| "is_start _ = False"

fun is_finish :: "run_effect \<Rightarrow> bool" where
  "is_finish (Bus (ContainerProcessFinish b pid i s)) = True"
| "is_finish _ = False"

fun is_write :: "run_effect \<Rightarrow> bool" where
  "is_write (Call_WriteFile file bytes) = True"
| "is_write _ = False"

fun is_event :: "run_effect \<Rightarrow> bool" where
  "is_event (Bus e) = True"
| "is_event _ = False"

definition preparing :: "run_effect list \<Rightarrow> bool" where
  "preparing es = (\<forall>e \<in> set es. \<not> is_start e \<and> \<not> is_finish e)"

lemma preparing_simps [simp]:
  "preparing []" "preparing (e # es) \<longleftrightarrow> \<not> is_start e \<and> \<not> is_finish e \<and> preparing es"
  "preparing (es @ es') \<longleftrightarrow> preparing es \<and> preparing es'"
  by (auto simp: preparing_def)

lemma pull_ends:
  "run_ends (pull ext a i n p) (\<lambda>q es err. preparing es \<and> (err = None \<longrightarrow> q = p\<lparr>ImagePulled := True\<rparr>) \<and>
     (\<forall>e \<in> set es. is_event e \<or> e = Call_PullImage n \<and> needPullImage p))"
  by (auto simp: pull_def Let_def split: option.split)

lemma unzip_ends:
  "run_ends (unzip ext a i p) (\<lambda>q es err. preparing es \<and> (err = None \<longrightarrow> q = p\<lparr>ImageUnzipped := True\<rparr>) \<and>
     (\<forall>e \<in> set es. is_event e \<or> (\<exists>img wd. e = Call_UnzipImage img wd) \<and> \<not> ImageUnzipped p))"
  by (auto simp: unzip_def Let_def split: option.split)

lemma writeItems_writes: "writeItems ext ms wd v opt data miss its = (ws, err) \<Longrightarrow> e \<in> set ws \<Longrightarrow> is_write e"
  by (induction ext ms wd v opt data miss its arbitrary: ws rule: writeItems.induct)
    (auto simp: Let_def split: option.splits bool.splits prod.splits)

lemma download_volume_writes: "download_volume ext ms wd k ns v src got = Val (ws, err) \<Longrightarrow> \<forall>e \<in> set ws. is_write e"
  by (auto simp: download_volume_def split: sum.splits if_splits dest: writeItems_writes)

lemma configMapVolumes_writes: "downloadConfigMapVolumes ext ms wd ns vs = Val (ws, err) \<Longrightarrow> \<forall>e \<in> set ws. is_write e"
proof (induction vs arbitrary: ws err)
  case (Cons v vs)
  show ?case using Cons.prems Cons.IH
    by (fastforce split: option.splits dest!: download_volume_writes)
qed simp

lemma secretVolumes_writes: "downloadSecretVolumes ext ms wd ns vs = Val (ws, err) \<Longrightarrow> \<forall>e \<in> set ws. is_write e"
proof (induction vs arbitrary: ws err)
  case (Cons v vs)
  show ?case using Cons.prems Cons.IH
    by (fastforce split: option.splits dest!: download_volume_writes)
qed simp

lemma download_kind_ends:
  assumes "\<And>ws err. got = Val (ws, err) \<Longrightarrow> \<forall>e \<in> set ws. is_write e"
  shows "run_ends (download_kind a i k p mark got) (\<lambda>q es err. (err = None \<longrightarrow> q = mark p) \<and> (\<forall>e \<in> set es. is_event e \<and> \<not> is_finish e \<or> is_write e))"
  unfolding download_kind_def
  by (rule run_ends_obind) (auto split: option.split dest: assms)

lemma preparing_download: "\<forall>e \<in> set es. is_event e \<and> \<not> is_finish e \<or> is_write e \<Longrightarrow> preparing es"
  unfolding preparing_def by (metis is_event.simps(5) is_finish.simps is_start.elims(2) is_write.elims(2) is_write.simps(5) is_start.simps)

lemma flag_kept [simp]:
  "ConfigMapDownload p \<Longrightarrow> p\<lparr>ConfigMapDownload := True\<rparr> = p" "SecretDownload p \<Longrightarrow> p\<lparr>SecretDownload := True\<rparr> = p"
  by (cases p, simp)+

lemma downloadResource_ends:
  "run_ends (downloadResource ext a i pod wd p)
     (\<lambda>q es err. (err = None \<longrightarrow> q = p\<lparr>ConfigMapDownload := True, SecretDownload := True\<rparr>) \<and>
        (\<forall>e \<in> set es. is_event e \<and> \<not> is_finish e \<or> is_write e) \<and> (ConfigMapDownload p \<and> SecretDownload p \<longrightarrow> es = []))"
  unfolding downloadResource_def
proof (rule run_ends_then)
  show "run_ends (if \<not> ConfigMapDownload p
        then download_kind a i ''configmap'' p (\<lambda>q. q\<lparr>ConfigMapDownload := True\<rparr>) (downloadConfigMaps ext p pod wd)
        else Val (p, [], None))
      (\<lambda>q es err. (err = None \<longrightarrow> q = p\<lparr>ConfigMapDownload := True\<rparr>) \<and> (\<forall>e \<in> set es. is_event e \<and> \<not> is_finish e \<or> is_write e) \<and>
        (ConfigMapDownload p \<longrightarrow> es = [] \<and> err = None))"
    by (auto simp: downloadConfigMaps_def intro!: run_ends_mono [OF download_kind_ends] dest: configMapVolumes_writes)
next
  fix q es
  assume *: "(None = None \<longrightarrow> q = p\<lparr>ConfigMapDownload := True\<rparr>) \<and> (\<forall>e \<in> set es. is_event e \<and> \<not> is_finish e \<or> is_write e) \<and>
        (ConfigMapDownload p \<longrightarrow> es = [] \<and> None = None)"
  have "run_ends (if \<not> SecretDownload q
          then download_kind a i ''secret'' q (\<lambda>q. q\<lparr>SecretDownload := True\<rparr>) (downloadSecrets ext q pod wd)
          else Val (q, [], None))
      (\<lambda>q' es err. (err = None \<longrightarrow> q' = q\<lparr>SecretDownload := True\<rparr>) \<and> (\<forall>e \<in> set es. is_event e \<and> \<not> is_finish e \<or> is_write e) \<and>
        (SecretDownload q \<longrightarrow> es = [] \<and> err = None))"
    by (auto simp: downloadSecrets_def intro!: run_ends_mono [OF download_kind_ends] dest: secretVolumes_writes)
  then show "run_ends (if \<not> SecretDownload q
          then download_kind a i ''secret'' q (\<lambda>q. q\<lparr>SecretDownload := True\<rparr>) (downloadSecrets ext q pod wd)
          else Val (q, [], None))
      (\<lambda>q' es' err. (err = None \<longrightarrow> q' = p\<lparr>ConfigMapDownload := True, SecretDownload := True\<rparr>) \<and>
        (\<forall>e \<in> set (es @ es'). is_event e \<and> \<not> is_finish e \<or> is_write e) \<and> (ConfigMapDownload p \<and> SecretDownload p \<longrightarrow> es @ es' = []))"
    by (rule run_ends_mono) (use * in auto)
qed auto

text \<open>Running the process: at most one start, whose event follows it.\<close>

lemma runProcess_ends:
  "run_ends (runProcess ext a i pod wd p)
     (\<lambda>q es err. (\<exists>pid. q = p\<lparr>Pid := pid\<rparr>) \<and>
        (es = [] \<or> (\<exists>env dir cmd b pid. es = [Call_Start env dir cmd, Bus (ContainerProcessRun b pid (int i))])))"
proof -
  have same: "\<exists>pid. p = p\<lparr>Pid := pid\<rparr>"
    by (rule exI [of _ "Pid p"]) simp
  then show ?thesis
    by (auto simp: runProcess_def start_cmd_def Let_def split: sum.split option.split bool.split intro!: run_ends_obind)
qed

lemma processWaiter_ends:
  "run_ends (processWaiter ext a i p) (\<lambda>q es err. q = p \<and> err = None \<and> (\<exists>b s. es = [Bus (ContainerProcessFinish b (Pid p) (int i) s)]))"
  by (auto simp: processWaiter_def Let_def split: sum.split)

text \<open>
  The shape of a run: preparation; then, only with the image and the resources in place, the run of the
  process; then, unless there was an error or the context is done, the event of its end.
\<close>

definition prepared :: "ContainerProcess \<Rightarrow> bool" where
  "prepared p = (ImagePulled p \<and> ImageUnzipped p \<and> ConfigMapDownload p \<and> SecretDownload p)"

definition run_shape :: "bool \<Rightarrow> nat \<Rightarrow> ContainerProcess \<Rightarrow> run_effect list \<Rightarrow> goerror option \<Rightarrow> bool" where
  "run_shape cancelled i q es err = (\<exists>prep started ended. es = prep @ started @ ended \<and> preparing prep \<and>
     (started = [] \<or> prepared q \<and> (\<exists>env dir cmd b pid. started = [Call_Start env dir cmd, Bus (ContainerProcessRun b pid (int i))])) \<and>
     (if err = None \<and> \<not> cancelled then prepared q \<and> (\<exists>b s. ended = [Bus (ContainerProcessFinish b (Pid q) (int i) s)]) else ended = []) \<and>
     (err = None \<longrightarrow> prepared q))"

lemma run_shape_finish:
  "prepared q \<Longrightarrow> es = [] \<or> (\<exists>env dir cmd b pid. es = [Call_Start env dir cmd, Bus (ContainerProcessRun b pid (int i))]) \<Longrightarrow>
    run_shape False i q (es @ [Bus (ContainerProcessFinish b (Pid q) (int i) s)]) None"
  unfolding run_shape_def
  by (rule exI [of _ "[]"], rule exI [of _ es], rule exI [of _ "[Bus (ContainerProcessFinish b (Pid q) (int i) s)]"]) auto

lemma run_shape_cancelled:
  "prepared q \<Longrightarrow> es = [] \<or> (\<exists>env dir cmd b pid. es = [Call_Start env dir cmd, Bus (ContainerProcessRun b pid (int i))]) \<Longrightarrow>
    run_shape True i q es None"
  unfolding run_shape_def
  by (rule exI [of _ "[]"], rule exI [of _ es], rule exI [of _ "[]"]) auto

lemma run_shapeE:
  assumes "run_shape c i q es err"
  obtains prep started ended where "es = prep @ started @ ended" "preparing prep"
    "started = [] \<or> prepared q \<and> (\<exists>env dir cmd b pid. started = [Call_Start env dir cmd, Bus (ContainerProcessRun b pid (int i))])"
    "if err = None \<and> \<not> c then \<exists>b s. ended = [Bus (ContainerProcessFinish b (Pid q) (int i) s)] else ended = []"
    "err = None \<Longrightarrow> prepared q"
  using assms unfolding run_shape_def by metis

lemma run_shape_error: "preparing es \<Longrightarrow> run_shape c i q es (Some e)"
  unfolding run_shape_def by (rule exI [of _ es], rule exI [of _ "[]"], rule exI [of _ "[]"]) simp

lemma run_shape_prep: "preparing es \<Longrightarrow> run_shape c i q es' err \<Longrightarrow> run_shape c i q (es @ es') err"
proof (erule run_shapeE)
  fix prep started ended
  assume "preparing es" "es' = prep @ started @ ended" "preparing prep"
    "started = [] \<or> prepared q \<and> (\<exists>env dir cmd b pid. started = [Call_Start env dir cmd, Bus (ContainerProcessRun b pid (int i))])"
    "if err = None \<and> \<not> c then \<exists>b s. ended = [Bus (ContainerProcessFinish b (Pid q) (int i) s)] else ended = []"
    "err = None \<Longrightarrow> prepared q"
  then show "run_shape c i q (es @ es') err"
    unfolding run_shape_def by (intro exI [of _ "es @ prep"] exI [of _ started] exI [of _ ended]) simp
qed

lemma run_process_ends:
  assumes "prepared p"
  shows "run_ends (if ctx_done ext then obind (runProcess ext a i pod wd p) (\<lambda>(p4, es, err). Val (p4, es, None))
       else run_then (runProcess ext a i pod wd p) (\<lambda>p4.
              obind (startHealthCheck ext p4) (\<lambda>_. processWaiter ext a i p4))) (run_shape (ctx_done ext) i)"
proof (cases "ctx_done ext")
  case True
  have "run_ends (obind (runProcess ext a i pod wd p) (\<lambda>(p4, es, err). Val (p4, es, None))) (run_shape True i)"
  proof (rule run_ends_obind, clarify)
    fix q es err
    assume "runProcess ext a i pod wd p = Val (q, es, err)"
    note * = run_endsD [OF runProcess_ends this]
    then have "prepared q" using assms by (auto simp: prepared_def)
    with * show "run_ends (Val (q, es, None)) (run_shape True i)" by (simp add: run_shape_cancelled)
  qed
  with True show ?thesis by simp
next
  case False
  have "run_ends (run_then (runProcess ext a i pod wd p) (\<lambda>p4.
              obind (startHealthCheck ext p4) (\<lambda>_. processWaiter ext a i p4))) (run_shape False i)"
  proof (rule run_ends_then [OF runProcess_ends], goal_cases)
    case (1 q es e)
    then show ?case
      using assms unfolding run_shape_def by (intro exI [of _ "[]"] exI [of _ es]) (auto simp: prepared_def)
  next
    case (2 q es)
    then have "prepared q" using assms by (auto simp: prepared_def)
    then show ?case
      using 2 by (auto intro!: run_ends_obind run_ends_mono [OF processWaiter_ends] intro: run_shape_finish run_shape_finish [of _ "[]", simplified])
  qed
  with False show ?thesis by simp
qed

lemma run_steps_ends: "run_ends (run_steps ext a i pod p) (run_shape (ctx_done ext) i)"
  unfolding run_steps_def
proof (rule run_ends_then [OF pull_ends], goal_cases)
  case (1 q es e)
  then show ?case by (simp add: run_shape_error)
next
  case pulled: (2 q es)
  show ?case
  proof (rule run_ends_then [OF unzip_ends], goal_cases)
    case (1 r fs e)
    with pulled show ?case by (simp add: run_shape_error)
  next
    case unzipped: (2 r fs)
    show ?case
      unfolding Let_def
    proof (rule run_ends_then [OF downloadResource_ends], goal_cases)
      case (1 t gs e)
      with pulled unzipped show ?case by (simp add: run_shape_error preparing_download)
    next
      case (2 t gs)
      then have "prepared t" using pulled unzipped by (simp add: prepared_def)
      moreover have "preparing (es @ fs @ gs)" using 2 pulled unzipped by (simp add: preparing_download)
      ultimately show ?case
        using run_ends_mono [OF run_process_ends, of t ext i "\<lambda>p' es'. run_shape (ctx_done ext) i p' ((es @ fs @ gs) @ es')"]
        by (simp add: run_shape_prep del: if_split)
    qed
  qed
qed


text \<open>
  A run that is not cancelled and does not panic sends exactly one event of the container's end, as its last effect:
  the container daemon and the pod's status see every run end once. If the run fails, that event carries its
  error, the pid \<open>-1\<close> and no process state.
\<close>

theorem run_sends_one_finish:
  assumes "startFunc ext a i pod p = Val (p', es, err)" and "\<not> ctx_done ext"
  shows "\<exists>pre b pid s. es = pre @ [Bus (ContainerProcessFinish b pid (int i) s)] \<and> list_all (\<lambda>e. \<not> is_finish e) pre \<and>
    (if err = None then pid = Pid p' else pid = -1 \<and> s = None \<and> ev_err b = err)"
proof -
  obtain es0 err0 where steps: "run_steps ext a i pod p = Val (p', es0, err0)"
    and es: "err0 = err" "es = es0 @ (if err = None then [] else
      [Bus (ContainerProcessFinish (cp_event a i err (''run container process error,index:'' @ Itoa (int i))) (-1) (int i) None)])"
    using assms(1) by (auto simp: startFunc_def split: option.splits)
  obtain prep started ended where *: "es0 = prep @ started @ ended" "preparing prep"
      "started = [] \<or> prepared p' \<and> (\<exists>env dir cmd b pid. started = [Call_Start env dir cmd, Bus (ContainerProcessRun b pid (int i))])"
      "if err0 = None \<and> \<not> ctx_done ext then \<exists>b s. ended = [Bus (ContainerProcessFinish b (Pid p') (int i) s)] else ended = []"
    by (rule run_shapeE [OF run_endsD [OF run_steps_ends steps]])
  have pre: "list_all (\<lambda>e. \<not> is_finish e) (prep @ started)"
    using *(2,3) by (auto simp: preparing_def list_all_iff)
  show ?thesis
  proof (cases "err = None")
    case True
    then obtain b s where es: "es = (prep @ started) @ [Bus (ContainerProcessFinish b (Pid p') (int i) s)]" using es *(1,4) assms(2) by auto
    show ?thesis
      unfolding es by (intro exI conjI, rule refl, rule pre) (simp add: True)
  next
    case False
    then have es: "es = (prep @ started) @ [Bus (ContainerProcessFinish (cp_event a i err (''run container process error,index:'' @ Itoa (int i)))
        (-1) (int i) None)]"
      using es *(1,4) by simp
    show ?thesis
      unfolding es by (intro exI conjI, rule refl, rule pre) (simp add: False cp_event_def)
  qed
qed

text \<open>A run keeps the container and the kind of a process.\<close>

definition same_container :: "ContainerProcess \<Rightarrow> ContainerProcess \<Rightarrow> bool" where
  "same_container p q = (Sync q = Sync p \<and> cp_Container q = cp_Container p)"

lemma same_container_refl [simp]: "same_container p p"
  by (simp add: same_container_def)

lemma same_container_trans: "same_container p q \<Longrightarrow> same_container q r \<Longrightarrow> same_container p r"
  by (simp add: same_container_def)

lemma run_ends_then_kept:
  assumes "run_ends m (\<lambda>q es err. same_container p q)" and "\<And>q. run_ends (f q) (\<lambda>r es err. same_container q r)"
  shows "run_ends (run_then m f) (\<lambda>q es err. same_container p q)"
  using assms(1)
proof (rule run_ends_then)
  fix q
  assume "same_container p q"
  then show "run_ends (f q) (\<lambda>r es' err. same_container p r)"
    by (intro run_ends_mono [OF assms(2)]) (rule same_container_trans)
qed

lemma run_steps_same: "run_ends (run_steps ext a i pod p) (\<lambda>q es err. same_container p q)"
proof -
  have "run_ends (pull ext a i n p) (\<lambda>q es err. same_container p q)" for n p
    by (auto simp: pull_def Let_def same_container_def split: option.split)
  moreover have "run_ends (unzip ext a i p) (\<lambda>q es err. same_container p q)" for p
    by (auto simp: unzip_def Let_def same_container_def split: option.split)
  moreover have "run_ends (download_kind a i k p (\<lambda>q. q\<lparr>ConfigMapDownload := True\<rparr>) got) (\<lambda>q es err. same_container p q)"
    "run_ends (download_kind a i k p (\<lambda>q. q\<lparr>SecretDownload := True\<rparr>) got) (\<lambda>q es err. same_container p q)" for p k got
    by (auto simp: download_kind_def same_container_def split: option.split intro!: run_ends_obind)
  moreover have "run_ends (runProcess ext a i pod wd p) (\<lambda>q es err. same_container p q)" for wd p
    by (rule run_ends_mono [OF runProcess_ends]) (auto simp: same_container_def)
  moreover have "run_ends (processWaiter ext a i p) (\<lambda>q es err. same_container p q)" for p
    by (rule run_ends_mono [OF processWaiter_ends]) simp
  moreover have "run_ends (obind (runProcess ext a i pod wd p) (\<lambda>(p4, es, err). Val (p4, es, None))) (\<lambda>q es err. same_container p q)" for wd p
    using calculation(5) [of wd p] by (auto intro!: run_ends_obind dest: run_endsD)
  ultimately show ?thesis
    unfolding run_steps_def downloadResource_def Let_def
    by (auto intro!: run_ends_then_kept run_ends_obind)
qed

lemma startFunc_steps:
  assumes "startFunc ext a i pod p = Val (p', es, err)"
  obtains es0 where "run_steps ext a i pod p = Val (p', es0, err)" "es = es0 @ (if err = None then [] else
      [Bus (ContainerProcessFinish (cp_event a i err (''run container process error,index:'' @ Itoa (int i))) (-1) (int i) None)])"
  using assms by (auto simp: startFunc_def split: option.splits)

lemma startFunc_same: "startFunc ext a i pod p = Val (p', es, err) \<Longrightarrow> same_container p p'"
  by (erule startFunc_steps) (rule run_endsD [OF run_steps_same])

lemma startFunc_ok_prepared: "startFunc ext a i pod p = Val (p', es, None) \<Longrightarrow> prepared p'"
  by (erule startFunc_steps) (auto dest: run_endsD [OF run_steps_ends] elim: run_shapeE)

text \<open>The effects of running a prepared container.\<close>

definition rerun_effect :: "ContainerProcess \<Rightarrow> run_effect \<Rightarrow> bool" where
  "rerun_effect p e = (is_event e \<or> is_start e \<or> (\<exists>n. e = Call_PullImage n) \<and> needPullImage p)"

lemma run_steps_prepared:
  assumes "prepared p"
  shows "run_ends (run_steps ext a i pod p) (\<lambda>q es err. list_all (rerun_effect p) es)"
proof -
  have process: "run_ends (if ctx_done ext then obind (runProcess ext a i pod wd t) (\<lambda>(p4, es, err). Val (p4, es, None))
       else run_then (runProcess ext a i pod wd t) (\<lambda>p4. obind (startHealthCheck ext p4) (\<lambda>_. processWaiter ext a i p4)))
     (\<lambda>q es err. list_all (rerun_effect p) es)" for wd t
  proof -
    have r: "run_ends (runProcess ext a i pod wd t) (\<lambda>q es err. list_all (rerun_effect p) es)"
      by (rule run_ends_mono [OF runProcess_ends]) (auto simp: rerun_effect_def)
    have w: "run_ends (processWaiter ext a i t) (\<lambda>q es err. list_all (rerun_effect p) es)" for t
      by (rule run_ends_mono [OF processWaiter_ends]) (auto simp: rerun_effect_def)
    show ?thesis
      using r by (auto intro!: run_ends_obind run_ends_then [OF r] run_ends_mono [OF w] dest: run_endsD)
  qed
  show ?thesis
    unfolding run_steps_def
  proof (rule run_ends_then [OF pull_ends], goal_cases)
    case (1 q es e)
    then show ?case by (auto simp: rerun_effect_def list_all_iff)
  next
    case pulled: (2 q es)
    have es: "list_all (rerun_effect p) es" using pulled by (auto simp: rerun_effect_def list_all_iff)
    have q: "prepared q" using pulled assms by (simp add: prepared_def)
    show ?case
    proof (rule run_ends_then [OF unzip_ends], goal_cases)
      case (1 r fs e)
      with es q show ?case by (auto simp: rerun_effect_def list_all_iff prepared_def)
    next
      case unzipped: (2 r fs)
      have fs: "list_all (rerun_effect p) fs" using unzipped q by (auto simp: rerun_effect_def list_all_iff prepared_def)
      have r: "prepared r" using unzipped q by (simp add: prepared_def)
      show ?case
        unfolding Let_def
      proof (rule run_ends_then [OF downloadResource_ends], goal_cases)
        case (1 t gs e)
        with es fs r show ?case by (simp add: prepared_def)
      next
        case (2 t gs)
        then show ?case
          using es fs r by (intro run_ends_mono [OF process]) (simp add: prepared_def)
      qed
    qed
  qed
qed

text \<open>
  Running a container again after a run that succeeded reuses its preparation: no image is unzipped, no configmap
  or secret is written (so a changed one is not seen), and the image is pulled only if the pull policy is \<open>Always\<close> or
  its tag is \<open>latest\<close>.
\<close>

theorem restart_reuses_preparation:
  assumes "startFunc ext a i pod p = Val (p', es, None)" and "startFunc ext' a i pod' p' = Val (p'', es', err)"
  shows "list_all (\<lambda>e. is_event e \<or> is_start e \<or> (\<exists>n. e = Call_PullImage n) \<and>
      (ImagePullPolicy (cp_Container p) = ''Always'' \<or> ImageLatest (Image (cp_Container p)))) es'"
proof -
  have prep: "prepared p'" and same: "same_container p p'"
    using startFunc_ok_prepared [OF assms(1)] startFunc_same [OF assms(1)] .
  obtain es0 where steps: "run_steps ext' a i pod' p' = Val (p'', es0, err)" and "list_all is_event (drop (length es0) es')"
      and "es' = es0 @ drop (length es0) es'"
    using assms(2) by (rule startFunc_steps) (auto split: if_splits)
  moreover have "list_all (rerun_effect p') es0" by (rule run_endsD [OF run_steps_prepared [OF prep] steps])
  ultimately have "list_all (rerun_effect p') es'"
    by (metis list_all_append list_all_iff rerun_effect_def)
  then show ?thesis
    using prep same by (auto simp: rerun_effect_def needPullImage_def prepared_def same_container_def list_all_iff)
qed

subsection \<open>The chain\<close>

fun runs_container :: "nat \<Rightarrow> pod_act \<Rightarrow> bool" where
  "runs_container k (RanSync j es err) = (j = k)"
| "runs_container k (SpawnedRun j) = (j = k)"
| "runs_container k (PodSent e) = False"

fun run_index :: "pod_act \<Rightarrow> nat list" where
  "run_index (RanSync j es err) = [j]"
| "run_index (SpawnedRun j) = [j]"
| "run_index (PodSent e) = []"

text \<open>What one round of the loop does when it goes on.\<close>

lemma podRun_cases:
  assumes "podRun a (r # rs) p k = Val (how, p', acts)"
  obtains (stop) "acts = []" "p' = p" "how = Returned"
  | (round) cp act err acts' where "k < length (ProcessChain p)"
      "cp_run (r_ext r) a k (pp_Pod p) (ProcessChain p ! k) = Val (cp, act, err)"
      "acts = pod_start a k (r_now r) @ act # acts'"
      "podRun a rs (if err \<noteq> None then p\<lparr>ProcessChain := (ProcessChain p)[k := cp]\<rparr>
          else p\<lparr>ProcessChain := (ProcessChain p)[k := cp], pp_Index := Suc (pp_Index p)\<rparr>)
        (if err \<noteq> None then k else Suc k) = Val (how, p', acts')"
  using assms
  by (auto simp: Let_def not_le split: if_splits prod.splits option.splits)

lemma cp_run_act:
  assumes "cp_run ext a k pod cp = Val (cp', act, err)"
  shows "same_container cp cp' \<and> runs_container j act = (j = k) \<and> run_index act = [k] \<and>
    (err = None \<and> Sync cp \<longrightarrow> (\<exists>es. act = RanSync k es None))"
  using assms by (auto simp: cp_run_def split: if_splits dest: startFunc_same)

lemma runs_containers_in_order:
  assumes "podRun a rs p k0 = Val (how, p', acts)" "acts = pre @ act # post" "runs_container k act"
  shows "k0 \<le> k \<and> k < length (ProcessChain p) \<and>
    (\<forall>j. k0 \<le> j \<and> j < k \<and> Sync (ProcessChain p ! j) \<longrightarrow> (\<exists>es. RanSync j es None \<in> set pre))"
  using assms
proof (induction rs arbitrary: p k0 acts pre)
  case (Cons r rs)
  from Cons.prems(1) show ?case
  proof (cases rule: podRun_cases)
    case stop
    with Cons.prems show ?thesis by simp
  next
    case (round cp x err acts')
    let ?start = "pod_start a k0 (r_now r)"
    note x = cp_run_act [OF round(2)]
    let ?p = "if err \<noteq> None then p\<lparr>ProcessChain := (ProcessChain p)[k0 := cp]\<rparr>
          else p\<lparr>ProcessChain := (ProcessChain p)[k0 := cp], pp_Index := Suc (pp_Index p)\<rparr>"
    have chain: "length (ProcessChain ?p) = length (ProcessChain p)" "Sync (ProcessChain ?p ! j) = Sync (ProcessChain p ! j)" for j
      using x round(1) by (auto simp: nth_list_update same_container_def)
    from Cons.prems(2,3) round(3) consider "k = k0" "pre = ?start" | pre' where "pre = ?start @ x # pre'" "acts' = pre' @ act # post"
      using x by (cases "k0 = 0") (auto simp: pod_start_def Cons_eq_append_conv)
    then show ?thesis
    proof cases
      case 1
      then show ?thesis using round(1) by auto
    next
      case 2
      note IH = Cons.IH [OF round(4) 2(2) Cons.prems(3)]
      show ?thesis
      proof (intro conjI allI impI)
        show "k0 \<le> k" "k < length (ProcessChain p)" using IH chain(1) by (auto split: if_splits)
        fix j
        assume j: "k0 \<le> j \<and> j < k \<and> Sync (ProcessChain p ! j)"
        show "\<exists>es. RanSync j es None \<in> set pre"
        proof (cases "j = k0 \<and> err = None")
          case True
          then show ?thesis using x j 2(1) by fastforce
        next
          case False
          then have "(if err \<noteq> None then k0 else Suc k0) \<le> j" using j by auto
          then show ?thesis using IH j chain(2) 2(1) by auto
        qed
      qed
    qed
  qed
qed simp

lemma convertContainers_sync:
  "convertContainers os wd pod sync cs = Inr ps \<Longrightarrow> length ps = length cs \<and> (\<forall>cp \<in> set ps. Sync cp = sync)"
  by (induction cs arbitrary: ps) (auto simp: NewProcess_def split: sum.splits)


text \<open>
  When no container fails, the context is not cancelled and the record stays readable and is not marked for deletion,
  the loop returns after one round more than there are containers, having run each of them exactly once in the
  order of the chain.
\<close>

theorem chain_runs_to_its_end:
  assumes "\<And>r. r \<in> set rs \<Longrightarrow> \<not> r_done r \<and> (\<exists>pd. r_get r = (Some pd, None) \<and> \<not> marked_deleted pd)"
    and "\<And>r i. r \<in> set rs \<Longrightarrow> i < length (ProcessChain p) \<Longrightarrow> Sync (ProcessChain p ! i) \<Longrightarrow>
      \<exists>cp es. startFunc (r_ext r) a i (pp_Pod p) (ProcessChain p ! i) = Val (cp, es, None)"
    and "length (ProcessChain p) - k < length rs"
  shows "\<exists>p' acts. podRun a rs p k = Val (Returned, p', acts) \<and> concat (map run_index acts) = [k..<length (ProcessChain p)]"
proof -
  have "\<exists>p' acts. podRun a rs q k = Val (Returned, p', acts) \<and> concat (map run_index acts) = [k..<length (ProcessChain p)]"
    if "pp_Pod q = pp_Pod p" "length (ProcessChain q) = length (ProcessChain p)" "\<forall>i \<ge> k. ProcessChain q ! i = ProcessChain p ! i" for q
    using assms that
  proof (induction rs arbitrary: k q)
    case (Cons r rs)
    show ?case
    proof (cases "length (ProcessChain p) \<le> k")
      case True
      then show ?thesis using Cons.prems(5) by simp
    next
      case False
      obtain pd where r: "\<not> r_done r" "r_get r = (Some pd, None)" "\<not> marked_deleted pd"
        using Cons.prems(1) [of r] by auto
      obtain cp act where run: "cp_run (r_ext r) a k (pp_Pod q) (ProcessChain q ! k) = Val (cp, act, None)"
        using Cons.prems(2) [of r k] Cons.prems(4,6) False by (cases "Sync (ProcessChain p ! k)") (auto simp: cp_run_def)
      let ?q = "q\<lparr>ProcessChain := (ProcessChain q)[k := cp], pp_Index := Suc (pp_Index q)\<rparr>"
      have "\<exists>p' acts. podRun a rs ?q (Suc k) = Val (Returned, p', acts) \<and>
          concat (map run_index acts) = [Suc k..<length (ProcessChain p)]"
        by (rule Cons.IH) (use Cons.prems False in auto)
      then obtain p' acts where *: "podRun a rs ?q (Suc k) = Val (Returned, p', acts)"
          "concat (map run_index acts) = [Suc k..<length (ProcessChain p)]"
        by blast
      show ?thesis
        using r run * False Cons.prems(5) cp_run_act [OF run]
        by (simp add: Let_def pod_start_def upt_conv_Cons del: obind_Val_iff)
    qed
  qed simp
  then show ?thesis by simp
qed

subsection \<open>Examples\<close>

text \<open>An environment in which every call succeeds, and a pod with an init container and a container.\<close>

definition calm_ext :: run_ext where
  "calm_ext = \<lparr>im_PullImage = (\<lambda>n. None), im_UnzipImage = (\<lambda>i w. None), ioutil_WriteFile = (\<lambda>f b. None),
     PidExists = (\<lambda>pid. Inr True), os_OpenFile = (\<lambda>f. None), cmd_Start = (\<lambda>env dir cmd. Inr 42), proc_Wait = (\<lambda>pid. Inr 0),
     state_String = (\<lambda>c. ''exit status''), os_Environ = [''HOME=/''], filepath_Join = (\<lambda>a b. a @ ''/'' @ b),
     fieldpath_Extract = (\<lambda>p f. Inr []), ers_IsNotFound = (\<lambda>e. False),
     ext_rm = \<lparr>podListerList = Inr [], podListerGet = (\<lambda>ns n. Inl (ErrorString [])), secretListerGet = (\<lambda>ns n. Inl (ErrorString [])),
       configMapListerGet = (\<lambda>ns n. Inr \<lparr>DataNamespace = ns, DataName = n, Data = [(''k'', ''v'')], StringData = []\<rparr>), serviceListerList = Inr []\<rparr>,
     ext_nodeIp = ''10.0.0.1'', ctx_done = False\<rparr>"

definition sample_ctr :: "string \<Rightarrow> Container" where
  "sample_ctr n = emptyContainer\<lparr>ContainerName := n, Image := ''busybox:1'', Command := [''echo''], Args := [''hi'']\<rparr>"

definition chain_pod :: Pod where
  "chain_pod = (named_pod ''ns'' ''job'')\<lparr>Spec := emptySpec\<lparr>InitContainers := [sample_ctr ''init''], Containers := [sample_ctr ''main''],
     Volumes := [\<lparr>VolumeName = ''cfg'', VolumeConfigMap = Some \<lparr>SourceName = ''c'', Items = [], SourceOptional = None\<rparr>, VolumeSecret = None\<rparr>]\<rparr>\<rparr>"

definition chain_proc :: PodProcess where
  "chain_proc = \<lparr>pp_Workdir = ''/w/ns/job'', pp_PodName = ''job'', pp_Namespace = ''ns'',
     ProcessChain = [NewProcess chain_pod (sample_ctr ''init'') ''/w/ns/job/init'' True,
       NewProcess chain_pod (sample_ctr ''main'') ''/w/ns/job/main'' False], pp_Pod = chain_pod, pp_Index = 0\<rparr>"

definition calm_round :: round where
  "calm_round = \<lparr>r_done = False, r_get = (Some chain_pod, None), r_now = 5, r_ext = calm_ext\<rparr>"

definition plain_os :: native_os where
  "plain_os = \<lparr>Filenamify = Inr, path_Join = (\<lambda>xs. join_args xs), os_Signal = (\<lambda>pid. None), os_KillGroup = (\<lambda>pid. None), api_nf = (\<lambda>e. False)\<rparr>"

fun process_of :: "run_result \<Rightarrow> ContainerProcess" where
  "process_of (Val (p, es, err)) = p"
| "process_of (Panic e) = undefined"

fun effects_of :: "run_result \<Rightarrow> run_effect list" where
  "effects_of (Val (p, es, err)) = es"
| "effects_of (Panic e) = []"

definition init_run :: run_result where
  "init_run = startFunc calm_ext 0 0 chain_pod (ProcessChain chain_proc ! 0)"

lemma init_run_ok: "startFunc calm_ext 0 0 chain_pod (ProcessChain chain_proc ! 0) = Val (process_of init_run, effects_of init_run, None)"
  by code_simp


theorem run_sends_one_finish_witness:
  "\<not> ctx_done calm_ext \<and> (\<exists>pre b s. effects_of init_run = pre @ [Bus (ContainerProcessFinish b 42 0 s)])"
proof -
  have live: "\<not> ctx_done calm_ext" by code_simp
  have pid: "Pid (process_of init_run) = 42" by code_simp
  from run_sends_one_finish [OF init_run_ok live] live pid show ?thesis by auto
qed

definition second_run :: run_result where
  "second_run = startFunc calm_ext 0 0 chain_pod (process_of init_run)"

theorem restart_reuses_preparation_witness:
  "startFunc calm_ext 0 0 chain_pod (process_of init_run) = Val (process_of second_run, effects_of second_run, None) \<and>
   list_all (\<lambda>e. is_event e \<or> is_start e) (effects_of second_run)"
proof -
  have again: "startFunc calm_ext 0 0 chain_pod (process_of init_run) = Val (process_of second_run, effects_of second_run, None)" by code_simp
  have "\<not> (ImagePullPolicy (cp_Container (ProcessChain chain_proc ! 0)) = ''Always'' \<or> ImageLatest (Image (cp_Container (ProcessChain chain_proc ! 0))))"
    by code_simp
  with restart_reuses_preparation [OF init_run_ok again] again show ?thesis by simp
qed

fun acts_of :: "(pod_end \<times> PodProcess \<times> pod_act list) outcome \<Rightarrow> pod_act list" where
  "acts_of (Val (how, p, acts)) = acts"
| "acts_of (Panic e) = []"

fun pod_of_run :: "(pod_end \<times> PodProcess \<times> pod_act list) outcome \<Rightarrow> PodProcess" where
  "pod_of_run (Val (how, p, acts)) = p"
| "pod_of_run (Panic e) = undefined"

definition chain_run :: "(pod_end \<times> PodProcess \<times> pod_act list) outcome" where
  "chain_run = PodProcess_run 0 [calm_round, calm_round, calm_round] chain_proc"


theorem chain_runs_to_its_end_witness:
  "\<exists>p' acts. podRun 0 [calm_round, calm_round, calm_round] chain_proc 0 = Val (Returned, p', acts) \<and> concat (map run_index acts) = [0, 1]"
proof -
  have len: "length (ProcessChain chain_proc) = 2" by code_simp
  have pod: "pp_Pod chain_proc = chain_pod" "r_ext calm_round = calm_ext" "\<not> r_done calm_round" "r_get calm_round = (Some chain_pod, None)"
      "\<not> marked_deleted chain_pod"
    by (simp_all add: chain_proc_def calm_round_def) code_simp
  have sync: "\<not> Sync (ProcessChain chain_proc ! 1)" by code_simp
  have "\<exists>p' acts. podRun 0 [calm_round, calm_round, calm_round] chain_proc 0 = Val (Returned, p', acts) \<and>
      concat (map run_index acts) = [0..<length (ProcessChain chain_proc)]"
  proof (rule chain_runs_to_its_end)
    fix r i
    assume "r \<in> set [calm_round, calm_round, calm_round]" "i < length (ProcessChain chain_proc)" "Sync (ProcessChain chain_proc ! i)"
    then have "r = calm_round" "i = 0" using len sync less_2_cases by auto
    then show "\<exists>cp es. startFunc (r_ext r) 0 i (pp_Pod chain_proc) (ProcessChain chain_proc ! i) = Val (cp, es, None)"
      using init_run_ok pod by auto
  qed (use pod len in auto)
  then show ?thesis by (simp add: len upt_rec)
qed

end
