(* ===== verification/Native_Pods.thy ===== *)
theory Native_Pods
  imports Native_Run Pod_Status
begin

text \<open>
  Properties of the native provider: it keeps the provider contract for every database that behaves as
  documented, so the pod controller converges with it as with the mock provider; and how the
  events of a running process interfere with updates and deletions of its record.
\<close>

subsection \<open>A concrete database\<close>

type_synonym alist_db = "(string \<times> dbvalue) list"

definition alist_kv :: "alist_db bitcask" where
  "alist_kv = \<lparr>db_Put = (\<lambda>k v d. (AList.update k v d, None)),
     db_Get = (\<lambda>d k. case map_of d k of Some v \<Rightarrow> Inr v | None \<Rightarrow> Inl (ErrorString ''error: key not found'')),
     db_Delete = (\<lambda>k d. (AList.delete k d, None)),
     db_Has = (\<lambda>d k. map_of d k \<noteq> None),
     db_Scan = (\<lambda>d prefix. filter (\<lambda>k. take (length prefix) k = prefix) (map fst d)),
     ErrKeyNotFound = ErrorString ''error: key not found''\<rparr>"

definition posix :: native_os where
  "posix = \<lparr>Filenamify = Inr, path_Join = (\<lambda>ps. concat (map (\<lambda>p. CHR ''/'' # p) ps)), os_Signal = (\<lambda>pid. None),
     os_KillGroup = (\<lambda>pid. Some (ErrorString ''os: process already finished'')), api_nf = (\<lambda>e. case e of StatusError r m \<Rightarrow> True | _ \<Rightarrow> False)\<rparr>"

lemma alist_db_Get: "db_Get alist_kv d k = Inr v \<longleftrightarrow> map_of d k = Some v"
  by (simp add: alist_kv_def split: option.split)

interpretation alist_store: kv_store alist_kv posix
proof
  fix d prefix
  show "set (db_Scan alist_kv d prefix) = {k. take (length prefix) k = prefix \<and> (\<exists>v. db_Get alist_kv d k = Inr v)}"
    by (auto simp: alist_db_Get) (auto simp: alist_kv_def map_of_eq_None_iff dest: map_of_SomeD weak_map_of_SomeI intro: rev_image_eqI)
qed (auto simp: alist_kv_def posix_def AList.update_conv' AList.delete_conv' json_error_def split: option.splits)

subsection \<open>Keys\<close>

lemma getPodKey_injective:
  "CHR '':'' \<notin> set ns \<Longrightarrow> CHR '':'' \<notin> set ns' \<Longrightarrow> getPodKey ns n = getPodKey ns' n' \<Longrightarrow> ns = ns' \<and> n = n'"
proof (induction ns arbitrary: ns')
  case Nil
  then show ?case by (cases ns') (auto simp: getPodKey_def)
next
  case (Cons c ns)
  then show ?case by (cases ns') (auto simp: getPodKey_def)
qed

lemma image_key_no_pod_key: "take 6 (dockerImageName img) \<noteq> PodPrefix"
  by (simp add: dockerImageName_def DockerImageIDPrefix_def PodPrefix_def)

subsection \<open>Convergence with the native provider\<close>

context kv_store
begin

lemma native_sync_removes:
  assumes "handler env = native_handler kv os" and "native_ok kv (provider st)"
    and "SplitMetaNamespaceKey env k = Inr (namespace, name)"
    and "podsLister_Get env namespace name = Inl lerr" and "api_IsNotFound (envlib env) lerr"
    and "syncPodFromKubernetesHandler env k st = Val (st', err)"
  shows "native_ok kv (provider st') \<and> (err = None \<longrightarrow> native_view kv (provider st') (getPodKey namespace name) = None) \<and>
    (\<forall>k'. k' \<noteq> getPodKey namespace name \<longrightarrow> native_view kv (provider st') k' = native_view kv (provider st) k')"
  using pods.sync_removes_missing [OF assms] by (simp add: pods.frame_def)

lemma native_sync_creates:
  assumes "handler env = native_handler kv os" and "native_ok kv (provider st)"
    and "DeletionTimestamp (Meta pod) = None" and "\<not> shouldSkipPodStatusUpdate pod"
    and "knownPods st k = Some a" and "lastPodUsed (heap st ! a) = None"
    and "syncPodInProvider env pod k st = Val (st', err)"
  shows "native_ok kv (provider st') \<and> (err = None \<longrightarrow> native_view kv (provider st') (getPodKey (Namespace (Meta pod)) (Name (Meta pod))) \<noteq> None) \<and>
    (\<forall>k'. k' \<noteq> getPodKey (Namespace (Meta pod)) (Name (Meta pod)) \<longrightarrow> native_view kv (provider st') k' = native_view kv (provider st) k')"
  using pods.sync_creates_live [OF assms] by (simp add: pods.frame_def)

lemma put_then_get:
  assumes "Put kv p d = (d', None)"
  shows "pm_getPod kv (pp_Namespace p) (pp_PodName p) d' = (Some (pp_Pod p), None)"
  using get_put_same [OF assms [unfolded Put_def]] by (simp add: pm_getPod_def Key_def)

end

text \<open>
  C17: With the native provider, over any database that behaves as documented, a sync handler that returns nil for a pod
  Kubernetes does not have leaves no record of it, and the records of all other pods as they were.
\<close>

theorem native_sync_deletes_missing_pod:
  assumes "kv_store kv os" and "handler env = native_handler kv os" and "native_ok kv (provider st)"
    and "SplitMetaNamespaceKey env k = Inr (namespace, name)"
    and "podsLister_Get env namespace name = Inl lerr" and "api_IsNotFound (envlib env) lerr"
    and "syncPodFromKubernetesHandler env k st = Val (st', err)"
  shows "native_ok kv (provider st') \<and> (err = None \<longrightarrow> native_view kv (provider st') (getPodKey namespace name) = None) \<and>
    (\<forall>k'. k' \<noteq> getPodKey namespace name \<longrightarrow> native_view kv (provider st') k' = native_view kv (provider st) k')"
  by (rule kv_store.native_sync_removes [OF assms])

text \<open>
  With the native provider, over any database that behaves as documented, a sync handler that returns nil for a
  live pod not synced before leaves a record of it, and the records of all other pods as they were.
\<close>

theorem native_sync_creates_live_pod:
  assumes "kv_store kv os" and "handler env = native_handler kv os" and "native_ok kv (provider st)"
    and "DeletionTimestamp (Meta pod) = None" and "\<not> shouldSkipPodStatusUpdate pod"
    and "knownPods st k = Some a" and "lastPodUsed (heap st ! a) = None"
    and "syncPodInProvider env pod k st = Val (st', err)"
  shows "native_ok kv (provider st') \<and> (err = None \<longrightarrow> native_view kv (provider st') (getPodKey (Namespace (Meta pod)) (Name (Meta pod))) \<noteq> None) \<and>
    (\<forall>k'. k' \<noteq> getPodKey (Namespace (Meta pod)) (Name (Meta pod)) \<longrightarrow> native_view kv (provider st') k' = native_view kv (provider st) k')"
  by (rule kv_store.native_sync_creates [OF assms])

text \<open>The examples: a pod is created through the controller in an empty database and then removed.\<close>

definition native_env :: "Pod list \<Rightarrow> (alist_db ProcessManager, fifo, Pod list) pc_env" where
  "native_env ps = \<lparr>handler = native_handler alist_kv posix, wq = fifo_workqueue, envlib = sample_lib,
     resourceManager = sample_rm\<lparr>podListerList := Inr ps, podListerGet := demo_lister ps\<rparr>,
     MetaNamespaceKeyFunc = (\<lambda>p. Inr (Namespace (Meta p) @ ''/'' @ Name (Meta p))),
     DeletionHandlingMetaNamespaceKeyFunc = (\<lambda>p. Inr (Namespace (Meta p) @ ''/'' @ Name (Meta p))),
     SplitMetaNamespaceKey = (\<lambda>k. Inr (takeWhile (\<lambda>c. c \<noteq> CHR ''/'') k, tl (dropWhile (\<lambda>c. c \<noteq> CHR ''/'') k))),
     client_UpdateStatus = (\<lambda>p log. (log @ [p], None)), client_Delete = (\<lambda>ns n g log. (log, None)),
     errWaitTimeout = ErrorString ''timed out waiting for the condition'', clock = 100\<rparr>"

definition native_start :: "(alist_db ProcessManager, fifo, Pod list) pc_state" where
  "native_start = AddFunc (native_env [web]) web \<lparr>provider = \<lparr>workdir = ''/var'', processDb = [], spawned = []\<rparr>,
     knownPods = Map.empty, heap = [], syncPodsFromKubernetes = fifo_empty, deletePodsFromKubernetes = fifo_empty,
     syncPodStatusFromProvider = fifo_empty, client = [], envst = \<lparr>recorded = [], nodeIp = []\<rparr>\<rparr>"

definition native_created :: "(alist_db ProcessManager, fifo, Pod list) pc_state" where
  "native_created = state_of (syncPodInProvider (native_env [web]) web ''ns/web'' native_start)"

lemma native_created_run: "syncPodInProvider (native_env [web]) web ''ns/web'' native_start = Val (native_created, None)"
  unfolding native_created_def by (rule returns_nil_run) code_simp

lemma native_env_handler: "handler (native_env ps) = native_handler alist_kv posix"
  by (simp add: native_env_def)

lemma native_start_ok: "native_ok alist_kv (provider native_start)"
proof -
  have "processDb (provider native_start) = []" by code_simp
  then show ?thesis by (simp add: native_ok_def alist_db_Get)
qed

theorem native_sync_creates_live_pod_witness:
  "native_view alist_kv (provider native_created) (getPodKey ''ns'' ''web'') \<noteq> None"
proof -
  have p: "DeletionTimestamp (Meta web) = None" "\<not> shouldSkipPodStatusUpdate web"
    by (simp_all add: web_def zero_values shouldSkipPodStatusUpdate_def)
  have k: "knownPods native_start ''ns/web'' = Some 0" "lastPodUsed (heap native_start ! 0) = None" by code_simp+
  show ?thesis
    using native_sync_creates_live_pod [OF alist_store.kv_store_axioms native_env_handler native_start_ok p k native_created_run]
    by (simp add: web_def zero_values)
qed

lemma native_created_ok: "native_ok alist_kv (provider native_created)"
proof -
  have p: "DeletionTimestamp (Meta web) = None" "\<not> shouldSkipPodStatusUpdate web"
    by (simp_all add: web_def zero_values shouldSkipPodStatusUpdate_def)
  have k: "knownPods native_start ''ns/web'' = Some 0" "lastPodUsed (heap native_start ! 0) = None" by code_simp+
  show ?thesis
    using alist_store.native_sync_creates [OF native_env_handler native_start_ok p k native_created_run] by simp
qed

theorem native_sync_deletes_missing_pod_witness:
  "\<exists>st'. syncPodFromKubernetesHandler (native_env []) ''ns/web'' native_created = Val (st', None) \<and>
    native_view alist_kv (provider native_created) (getPodKey ''ns'' ''web'') \<noteq> None \<and>
    native_view alist_kv (provider st') (getPodKey ''ns'' ''web'') = None"
proof -
  have "returns_nil (syncPodFromKubernetesHandler (native_env []) ''ns/web'' native_created)" by code_simp
  then obtain st' where run: "syncPodFromKubernetesHandler (native_env []) ''ns/web'' native_created = Val (st', None)"
    using returns_nil_run by blast
  have s: "SplitMetaNamespaceKey (native_env []) ''ns/web'' = Inr (''ns'', ''web'')" by (simp add: native_env_def)
  have l: "podsLister_Get (native_env []) ''ns'' ''web'' = Inl (StatusError ''NotFound'' ''not found'')"
    by (simp add: native_env_def podsLister_Get_def demo_lister_def)
  have n: "api_IsNotFound (envlib (native_env [])) (StatusError ''NotFound'' ''not found'')"
    by (simp add: native_env_def sample_lib_def)
  have "native_view alist_kv (provider native_created) (getPodKey ''ns'' ''web'') \<noteq> None" by code_simp
  then show ?thesis
    using native_sync_deletes_missing_pod [OF alist_store.kv_store_axioms native_env_handler native_created_ok s l n run] run by auto
qed

subsection \<open>Well-formed records\<close>

text \<open>
  Every operation of the provider keeps the database well formed, whether it succeeds or fails: each entry under the pod
  prefix is a process record, stored under its own key, which is the key of the pod it holds.
\<close>

theorem native_records_stay_well_formed:
  assumes "kv_store kv os" and "native_ok kv m"
    and "native_CreatePod kv os now pod m = Val (m', ns, err) \<or> native_UpdatePod kv now pod m = Val (m', ns, err) \<or>
      native_DeletePod kv os now pod m = Val (m', ns, err)"
  shows "native_ok kv m'"
  using assms(3)
proof (elim disjE)
  assume "native_CreatePod kv os now pod m = Val (m', ns, err)"
  from kv_store.native_create [OF assms(1,2) this] show ?thesis by blast
next
  assume "native_UpdatePod kv now pod m = Val (m', ns, err)"
  from kv_store.native_update [OF assms(1,2) this] show ?thesis by blast
next
  assume "native_DeletePod kv os now pod m = Val (m', ns, err)"
  from kv_store.native_delete [OF assms(1,2) this] show ?thesis by blast
qed

theorem native_records_stay_well_formed_witness:
  "\<exists>m'. native_CreatePod alist_kv posix 0 web (provider native_created) = Val (m', [], None) \<and> native_ok alist_kv m'"
proof -
  have "(case native_CreatePod alist_kv posix 0 web (provider native_created) of Val (m, [], None) \<Rightarrow> True | _ \<Rightarrow> False)" by code_simp
  then obtain m' where run: "native_CreatePod alist_kv posix 0 web (provider native_created) = Val (m', [], None)"
    by (auto split: outcome.splits option.splits list.splits)
  from native_records_stay_well_formed [OF alist_store.kv_store_axioms native_created_ok] run show ?thesis by blast
qed

subsection \<open>Reading statuses\<close>

text \<open>
  \<open>GetPodStatus\<close> of the native provider panics exactly for a pod that has no record (where \<open>GetPod\<close> returns
  two nils), instead of reporting it as not found.
\<close>

theorem native_GetPodStatus_panics_iff:
  assumes "native_ok kv m"
  shows "\<not> no_panic (native_GetPodStatus kv ns n m) \<longleftrightarrow> db_Get kv (processDb m) (getPodKey ns n) = Inl (ErrKeyNotFound kv)"
proof (cases "db_Get kv (processDb m) (getPodKey ns n)")
  case (Inl e)
  then show ?thesis by (simp add: native_GetPodStatus_def native_GetPod_def pm_getPod_def del: obind_Val_iff)
next
  case (Inr v)
  then have "entry_ok (getPodKey ns n) v" using assms by (simp add: native_ok_def)
  then show ?thesis
    using Inr by (auto simp: native_GetPodStatus_def native_GetPod_def pm_getPod_def entry_ok_def simp del: obind_Val_iff)
qed

theorem native_GetPodStatus_panics_witness:
  "\<not> no_panic (native_GetPodStatus alist_kv ''ns'' ''api'' (provider native_created))"
proof -
  have "db_Get alist_kv (processDb (provider native_created)) (getPodKey ''ns'' ''api'') = Inl (ErrKeyNotFound alist_kv)"
    by code_simp
  then show ?thesis using native_GetPodStatus_panics_iff [OF native_created_ok, of "''ns''" "''api''"] by blast
qed

subsection \<open>Deletion against the loop that runs the pod\<close>

context kv_store
begin

lemma deleted_key_not_found:
  assumes ok: "native_ok kv m" and run: "native_DeletePod kv os now pod m = Val (m', ns, None)"
  shows "db_Get kv (processDb m') (getPodKey (Namespace (Meta pod)) (Name (Meta pod))) = Inl (ErrKeyNotFound kv)"
proof -
  let ?k = "getPodKey (Namespace (Meta pod)) (Name (Meta pod))"
  obtain e where pm: "pm_DeletePod kv os pod m = Val (m', e)" "hide_api_nf os e = None"
    using run by (auto simp: native_DeletePod_hides)
  show ?thesis
  proof (cases "db_Get kv (processDb m) ?k")
    case (Inl e')
    then show ?thesis
      using pm db_errors [of "processDb m" ?k e'] by (auto simp: pm_DeletePod_def hide_api_nf_def simp del: IsNotFound.simps split: if_splits)
  next
    case (Inr v)
    then have "entry_ok ?k v" using ok by (simp add: native_ok_def)
    then obtain p where p: "v = PodEntry p" "Key p = ?k" by (auto simp: entry_ok_def)
    obtain se where s: "pp_stop os p = Val se" using pm(1) Inr p by (auto simp: pm_DeletePod_def)
    have "se = None"
      using pm Inr p s stopEach_error [of "TerminationGracePeriodSeconds (Spec (pp_Pod p))" "getRuningContainerProcess p"]
      by (cases se) (auto simp: pm_DeletePod_def pp_stop_def hide_api_nf_def simp del: IsNotFound.simps split: if_splits)
    then obtain d' de where d: "db_Delete kv ?k (processDb m) = (d', de)" "m' = m\<lparr>processDb := d'\<rparr>" "e = de"
      using pm(1) Inr p s by (auto simp: pm_DeletePod_def Delete_def split: prod.splits)
    then have "de = None" using pm(2) db_errors [of "processDb m" ?k] by (cases de) (auto simp: hide_api_nf_def simp del: IsNotFound.simps split: if_splits)
    then show ?thesis using get_delete_same [OF d(1)] d(2) by simp
  qed
qed

end

text \<open>
  Deleting a pod whose containers are still being started ends the kubelet: the next round of the loop that runs the
  pod finds no record, \<open>getPod\<close> returns two nils for it, and the loop dereferences the nil pod.
\<close>

theorem deleted_pod_panics_its_loop:
  assumes "kv_store kv os" and "native_ok kv m" and "native_DeletePod kv os now (pp_Pod p) m = Val (m', ns, None)"
    and "r_get r = pm_getPod kv (Namespace (Meta (pp_Pod p))) (Name (Meta (pp_Pod p))) (processDb m')"
    and "\<not> r_done r" and "k < length (ProcessChain p)"
  shows "podRun a (r # rs) p k = Panic nil_deref"
  using assms(4-6) kv_store.deleted_key_not_found [OF assms(1-3)] by (simp add: pm_getPod_def del: obind_Val_iff)

definition job :: Pod where
  "job = chain_pod\<lparr>Spec := (Spec chain_pod)\<lparr>TerminationGracePeriodSeconds := Some 30\<rparr>\<rparr>"

fun manager_of :: "'d pm_result \<Rightarrow> 'd ProcessManager" where
  "manager_of (Val (m, _, _)) = m"
| "manager_of (Panic e) = undefined"

definition no_jobs :: "alist_db ProcessManager" where
  "no_jobs = \<lparr>workdir = ''/w'', processDb = [], spawned = []\<rparr>"

definition job_created :: "alist_db ProcessManager" where
  "job_created = manager_of (native_CreatePod alist_kv posix 0 job no_jobs)"

definition job_deleted :: "alist_db ProcessManager" where
  "job_deleted = manager_of (native_DeletePod alist_kv posix 0 job job_created)"

theorem deleted_pod_panics_its_loop_witness:
  "podRun 0 [calm_round\<lparr>r_get := pm_getPod alist_kv ''ns'' ''job'' (processDb job_deleted)\<rparr>] (hd (spawned job_created)) 1 = Panic nil_deref"
proof -
  have p: "pp_Pod (hd (spawned job_created)) = job" by code_simp
  have names: "Namespace (Meta job) = ''ns''" "Name (Meta job) = ''job''" by code_simp+
  have "native_ok alist_kv no_jobs" by (simp add: native_ok_def no_jobs_def alist_db_Get)
  moreover have "native_CreatePod alist_kv posix 0 job no_jobs = Val (job_created, [], None)" by code_simp
  ultimately have ok: "native_ok alist_kv job_created" using alist_store.native_create by blast
  have del: "native_DeletePod alist_kv posix 0 (pp_Pod (hd (spawned job_created))) job_created = Val (job_deleted, [], None)" by code_simp
  have len: "1 < length (ProcessChain (hd (spawned job_created)))" by code_simp
  show ?thesis
    by (rule deleted_pod_panics_its_loop [OF alist_store.kv_store_axioms ok del])
      (simp_all add: p names len [simplified], simp add: calm_round_def)
qed

subsection \<open>Events against updates and deletions\<close>

context kv_store
begin

lemma recorder_writes_memory:
  assumes "procs st ! getPodProcess event = p" and "snd (Put kv p (db st)) = None"
  shows "pm_getPod kv (pp_Namespace p) (pp_PodName p) (db (recorder_step kv event st)) = (Some (pp_Pod p), None)"
proof -
  obtain d' where "Put kv p (db st) = (d', None)" using assms(2) by (metis prod.collapse)
  moreover from this have "db (recorder_step kv event st) = d'"
    using assms(1) by (simp add: recorder_step_def recordEvent_def Let_def)
  ultimately show ?thesis using put_then_get by simp
qed

end

text \<open>
  The recorder undoes what happened to a record since its process was started: after an update has been stored, or
  after the pod has been deleted, the next event of the process (for instance the end of the
  container that the deletion killed) writes the record in memory back, so that the provider has the
  old pod again.
\<close>

theorem event_reverts_update_and_delete:
  assumes "kv_store kv os" and "procs st ! getPodProcess event = p"
    and "pm_UpdatePod kv new \<lparr>workdir = wd, processDb = db st, spawned = sp\<rparr> = (m1, None)"
    and "pm_DeletePod kv os (pp_Pod p) \<lparr>workdir = wd, processDb = db st, spawned = sp\<rparr> = Val (m2, None)"
    and "snd (Put kv p (processDb m1)) = None" and "snd (Put kv p (processDb m2)) = None"
  shows "pm_getPod kv (pp_Namespace p) (pp_PodName p) (db (recorder_step kv event (st\<lparr>db := processDb m1\<rparr>))) = (Some (pp_Pod p), None) \<and>
    pm_getPod kv (pp_Namespace p) (pp_PodName p) (db (recorder_step kv event (st\<lparr>db := processDb m2\<rparr>))) = (Some (pp_Pod p), None)"
  using kv_store.recorder_writes_memory [OF assms(1), of "st\<lparr>db := processDb m1\<rparr>" event p]
    kv_store.recorder_writes_memory [OF assms(1), of "st\<lparr>db := processDb m2\<rparr>" event p] assms(2,5,6)
  by simp

definition web_process :: PodProcess where
  "web_process = \<lparr>pp_Workdir = ''/var/ns/web'', pp_PodName = ''web'', pp_Namespace = ''ns'', ProcessChain = [], pp_Pod = web, pp_Index = 0\<rparr>"

definition running_web :: "alist_db native_state" where
  "running_web = \<lparr>db = [(getPodKey ''ns'' ''web'', PodEntry web_process)], procs = [web_process], events_recorded = [], pods_notified = [], restarts = []\<rparr>"

definition web_event :: ProcessEvent where
  "web_event = PlainEvent \<lparr>ev_p = 0, ev_cp = None, ev_err = None, ev_msg = ''image pull finish''\<rparr>"

theorem event_reverts_update_and_delete_witness:
  "\<exists>m1 m2. pm_UpdatePod alist_kv web2 \<lparr>workdir = [], processDb = db running_web, spawned = []\<rparr> = (m1, None) \<and>
    pm_getPod alist_kv ''ns'' ''web'' (processDb m1) = (Some web2, None) \<and>
    pm_getPod alist_kv ''ns'' ''web'' (db (recorder_step alist_kv web_event (running_web\<lparr>db := processDb m1\<rparr>))) = (Some web, None) \<and>
    pm_DeletePod alist_kv posix web \<lparr>workdir = [], processDb = db running_web, spawned = []\<rparr> = Val (m2, None) \<and>
    pm_getPod alist_kv ''ns'' ''web'' (processDb m2) = (None, None) \<and>
    pm_getPod alist_kv ''ns'' ''web'' (db (recorder_step alist_kv web_event (running_web\<lparr>db := processDb m2\<rparr>))) = (Some web, None)"
proof -
  let ?m1 = "\<lparr>workdir = [], processDb = [(getPodKey ''ns'' ''web'', PodEntry (web_process\<lparr>pp_Pod := web2\<rparr>))], spawned = []\<rparr>"
  let ?m2 = "\<lparr>workdir = [], processDb = [], spawned = []\<rparr> :: alist_db ProcessManager"
  have u: "pm_UpdatePod alist_kv web2 \<lparr>workdir = [], processDb = db running_web, spawned = []\<rparr> = (?m1, None)" by code_simp
  have d: "pm_DeletePod alist_kv posix (pp_Pod web_process) \<lparr>workdir = [], processDb = db running_web, spawned = []\<rparr> = Val (?m2, None)" by code_simp
  have g: "pm_getPod alist_kv ''ns'' ''web'' (processDb ?m1) = (Some web2, None)" "pm_getPod alist_kv ''ns'' ''web'' (processDb ?m2) = (None, None)"
    by code_simp+
  have p: "procs running_web ! getPodProcess web_event = web_process" "snd (Put alist_kv web_process (processDb ?m1)) = None"
      "snd (Put alist_kv web_process (processDb ?m2)) = None"
    by code_simp+
  have w: "pp_Namespace web_process = ''ns''" "pp_PodName web_process = ''web''" "pp_Pod web_process = web"
    by (simp_all add: web_process_def)
  show ?thesis
    using event_reverts_update_and_delete [OF alist_store.kv_store_axioms p(1) u d p(2,3)] u d g unfolding w by blast
qed

lemma dispatch_three:
  assumes "dispatch kv cfg [Recorder, ContainerDaemon, PodHandler] event st = Val st'" and "getPodProcess event < length (procs st)"
  shows "\<exists>pod'. handlePodEvent (HostIp cfg) (ev_now cfg) event (pp_Pod (procs st ! getPodProcess event)) = Val pod' \<and>
    pods_notified st' = pods_notified st @ [pod'] \<and> pp_Pod (procs st' ! getPodProcess event) = pod' \<and>
    db st' = db (recorder_step kv event st)"
proof -
  let ?st1 = "recorder_step kv event st"
  let ?st2 = "daemon_step kv cfg event ?st1"
  have f: "procs ?st1 = procs st" "pods_notified ?st1 = pods_notified st"
    by (simp_all add: recorder_step_def recordEvent_def Let_def)
  have g: "procs ?st2 = procs st" "pods_notified ?st2 = pods_notified st" "db ?st2 = db ?st1"
    using f by (auto simp: daemon_step_def Let_def split: ProcessEvent.split)
  show ?thesis
    using assms by (auto simp: handler_step_def Let_def g)
qed

text \<open>
  When the recorder subscribed before the handler of pod events, the stored record lags one event behind: it holds
  the pod as it was before the event, while the pod after the event is what is notified.
\<close>

theorem stored_record_lags_behind:
  assumes "kv_store kv os" and "dispatch kv cfg [Recorder, ContainerDaemon, PodHandler] event st = Val st'"
    and "getPodProcess event < length (procs st)" and "procs st ! getPodProcess event = p" and "snd (Put kv p (db st)) = None"
  shows "pm_getPod kv (pp_Namespace p) (pp_PodName p) (db st') = (Some (pp_Pod p), None) \<and>
    (\<exists>pod'. handlePodEvent (HostIp cfg) (ev_now cfg) event (pp_Pod p) = Val pod' \<and> pods_notified st' = pods_notified st @ [pod'])"
  using dispatch_three [OF assms(2,3)] kv_store.recorder_writes_memory [OF assms(1,4,5)] assms(4) by auto

theorem stored_record_lags_behind_witness:
  "\<exists>st'. dispatch alist_kv \<lparr>HostIp = ''10.0.0.1'', nrm = sample_rm, ev_now = 7\<rparr> [Recorder, ContainerDaemon, PodHandler]
      (PodProcessStart \<lparr>ev_p = 0, ev_cp = None, ev_err = None, ev_msg = []\<rparr> 7) running_web = Val st' \<and>
    pm_getPod alist_kv ''ns'' ''web'' (db st') = (Some web, None) \<and>
    pods_notified st' = [OnPodStart ''10.0.0.1'' 7 web]"
proof -
  let ?e = "PodProcessStart \<lparr>ev_p = 0, ev_cp = None, ev_err = None, ev_msg = []\<rparr> 7"
  let ?cfg = "\<lparr>HostIp = ''10.0.0.1'', nrm = sample_rm, ev_now = 7\<rparr>"
  obtain st' where run: "dispatch alist_kv ?cfg [Recorder, ContainerDaemon, PodHandler] ?e running_web = Val st'"
    by (auto simp: handler_step_def Let_def simp del: obind_Val_iff)
  have p: "getPodProcess ?e < length (procs running_web)" "procs running_web ! getPodProcess ?e = web_process"
      "snd (Put alist_kv web_process (db running_web)) = None"
    by code_simp+
  have n: "pods_notified running_web = []" by code_simp
  have w: "pp_Namespace web_process = ''ns''" "pp_PodName web_process = ''web''" "pp_Pod web_process = web"
    by (simp_all add: web_process_def)
  show ?thesis
    using stored_record_lags_behind [OF alist_store.kv_store_axioms run p] run n unfolding w by auto
qed

end
