(* ===== verification/Pod_Startup.thy ===== *)
theory Pod_Startup
  imports Pod_Shutdown Native_Pods
begin

text \<open>
  Convergence of the provider to Kubernetes as a whole: the informer has reported the pods of the node, and the workers handle their keys in any order and any number of times, also after failures. It is
  proved for every provider with the contract \<open>pod_provider\<close>, and stated for the native provider. The entries of the known pods are followed through every handler run: an entry records a pod as used only when the provider has
  what that pod asks for.
\<close>

text \<open>The workers handle the keys in this order; the map holds the last result of each key.\<close>

fun syncAll :: "('p, 'q, 'k) pc_env \<Rightarrow> string list \<Rightarrow> ('p, 'q, 'k) pc_state \<Rightarrow> (string \<rightharpoonup> goerror option) \<Rightarrow>
    (('p, 'q, 'k) pc_state \<times> (string \<rightharpoonup> goerror option)) outcome" where
  "syncAll env [] st rs = Val (st, rs)"
| "syncAll env (k # ks) st rs = obind (syncPodFromKubernetesHandler env k st) (\<lambda>(st', err). syncAll env ks st' (rs(k \<mapsto> err)))"

definition addAll :: "('p, 'q, 'k) pc_env \<Rightarrow> Pod list \<Rightarrow> ('p, 'q, 'k) pc_state \<Rightarrow> ('p, 'q, 'k) pc_state" where
  "addAll env ps st = fold (AddFunc env) ps st"

text \<open>What a pod asks of the provider: a live pod is there, a running one that is marked for deletion is not.\<close>

definition live :: "Pod \<Rightarrow> bool" where
  "live pod = (DeletionTimestamp (Meta pod) = None \<and> \<not> shouldSkipPodStatusUpdate pod)"

definition marked :: "Pod \<Rightarrow> bool" where
  "marked pod = (DeletionTimestamp (Meta pod) \<noteq> None \<and> Pod_Controller.running (ContainerStatuses (Status pod)))"

text \<open>The pods of the node in the cache, and the key of each.\<close>

definition listed :: "('p, 'q, 'k) pc_env \<Rightarrow> (Pod \<Rightarrow> string) \<Rightarrow> Pod list \<Rightarrow> bool" where
  "listed env ck ps =
     (inj_on ck (set ps) \<and>
      (\<forall>pod\<in>set ps. SplitMetaNamespaceKey env (ck pod) = Inr (Namespace (Meta pod), Name (Meta pod)) \<and>
         podsLister_Get env (Namespace (Meta pod)) (Name (Meta pod)) = Inr pod \<and>
         (\<forall>p. Meta p = Meta pod \<longrightarrow> MetaNamespaceKeyFunc env p = Inr (ck pod))))"

subsection \<open>The entries of the known pods\<close>

definition same_used :: "('p, 'q, 'k) pc_state \<Rightarrow> ('p, 'q, 'k) pc_state \<Rightarrow> bool" where
  "same_used st st' = (knownPods st' = knownPods st \<and> map lastPodUsed (heap st') = map lastPodUsed (heap st))"

lemma same_used_refl [simp]: "same_used st st"
  by (simp add: same_used_def)

lemma same_used_trans [trans]: "same_used st st' \<Longrightarrow> same_used st' st'' \<Longrightarrow> same_used st st''"
  by (simp add: same_used_def)

lemma same_used_cong: "knownPods st' = knownPods st1 \<Longrightarrow> heap st' = heap st1 \<Longrightarrow> same_used st st' = same_used st st1"
  by (simp add: same_used_def)

lemma same_used_notify: "same_used st (notify env pod st)"
proof -
  have "map lastPodUsed ((heap st)[a := (heap st ! a)\<lparr>lastPodStatusReceivedFromProvider := v\<rparr>]) = map lastPodUsed (heap st)" for a v
    by (cases "a < length (heap st)") (simp_all add: map_update list_update_same_conv list_update_beyond)
  then show ?thesis
    by (simp add: same_used_def notify_def enqueuePodStatusUpdate_def write_knownPod_def split: sum.split)
qed

lemma same_used_fold_notify: "same_used st (fold (notify env) ns st)"
  by (induction ns arbitrary: st) (auto intro: same_used_trans same_used_notify)

lemma same_used_call:
  assumes "call_provider env f st = Val (st', err)"
  shows "same_used st st'"
proof -
  obtain p' ns where "st' = fold (notify env) ns (st\<lparr>provider := p'\<rparr>)" using assms by (auto simp: call_provider_Val)
  then show ?thesis using same_used_fold_notify [of "st\<lparr>provider := p'\<rparr>" env ns] by (simp add: same_used_def)
qed

lemma same_used_deletePod:
  assumes "deletePod env pod st = Val (st', err)"
  shows "same_used st st'"
proof -
  obtain st1 e where c: "call_provider env (DeletePod (handler env) (clock env) pod) st = Val (st1, e)"
    using assms by (auto simp: deletePod_def)
  have "knownPods st' = knownPods st1" "heap st' = heap st1" using assms c by (cases e; auto simp: deletePod_def)+
  then show ?thesis using same_used_call [OF c] by (simp add: same_used_def)
qed

text \<open>A successful update of the provider puts a fresh entry in the place of the old one.\<close>

lemma createOrUpdatePod_entries:
  assumes run: "createOrUpdatePod env pod st = Val (st', err)" and key: "\<And>p. Meta p = Meta pod \<Longrightarrow> MetaNamespaceKeyFunc env p = Inr k"
  shows "same_used st st' \<or> err = None \<and> knownPods st' = (knownPods st)(k \<mapsto> length (heap st)) \<and> map lastPodUsed (heap st') = map lastPodUsed (heap st) @ [None]"
  using run
proof (cases rule: createOrUpdatePod_cases)
  case (update es pod1 pfp e')
  obtain st1 e where c: "call_provider env (UpdatePod (handler env) (clock env) pod1) (st\<lparr>envst := es\<rparr>) = Val (st1, e)"
    using update(1) by (auto simp: updateInProvider_def)
  have s: "same_used st st1" using same_used_call [OF c] by (simp add: same_used_def)
  have k: "MetaNamespaceKeyFunc env pod1 = Inr k" using key Populate_names [OF update(2)] by simp
  show ?thesis
  proof (cases e)
    case None
    then have "st' = store_new_knownPod k (recorder_Event pod1 EventTypeNormal ''ProviderUpdateSuccess'' ''Update pod in provider successfully'' st1)" "err = None"
      using update(1) c k by (auto simp: updateInProvider_def Let_def)
    then show ?thesis using s map_eq_imp_length_eq [of lastPodUsed "heap st1" lastPodUsed "heap st"]
      by (simp add: same_used_def store_new_knownPod_def new_knownPod_def)
  next
    case (Some e1)
    then show ?thesis using update(1) c s by (auto simp: updateInProvider_def same_used_def)
  qed
next
  case (create es pod1 e')
  obtain st1 e where c: "call_provider env (CreatePod (handler env) (clock env) pod1) (st\<lparr>envst := es\<rparr>) = Val (st1, e)"
    using create(1) by (auto simp: createInProvider_def)
  have "same_used st st1" using same_used_call [OF c] by (simp add: same_used_def)
  then show ?thesis using create(1) c by (cases e) (auto simp: createInProvider_def same_used_def)
qed (simp_all add: same_used_def)

subsection \<open>The invariant of a run of handlers\<close>

context pod_provider
begin

definition settled :: "Pod \<Rightarrow> ('p, 'q, 'k) pc_state \<Rightarrow> bool" where
  "settled pod st = ((live pod \<longrightarrow> view (provider st) (pod_key pod) \<noteq> None) \<and> (marked pod \<longrightarrow> view (provider st) (pod_key pod) = None))"

definition known_entry_ok :: "(Pod \<Rightarrow> string) \<Rightarrow> ('p, 'q, 'k) pc_state \<Rightarrow> Pod \<Rightarrow> bool" where
  "known_entry_ok ck st pod = (\<exists>a<length (heap st). knownPods st (ck pod) = Some a \<and>
     (lastPodUsed (heap st ! a) = None \<or> lastPodUsed (heap st ! a) = Some pod \<and> settled pod st))"

definition conv :: "(Pod \<Rightarrow> string) \<Rightarrow> Pod list \<Rightarrow> ('p, 'q, 'k) pc_state \<Rightarrow> ('p, 'q, 'k) pc_state \<Rightarrow> (string \<rightharpoonup> goerror option) \<Rightarrow> bool" where
  "conv ck ps st0 st rs =
     (ok (provider st) \<and>
      (\<forall>k. k \<notin> pod_key ` set ps \<longrightarrow> view (provider st) k = view (provider st0) k) \<and>
      (\<forall>pod\<in>set ps. known_entry_ok ck st pod) \<and>
      inj_on (\<lambda>pod. knownPods st (ck pod)) (set ps) \<and>
      (\<forall>pod\<in>set ps. rs (ck pod) = Some None \<longrightarrow> settled pod st))"

lemma settled_frame:
  assumes "frame (pod_key pod) st st'" and "pod_key q \<noteq> pod_key pod"
  shows "settled q st' = settled q st"
  using assms by (simp add: settled_def frame_def)

text \<open>What a handler run may do to the entries: nothing, mark the entry of its pod, or mark it and put a fresh one in its place.\<close>

definition entries_step :: "(Pod \<Rightarrow> string) \<Rightarrow> Pod \<Rightarrow> nat \<Rightarrow> ('p, 'q, 'k) pc_state \<Rightarrow> ('p, 'q, 'k) pc_state \<Rightarrow> bool" where
  "entries_step ck pod a st st' =
     (let us = map lastPodUsed (heap st); us' = map lastPodUsed (heap st') in
      knownPods st' = knownPods st \<and> us' = us \<and> (us ! a = None \<or> settled pod st') \<or>
      knownPods st' = knownPods st \<and> us' = us[a := Some pod] \<and> settled pod st' \<or>
      knownPods st' = (knownPods st)(ck pod \<mapsto> length us) \<and> us' = us[a := Some pod] @ [None])"

lemma known_entry_ok_iff:
  "known_entry_ok ck st pod \<longleftrightarrow> (\<exists>a<length (map lastPodUsed (heap st)). knownPods st (ck pod) = Some a \<and>
     (map lastPodUsed (heap st) ! a = None \<or> map lastPodUsed (heap st) ! a = Some pod \<and> settled pod st))"
  by (auto simp: known_entry_ok_def)

lemma entry_other:
  assumes step: "entries_step ck pod a st st'" and a: "knownPods st (ck pod) = Some a"
    and q: "known_entry_ok ck st q" "knownPods st (ck q) \<noteq> knownPods st (ck pod)" "settled q st' = settled q st"
  shows "known_entry_ok ck st' q \<and> knownPods st' (ck q) = knownPods st (ck q)"
proof -
  define us us' where us: "us = map lastPodUsed (heap st)" "us' = map lastPodUsed (heap st')"
  obtain b where b: "b < length us" "knownPods st (ck q) = Some b" "us ! b = None \<or> us ! b = Some q \<and> settled q st"
    using q(1) unfolding known_entry_ok_iff us by blast
  have ba: "b \<noteq> a" using q(2) a b(2) by auto
  have ckq: "ck q \<noteq> ck pod" using q(2) by auto
  have "b < length us' \<and> us' ! b = us ! b \<and> knownPods st' (ck q) = Some b"
    using step unfolding entries_step_def us [symmetric] Let_def
    by (elim disjE) (use b ba ckq in \<open>auto simp: nth_append\<close>)
  then show ?thesis using b q(3) unfolding known_entry_ok_iff us by auto
qed

lemma entry_own:
  assumes step: "entries_step ck pod a st st'" and a: "knownPods st (ck pod) = Some a" "a < length (heap st)"
    and own: "lastPodUsed (heap st ! a) = None \<or> lastPodUsed (heap st ! a) = Some pod"
  shows "known_entry_ok ck st' pod \<and> (knownPods st' (ck pod) = Some a \<or> knownPods st' (ck pod) = Some (length (heap st)))"
proof -
  define us us' where us: "us = map lastPodUsed (heap st)" "us' = map lastPodUsed (heap st')"
  have al: "a < length us" "us ! a = None \<or> us ! a = Some pod" using a(2) own by (simp_all add: us)
  show ?thesis
    using step a(1) al unfolding entries_step_def known_entry_ok_iff us [symmetric] Let_def
    by (elim disjE) (auto simp: us nth_append)
qed

lemma conv_next:
  assumes conv: "conv ck ps st0 st rs" and pod: "pod \<in> set ps" and inj: "inj_on ck (set ps)" "inj_on pod_key (set ps)"
    and a: "knownPods st (ck pod) = Some a" and f: "frame (pod_key pod) st st'" and step: "entries_step ck pod a st st'"
    and nil: "err = None \<Longrightarrow> settled pod st'"
  shows "conv ck ps st0 st' (rs(ck pod \<mapsto> err))"
proof -
  have al: "a < length (heap st)" "lastPodUsed (heap st ! a) = None \<or> lastPodUsed (heap st ! a) = Some pod"
    using conv pod a by (auto simp: conv_def known_entry_ok_def)
  have own: "known_entry_ok ck st' pod" "knownPods st' (ck pod) = Some a \<or> knownPods st' (ck pod) = Some (length (heap st))"
    using entry_own [OF step a al] by auto
  have other: "known_entry_ok ck st' q" "knownPods st' (ck q) = knownPods st (ck q)" "settled q st' = settled q st" if q: "q \<in> set ps" "q \<noteq> pod" for q
  proof -
    show "settled q st' = settled q st" using settled_frame [OF f] inj(2) q pod by (meson inj_on_eq_iff)
    then show "known_entry_ok ck st' q" "knownPods st' (ck q) = knownPods st (ck q)"
      using entry_other [OF step a] conv q pod by (auto simp: conv_def dest: inj_onD)
  qed
  have addr: "\<exists>b<length (heap st). knownPods st (ck q) = Some b" if "q \<in> set ps" for q
    using conv that by (auto simp: conv_def known_entry_ok_def)
  have "inj_on (\<lambda>p. knownPods st' (ck p)) (set ps)"
  proof (rule inj_onI)
    fix p q assume pq: "p \<in> set ps" "q \<in> set ps" "knownPods st' (ck p) = knownPods st' (ck q)"
    have clash: "r = pod" if "r \<in> set ps" "knownPods st' (ck r) = knownPods st' (ck pod)" for r
    proof (rule ccontr)
      assume "r \<noteq> pod"
      then have "knownPods st (ck r) = Some a \<or> knownPods st (ck r) = Some (length (heap st))" using other(2) that own(2) by metis
      then have "knownPods st (ck r) = knownPods st (ck pod)" using addr [OF that(1)] a by auto
      then show False using conv that(1) pod \<open>r \<noteq> pod\<close> by (auto simp: conv_def dest: inj_onD)
    qed
    show "p = q"
    proof (cases "p = pod \<or> q = pod")
      case True
      then show ?thesis using clash pq by metis
    next
      case False
      then show ?thesis using other(2) pq conv by (auto simp: conv_def dest: inj_onD)
    qed
  qed
  moreover have "known_entry_ok ck st' q" if "q \<in> set ps" for q using own(1) other(1) that by (cases "q = pod") auto
  moreover have "settled q st'" if "q \<in> set ps" "(rs(ck pod \<mapsto> err)) (ck q) = Some None" for q
  proof (cases "q = pod")
    case False
    then have "ck q \<noteq> ck pod" using inj(1) that(1) pod by (meson inj_on_eq_iff)
    then show ?thesis using False other(3) that conv by (simp add: conv_def)
  qed (use that nil in simp)
  ultimately show ?thesis using conv f pod by (auto simp: conv_def frame_def)
qed

lemma conv_sync:
  assumes conv: "conv ck ps st0 st rs" and pod: "pod \<in> set ps" and listed: "listed env ck ps" and inj: "inj_on pod_key (set ps)"
    and h: "handler env = ops" and run: "syncPodInProvider env pod (ck pod) st = Val (st', err)"
  shows "conv ck ps st0 st' (rs(ck pod \<mapsto> err))"
proof -
  have ck: "inj_on ck (set ps)" and key: "\<And>p. Meta p = Meta pod \<Longrightarrow> MetaNamespaceKeyFunc env p = Inr (ck pod)"
    using listed pod by (auto simp: listed_def)
  have ok: "ok (provider st)" using conv by (simp add: conv_def)
  obtain a where a: "a < length (heap st)" "knownPods st (ck pod) = Some a"
      "lastPodUsed (heap st ! a) = None \<or> lastPodUsed (heap st ! a) = Some pod \<and> settled pod st"
    using conv pod by (auto simp: conv_def known_entry_ok_def)
  note next_conv = conv_next [OF conv pod ck inj a(2)]
  show ?thesis
  proof (cases "lastPodUsed (heap st ! a) = None")
    case used: False
    then have "podsEffectivelyEqual (the (lastPodUsed (heap st ! a))) pod" "settled pod st" using a(3) by (auto simp: podsEffectivelyEqual_def)
    moreover from this have e: "same_used st st'" "provider st' = provider st" "err = None"
      using run used a(2) by (auto simp: syncPodInProvider_def same_used_def split: if_splits option.splits)
    moreover from this have "settled pod st'" using \<open>settled pod st\<close> by (simp add: settled_def)
    ultimately show ?thesis using ok by (intro next_conv) (auto simp: frame_def entries_step_def same_used_def)
  next
    case fresh: True
    have failed: "entries_step ck pod a st st1" if "same_used st st1" for st1
      using that fresh a(1) by (simp add: entries_step_def same_used_def)
    have written: "map lastPodUsed (heap (write_knownPod a (\<lambda>k. k\<lparr>lastPodUsed := Some pod\<rparr>) st1)) = (map lastPodUsed (heap st1))[a := Some pod]" for st1
      by (simp add: write_knownPod_def map_update)
    have mark: "entries_step ck pod a st (write_knownPod a (\<lambda>k. k\<lparr>lastPodUsed := Some pod\<rparr>) st1)"
      if "same_used st st1" "settled pod st1" for st1
      using that unfolding entries_step_def written Let_def same_used_def settled_def by simp
    from run show ?thesis
    proof (cases rule: syncPodInProvider_cases)
      case force_delete
      have e: "same_used st st'" "frame (pod_key pod) st st'" "settled pod st'"
        using force_delete ok by (auto simp: same_used_def frame_def settled_def live_def marked_def)
      show ?thesis by (rule next_conv [OF e(2) failed [OF e(1)] e(3)])
    next
      case (delete_failed a')
      then obtain e st1 e1 where d: "deletePod env pod st = Val (st', e)" and c: "call_provider env (DeletePod (handler env) (clock env) pod) st = Val (st1, e1)"
        by (auto simp: deletePod_def)
      have "provider st' = provider st1" using d c by (cases e1) (auto simp: deletePod_def)
      then have "frame (pod_key pod) st st'" using call_delete [OF h ok c] by (simp add: frame_def)
      then show ?thesis using delete_failed(3) by (intro next_conv failed same_used_deletePod [OF d]) auto
    next
      case (deleted a' st1 e grace)
      obtain st2 e2 where c: "call_provider env (DeletePod (handler env) (clock env) pod) st = Val (st2, e2)"
        using deleted(5) by (auto simp: deletePod_def)
      have p: "provider st1 = provider st2" "e = e2" using deleted(5) c by (cases e2; auto simp: deletePod_def)+
      define st3 where "st3 = st1\<lparr>deletePodsFromKubernetes := EnqueueAfter (wq env) (ck pod) (int64 (time_Second * grace)) (deletePodsFromKubernetes st1)\<rparr>"
      have s3: "same_used st st3" using same_used_deletePod [OF deleted(5)] by (simp add: st3_def same_used_def)
      have f: "frame (pod_key pod) st st3" "settled pod st3"
        using call_delete [OF h ok c] p deleted(2,6) by (auto simp: frame_def settled_def live_def st3_def)
      have st': "st' = write_knownPod a (\<lambda>k. k\<lparr>lastPodUsed := Some pod\<rparr>) st3" using deleted(1,8) a(2) by (simp add: st3_def)
      show ?thesis by (rule next_conv) (use f mark [OF s3 f(2)] st' in \<open>simp_all add: frame_def settled_def\<close>)
    next
      case (terminal a')
      have t: "settled pod st" using terminal(2,3) by (simp add: settled_def live_def marked_def)
      have st': "st' = write_knownPod a (\<lambda>k. k\<lparr>lastPodUsed := Some pod\<rparr>) st" using terminal(1,5) a(2) by simp
      show ?thesis by (rule next_conv) (use ok t mark [OF _ t] st' in \<open>simp_all add: frame_def settled_def\<close>)
    next
      case (synced a' st1 e)
      have k: "frame (pod_key pod) st st1" "e = None \<longrightarrow> view (provider st1) (pod_key pod) \<noteq> None"
        using createOrUpdate_knows [OF h ok synced(4)] by auto
      then have t: "settled pod st1" if "e = None" using that synced(2) by (simp add: settled_def marked_def)
      have st': "st' = (if e = None then write_knownPod a (\<lambda>k. k\<lparr>lastPodUsed := Some pod\<rparr>) st1 else st1)" using synced(1,6) a(2) by simp
      from createOrUpdatePod_entries [OF synced(4), of "ck pod"] key have "same_used st st1 \<or> e = None \<and>
          knownPods st1 = (knownPods st)(ck pod \<mapsto> length (heap st)) \<and> map lastPodUsed (heap st1) = map lastPodUsed (heap st) @ [None]" by blast
      then have "entries_step ck pod a st st'"
      proof (elim disjE)
        assume "same_used st st1"
        then show ?thesis using failed mark t unfolding st' by simp
      next
        assume u: "e = None \<and> knownPods st1 = (knownPods st)(ck pod \<mapsto> length (heap st)) \<and> map lastPodUsed (heap st1) = map lastPodUsed (heap st) @ [None]"
        then have "(map lastPodUsed (heap st1))[a := Some pod] = (map lastPodUsed (heap st))[a := Some pod] @ [None]"
          using a(1) by (simp add: list_update_append)
        then show ?thesis using u unfolding st' entries_step_def Let_def by (simp add: written)
      qed
      then show ?thesis
        by (rule next_conv [rotated]) (use k t synced(5) st' in \<open>auto simp: frame_def settled_def\<close>)
    qed (use a fresh in auto)
  qed
qed

lemma conv_handler:
  assumes "conv ck ps st0 st rs" and "listed env ck ps" and "inj_on pod_key (set ps)" and "handler env = ops"
    and "k \<in> ck ` set ps" and "syncPodFromKubernetesHandler env k st = Val (st', err)"
  shows "conv ck ps st0 st' (rs(k \<mapsto> err))"
proof -
  obtain pod where pod: "pod \<in> set ps" "k = ck pod" using assms(5) by blast
  then have "syncPodInProvider env pod (ck pod) st = Val (st', err)"
    using assms(2,6) by (simp add: listed_def syncPodFromKubernetesHandler_def)
  then show ?thesis using conv_sync [OF assms(1) pod(1) assms(2,3,4)] pod(2) by simp
qed

lemma conv_syncAll:
  assumes "listed env ck ps" and "inj_on pod_key (set ps)" and "handler env = ops"
  shows "conv ck ps st0 st rs \<Longrightarrow> set ks \<subseteq> ck ` set ps \<Longrightarrow> syncAll env ks st rs = Val (st', rs') \<Longrightarrow> conv ck ps st0 st' rs'"
proof (induction ks arbitrary: st rs)
  case (Cons k ks)
  then obtain st1 err where "syncPodFromKubernetesHandler env k st = Val (st1, err)" "syncAll env ks st1 (rs(k \<mapsto> err)) = Val (st', rs')" by auto
  then show ?case using Cons conv_handler [OF Cons.prems(1) assms, of k st1 err] by simp
qed simp

text \<open>The entries right after the informer has reported the pods.\<close>

lemma addAll_entries:
  assumes "\<forall>pod\<in>set ps. MetaNamespaceKeyFunc env pod = Inr (ck pod)" and "inj_on ck (set ps)" and "distinct ps"
  shows "provider (addAll env ps st) = provider st \<and> length (heap (addAll env ps st)) = length (heap st) + length ps \<and>
    (\<forall>i<length ps. knownPods (addAll env ps st) (ck (ps ! i)) = Some (length (heap st) + i) \<and>
      lastPodUsed (heap (addAll env ps st) ! (length (heap st) + i)) = None)"
  using assms
proof (induction ps rule: rev_induct)
  case (snoc pod ps)
  define st1 where "st1 = addAll env ps st"
  have add: "addAll env (ps @ [pod]) st = (store_new_knownPod (ck pod) st1)\<lparr>syncPodsFromKubernetes := Enqueue (wq env) (ck pod) (syncPodsFromKubernetes st1)\<rparr>"
    using snoc.prems(1) by (simp add: addAll_def st1_def AddFunc_def)
  have IH: "provider st1 = provider st" "length (heap st1) = length (heap st) + length ps"
      "\<And>i. i < length ps \<Longrightarrow> knownPods st1 (ck (ps ! i)) = Some (length (heap st) + i) \<and> lastPodUsed (heap st1 ! (length (heap st) + i)) = None"
    using snoc by (auto simp: st1_def inj_on_def)
  have "ck (ps ! i) \<noteq> ck pod" if "i < length ps" for i
    using snoc.prems(2,3) that by (auto simp: inj_on_def dest: nth_mem)
  then show ?case
    unfolding add using IH by (auto simp: store_new_knownPod_def new_knownPod_def nth_append less_Suc_eq)
qed (simp add: addAll_def)

lemma conv_start:
  assumes "listed env ck ps" and "distinct ps" and ok: "ok (provider st0)"
  shows "conv ck ps st0 (addAll env ps st0) Map.empty"
proof -
  have ck: "inj_on ck (set ps)" "\<forall>pod\<in>set ps. MetaNamespaceKeyFunc env pod = Inr (ck pod)"
    using assms(1) by (auto simp: listed_def)
  note add = addAll_entries [OF ck(2,1) assms(2), of st0]
  have "known_entry_ok ck (addAll env ps st0) pod" if "pod \<in> set ps" for pod
    using that add unfolding known_entry_ok_def in_set_conv_nth by auto
  moreover have "inj_on (\<lambda>pod. knownPods (addAll env ps st0) (ck pod)) (set ps)"
  proof (rule inj_onI)
    fix p q assume "p \<in> set ps" "q \<in> set ps" "knownPods (addAll env ps st0) (ck p) = knownPods (addAll env ps st0) (ck q)"
    moreover from this obtain i j where "i < length ps" "p = ps ! i" "j < length ps" "q = ps ! j" by (auto simp: in_set_conv_nth)
    ultimately show "p = q" using add by auto
  qed
  ultimately show ?thesis using ok add by (simp add: conv_def)
qed

lemma startup_settles:
  assumes "listed env ck ps" and "distinct ps" and "inj_on pod_key (set ps)" and "handler env = ops" and "ok (provider st0)"
    and "set ks \<subseteq> ck ` set ps" and "syncAll env ks (addAll env ps st0) Map.empty = Val (st', rs)"
  shows "ok (provider st') \<and> (\<forall>k. k \<notin> pod_key ` set ps \<longrightarrow> view (provider st') k = view (provider st0) k) \<and>
    (\<forall>pod\<in>set ps. rs (ck pod) = Some None \<longrightarrow> settled pod st')"
  using conv_syncAll [OF assms(1,3,4) conv_start [OF assms(1,2,5)] assms(6,7)] by (simp add: conv_def)

end

subsection \<open>The native provider converges\<close>

context kv_store
begin

lemmas native_startup_settles = pods.startup_settles [unfolded pods.settled_def]

end

text \<open>
  C12: Start-up converges. The native provider runs over any database that behaves as documented; the informer has reported the pods of the node, and the workers have handled keys of these pods in any order and
  any number of times, whatever single runs returned. Then for every pod whose last handling returned nil: a live pod has a record in the provider, and a running pod that is marked for deletion has none.
  Records of pods that are not of the node are as they were.
\<close>

theorem native_startup_converges:
  assumes "kv_store kv os" and "handler env = native_handler kv os" and "native_ok kv (provider st0)"
    and "listed env ck ps" and "distinct ps" and "inj_on (\<lambda>pod. getPodKey (Namespace (Meta pod)) (Name (Meta pod))) (set ps)"
    and "set ks \<subseteq> ck ` set ps" and "syncAll env ks (addAll env ps st0) Map.empty = Val (st', rs)"
  shows "(\<forall>pod\<in>set ps. rs (ck pod) = Some None \<longrightarrow>
      (live pod \<longrightarrow> native_view kv (provider st') (getPodKey (Namespace (Meta pod)) (Name (Meta pod))) \<noteq> None) \<and>
      (marked pod \<longrightarrow> native_view kv (provider st') (getPodKey (Namespace (Meta pod)) (Name (Meta pod))) = None)) \<and>
    (\<forall>k. k \<notin> (\<lambda>pod. getPodKey (Namespace (Meta pod)) (Name (Meta pod))) ` set ps \<longrightarrow>
      native_view kv (provider st') k = native_view kv (provider st0) k)"
  using kv_store.native_startup_settles [OF assms(1) assms(4,5,6,2,3,7,8)] by blast

text \<open>The example: a live pod and one that is marked for deletion, over an empty database; the key of the live one is handled twice.\<close>

definition old_pod :: Pod where
  "old_pod = (named_pod ''ns'' ''old'')\<lparr>Meta := (Meta (named_pod ''ns'' ''old''))\<lparr>DeletionTimestamp := Some 90, DeletionGracePeriodSeconds := Some 30\<rparr>,
     Status := emptyStatus\<lparr>ContainerStatuses := [running_status 5 emptyContainer]\<rparr>\<rparr>"

definition empty_native :: "(alist_db ProcessManager, fifo, Pod list) pc_state" where
  "empty_native = \<lparr>provider = \<lparr>workdir = ''/var'', processDb = [], spawned = []\<rparr>,
     knownPods = Map.empty, heap = [], syncPodsFromKubernetes = fifo_empty, deletePodsFromKubernetes = fifo_empty,
     syncPodStatusFromProvider = fifo_empty, client = [], envst = \<lparr>recorded = [], nodeIp = []\<rparr>\<rparr>"

definition slash_name :: "Pod \<Rightarrow> string" where
  "slash_name pod = Namespace (Meta pod) @ ''/'' @ Name (Meta pod)"

definition demo_startup :: "((alist_db ProcessManager, fifo, Pod list) pc_state \<times> (string \<rightharpoonup> goerror option)) outcome" where
  "demo_startup = syncAll (native_env [web, old_pod]) [''ns/web'', ''ns/old'', ''ns/web''] (addAll (native_env [web, old_pod]) [web, old_pod] empty_native) Map.empty"

theorem native_startup_converges_witness:
  "\<exists>st' rs. demo_startup = Val (st', rs) \<and> native_view alist_kv (provider st') (getPodKey ''ns'' ''web'') \<noteq> None \<and>
    native_view alist_kv (provider st') (getPodKey ''ns'' ''old'') = None"
proof -
  have "case demo_startup of Panic e \<Rightarrow> False | Val (st', rs) \<Rightarrow> rs ''ns/web'' = Some None \<and> rs ''ns/old'' = Some None" by code_simp
  then obtain st' rs where run: "demo_startup = Val (st', rs)" "rs ''ns/web'' = Some None" "rs ''ns/old'' = Some None"
    by (auto split: outcome.splits prod.splits)
  have n: "Namespace (Meta web) = ''ns''" "Name (Meta web) = ''web''" "Namespace (Meta old_pod) = ''ns''" "Name (Meta old_pod) = ''old''" by code_simp+
  have l: "listed (native_env [web, old_pod]) slash_name [web, old_pod]"
    unfolding listed_def by (auto simp: n slash_name_def native_env_def podsLister_Get_def demo_lister_def)
  have k: "inj_on (\<lambda>pod. getPodKey (Namespace (Meta pod)) (Name (Meta pod))) (set [web, old_pod])" "distinct [web, old_pod]"
    using n by (auto simp: getPodKey_def)
  have ok: "native_ok alist_kv (provider empty_native)" by (simp add: native_ok_def empty_native_def alist_kv_def)
  have "live web" "marked old_pod" by code_simp+
  moreover have "slash_name web = ''ns/web''" "slash_name old_pod = ''ns/old''" by (simp_all add: slash_name_def n)
  ultimately show ?thesis
    using native_startup_converges [OF alist_store.kv_store_axioms native_env_handler ok l k(2,1) _ run(1) [unfolded demo_startup_def]] run n by simp blast
qed

end
