(* ===== verification/Native_Pulls.thy ===== *)
theory Native_Pulls
  imports Errdefs
begin

text \<open>
  Concurrent pulls of one image by the native provider (\<open>PullImage\<close> in \<open>image_manager.go\<close>): goroutines that call \<open>PullImage\<close> with the same name, from the label \<open>check\<close> on: the map \<open>pulling\<close> has at most one entry for
  the name, the channel of a pull is a number, and every operation on shared state is a step. A pull ends with the error
  of the copy or of storing the path; then the deferred calls delete the entry and close the channel.
\<close>

datatype pull_pc =
    AtHas
  | AtLoad
  | AtStore
  | WaitingOn nat
  | Pulling nat
  | Deleting nat "goerror option"
  | Closing nat "goerror option"
  | PullReturned "goerror option"

record pull_state =
  img_has :: bool
  pull_entry :: "nat option"
  pull_closed :: "nat list"
  pull_next :: nat
  pull_pcs :: "pull_pc list"

text \<open>One step of a goroutine; \<open>None\<close> is a goroutine that waits, \<open>e\<close> the result of the pull when it ends with this step.\<close>

fun advance :: "goerror option \<Rightarrow> pull_pc \<Rightarrow> pull_state \<Rightarrow> (pull_pc \<times> pull_state) option outcome" where
  "advance e AtHas st = Val (Some (if img_has st then PullReturned None else AtLoad, st))"
| "advance e AtLoad st = Val (Some (case pull_entry st of Some c \<Rightarrow> WaitingOn c | None \<Rightarrow> AtStore, st))"
| "advance e AtStore st =
     (let c = pull_next st; en = (case pull_entry st of None \<Rightarrow> Some c | Some c' \<Rightarrow> Some c')
      in Val (Some (Pulling c, st\<lparr>pull_entry := en, pull_next := Suc c\<rparr>)))"
| "advance e (WaitingOn c) st = (if c \<in> set (pull_closed st) then Val (Some (AtHas, st)) else Val None)"
| "advance e (Pulling c) st = Val (Some (Deleting c e, if e = None then st\<lparr>img_has := True\<rparr> else st))"
| "advance e (Deleting c r) st = Val (Some (Closing c r, st\<lparr>pull_entry := None\<rparr>))"
| "advance e (Closing c r) st =
     (if c \<in> set (pull_closed st) then Panic ''close of closed channel''
      else Val (Some (PullReturned r, st\<lparr>pull_closed := c # pull_closed st\<rparr>)))"
| "advance e (PullReturned r) st = Val None"

inductive pull_step :: "pull_state \<Rightarrow> pull_state \<Rightarrow> bool" where
  "i < length (pull_pcs st) \<Longrightarrow> advance e (pull_pcs st ! i) st = Val (Some (pc', st')) \<Longrightarrow>
     pull_step st (st'\<lparr>pull_pcs := (pull_pcs st)[i := pc']\<rparr>)"

inductive_cases pull_stepE: "pull_step st st'"

definition pull_init :: "nat \<Rightarrow> bool \<Rightarrow> pull_state" where
  "pull_init n has = \<lparr>img_has = has, pull_entry = None, pull_closed = [], pull_next = 0, pull_pcs = replicate n AtHas\<rparr>"

inductive pull_reach :: "nat \<Rightarrow> bool \<Rightarrow> pull_state \<Rightarrow> bool" for n has where
  init: "pull_reach n has (pull_init n has)"
| step: "pull_reach n has st \<Longrightarrow> pull_step st st' \<Longrightarrow> pull_reach n has st'"

fun owns :: "pull_pc \<Rightarrow> nat option" where
  "owns (Pulling c) = Some c"
| "owns (Deleting c r) = Some c"
| "owns (Closing c r) = Some c"
| "owns _ = None"

fun registered :: "pull_pc \<Rightarrow> nat option" where
  "registered (Pulling c) = Some c"
| "registered (Deleting c r) = Some c"
| "registered _ = None"

text \<open>
  The invariant: a channel has one owner, which has not closed it; the entry of the map is the channel of a pull that has
  not deleted it yet; and a goroutine waits on a channel that is closed or has an owner.
\<close>

definition owned :: "pull_state \<Rightarrow> nat \<Rightarrow> bool" where
  "owned st c = (\<exists>i < length (pull_pcs st). owns (pull_pcs st ! i) = Some c)"

definition owner_inv :: "pull_state \<Rightarrow> bool" where
  "owner_inv st = (\<forall>i j c. i < length (pull_pcs st) \<and> j < length (pull_pcs st) \<and> owns (pull_pcs st ! i) = Some c \<and>
     owns (pull_pcs st ! j) = Some c \<longrightarrow> i = j)"

definition chan_inv :: "pull_state \<Rightarrow> bool" where
  "chan_inv st = ((\<forall>c. owned st c \<longrightarrow> c < pull_next st \<and> c \<notin> set (pull_closed st)) \<and> (\<forall>c \<in> set (pull_closed st). c < pull_next st))"

definition entry_inv :: "pull_state \<Rightarrow> bool" where
  "entry_inv st = (\<forall>c. pull_entry st = Some c \<longrightarrow> (\<exists>i < length (pull_pcs st). registered (pull_pcs st ! i) = Some c))"

definition wait_inv :: "pull_state \<Rightarrow> bool" where
  "wait_inv st = (\<forall>i c. i < length (pull_pcs st) \<and> pull_pcs st ! i = WaitingOn c \<longrightarrow> c \<in> set (pull_closed st) \<or> owned st c)"

lemma registered_owns: "registered pc = Some c \<Longrightarrow> owns pc = Some c"
  by (cases pc) auto

lemma chan_inv_owner: "chan_inv st \<Longrightarrow> i < length (pull_pcs st) \<Longrightarrow> owns (pull_pcs st ! i) = Some c \<Longrightarrow> c < pull_next st \<and> c \<notin> set (pull_closed st)"
  unfolding chan_inv_def owned_def by blast

lemma owner_inv_step:
  assumes "owner_inv st" "chan_inv st" "i < length (pull_pcs st)" "advance e (pull_pcs st ! i) st = Val (Some (pc', st'))"
  shows "owner_inv (st'\<lparr>pull_pcs := (pull_pcs st)[i := pc']\<rparr>)"
proof -
  have "owns pc' = None \<or> owns pc' = owns (pull_pcs st ! i) \<or> owns pc' = Some (pull_next st)"
    using assms(4) by (cases "pull_pcs st ! i") (auto simp: Let_def split: if_splits option.splits)
  moreover have "owns (pull_pcs st ! j) \<noteq> Some (pull_next st)" if "j < length (pull_pcs st)" for j
    using chan_inv_owner [OF assms(2) that] by auto
  ultimately show ?thesis
    using assms(1,3) unfolding owner_inv_def by (auto simp: nth_list_update split: if_splits) (metis, metis)
qed

definition pull_inv :: "pull_state \<Rightarrow> bool" where
  "pull_inv st = (owner_inv st \<and> chan_inv st \<and> entry_inv st \<and> wait_inv st)"

lemma owned_update:
  "i < length (pull_pcs st) \<Longrightarrow> owned (st'\<lparr>pull_pcs := (pull_pcs st)[i := pc']\<rparr>) c \<longleftrightarrow>
     owns pc' = Some c \<or> (\<exists>j < length (pull_pcs st). j \<noteq> i \<and> owns (pull_pcs st ! j) = Some c)"
  by (auto simp: owned_def nth_list_update split: if_splits)

lemma ownedI: "i < length (pull_pcs st) \<Longrightarrow> owns (pull_pcs st ! i) = Some c \<Longrightarrow> owned st c"
  by (auto simp: owned_def)

lemma owned_split: "i < length (pull_pcs st) \<Longrightarrow> owned st c \<longleftrightarrow>
    owns (pull_pcs st ! i) = Some c \<or> (\<exists>j < length (pull_pcs st). j \<noteq> i \<and> owns (pull_pcs st ! j) = Some c)"
  by (auto simp: owned_def)

text \<open>What a step does to the channels: the owner of a channel closes it, or keeps it, or a new one is made.\<close>

definition advance_effect :: "pull_pc \<Rightarrow> pull_state \<Rightarrow> pull_pc \<Rightarrow> pull_state \<Rightarrow> bool" where
  "advance_effect pc st pc' st' =
     (owns pc' = owns pc \<and> pull_closed st' = pull_closed st \<and> pull_next st' = pull_next st \<or>
      owns pc = None \<and> owns pc' = Some (pull_next st) \<and> pull_closed st' = pull_closed st \<and> pull_next st' = Suc (pull_next st) \<or>
      (\<exists>c. owns pc = Some c \<and> owns pc' = None \<and> c \<notin> set (pull_closed st) \<and> pull_closed st' = c # pull_closed st \<and> pull_next st' = pull_next st))"

lemma advance_effect: "advance e pc st = Val (Some (pc', st')) \<Longrightarrow> advance_effect pc st pc' st'"
  by (cases pc) (auto simp: advance_effect_def Let_def split: if_splits option.splits)

lemma advance_cases:
  assumes "advance e pc st = Val (Some (pc', st'))"
  obtains (keep) "owns pc' = owns pc" "pull_closed st' = pull_closed st" "pull_next st' = pull_next st"
  | (new) "owns pc = None" "owns pc' = Some (pull_next st)" "pull_closed st' = pull_closed st" "pull_next st' = Suc (pull_next st)"
  | (close) c where "owns pc = Some c" "owns pc' = None" "c \<notin> set (pull_closed st)" "pull_closed st' = c # pull_closed st"
      "pull_next st' = pull_next st"
  using advance_effect [OF assms] unfolding advance_effect_def by (elim disjE exE conjE) (rule keep new close; assumption)+

lemma chan_inv_step:
  assumes "owner_inv st" "chan_inv st" "i < length (pull_pcs st)" "advance e (pull_pcs st ! i) st = Val (Some (pc', st'))"
  shows "chan_inv (st'\<lparr>pull_pcs := (pull_pcs st)[i := pc']\<rparr>)"
proof -
  note own = chan_inv_owner [OF assms(2)]
  have closed: "\<forall>c \<in> set (pull_closed st). c < pull_next st" using assms(2) by (simp add: chan_inv_def)
  from assms(4) show ?thesis
  proof (cases rule: advance_cases)
    case keep
    then have "owned (st'\<lparr>pull_pcs := (pull_pcs st)[i := pc']\<rparr>) c = owned st c" for c
      using assms(3) by (simp add: owned_update owned_split [OF assms(3)])
    then show ?thesis using assms(2) keep by (simp add: chan_inv_def)
  next
    case new
    then have "owned (st'\<lparr>pull_pcs := (pull_pcs st)[i := pc']\<rparr>) c = (c = pull_next st \<or> owned st c)" for c
      using assms(3) by (auto simp: owned_update owned_split [OF assms(3)])
    then show ?thesis using assms(2) new by (auto simp: chan_inv_def less_Suc_eq)
  next
    case (close c)
    have "owns (pull_pcs st ! j) \<noteq> Some c" if "j < length (pull_pcs st)" "j \<noteq> i" for j
      using assms(1,3) close(1) that unfolding owner_inv_def by blast
    then have "owned (st'\<lparr>pull_pcs := (pull_pcs st)[i := pc']\<rparr>) x = (x \<noteq> c \<and> owned st x)" for x
      using assms(3) close(1,2) by (auto simp: owned_update owned_split [OF assms(3)])
    then show ?thesis using assms(2) close own [OF assms(3) close(1)] by (auto simp: chan_inv_def)
  qed
qed

lemma entry_inv_step:
  assumes "entry_inv st" "i < length (pull_pcs st)" "advance e (pull_pcs st ! i) st = Val (Some (pc', st'))"
  shows "entry_inv (st'\<lparr>pull_pcs := (pull_pcs st)[i := pc']\<rparr>)"
proof -
  have "pull_entry st' = None \<or> pull_entry st' = registered pc' \<or>
      pull_entry st' = pull_entry st \<and> (registered (pull_pcs st ! i) = None \<or> registered pc' = registered (pull_pcs st ! i))"
    using assms(3) by (cases "pull_pcs st ! i") (auto simp: Let_def split: if_splits option.splits)
  then show ?thesis
  proof (elim disjE conjE)
    assume "pull_entry st' = registered pc'"
    then show ?thesis using assms(2) by (auto simp: entry_inv_def intro!: exI [of _ i])
  next
    assume same: "pull_entry st' = pull_entry st" and none: "registered (pull_pcs st ! i) = None"
    have "\<exists>j < length (pull_pcs st). registered ((pull_pcs st)[i := pc'] ! j) = Some c" if c: "pull_entry st = Some c" for c
    proof -
      obtain j where "j < length (pull_pcs st)" "registered (pull_pcs st ! j) = Some c" using assms(1) c by (auto simp: entry_inv_def)
      moreover from this none have "j \<noteq> i" by auto
      ultimately show ?thesis by (intro exI [of _ j]) simp
    qed
    then show ?thesis using same by (simp add: entry_inv_def)
  next
    assume same: "pull_entry st' = pull_entry st" and kept: "registered pc' = registered (pull_pcs st ! i)"
    have "registered ((pull_pcs st)[i := pc'] ! j) = registered (pull_pcs st ! j)" if "j < length (pull_pcs st)" for j
      using that kept by (cases "j = i") simp_all
    then show ?thesis using assms(1) same unfolding entry_inv_def by fastforce
  qed (simp add: entry_inv_def)
qed

lemma closed_or_owned_step:
  assumes "i < length (pull_pcs st)" "advance e (pull_pcs st ! i) st = Val (Some (pc', st'))" "c \<in> set (pull_closed st) \<or> owned st c"
  shows "c \<in> set (pull_closed st') \<or> owned (st'\<lparr>pull_pcs := (pull_pcs st)[i := pc']\<rparr>) c"
  using assms(2)
proof (cases rule: advance_cases)
qed (use assms(1,3) in \<open>auto simp: owned_update owned_split [OF assms(1)]\<close>)

lemma wait_inv_step:
  assumes "wait_inv st" "entry_inv st" "i < length (pull_pcs st)" "advance e (pull_pcs st ! i) st = Val (Some (pc', st'))"
  shows "wait_inv (st'\<lparr>pull_pcs := (pull_pcs st)[i := pc']\<rparr>)"
proof -
  note kept = closed_or_owned_step [OF assms(3,4)]
  have "pull_entry st = Some c" if "pc' = WaitingOn c" for c
    using assms(4) that by (cases "pull_pcs st ! i") (auto simp: Let_def split: if_splits option.splits)
  then have "c \<in> set (pull_closed st) \<or> owned st c" if "pc' = WaitingOn c" for c
    using that assms(2) ownedI registered_owns by (fastforce simp: entry_inv_def)
  then show ?thesis using kept assms(1,3) by (auto simp: wait_inv_def nth_list_update)
qed

lemma pull_inv_step: "pull_step st st' \<Longrightarrow> pull_inv st \<Longrightarrow> pull_inv st'"
  by (erule pull_stepE)
    (simp add: pull_inv_def owner_inv_step chan_inv_step entry_inv_step wait_inv_step)

lemma pull_inv_init: "pull_inv (pull_init n has)"
  by (auto simp: pull_inv_def pull_init_def owner_inv_def chan_inv_def entry_inv_def wait_inv_def owned_def)

lemma pull_reach_inv: "pull_reach n has st \<Longrightarrow> pull_inv st"
  by (induction rule: pull_reach.induct) (auto intro: pull_inv_init pull_inv_step)

lemma owner_can_step: "owns pc = Some c \<Longrightarrow> c \<notin> set (pull_closed st) \<Longrightarrow> \<exists>pc' st'. advance e pc st = Val (Some (pc', st'))"
  by (cases pc) auto

definition all_returned :: "pull_state \<Rightarrow> bool" where
  "all_returned st = list_all (\<lambda>pc. \<exists>r. pc = PullReturned r) (pull_pcs st)"

text \<open>
  C19: Goroutines that pull the same image never block each other for good and never close a channel twice: in every reachable state no goroutine
  panics with its next step, and unless all have returned one of them can go on.
\<close>

theorem pulls_never_deadlock:
  assumes "pull_reach n has st"
  shows "(\<forall>i < length (pull_pcs st). \<forall>e m. advance e (pull_pcs st ! i) st \<noteq> Panic m) \<and>
    (all_returned st \<or> (\<exists>st'. pull_step st st'))"
proof -
  note inv = pull_reach_inv [OF assms, unfolded pull_inv_def]
  have owner: "\<exists>pc' st'. advance e (pull_pcs st ! i) st = Val (Some (pc', st'))"
    if "i < length (pull_pcs st)" "owns (pull_pcs st ! i) = Some c" for i c e
    using owner_can_step that chan_inv_owner inv by blast
  have go: "\<exists>st'. pull_step st st'" if "i < length (pull_pcs st)" "advance e (pull_pcs st ! i) st = Val (Some (pc', st'))" for i e pc' st'
    using pull_step.intros [OF that] by blast
  have "advance e (pull_pcs st ! i) st \<noteq> Panic m" if "i < length (pull_pcs st)" for i e m
    using owner [OF that, of _ e] by (cases "pull_pcs st ! i") (auto simp: Let_def)
  moreover have "\<exists>st'. pull_step st st'" if i: "i < length (pull_pcs st)" and pc: "\<not> (\<exists>r. pull_pcs st ! i = PullReturned r)" for i
  proof (cases "pull_pcs st ! i")
    case (WaitingOn c)
    then consider "c \<in> set (pull_closed st)" | "owned st c" using inv i by (auto simp: wait_inv_def)
    then show ?thesis
    proof cases
      case 1
      then show ?thesis using go [OF i, of None] WaitingOn by simp
    next
      case 2
      then show ?thesis using owner go unfolding owned_def by blast
    qed
  qed (use go [OF i, of None] owner [OF i, of _ None] pc in \<open>auto simp: Let_def\<close>)
  ultimately show ?thesis unfolding all_returned_def list_all_length by blast
qed

text \<open>
  A schedule: the goroutine of each step, with the result of its pull if the step ends it. \<open>None\<close> if a step cannot be
  taken.
\<close>

fun run_schedule :: "(nat \<times> goerror option) list \<Rightarrow> pull_state \<Rightarrow> pull_state option" where
  "run_schedule [] st = Some st"
| "run_schedule ((i, e) # sched) st =
     (if i < length (pull_pcs st) then
        (case advance e (pull_pcs st ! i) st of
           Val (Some (pc', st')) \<Rightarrow> run_schedule sched (st'\<lparr>pull_pcs := (pull_pcs st)[i := pc']\<rparr>)
         | _ \<Rightarrow> None)
      else None)"

lemma run_schedule_reach: "pull_reach n has st \<Longrightarrow> run_schedule sched st = Some st' \<Longrightarrow> pull_reach n has st'"
proof (induction sched st rule: run_schedule.induct)
  case (2 i e sched st)
  then obtain pc' st1 where i: "i < length (pull_pcs st)" and adv: "advance e (pull_pcs st ! i) st = Val (Some (pc', st1))"
      and rest: "run_schedule sched (st1\<lparr>pull_pcs := (pull_pcs st)[i := pc']\<rparr>) = Some st'"
    by (auto split: if_splits outcome.splits option.splits)
  show ?case
    by (rule "2.IH" [OF i adv refl refl pull_reach.step [OF "2.prems"(1) pull_step.intros [OF i adv]] rest])
qed simp

text \<open>The waiter of a pull that failed pulls itself.\<close>

definition waiter_schedule :: "(nat \<times> goerror option) list" where
  "waiter_schedule = [(0, None), (0, None), (0, None), (1, None), (1, None), (0, Some (ErrorString ''timeout'')), (0, None), (0, None), (1, None)]"

theorem pulls_never_deadlock_witness:
  "\<exists>st. run_schedule waiter_schedule (pull_init 2 False) = Some st \<and> pull_pcs st = [PullReturned (Some (ErrorString ''timeout'')), AtHas] \<and>
    (all_returned st \<or> (\<exists>st'. pull_step st st'))"
proof -
  have run: "\<exists>st. run_schedule waiter_schedule (pull_init 2 False) = Some st \<and>
      pull_pcs st = [PullReturned (Some (ErrorString ''timeout'')), AtHas]"
    by (simp add: waiter_schedule_def pull_init_def numeral_2_eq_2)
  then obtain st where st: "run_schedule waiter_schedule (pull_init 2 False) = Some st"
      "pull_pcs st = [PullReturned (Some (ErrorString ''timeout'')), AtHas]" by blast
  show ?thesis using pulls_never_deadlock [OF run_schedule_reach [OF pull_reach.init st(1)]] st by blast
qed

text \<open>
  An image is not pulled once at a time: two goroutines that both find no entry both pull it, since the second ignores that
  \<open>LoadOrStore\<close> gave it the entry of the first, and the first that ends deletes the entry while the other still pulls, so that a third pulls too.
\<close>

theorem concurrent_pulls_of_one_image:
  "(\<exists>st. pull_reach 3 False st \<and> pull_pcs st = [Pulling 0, PullReturned None, AtHas] \<and> img_has st \<and> pull_entry st = None) \<and>
   (\<exists>st. pull_reach 3 False st \<and> pull_pcs st = [Pulling 0, Closing 1 (Some (ErrorString ''timeout'')), Pulling 2])"
proof
  show "\<exists>st. pull_reach 3 False st \<and> pull_pcs st = [Pulling 0, PullReturned None, AtHas] \<and> img_has st \<and> pull_entry st = None"
  proof (intro exI conjI)
    show "pull_reach 3 False \<lparr>img_has = True, pull_entry = None, pull_closed = [1], pull_next = 2, pull_pcs = [Pulling 0, PullReturned None, AtHas]\<rparr>"
      by (rule run_schedule_reach [OF pull_reach.init, where sched = "[(0, None), (0, None), (1, None), (1, None), (0, None), (1, None), (1, None), (1, None), (1, None)]"])
        (simp add: pull_init_def numeral_3_eq_3)
  qed simp_all
  show "\<exists>st. pull_reach 3 False st \<and> pull_pcs st = [Pulling 0, Closing 1 (Some (ErrorString ''timeout'')), Pulling 2]"
  proof (intro exI conjI)
    show "pull_reach 3 False \<lparr>img_has = False, pull_entry = Some 2, pull_closed = [], pull_next = 3, pull_pcs = [Pulling 0, Closing 1 (Some (ErrorString ''timeout'')), Pulling 2]\<rparr>"
      by (rule run_schedule_reach [OF pull_reach.init, where sched = "[(0, None), (0, None), (1, None), (1, None), (0, None), (1, None), (1, Some (ErrorString ''timeout'')), (1, None), (2, None), (2, None), (2, None)]"])
        (simp add: pull_init_def numeral_3_eq_3)
  qed simp_all
qed

end
