(* ===== verification/Monitor_Variable.thy ===== *)
theory Monitor_Variable
  imports Prelude
begin

text \<open>
  The monitor variable (\<open>src/internal/lock/monitor.go\<close>): a value with a version and a channel that is
  closed when the version is superseded. Channels are numbers; the state keeps which are closed and
  the next unused number, and closing a closed channel is a panic. All methods run under the
  variable's mutex, so each is one atomic step. The version is an unbounded integer here; the code's
  \<open>int64\<close> agrees with it for the first \<open>2 ^ 63 - 1\<close> calls of \<open>Set\<close>.
\<close>

type_synonym chan = nat

record 'v monitorVariable =
  currentValue :: "'v option"
  currentVersion :: int
  versionInvalidationChannel :: chan
  closedChans :: "chan set"
  nextChan :: chan

record subscription =
  lastVersionRead :: int
  lastVersionReadInvalidationChannel :: chan

record 'v Value =
  ValueOf :: "'v option"
  Version :: int

definition NewMonitorVariable :: "'v monitorVariable" where
  "NewMonitorVariable = \<lparr>currentValue = None, currentVersion = 0, versionInvalidationChannel = 0,
     closedChans = {}, nextChan = 1\<rparr>"

definition closeChan :: "chan \<Rightarrow> 'v monitorVariable \<Rightarrow> 'v monitorVariable outcome" where
  "closeChan c m = (if c \<in> closedChans m then Panic ''close of closed channel''
     else Val (m\<lparr>closedChans := insert c (closedChans m)\<rparr>))"

definition makeChan :: "'v monitorVariable \<Rightarrow> chan \<times> 'v monitorVariable" where
  "makeChan m = (nextChan m, m\<lparr>nextChan := Suc (nextChan m)\<rparr>)"

definition SetValue :: "'v \<Rightarrow> 'v monitorVariable \<Rightarrow> 'v monitorVariable outcome" where
  "SetValue newValue m =
     (let m1 = m\<lparr>currentValue := Some newValue, currentVersion := currentVersion m + 1\<rparr> in
      obind (closeChan (versionInvalidationChannel m1) m1) (\<lambda>m2.
        let (c, m3) = makeChan m2 in Val (m3\<lparr>versionInvalidationChannel := c\<rparr>)))"

definition Subscribe :: "'v monitorVariable \<Rightarrow> (subscription \<times> 'v monitorVariable) outcome" where
  "Subscribe m =
     (if 0 < currentVersion m then
        (let (closedCh, m1) = makeChan m in
         obind (closeChan closedCh m1) (\<lambda>m2.
           Val (\<lparr>lastVersionRead = 0, lastVersionReadInvalidationChannel = closedCh\<rparr>, m2)))
      else Val (\<lparr>lastVersionRead = 0, lastVersionReadInvalidationChannel = versionInvalidationChannel m\<rparr>, m))"

definition NewValueReady :: "subscription \<Rightarrow> chan" where
  "NewValueReady s = lastVersionReadInvalidationChannel s"

definition readValue :: "'v monitorVariable \<Rightarrow> subscription \<Rightarrow> 'v Value \<times> subscription" where
  "readValue m s =
     (\<lparr>ValueOf = currentValue m, Version = currentVersion m\<rparr>,
      s\<lparr>lastVersionRead := currentVersion m,
        lastVersionReadInvalidationChannel := versionInvalidationChannel m\<rparr>)"

text \<open>A receive from the subscription's channel can proceed when the channel is closed.\<close>

definition is_ready :: "'v monitorVariable \<Rightarrow> subscription \<Rightarrow> bool" where
  "is_ready m s = (NewValueReady s \<in> closedChans m)"

subsection \<open>Interleavings of the variable and its subscribers\<close>

text \<open>
  A system is the variable and its subscriptions. \<open>runs hist m subs\<close>: \<open>m\<close> and \<open>subs\<close> are reached from
  a new variable by some interleaving of the calls in which \<open>Set\<close> was called with the values \<open>hist\<close>.
\<close>

inductive runs :: "'v list \<Rightarrow> 'v monitorVariable \<Rightarrow> subscription list \<Rightarrow> bool" where
  start: "runs [] NewMonitorVariable []"
| set: "runs hist m subs \<Longrightarrow> SetValue v m = Val m' \<Longrightarrow> runs (hist @ [v]) m' subs"
| subscribe: "runs hist m subs \<Longrightarrow> Subscribe m = Val (s, m') \<Longrightarrow> runs hist m' (subs @ [s])"
| read: "runs hist m subs \<Longrightarrow> i < length subs \<Longrightarrow> readValue m (subs ! i) = (val, s') \<Longrightarrow>
    runs hist m (subs[i := s'])"

definition mon_inv :: "'v list \<Rightarrow> 'v monitorVariable \<Rightarrow> bool" where
  "mon_inv hist m \<longleftrightarrow>
     currentVersion m = int (length hist)
     \<and> currentValue m = (if hist = [] then None else Some (last hist))
     \<and> versionInvalidationChannel m \<notin> closedChans m
     \<and> versionInvalidationChannel m < nextChan m
     \<and> (\<forall>c \<in> closedChans m. c < nextChan m)"

definition sub_inv :: "'v monitorVariable \<Rightarrow> subscription \<Rightarrow> bool" where
  "sub_inv m s \<longleftrightarrow>
     0 \<le> lastVersionRead s \<and> lastVersionRead s \<le> currentVersion m
     \<and> lastVersionReadInvalidationChannel s < nextChan m
     \<and> (is_ready m s \<longleftrightarrow> lastVersionRead s < currentVersion m)
     \<and> (\<not> is_ready m s \<longrightarrow> lastVersionReadInvalidationChannel s = versionInvalidationChannel m)"

subsection \<open>Lemmas\<close>

lemmas mon_defs = SetValue_def Subscribe_def closeChan_def makeChan_def is_ready_def NewValueReady_def Let_def

lemma mon_inv_new [inv_intros]: "mon_inv [] NewMonitorVariable"
  by (simp add: mon_inv_def NewMonitorVariable_def)

lemma SetValue_Val:
  assumes "mon_inv hist m"
  shows "SetValue v m = Val (m\<lparr>currentValue := Some v, currentVersion := currentVersion m + 1,
      closedChans := insert (versionInvalidationChannel m) (closedChans m),
      versionInvalidationChannel := nextChan m, nextChan := Suc (nextChan m)\<rparr>)"
  using assms by (simp add: mon_defs mon_inv_def)

lemma SetValue_total: "mon_inv hist m \<Longrightarrow> \<exists>m'. SetValue v m = Val m'"
  by (simp add: SetValue_Val)

lemma mon_inv_set [inv_intros]: "mon_inv hist m \<Longrightarrow> SetValue v m = Val m' \<Longrightarrow> mon_inv (hist @ [v]) m'"
  by (frule SetValue_Val [where v = v]) (auto simp: mon_inv_def less_SucI)

lemma sub_inv_set [inv_intros]:
  "mon_inv hist m \<Longrightarrow> sub_inv m s \<Longrightarrow> SetValue v m = Val m' \<Longrightarrow> sub_inv m' s"
  by (frule SetValue_Val [where v = v]) (auto simp: sub_inv_def is_ready_def NewValueReady_def)

lemma Subscribe_total: "mon_inv hist m \<Longrightarrow> \<exists>s m'. Subscribe m = Val (s, m')"
  by (auto simp: mon_defs mon_inv_def)

lemma mon_inv_subscribe [inv_intros]:
  "mon_inv hist m \<Longrightarrow> Subscribe m = Val (s, m') \<Longrightarrow> mon_inv hist m'"
  by (auto simp: mon_defs mon_inv_def less_SucI split: if_splits)

lemma sub_inv_subscribe_old [inv_intros]:
  "mon_inv hist m \<Longrightarrow> sub_inv m t \<Longrightarrow> Subscribe m = Val (s, m') \<Longrightarrow> sub_inv m' t"
  by (auto simp: mon_defs mon_inv_def sub_inv_def split: if_splits)

lemma sub_inv_subscribe_new [inv_intros]:
  "mon_inv hist m \<Longrightarrow> Subscribe m = Val (s, m') \<Longrightarrow> sub_inv m' s"
  by (auto simp: mon_defs mon_inv_def sub_inv_def split: if_splits)

lemma sub_inv_read [inv_intros]:
  "mon_inv hist m \<Longrightarrow> readValue m s = (val, s') \<Longrightarrow> sub_inv m s'"
  by (auto simp: readValue_def mon_inv_def sub_inv_def is_ready_def NewValueReady_def)

lemma runs_inv: "runs hist m subs \<Longrightarrow> mon_inv hist m \<and> list_all (sub_inv m) subs"
proof (induction rule: runs.induct)
  case (set hist m subs v m')
  then show ?case
    by (auto simp: list_all_iff intro: inv_intros)
next
  case (subscribe hist m subs s m')
  then show ?case
    by (auto simp: list_all_iff intro: inv_intros)
next
  case (read hist m subs i val s')
  then have "sub_inv m s'" by (auto intro: inv_intros)
  with read show ?case
    by (auto simp: list_all_iff dest!: set_update_subset_insert [THEN subsetD])
qed (auto intro: inv_intros)

subsection \<open>The contract its clients use\<close>

text \<open>
  What a client sees: the values set so far; a new subscription is ready exactly when a value has
  been set, and reading gives the last one.
\<close>

locale monitored =
  fixes put :: "'v \<Rightarrow> 'm \<Rightarrow> 'm outcome"
    and sub :: "'m \<Rightarrow> ('s \<times> 'm) outcome"
    and ready :: "'m \<Rightarrow> 's \<Rightarrow> bool"
    and get :: "'m \<Rightarrow> 's \<Rightarrow> 'v option"
    and inv :: "'v list \<Rightarrow> 'm \<Rightarrow> bool"
  assumes put_ok: "inv h m \<Longrightarrow> \<exists>m'. put v m = Val m' \<and> inv (h @ [v]) m'"
    and sub_ok: "inv h m \<Longrightarrow> \<exists>s m'. sub m = Val (s, m') \<and> inv h m' \<and> (ready m' s \<longleftrightarrow> h \<noteq> [])"
    and get_last: "inv h m \<Longrightarrow> h \<noteq> [] \<Longrightarrow> get m s = Some (last h)"
begin

lemma subscribe_then_read:
  assumes "inv h m" and "h \<noteq> []"
  shows "\<exists>s m'. sub m = Val (s, m') \<and> ready m' s \<and> get m' s = Some (last h)"
proof -
  obtain s m' where "sub m = Val (s, m')" "inv h m'" "ready m' s"
    using sub_ok [OF assms(1)] assms(2) by blast
  then show ?thesis using get_last assms(2) by blast
qed

lemma subscribe_blocks_until_set: "inv [] m \<Longrightarrow> \<exists>s m'. sub m = Val (s, m') \<and> \<not> ready m' s"
  using sub_ok by blast

lemma put_all: "inv h m \<Longrightarrow> \<exists>m'. foldl (\<lambda>acc v. obind acc (put v)) (Val m) vs = Val m' \<and> inv (h @ vs) m'"
proof (induction vs arbitrary: h m)
  case (Cons v vs)
  obtain m1 where "put v m = Val m1" "inv (h @ [v]) m1" using put_ok [OF Cons.prems] by blast
  with Cons.IH [of "h @ [v]" m1] show ?case by simp
qed simp

end

interpretation mv: monitored SetValue Subscribe is_ready "\<lambda>m s. ValueOf (fst (readValue m s))" mon_inv
proof
  fix h :: "'a list" and m v
  assume inv: "mon_inv h m"
  show "\<exists>m'. SetValue v m = Val m' \<and> mon_inv (h @ [v]) m'"
    using SetValue_Val [OF inv] mon_inv_set [OF inv] by blast
  obtain s m' where sub: "Subscribe m = Val (s, m')" using Subscribe_total [OF inv] by blast
  then have "is_ready m' s \<longleftrightarrow> h \<noteq> []"
    using inv by (auto simp: mon_defs mon_inv_def split: if_splits)
  with sub mon_inv_subscribe [OF inv sub]
  show "\<exists>s m'. Subscribe m = Val (s, m') \<and> mon_inv h m' \<and> (is_ready m' s \<longleftrightarrow> h \<noteq> [])" by blast
next
  fix h :: "'a list" and m s
  assume "mon_inv h m" "h \<noteq> []"
  then show "ValueOf (fst (readValue m s)) = Some (last h)" by (simp add: readValue_def mon_inv_def)
qed

subsection \<open>Properties\<close>

text \<open>
  C31: in every interleaving of \<open>Set\<close>, \<open>Subscribe\<close> and \<open>Value\<close>, a subscription's channel is closed exactly
  when the variable holds a version the subscriber has not read: no update is missed and none is
  announced twice.
\<close>

theorem subscription_ready_iff_unread:
  assumes "runs hist m subs" and "s \<in> set subs"
  shows "is_ready m s \<longleftrightarrow> lastVersionRead s < int (length hist)"
  using runs_inv [OF assms(1)] assms(2) by (auto simp: list_all_iff sub_inv_def mon_inv_def)

theorem subscription_ready_iff_unread_witness:
  "\<exists>m s. Subscribe (NewMonitorVariable :: nat monitorVariable) = Val (s, NewMonitorVariable)
    \<and> SetValue (7::nat) NewMonitorVariable = Val m \<and> is_ready m s"
proof -
  define m0 :: "nat monitorVariable" where "m0 = NewMonitorVariable"
  define s where "s = \<lparr>lastVersionRead = 0, lastVersionReadInvalidationChannel = 0\<rparr>"
  have sub: "Subscribe m0 = Val (s, m0)" by (simp add: m0_def s_def Subscribe_def NewMonitorVariable_def)
  obtain m where m: "SetValue 7 m0 = Val m"
    using SetValue_total [OF mon_inv_new, of 7] unfolding m0_def ..
  have "runs ([] @ [7]) m ([] @ [s])"
    using runs.set [OF runs.subscribe [OF runs.start sub [unfolded m0_def]] m [unfolded m0_def]] by simp
  from subscription_ready_iff_unread [OF this, of s] have "is_ready m s" by (simp add: s_def)
  with sub m show ?thesis by (auto simp: m0_def)
qed

text \<open>
  in every reachable state \<open>Set\<close> closes an open channel (it never panics) and \<open>Value\<close> returns the
  last value set, with the number of calls of \<open>Set\<close> as its version.
\<close>

theorem monitor_never_panics:
  assumes "runs hist m subs"
  shows "no_panic (SetValue v m) \<and> no_panic (Subscribe m)
    \<and> fst (readValue m s) = \<lparr>ValueOf = (if hist = [] then None else Some (last hist)), Version = int (length hist)\<rparr>"
proof -
  have inv: "mon_inv hist m" using runs_inv [OF assms] by blast
  have "no_panic (SetValue v m)" using SetValue_Val [OF inv, of v] by simp
  moreover have "no_panic (Subscribe m)" using Subscribe_total [OF inv] by auto
  ultimately show ?thesis using inv by (auto simp: readValue_def mon_inv_def)
qed

theorem monitor_never_panics_witness:
  "\<exists>m. SetValue (7::nat) NewMonitorVariable = Val m \<and> no_panic (SetValue 8 m)
    \<and> fst (readValue m \<lparr>lastVersionRead = 0, lastVersionReadInvalidationChannel = 0\<rparr>) =
        \<lparr>ValueOf = Some 7, Version = 1\<rparr>"
proof -
  obtain m where m: "SetValue (7::nat) NewMonitorVariable = Val m"
    using SetValue_total [OF mon_inv_new, of 7] ..
  from monitor_never_panics [OF runs.set [OF runs.start m], of 8
      "\<lparr>lastVersionRead = 0, lastVersionReadInvalidationChannel = 0\<rparr>"] m
  show ?thesis by simp
qed

end
