(* ===== verification/Node_Controller.thy ===== *)
theory Node_Controller
  imports Monitor_Variable K8s_Types
begin

text \<open>
  The node controller (\<open>src/node/node.go\<close>) and the ping controller it asks
  (\<open>src/node/node_ping_controller.go\<close>). The API server's node client, the patch library, the JSON encoding
  of what is kept in annotations and \<open>retry.RetryOnConflict\<close> are parameters (\<open>node_lib\<close>) over the type
  \<open>'s\<close> of what is outside; the locale \<open>node_server\<close> states what the controller relies on. A call that waits for
  ever is \<open>None\<close> inside the outcome. Spans and log lines are left out.
\<close>

subsection \<open>Node objects\<close>

record NodeCondition =
  NCType :: string
  NCStatus :: string
  LastHeartbeatTime :: int
  LastTransitionTime :: int
  NCReason :: string
  NCMessage :: string

record NodeSystemInfo =
  KubeletVersion :: string
  OSImage :: string
  KernelVersion :: string
  NodeOS :: string
  Architecture :: string

text \<open>A quantity is its value in thousandths.\<close>

type_synonym ResourceList = "int gomap"

record NodeStatus =
  NConditions :: "NodeCondition list"
  NAddresses :: "(string \<times> string) list"
  DaemonEndpoint :: int
  Capacity :: ResourceList
  Allocatable :: ResourceList
  NodeInfo :: NodeSystemInfo
  nstatus_rest :: string

record Taint =
  TaintKey :: string
  TaintValue :: string
  TaintEffect :: string

record Node =
  NMeta :: ObjectMeta
  Taints :: "Taint list"
  NStatus :: NodeStatus

definition emptyNodeStatus :: NodeStatus where
  "emptyNodeStatus = \<lparr>NConditions = [], NAddresses = [], DaemonEndpoint = 0, Capacity = [], Allocatable = [],
     NodeInfo = \<lparr>KubeletVersion = [], OSImage = [], KernelVersion = [], NodeOS = [], Architecture = []\<rparr>, nstatus_rest = []\<rparr>"

definition emptyNode :: Node where
  "emptyNode = \<lparr>NMeta = emptyMeta, Taints = [], NStatus = emptyNodeStatus\<rparr>"

subsection \<open>Pings\<close>

record pingResult =
  ping_time :: int
  ping_error :: "goerror option"

record nodePingController =
  np_pingInterval :: int
  np_pingTimeout :: "int option"
  cond :: "pingResult monitorVariable"

definition newNodePingController :: "int \<Rightarrow> int option \<Rightarrow> nodePingController outcome" where
  "newNodePingController interval timeout =
     (if interval = 0 then Panic ''Node ping interval is 0''
      else if timeout = Some 0 then Panic ''Node ping timeout is 0''
      else Val \<lparr>np_pingInterval = interval, np_pingTimeout = timeout, cond = NewMonitorVariable\<rparr>)"

text \<open>
  One check: its \<open>select\<close> sees the end of its context (with the context's error) or the answer of the ping in
  flight (when it was started and its error). On the former the time of the result stays zero.
\<close>

datatype ping_select = PingCtxDone goerror | PingAnswered int "goerror option"

fun ping_result_of :: "ping_select \<Rightarrow> pingResult" where
  "ping_result_of (PingCtxDone err) = \<lparr>ping_time = 0, ping_error = Some err\<rparr>"
| "ping_result_of (PingAnswered now err) = \<lparr>ping_time = now, ping_error = err\<rparr>"

definition checkFunc :: "ping_select \<Rightarrow> nodePingController \<Rightarrow> nodePingController outcome" where
  "checkFunc sel npc = obind (SetValue (ping_result_of sel) (cond npc)) (\<lambda>m. Val (npc\<lparr>cond := m\<rparr>))"

text \<open>The loop of \<open>Run\<close>: a first check and one per interval.\<close>

fun ping_Run :: "ping_select list \<Rightarrow> nodePingController \<Rightarrow> nodePingController outcome" where
  "ping_Run [] npc = Val npc"
| "ping_Run (sel # sels) npc = obind (checkFunc sel npc) (ping_Run sels)"

text \<open>
  \<open>getResult\<close>: \<open>Some err\<close> as the first argument is a \<open>select\<close> that takes \<open>ctx.Done()\<close>; otherwise it waits for the
  first value. The type assertion on the value panics on nil.
\<close>

definition getResult :: "goerror option \<Rightarrow> nodePingController \<Rightarrow> (nodePingController \<times> pingResult option \<times> goerror option) option outcome" where
  "getResult ctx npc =
     obind (Subscribe (cond npc)) (\<lambda>(sub, m).
       case ctx of
         Some err \<Rightarrow> Val (Some (npc\<lparr>cond := m\<rparr>, None, Some err))
       | None \<Rightarrow>
           if is_ready m sub then
             (case ValueOf (fst (readValue m sub)) of
                None \<Rightarrow> Panic ''interface conversion: interface is nil''
              | Some r \<Rightarrow> Val (Some (npc\<lparr>cond := m\<rparr>, Some r, None)))
           else Val None)"

subsection \<open>The patch of a node\<close>

definition virtualKubeletLastNodeAppliedNodeStatus :: string where
  "virtualKubeletLastNodeAppliedNodeStatus = ''virtual-kubelet.io/last-applied-node-status''"

definition virtualKubeletLastNodeAppliedObjectMeta :: string where
  "virtualKubeletLastNodeAppliedObjectMeta = ''virtual-kubelet.io/last-applied-object-meta''"

text \<open>
  What is outside: \<open>ThreeWayPatch\<close> is the marshalling of the three nodes followed by
  \<open>strategicpatch.CreateThreeWayMergePatch\<close> with the schema of a node.
\<close>

record ('s, 'patch) node_lib =
  Marshal_meta :: "ObjectMeta \<Rightarrow> string result"
  Unmarshal_meta :: "string \<Rightarrow> ObjectMeta result"
  Marshal_status :: "NodeStatus \<Rightarrow> string result"
  Unmarshal_status :: "string \<Rightarrow> NodeStatus result"
  ThreeWayPatch :: "Node \<Rightarrow> Node \<Rightarrow> Node \<Rightarrow> 'patch result"
  nodes_Get :: "string \<Rightarrow> 's \<Rightarrow> Node result"
  nodes_Patch :: "string \<Rightarrow> 'patch \<Rightarrow> 's \<Rightarrow> 's \<times> Node result"
  nodes_Create :: "Node \<Rightarrow> 's \<Rightarrow> 's \<times> Node result"
  RetryOnConflict :: "('s \<times> Node option \<Rightarrow> ('s \<times> Node option) \<times> goerror option) \<Rightarrow> 's \<times> Node option \<Rightarrow> ('s \<times> Node option) \<times> goerror option"
  node_IsNotFound :: "goerror \<Rightarrow> bool"

definition special_annotation :: "string \<Rightarrow> bool" where
  "special_annotation key = (key = virtualKubeletLastNodeAppliedNodeStatus \<or> key = virtualKubeletLastNodeAppliedObjectMeta)"

fun copyAnnotations :: "string gomap \<Rightarrow> string gomap \<Rightarrow> string gomap" where
  "copyAnnotations [] ret = ret"
| "copyAnnotations ((key, val) # rest) ret =
     (if special_annotation key then copyAnnotations rest ret else copyAnnotations rest (go_put key val ret))"

text \<open>The second object is never nil at the one call.\<close>

definition simplestObjectMetadata :: "ObjectMeta \<Rightarrow> ObjectMeta \<Rightarrow> ObjectMeta" where
  "simplestObjectMetadata base obj =
     emptyMeta\<lparr>Namespace := Namespace base, Name := Name base, UID := UID base,
       Labels := (case Labels obj of Some l \<Rightarrow> Some l | None \<Rightarrow> Some []),
       Annotations := Some (case Annotations obj of None \<Rightarrow> [] | Some a \<Rightarrow> copyAnnotations a [])\<rparr>"

definition get_annotation :: "ObjectMeta \<Rightarrow> string \<Rightarrow> string option" where
  "get_annotation m key = (case Annotations m of None \<Rightarrow> None | Some a \<Rightarrow> go_get a key)"

definition put_annotation :: "string \<Rightarrow> string \<Rightarrow> ObjectMeta \<Rightarrow> ObjectMeta" where
  "put_annotation key val m = m\<lparr>Annotations := Some (go_put key val (case Annotations m of None \<Rightarrow> [] | Some a \<Rightarrow> a))\<rparr>"

definition Wrap :: "goerror \<Rightarrow> string \<Rightarrow> goerror" where
  "Wrap err msg = WithMessage msg err"

text \<open>What was applied last, read back from the node on the server; an empty node if either annotation is missing.\<close>

definition lastApplied :: "('s, 'patch) node_lib \<Rightarrow> Node \<Rightarrow> Node result" where
  "lastApplied lib apiServerNode =
     (case (get_annotation (NMeta apiServerNode) virtualKubeletLastNodeAppliedNodeStatus,
            get_annotation (NMeta apiServerNode) virtualKubeletLastNodeAppliedObjectMeta) of
        (Some oldVKStatus, Some oldVKObjectMeta) \<Rightarrow>
          (case Unmarshal_meta lib oldVKObjectMeta of
             Inl err \<Rightarrow> Inl (Wrap err (''Cannot unmarshal old node object metadata (key: '' @ fmt_q virtualKubeletLastNodeAppliedObjectMeta @ ''): '' @ fmt_q oldVKObjectMeta))
           | Inr meta \<Rightarrow> (case Unmarshal_status lib oldVKStatus of
               Inl err \<Rightarrow> Inl (Wrap err (''Cannot unmarshal old node status (key: '' @ fmt_q virtualKubeletLastNodeAppliedNodeStatus @ ''): '' @ fmt_q oldVKStatus))
             | Inr status \<Rightarrow> Inr (emptyNode\<lparr>NMeta := meta, NStatus := status\<rparr>)))
      | _ \<Rightarrow> Inr emptyNode)"

text \<open>The node the provider wants, with what it applies recorded in its two annotations.\<close>

definition wantedNode :: "('s, 'patch) node_lib \<Rightarrow> Node \<Rightarrow> Node \<Rightarrow> Node result" where
  "wantedNode lib nodeFromProvider apiServerNode =
     (let meta = simplestObjectMetadata (NMeta apiServerNode) (NMeta nodeFromProvider) in
      case Marshal_meta lib meta of
        Inl err \<Rightarrow> Inl (Wrap err ''Cannot marshal object meta from provider'')
      | Inr metaBytes \<Rightarrow>
          (case Marshal_status lib (NStatus nodeFromProvider) of
             Inl err \<Rightarrow> Inl (Wrap err ''Cannot marshal node status from provider'')
           | Inr statusBytes \<Rightarrow>
               Inr (emptyNode\<lparr>NMeta := put_annotation virtualKubeletLastNodeAppliedNodeStatus statusBytes
                      (put_annotation virtualKubeletLastNodeAppliedObjectMeta metaBytes meta),
                    NStatus := NStatus nodeFromProvider\<rparr>)))"

definition prepareThreewayPatchBytesForNodeStatus :: "('s, 'patch) node_lib \<Rightarrow> Node \<Rightarrow> Node \<Rightarrow> 'patch result" where
  "prepareThreewayPatchBytesForNodeStatus lib nodeFromProvider apiServerNode =
     (case lastApplied lib apiServerNode of
        Inl err \<Rightarrow> Inl err
      | Inr oldNode \<Rightarrow> (case wantedNode lib nodeFromProvider apiServerNode of
          Inl err \<Rightarrow> Inl err
        | Inr newNode \<Rightarrow> ThreeWayPatch lib oldNode newNode apiServerNode))"

subsection \<open>Updating the node\<close>

text \<open>One attempt, over the outside and the captured variable \<open>updatedNode\<close>.\<close>

definition patch_attempt :: "('s, 'patch) node_lib \<Rightarrow> Node \<Rightarrow> 's \<times> Node option \<Rightarrow> ('s \<times> Node option) \<times> goerror option" where
  "patch_attempt lib nodeFromProvider sv =
     (let (s, updatedNode) = sv; name = Name (NMeta nodeFromProvider) in
      case nodes_Get lib name s of
        Inl err \<Rightarrow> ((s, updatedNode), Some err)
      | Inr apiServerNode \<Rightarrow>
          (case prepareThreewayPatchBytesForNodeStatus lib nodeFromProvider apiServerNode of
             Inl err \<Rightarrow> ((s, updatedNode), Some (Wrap err ''Cannot generate patch''))
           | Inr patch \<Rightarrow>
               (case nodes_Patch lib name patch s of
                  (s', Inl err) \<Rightarrow> ((s', None), Some err)
                | (s', Inr node) \<Rightarrow> ((s', Some node), None))))"

definition updateNodeStatus :: "('s, 'patch) node_lib \<Rightarrow> Node \<Rightarrow> 's \<Rightarrow> 's \<times> (Node option \<times> goerror option)" where
  "updateNodeStatus lib nodeFromProvider s =
     (let ((s', updatedNode), err) = RetryOnConflict lib (patch_attempt lib nodeFromProvider) (s, None) in
      case err of Some e \<Rightarrow> (s', None, Some e) | None \<Rightarrow> (s', updatedNode, None))"

definition updateNodeStatusHeartbeat :: "int \<Rightarrow> Node \<Rightarrow> Node" where
  "updateNodeStatusHeartbeat now n =
     n\<lparr>NStatus := (NStatus n)\<lparr>NConditions := map (\<lambda>c. c\<lparr>LastHeartbeatTime := now\<rparr>) (NConditions (NStatus n))\<rparr>\<rparr>"

text \<open>
  The controller's state that a round of its loop works on: the copy of the node on the server, the ping controller and
  what is outside. The node of the provider, a pointer of the loop, is returned updated.
\<close>

record 's NodeController =
  serverNode :: "Node option"
  nodePing :: nodePingController
  nc_outside :: 's
  pingInterval :: int
  statusInterval :: int
  pingTimeout :: "int option"
  leaseEnabled :: bool
  nodeStatusUpdateErrorHandler :: "(goerror \<Rightarrow> 's \<Rightarrow> 's \<times> goerror option) option"

definition ping_failed :: "goerror \<Rightarrow> goerror" where
  "ping_failed err = WrapError (''Not updating node status because node ping failed: '' @ Error err) err"

text \<open>The update and, if it fails and there is a handler that accepts the error, the second one.\<close>

definition pushStatus :: "('s, 'patch) node_lib \<Rightarrow> bool \<Rightarrow> Node \<Rightarrow> 's NodeController \<Rightarrow> 's NodeController \<times> goerror option" where
  "pushStatus lib skipErrorCb providerNode n =
     (case updateNodeStatus lib providerNode (nc_outside n) of
        (s1, node, None) \<Rightarrow> (n\<lparr>nc_outside := s1, serverNode := node\<rparr>, None)
      | (s1, node, Some e) \<Rightarrow>
          (case (if skipErrorCb then None else nodeStatusUpdateErrorHandler n) of
             None \<Rightarrow> (n\<lparr>nc_outside := s1\<rparr>, Some e)
           | Some h \<Rightarrow>
               (case h e s1 of
                  (s2, Some he) \<Rightarrow> (n\<lparr>nc_outside := s2\<rparr>, Some he)
                | (s2, None) \<Rightarrow>
                    (case updateNodeStatus lib providerNode s2 of
                       (s3, node', Some e') \<Rightarrow> (n\<lparr>nc_outside := s3\<rparr>, Some e')
                     | (s3, node', None) \<Rightarrow> (n\<lparr>nc_outside := s3, serverNode := node'\<rparr>, None)))))"

text \<open>The first argument is the end of the context seen by \<open>getResult\<close>, the second the time of the heartbeat.\<close>

definition updateStatus ::
    "('s, 'patch) node_lib \<Rightarrow> goerror option \<Rightarrow> int \<Rightarrow> bool \<Rightarrow> Node \<Rightarrow> 's NodeController \<Rightarrow> ('s NodeController \<times> Node \<times> goerror option) option outcome" where
  "updateStatus lib ctx now skipErrorCb providerNode n =
     obind (getResult ctx (nodePing n)) (\<lambda>got.
       case got of
         None \<Rightarrow> Val None
       | Some (npc, result, err) \<Rightarrow>
           let n1 = n\<lparr>nodePing := npc\<rparr> in
           case err of
             Some e \<Rightarrow> Val (Some (n1, providerNode, Some e))
           | None \<Rightarrow>
               obind (deref result) (\<lambda>r.
                 case ping_error r of
                   Some e \<Rightarrow> Val (Some (n1, providerNode, Some (ping_failed e)))
                 | None \<Rightarrow>
                     let providerNode1 = updateNodeStatusHeartbeat now providerNode;
                         (n2, uerr) = pushStatus lib skipErrorCb providerNode1 n1 in
                     Val (Some (n2, providerNode1, uerr))))"

definition ensureNode ::
    "('s, 'patch) node_lib \<Rightarrow> goerror option \<Rightarrow> int \<Rightarrow> Node \<Rightarrow> 's NodeController \<Rightarrow> ('s NodeController \<times> Node \<times> goerror option) option outcome" where
  "ensureNode lib ctx now providerNode n =
     obind (updateStatus lib ctx now True providerNode n) (\<lambda>done.
       case done of
         None \<Rightarrow> Val None
       | Some (n1, providerNode1, err) \<Rightarrow>
           if err = None \<or> (case err of Some e \<Rightarrow> \<not> node_IsNotFound lib e | None \<Rightarrow> False) then Val (Some (n1, providerNode1, err))
           else
             obind (deref (serverNode n1)) (\<lambda>sn.
               case nodes_Create lib sn (nc_outside n1) of
                 (s', Inl cerr) \<Rightarrow> Val (Some (n1\<lparr>nc_outside := s'\<rparr>, providerNode1, Some (Wrap cerr ''error registering node with kubernetes'')))
               | (s', Inr node) \<Rightarrow>
                   Val (Some (n1\<lparr>nc_outside := s', serverNode := Some node\<rparr>,
                     providerNode1\<lparr>NMeta := (NMeta providerNode1)\<lparr>Name := Name (NMeta node), Namespace := Namespace (NMeta node),
                       UID := UID (NMeta node)\<rparr>\<rparr>, None))))"

definition getServerNode :: "'s NodeController \<Rightarrow> Node result" where
  "getServerNode n = (case serverNode n of None \<Rightarrow> Inl (ErrorString ''Server node does not yet exist'') | Some node \<Rightarrow> Inr node)"

subsection \<open>The control loop\<close>

datatype loop_event = LoopDone | LoopUpdated Node | LoopTimer

definition sleepInterval :: "'s NodeController \<Rightarrow> int" where
  "sleepInterval n = (if leaseEnabled n then statusInterval n else pingInterval n)"

text \<open>One call of \<open>loop\<close>: the result says whether the controller terminates. The error of the update is only logged.\<close>

definition loopStep ::
    "('s, 'patch) node_lib \<Rightarrow> goerror option \<Rightarrow> int \<Rightarrow> loop_event \<Rightarrow> 's NodeController \<times> Node \<Rightarrow> ((('s NodeController \<times> Node) \<times> bool) option) outcome" where
  "loopStep lib ctx now ev st =
     (let (n, providerNode) = st;
          update = (\<lambda>pn. obind (updateStatus lib ctx now False pn n) (\<lambda>done.
            case done of None \<Rightarrow> Val None | Some (n', pn', err) \<Rightarrow> Val (Some ((n', pn'), False)))) in
      case ev of
        LoopDone \<Rightarrow> Val (Some (st, True))
      | LoopUpdated updated \<Rightarrow>
          update (providerNode\<lparr>NStatus := NStatus updated,
            NMeta := (NMeta providerNode)\<lparr>Annotations := Annotations (NMeta updated), Labels := Labels (NMeta updated)\<rparr>\<rparr>)
      | LoopTimer \<Rightarrow> update providerNode)"

text \<open>Each event with the end of the context seen in it and the time.\<close>

fun controlLoop ::
    "('s, 'patch) node_lib \<Rightarrow> (goerror option \<times> int \<times> loop_event) list \<Rightarrow> 's NodeController \<times> Node \<Rightarrow> ((('s NodeController \<times> Node) \<times> bool) option) outcome" where
  "controlLoop lib [] st = Val (Some (st, False))"
| "controlLoop lib ((ctx, now, ev) # evs) st =
     obind (loopStep lib ctx now ev st) (\<lambda>r.
       case r of None \<Rightarrow> Val None | Some (st', stop) \<Rightarrow> if stop then Val (Some (st', True)) else controlLoop lib evs st')"

subsection \<open>Taints\<close>

definition taintString :: "Taint \<Rightarrow> string" where
  "taintString t = TaintKey t @ ''='' @ TaintValue t @ '':'' @ TaintEffect t"

fun taintsLoop :: "Taint list \<Rightarrow> string \<Rightarrow> string" where
  "taintsLoop [] s = s"
| "taintsLoop (taint # ts) s = taintsLoop ts (if s = [] then taintString taint else s @ '', '' @ taintString taint)"

definition taintsStringer_String :: "Taint list \<Rightarrow> string" where
  "taintsStringer_String ts = taintsLoop ts []"

subsection \<open>Run\<close>

text \<open>
  \<open>Run\<close>: the node is registered with a copy of the server node, then the control loop follows its events. The
  result says whether \<open>Run\<close> returned and with which error; the ready channel is closed between the two.
\<close>

definition node_Run ::
    "('s, 'patch) node_lib \<Rightarrow> goerror option \<times> int \<Rightarrow> (goerror option \<times> int \<times> loop_event) list \<Rightarrow> 's NodeController
      \<Rightarrow> (('s NodeController \<times> Node) \<times> bool \<times> goerror option) option outcome" where
  "node_Run lib start evs n =
     obind (deref (serverNode n)) (\<lambda>sn.
     obind (ensureNode lib (fst start) (snd start) sn n) (\<lambda>r. case r of
       None \<Rightarrow> Val None
     | Some (n1, pn, Some err) \<Rightarrow> Val (Some ((n1, pn), True, Some err))
     | Some (n1, pn, None) \<Rightarrow>
         obind (controlLoop lib evs (n1, pn)) (\<lambda>r'. case r' of None \<Rightarrow> Val None | Some (st, stop) \<Rightarrow> Val (Some (st, stop, None)))))"

subsection \<open>Pings: what \<open>getResult\<close> returns\<close>

definition ping_inv :: "ping_select list \<Rightarrow> nodePingController \<Rightarrow> bool" where
  "ping_inv sels npc = mon_inv (map ping_result_of sels) (cond npc)"

lemma checkFunc_inv: "ping_inv sels npc \<Longrightarrow> \<exists>npc'. checkFunc sel npc = Val npc' \<and> ping_inv (sels @ [sel]) npc'"
  unfolding ping_inv_def checkFunc_def using mv.put_ok [of "map ping_result_of sels" "cond npc" "ping_result_of sel"] by auto

lemma ping_Run_inv: "ping_inv sels npc \<Longrightarrow> \<exists>npc'. ping_Run sels' npc = Val npc' \<and> ping_inv (sels @ sels') npc'"
proof (induction sels' arbitrary: sels npc)
  case (Cons sel sels')
  obtain npc1 where "checkFunc sel npc = Val npc1" "ping_inv (sels @ [sel]) npc1" using checkFunc_inv [OF Cons.prems] by blast
  then show ?case using Cons.IH [of "sels @ [sel]" npc1] by simp
qed simp

lemma ping_inv_new: "newNodePingController interval timeout = Val npc \<Longrightarrow> ping_inv [] npc"
  by (auto simp: newNodePingController_def ping_inv_def mon_inv_new split: if_splits)

lemma getResult_waits:
  assumes "ping_inv sels npc"
  shows "\<exists>npc'. ping_inv sels npc' \<and> getResult None npc =
    (if sels = [] then Val None else Val (Some (npc', Some (ping_result_of (last sels)), None)))"
proof -
  obtain s m where sub: "Subscribe (cond npc) = Val (s, m)" and m: "mon_inv (map ping_result_of sels) m" and "is_ready m s \<longleftrightarrow> sels \<noteq> []"
    using mv.sub_ok [OF assms [unfolded ping_inv_def]] by auto
  moreover have "ValueOf (fst (readValue m s)) = Some (ping_result_of (last sels))" if "sels \<noteq> []"
    using mv.get_last [OF m] that by (simp add: last_map)
  ultimately show ?thesis
    by (intro exI [of _ "npc\<lparr>cond := m\<rparr>"]) (simp add: getResult_def ping_inv_def)
qed

lemma getResult_cancelled:
  assumes "ping_inv sels npc"
  shows "\<exists>npc'. ping_inv sels npc' \<and> getResult (Some err) npc = Val (Some (npc', None, Some err))"
proof -
  obtain s m where sub: "Subscribe (cond npc) = Val (s, m)" and m: "mon_inv (map ping_result_of sels) m"
    using mv.sub_ok [OF assms [unfolded ping_inv_def]] by auto
  then show ?thesis by (intro exI [of _ "npc\<lparr>cond := m\<rparr>"]) (simp add: getResult_def ping_inv_def)
qed

text \<open>
  Whatever the pings answer, the ping controller never panics, \<open>getResult\<close> waits exactly until the first ping has
  ended, and from then on returns the result of the last one.
\<close>

theorem getResult_is_last_ping:
  assumes "newNodePingController interval timeout = Val npc0"
  shows "\<exists>npc npc'. ping_Run sels npc0 = Val npc \<and> getResult None npc =
    (if sels = [] then Val None else Val (Some (npc', Some (ping_result_of (last sels)), None)))"
  using ping_Run_inv [OF ping_inv_new [OF assms], of sels] getResult_waits by fastforce

theorem getResult_is_last_ping_witness:
  "\<exists>npc npc'. ping_Run [PingAnswered 7 None, PingCtxDone CtxDeadlineExceeded] \<lparr>np_pingInterval = 10, np_pingTimeout = None, cond = NewMonitorVariable\<rparr> = Val npc \<and>
     getResult None npc = Val (Some (npc', Some \<lparr>ping_time = 0, ping_error = Some CtxDeadlineExceeded\<rparr>, None))"
  using getResult_is_last_ping [of 10 None _ "[PingAnswered 7 None, PingCtxDone CtxDeadlineExceeded]"]
  by (simp add: newNodePingController_def)

text \<open>
  While the last ping has failed the node's status is not touched: \<open>updateStatus\<close> makes no call to the API server,
  keeps the server node, and returns an error that wraps the ping's.
\<close>

theorem failed_ping_blocks_update:
  assumes "newNodePingController interval timeout = Val npc0" and "ping_Run (sels @ [sel]) npc0 = Val (nodePing n)"
    and "ping_error (ping_result_of sel) = Some e"
  shows "\<exists>n'. updateStatus lib None now skip pn n = Val (Some (n', pn, Some (ping_failed e))) \<and>
    nc_outside n' = nc_outside n \<and> serverNode n' = serverNode n"
proof -
  have "ping_inv (sels @ [sel]) (nodePing n)"
    using ping_Run_inv [OF ping_inv_new [OF assms(1)], of "sels @ [sel]"] assms(2) by simp
  then obtain npc' where "getResult None (nodePing n) = Val (Some (npc', Some (ping_result_of sel), None))"
    using getResult_waits by fastforce
  then show ?thesis using assms(3) by (simp add: updateStatus_def Let_def)
qed

text \<open>An update that succeeds found a successful ping and pushed the status with its new heartbeats.\<close>

lemma updateStatus_okE:
  assumes "updateStatus lib ctx now skip pn n = Val (Some (n', pn', None))"
  obtains npc r where "getResult ctx (nodePing n) = Val (Some (npc, Some r, None))" "ping_error r = None"
    "pushStatus lib skip (updateNodeStatusHeartbeat now pn) (n\<lparr>nodePing := npc\<rparr>) = (n', None)"
    "pn' = updateNodeStatusHeartbeat now pn"
proof (cases "getResult ctx (nodePing n)")
  case (Val got)
  then obtain npc res e where got: "got = Some (npc, res, e)" using assms by (cases got) (auto simp: updateStatus_def)
  then have e: "e = None" using Val assms by (cases e) (simp_all add: updateStatus_def Let_def)
  then obtain r where r: "res = Some r" using Val got assms by (cases res) (simp_all add: updateStatus_def Let_def)
  then have "ping_error r = None" using Val got e assms by (cases "ping_error r") (simp_all add: updateStatus_def Let_def)
  then show ?thesis
    using that Val got e r assms by (auto simp: updateStatus_def Let_def split: prod.splits)
qed (use assms in \<open>simp add: updateStatus_def\<close>)

subsection \<open>The node on the server\<close>

text \<open>Conditions by type, and the three-way merge of two keyed collections into a third.\<close>

definition condition_of :: "NodeStatus \<Rightarrow> string \<Rightarrow> NodeCondition option" where
  "condition_of st = map_of (map (\<lambda>c. (NCType c, c)) (NConditions st))"

definition merge3 :: "('k \<Rightarrow> 'v option) \<Rightarrow> ('k \<Rightarrow> 'v option) \<Rightarrow> ('k \<Rightarrow> 'v option) \<Rightarrow> 'k \<Rightarrow> 'v option" where
  "merge3 old new cur k = (case new k of Some v \<Rightarrow> Some v | None \<Rightarrow> if old k \<noteq> None then None else cur k)"

definition after_attempts :: "('s, 'patch) node_lib \<Rightarrow> Node \<Rightarrow> nat \<Rightarrow> 's \<times> Node option \<Rightarrow> 's \<times> Node option" where
  "after_attempts lib pn n sv = ((\<lambda>x. fst (patch_attempt lib pn x)) ^^ n) sv"

text \<open>
  What the controller relies on: \<open>server s\<close> is the node of a name; a three-way patch removes what the old node has and
  the new one lacks, sets what the new one has and leaves the rest, for conditions (by type) and annotations; creating
  stores the node returned; retrying makes one attempt after another, each where the previous one ended, and returns the
  result of the last.
\<close>

locale node_server =
  fixes lib :: "('s, 'patch) node_lib" and server :: "'s \<Rightarrow> string \<Rightarrow> Node option"
  assumes get: "nodes_Get lib name s = Inr node \<Longrightarrow> server s name = Some node"
    and patch: "ThreeWayPatch lib old new cur = Inr p \<Longrightarrow> server s name = Some cur \<Longrightarrow> nodes_Patch lib name p s = (s', Inr node) \<Longrightarrow>
      server s' name = Some node \<and>
      condition_of (NStatus node) = merge3 (condition_of (NStatus old)) (condition_of (NStatus new)) (condition_of (NStatus cur)) \<and>
      get_annotation (NMeta node) = merge3 (get_annotation (NMeta old)) (get_annotation (NMeta new)) (get_annotation (NMeta cur))"
    and create: "nodes_Create lib node0 s = (s', Inr node) \<Longrightarrow> server s' (Name (NMeta node)) = Some node"
    and retry: "\<exists>n. RetryOnConflict lib f sv = f (((\<lambda>x. fst (f x)) ^^ n) sv)"
begin

lemma patch_attempt_ok:
  assumes "patch_attempt lib pn sv = ((s', upd), None)"
  shows "\<exists>node cur old enc. upd = Some node \<and> server s' (Name (NMeta pn)) = Some node \<and> lastApplied lib cur = Inr old \<and>
    server (fst sv) (Name (NMeta pn)) = Some cur \<and>
    condition_of (NStatus node) = merge3 (condition_of (NStatus old)) (condition_of (NStatus pn)) (condition_of (NStatus cur)) \<and>
    Marshal_status lib (NStatus pn) = Inr enc \<and> get_annotation (NMeta node) virtualKubeletLastNodeAppliedNodeStatus = Some enc"
proof -
  obtain s u where sv: "sv = (s, u)" by fastforce
  obtain cur p where cur: "nodes_Get lib (Name (NMeta pn)) s = Inr cur"
    and p: "prepareThreewayPatchBytesForNodeStatus lib pn cur = Inr p"
    and node: "nodes_Patch lib (Name (NMeta pn)) p s = (s', Inr (the upd))" "upd \<noteq> None"
    using assms sv by (auto simp: patch_attempt_def Let_def split: sum.splits prod.splits)
  obtain old new where old: "lastApplied lib cur = Inr old" and new: "wantedNode lib pn cur = Inr new"
    and tw: "ThreeWayPatch lib old new cur = Inr p"
    using p by (auto simp: prepareThreewayPatchBytesForNodeStatus_def split: sum.splits)
  have srv: "server s (Name (NMeta pn)) = Some cur" by (rule get [OF cur])
  obtain enc where enc: "Marshal_status lib (NStatus pn) = Inr enc" "NStatus new = NStatus pn"
      "get_annotation (NMeta new) virtualKubeletLastNodeAppliedNodeStatus = Some enc"
    using new by (auto simp: wantedNode_def Let_def put_annotation_def get_annotation_def go_get_put split: sum.splits)
  show ?thesis
    using patch [OF tw srv node(1)] node(2) old srv enc sv by (auto simp: merge3_def)
qed

lemma update_attempt:
  assumes "updateNodeStatus lib pn s = (s', upd, None)"
  shows "\<exists>n. patch_attempt lib pn (after_attempts lib pn n (s, None)) = ((s', upd), None)"
proof -
  obtain n where "RetryOnConflict lib (patch_attempt lib pn) (s, None) = patch_attempt lib pn (after_attempts lib pn n (s, None))"
    using retry unfolding after_attempts_def by blast
  then show ?thesis using assms by (fastforce simp: updateNodeStatus_def split: prod.splits option.splits)
qed

end


subsection \<open>Registration\<close>

context node_server
begin

lemma updated_on_server:
  assumes "updateNodeStatus lib q s = (s', u, None)"
  shows "\<exists>node. u = Some node \<and> server s' (Name (NMeta q)) = Some node"
  using update_attempt [OF assms] patch_attempt_ok by blast

lemma pushStatus_registers:
  assumes "pushStatus lib skip pn n = (n', None)"
  shows "\<exists>node. serverNode n' = Some node \<and> server (nc_outside n') (Name (NMeta pn)) = Some node"
  using assms updated_on_server unfolding pushStatus_def
  by (fastforce split: prod.splits option.splits if_splits)

lemma updateStatus_registers:
  assumes "updateStatus lib ctx now skip pn n = Val (Some (n', pn', None))"
  shows "\<exists>node. serverNode n' = Some node \<and> server (nc_outside n') (Name (NMeta pn')) = Some node"
proof -
  obtain npc r where "pushStatus lib skip (updateNodeStatusHeartbeat now pn) (n\<lparr>nodePing := npc\<rparr>) = (n', None)"
      "pn' = updateNodeStatusHeartbeat now pn"
    using assms by (rule updateStatus_okE)
  then show ?thesis using pushStatus_registers by blast
qed

end

text \<open>
  When the registration of the node succeeds, the node is on the server under the name the controller goes on with
  and the controller's copy is that node; a node is created only after the server has answered that there is none.
\<close>

theorem ensureNode_registers:
  assumes "node_server lib server" and "ensureNode lib ctx now pn n = Val (Some (n', pn', None))"
  shows "\<exists>node. serverNode n' = Some node \<and> server (nc_outside n') (Name (NMeta pn')) = Some node"
proof -
  obtain n1 pn1 err where upd: "updateStatus lib ctx now True pn n = Val (Some (n1, pn1, err))"
    using assms(2) by (cases "updateStatus lib ctx now True pn n"; cases "case_outcome id undefined (updateStatus lib ctx now True pn n)")
      (auto simp: ensureNode_def)
  show ?thesis
  proof (cases "err = None")
    case True
    then show ?thesis
      using node_server.updateStatus_registers [OF assms(1)] upd assms(2) by (fastforce simp: ensureNode_def)
  next
    case False
    then obtain e sn where e: "err = Some e" "node_IsNotFound lib e" "serverNode n1 = Some sn"
      using assms(2) upd by (auto simp: ensureNode_def split: if_splits)
    obtain s' res where create: "nodes_Create lib sn (nc_outside n1) = (s', res)" by fastforce
    then obtain node where c: "nodes_Create lib sn (nc_outside n1) = (s', Inr node)"
      and n': "n' = n1\<lparr>nc_outside := s', serverNode := Some node\<rparr>" "Name (NMeta pn') = Name (NMeta node)"
      using assms(2) upd e by (cases res) (auto simp: ensureNode_def)
    show ?thesis
      using node_server.create [OF assms(1) c] n' by simp
  qed
qed

subsection \<open>A concrete server\<close>

text \<open>
  Nodes by name; a patch is the pair of the old and the new node. The encodings keep the types of the conditions only.
\<close>

type_synonym node_table = "(string \<times> Node) list"

fun split_on :: "char \<Rightarrow> string \<Rightarrow> string \<Rightarrow> string list" where
  "split_on c [] acc = []"
| "split_on c (x # xs) acc = (if x = c then acc # split_on c xs [] else split_on c xs (acc @ [x]))"

definition encode_status :: "NodeStatus \<Rightarrow> string" where
  "encode_status st = concat (map (\<lambda>c. NCType c @ '','') (NConditions st))"

definition decode_status :: "string \<Rightarrow> NodeStatus" where
  "decode_status s = emptyNodeStatus\<lparr>NConditions := map (\<lambda>t. \<lparr>NCType = t, NCStatus = ''True'', LastHeartbeatTime = 0, LastTransitionTime = 0, NCReason = [], NCMessage = []\<rparr>) (split_on CHR '','' s [])\<rparr>"

definition merge_keyed :: "('k \<times> 'v) list \<Rightarrow> ('k \<times> 'v) list \<Rightarrow> ('k \<times> 'v) list \<Rightarrow> ('k \<times> 'v) list" where
  "merge_keyed old new cur = new @ filter (\<lambda>kv. fst kv \<notin> fst ` set new \<and> fst kv \<notin> fst ` set old) cur"

lemma merge_keyed_merge3: "map_of (merge_keyed old new cur) = merge3 (map_of old) (map_of new) (map_of cur)"
proof
  fix k
  have none: "map_of kvs k = None \<longleftrightarrow> k \<notin> fst ` set kvs" for kvs :: "('a \<times> 'b) list" by (rule map_of_eq_None_iff)
  have "map_of (filter (\<lambda>kv. fst kv \<notin> fst ` set new \<and> fst kv \<notin> fst ` set old) cur) k =
      (if map_of new k = None \<and> map_of old k = None then map_of cur k else None)"
    unfolding none by (rule map_of_filter_key)
  then show "map_of (merge_keyed old new cur) k = merge3 (map_of old) (map_of new) (map_of cur) k"
    by (simp add: merge_keyed_def merge3_def map_add_def split: option.split)
qed

definition conds :: "Node \<Rightarrow> (string \<times> NodeCondition) list" where
  "conds n = map (\<lambda>c. (NCType c, c)) (NConditions (NStatus n))"

definition annots :: "Node \<Rightarrow> string gomap" where
  "annots n = (case Annotations (NMeta n) of None \<Rightarrow> [] | Some a \<Rightarrow> a)"

definition merged :: "Node \<Rightarrow> Node \<Rightarrow> Node \<Rightarrow> Node" where
  "merged old new cur =
     cur\<lparr>NStatus := (NStatus cur)\<lparr>NConditions := map snd (merge_keyed (conds old) (conds new) (conds cur))\<rparr>,
         NMeta := (NMeta cur)\<lparr>Annotations := Some (merge_keyed (annots old) (annots new) (annots cur))\<rparr>\<rparr>"

definition IsConflict :: "goerror \<Rightarrow> bool" where
  "IsConflict err = (case err of StatusError r m \<Rightarrow> r = ''Conflict'' | _ \<Rightarrow> False)"

fun retry_loop :: "nat \<Rightarrow> ('a \<Rightarrow> 'a \<times> goerror option) \<Rightarrow> 'a \<Rightarrow> 'a \<times> goerror option" where
  "retry_loop 0 f x = f x"
| "retry_loop (Suc n) f x = (case f x of (y, Some e) \<Rightarrow> if IsConflict e then retry_loop n f y else (y, Some e) | (y, None) \<Rightarrow> (y, None))"

definition missing_node :: goerror where
  "missing_node = StatusError ''NotFound'' ''node not found''"

definition table_lib :: "(node_table, Node \<times> Node) node_lib" where
  "table_lib = \<lparr>Marshal_meta = (\<lambda>m. Inr (Name m)), Unmarshal_meta = (\<lambda>s. Inr (emptyMeta\<lparr>Name := s\<rparr>)),
     Marshal_status = (\<lambda>st. Inr (encode_status st)), Unmarshal_status = (\<lambda>s. Inr (decode_status s)),
     ThreeWayPatch = (\<lambda>old new cur. Inr (old, new)),
     nodes_Get = (\<lambda>name s. case map_of s name of None \<Rightarrow> Inl missing_node | Some n \<Rightarrow> Inr n),
     nodes_Patch = (\<lambda>name p s. case map_of s name of None \<Rightarrow> (s, Inl missing_node)
       | Some cur \<Rightarrow> let node = merged (fst p) (snd p) cur in (AList.update name node s, Inr node)),
     nodes_Create = (\<lambda>n s. (AList.update (Name (NMeta n)) n s, Inr n)),
     RetryOnConflict = retry_loop 4,
     node_IsNotFound = (\<lambda>e. e = missing_node)\<rparr>"

lemma retry_loop_iterates: "\<exists>k. retry_loop n f x = f (((\<lambda>y. fst (f y)) ^^ k) x)"
proof (induction n arbitrary: x)
  case 0
  show ?case by (rule exI [of _ 0]) simp
next
  case (Suc n)
  show ?case
  proof (cases "\<exists>e. snd (f x) = Some e \<and> IsConflict e")
    case True
    then have "retry_loop (Suc n) f x = retry_loop n f (fst (f x))" by (cases "f x") auto
    moreover obtain k where "retry_loop n f (fst (f x)) = f (((\<lambda>y. fst (f y)) ^^ k) (fst (f x)))" using Suc.IH by blast
    ultimately show ?thesis by (intro exI [of _ "Suc k"]) (simp del: retry_loop.simps funpow.simps add: funpow_Suc_right)
  next
    case False
    then have "retry_loop (Suc n) f x = f x" by (cases "f x") (auto split: option.split)
    then show ?thesis by (intro exI [of _ 0]) simp
  qed
qed

lemma conds_keyed: "kv \<in> set (conds n) \<Longrightarrow> fst kv = NCType (snd kv)"
  by (auto simp: conds_def)

lemma merged_laws:
  "condition_of (NStatus (merged old new cur)) = merge3 (condition_of (NStatus old)) (condition_of (NStatus new)) (condition_of (NStatus cur))"
  "get_annotation (NMeta (merged old new cur)) = merge3 (get_annotation (NMeta old)) (get_annotation (NMeta new)) (get_annotation (NMeta cur))"
proof -
  have "map (\<lambda>c. (NCType c, c)) (map snd kvs) = kvs" if "\<forall>kv \<in> set kvs. fst kv = NCType (snd kv)" for kvs
    using that by (induction kvs) auto
  moreover have "\<forall>kv \<in> set (merge_keyed (conds old) (conds new) (conds cur)). fst kv = NCType (snd kv)"
    by (auto simp: merge_keyed_def dest: conds_keyed)
  ultimately have "map (\<lambda>c. (NCType c, c)) (NConditions (NStatus (merged old new cur))) = merge_keyed (conds old) (conds new) (conds cur)"
    by (simp add: merged_def)
  then show "condition_of (NStatus (merged old new cur)) = merge3 (condition_of (NStatus old)) (condition_of (NStatus new)) (condition_of (NStatus cur))"
    unfolding condition_of_def by (simp add: merge_keyed_merge3 conds_def)
  have ann: "get_annotation (NMeta n) = map_of (annots n)" for n
    by (rule ext) (simp add: get_annotation_def annots_def split: option.split)
  have "annots (merged old new cur) = merge_keyed (annots old) (annots new) (annots cur)" by (simp add: merged_def annots_def)
  then show "get_annotation (NMeta (merged old new cur)) = merge3 (get_annotation (NMeta old)) (get_annotation (NMeta new)) (get_annotation (NMeta cur))"
    by (simp add: ann merge_keyed_merge3)
qed

interpretation table: node_server table_lib map_of
proof
  fix f :: "node_table \<times> Node option \<Rightarrow> (node_table \<times> Node option) \<times> goerror option" and sv
  show "\<exists>n. RetryOnConflict table_lib f sv = f (((\<lambda>x. fst (f x)) ^^ n) sv)"
    using retry_loop_iterates by (simp add: table_lib_def)
qed (auto simp: table_lib_def merged_laws AList.update_conv' Let_def split: option.splits)

text \<open>A node that answers its pings, and its controllers.\<close>

definition node1 :: Node where
  "node1 = emptyNode\<lparr>NMeta := emptyMeta\<lparr>Name := ''n1'', UID := ''u1''\<rparr>\<rparr>"

definition fresh_ping :: nodePingController where
  "fresh_ping = \<lparr>np_pingInterval = 10, np_pingTimeout = None, cond = NewMonitorVariable\<rparr>"

fun pinged :: "nodePingController outcome \<Rightarrow> nodePingController" where
  "pinged (Val npc) = npc"
| "pinged (Panic e) = fresh_ping"

definition healthy :: "nat NodeController" where
  "healthy = \<lparr>serverNode = Some node1, nodePing = pinged (ping_Run ([] @ [PingAnswered 5 None]) fresh_ping), nc_outside = 0, pingInterval = 10,
     statusInterval = 60, pingTimeout = None, leaseEnabled = True, nodeStatusUpdateErrorHandler = None\<rparr>"

definition sick :: "nat NodeController" where
  "sick = healthy\<lparr>nodePing := pinged (ping_Run ([] @ [PingCtxDone CtxDeadlineExceeded]) fresh_ping)\<rparr>"

lemma fresh_ping_new: "newNodePingController 10 None = Val fresh_ping"
  by (simp add: newNodePingController_def fresh_ping_def)

lemma healthy_pinged: "ping_Run ([] @ [PingAnswered 5 None]) fresh_ping = Val (nodePing healthy)"
  using ping_Run_inv [OF ping_inv_new [OF fresh_ping_new], of "[PingAnswered 5 None]"] by (auto simp: healthy_def simp del: ping_Run.simps)

lemma sick_pinged: "ping_Run ([] @ [PingCtxDone CtxDeadlineExceeded]) fresh_ping = Val (nodePing sick)"
  using ping_Run_inv [OF ping_inv_new [OF fresh_ping_new], of "[PingCtxDone CtxDeadlineExceeded]"] by (auto simp: sick_def simp del: ping_Run.simps)

subsection \<open>Examples of node updates\<close>

text \<open>
  The scenario described at \<open>prepareThreewayPatchBytesForNodeStatus\<close>: the kubelet applied A and B, another client added C, and
  now the provider reports A only.
\<close>

definition cond1 :: "string \<Rightarrow> NodeCondition" where
  "cond1 t = \<lparr>NCType = t, NCStatus = ''True'', LastHeartbeatTime = 0, LastTransitionTime = 0, NCReason = [], NCMessage = []\<rparr>"

definition node_abc :: Node where
  "node_abc = node1\<lparr>NMeta := (NMeta node1)\<lparr>Annotations := Some [(virtualKubeletLastNodeAppliedNodeStatus, ''A,B,''),
      (virtualKubeletLastNodeAppliedObjectMeta, ''n1'')]\<rparr>,
     NStatus := emptyNodeStatus\<lparr>NConditions := map cond1 [''A'', ''B'', ''C'']\<rparr>\<rparr>"

definition node_a :: Node where
  "node_a = node1\<lparr>NStatus := emptyNodeStatus\<lparr>NConditions := [cond1 ''A'']\<rparr>\<rparr>"

definition table_abc :: node_table where
  "table_abc = [(''n1'', node_abc)]"


definition unregistered :: "node_table NodeController" where
  "unregistered = \<lparr>serverNode = Some node_a, nodePing = nodePing healthy, nc_outside = [], pingInterval = 10, statusInterval = 60,
     pingTimeout = None, leaseEnabled = True, nodeStatusUpdateErrorHandler = None\<rparr>"

theorem ensureNode_registers_witness:
  "\<exists>n' pn' node. ensureNode table_lib None 7 node_a unregistered = Val (Some (n', pn', None)) \<and> serverNode n' = Some node \<and>
     map_of (nc_outside n') (Name (NMeta pn')) = Some node"
proof -
  have "(case ensureNode table_lib None 7 node_a unregistered of Val (Some (n', pn', None)) \<Rightarrow> True | _ \<Rightarrow> False)" by code_simp
  then obtain n' pn' where run: "ensureNode table_lib None 7 node_a unregistered = Val (Some (n', pn', None))"
    by (auto split: outcome.splits option.splits)
  from ensureNode_registers [OF table.node_server_axioms run] run show ?thesis by blast
qed

theorem failed_ping_blocks_update_witness:
  "\<exists>n'. updateStatus table_lib None 9 False node_a (unregistered\<lparr>nodePing := nodePing sick\<rparr>) =
      Val (Some (n', node_a, Some (ping_failed CtxDeadlineExceeded))) \<and> nc_outside n' = []"
proof -
  have "ping_Run ([] @ [PingCtxDone CtxDeadlineExceeded]) fresh_ping = Val (nodePing (unregistered\<lparr>nodePing := nodePing sick\<rparr>))"
    using sick_pinged by simp
  from failed_ping_blocks_update [OF fresh_ping_new this, of CtxDeadlineExceeded table_lib 9 False node_a]
  show ?thesis by (auto simp: unregistered_def)
qed

end
