(* ===== verification/Node_Lease.thy ===== *)
theory Node_Lease
  imports Node_Controller
begin

text \<open>
  The lease of the node (\<open>src/node/lease_controller_v1.go\<close>) and the construction of the node controller with its
  options (\<open>NewNodeController\<close> and the options of \<open>src/node/node.go\<close>). The lease client, the clock and waiting
  are parameters over the type \<open>'s\<close> of what is outside (\<open>lease_client\<close>). The loop of \<open>backoffEnsureLease\<close> may
  go on for ever and is followed for a number of rounds; \<open>None\<close> is a loop that has not ended by then.
\<close>

subsection \<open>Leases\<close>

record OwnerReference =
  OwnerAPIVersion :: string
  OwnerKind :: string
  OwnerName :: string
  OwnerUID :: string

record Lease =
  LeaseName :: string
  LeaseNamespace :: string
  LeaseVersion :: string
  OwnerReferences :: "OwnerReference list"
  HolderIdentity :: "string option"
  LeaseDurationSeconds :: "int option"
  RenewTime :: "int option"
  lease_rest :: string

record leaseController =
  leaseDurationSeconds :: int
  renewInterval :: int
  latestLease :: "Lease option"

record 's lease_client =
  lc_Get :: "string \<Rightarrow> 's \<Rightarrow> 's \<times> Lease result"
  lc_Create :: "Lease \<Rightarrow> 's \<Rightarrow> 's \<times> Lease result"
  lc_Update :: "Lease \<Rightarrow> 's \<Rightarrow> 's \<times> Lease result"
  lc_IsNotFound :: "goerror \<Rightarrow> bool"
  lc_IsConflict :: "goerror \<Rightarrow> bool"
  lc_Now :: "'s \<Rightarrow> int"
  lc_wait :: "int \<Rightarrow> 's \<Rightarrow> 's \<times> bool"   \<comment> \<open>sleep, then the timer or (\<open>True\<close>) the end of the context\<close>

definition maxUpdateRetries :: nat where "maxUpdateRetries = 5"
definition maxBackoff :: int where "maxBackoff = 7 * time_Second"
definition DefaultLeaseDuration :: int where "DefaultLeaseDuration = 40"

definition minDuration :: "int \<Rightarrow> int \<Rightarrow> int" where
  "minDuration a b = (if a < b then a else b)"

definition node_owner :: "Node \<Rightarrow> OwnerReference" where
  "node_owner node = \<lparr>OwnerAPIVersion = ''v1'', OwnerKind = ''Node'', OwnerName = Name (NMeta node), OwnerUID = UID (NMeta node)\<rparr>"

definition newLease :: "'s lease_client \<Rightarrow> leaseController \<Rightarrow> Node \<Rightarrow> Lease option \<Rightarrow> 's \<Rightarrow> Lease" where
  "newLease lc c node base s =
     (let lease = (case base of
            None \<Rightarrow> \<lparr>LeaseName = Name (NMeta node), LeaseNamespace = ''kube-node-lease'', LeaseVersion = [], OwnerReferences = [],
              HolderIdentity = Some (Name (NMeta node)), LeaseDurationSeconds = Some (leaseDurationSeconds c), RenewTime = None, lease_rest = []\<rparr>
          | Some b \<Rightarrow> b);
          lease1 = lease\<lparr>RenewTime := Some (lc_Now lc s)\<rparr>
      in if length (OwnerReferences lease1) = 0 then lease1\<lparr>OwnerReferences := [node_owner node]\<rparr> else lease1)"

text \<open>The lease, whether this call created it, and the error.\<close>

definition ensureLease :: "'s lease_client \<Rightarrow> leaseController \<Rightarrow> Node \<Rightarrow> 's \<Rightarrow> 's \<times> Lease option \<times> bool \<times> goerror option" where
  "ensureLease lc c node s =
     (case lc_Get lc (Name (NMeta node)) s of
        (s1, Inr lease) \<Rightarrow> (s1, Some lease, False, None)
      | (s1, Inl err) \<Rightarrow>
          if lc_IsNotFound lc err then
            let leaseToCreate = newLease lc c node None s1 in
            if length (OwnerReferences leaseToCreate) = 0 then (s1, None, False, None)
            else (case lc_Create lc leaseToCreate s1 of
              (s2, Inl cerr) \<Rightarrow> (s2, None, False, Some cerr)
            | (s2, Inr lease) \<Rightarrow> (s2, Some lease, True, None))
          else (s1, None, False, Some err))"

fun backoffLoop :: "nat \<Rightarrow> 's lease_client \<Rightarrow> leaseController \<Rightarrow> Node \<Rightarrow> int \<Rightarrow> 's \<Rightarrow> ('s \<times> Lease option \<times> bool) option" where
  "backoffLoop 0 lc c node sleep s = None"
| "backoffLoop (Suc k) lc c node sleep s =
     (case ensureLease lc c node s of
        (s1, lease, created, None) \<Rightarrow> Some (s1, lease, created)
      | (s1, lease, created, Some err) \<Rightarrow>
          let sleep' = minDuration (2 * sleep) maxBackoff in
          (case lc_wait lc sleep' s1 of
             (s2, True) \<Rightarrow> Some (s2, None, False)
           | (s2, False) \<Rightarrow> backoffLoop k lc c node sleep' s2))"

definition backoffEnsureLease :: "nat \<Rightarrow> 's lease_client \<Rightarrow> leaseController \<Rightarrow> Node \<Rightarrow> 's \<Rightarrow> ('s \<times> Lease option \<times> bool) option" where
  "backoffEnsureLease k lc c node s = backoffLoop k lc c node 100000000 s"

text \<open>\<open>errors.Is(err, context.Canceled) || errors.Is(err, context.DeadlineExceeded)\<close>.\<close>

fun is_ctx_error :: "goerror \<Rightarrow> bool" where
  "is_ctx_error CtxCanceled = True"
| "is_ctx_error CtxDeadlineExceeded = True"
| "is_ctx_error (WrapError m e) = is_ctx_error e"
| "is_ctx_error (WithMessage m e) = is_ctx_error e"
| "is_ctx_error _ = False"

definition attempts_failed :: string where
  "attempts_failed = ''failed after 5 attempts to update node lease''"

fun updateLoop :: "nat \<Rightarrow> nat \<Rightarrow> 's lease_client \<Rightarrow> Node \<Rightarrow> Lease option \<Rightarrow> leaseController \<Rightarrow> 's \<Rightarrow> (leaseController \<times> 's \<times> goerror option) option" where
  "updateLoop k 0 lc node base c s = Some (c, s, Some (ErrorString attempts_failed))"
| "updateLoop k (Suc i) lc node base c s =
     (case lc_Update lc (newLease lc c node base s) s of
        (s1, Inr lease) \<Rightarrow> Some (c\<lparr>latestLease := Some lease\<rparr>, s1, None)
      | (s1, Inl err) \<Rightarrow>
          if is_ctx_error err then Some (c, s1, Some (WrapError (attempts_failed @ '': '' @ Error err) err))
          else if lc_IsConflict lc err then
            (case backoffEnsureLease k lc c node s1 of
               None \<Rightarrow> None
             | Some (s2, base', created) \<Rightarrow> updateLoop k i lc node base' c s2)
          else updateLoop k i lc node base c s1)"

definition retryUpdateLease :: "nat \<Rightarrow> 's lease_client \<Rightarrow> Node \<Rightarrow> Lease option \<Rightarrow> leaseController \<Rightarrow> 's \<Rightarrow> (leaseController \<times> 's \<times> goerror option) option" where
  "retryUpdateLease k lc node base c s = updateLoop k maxUpdateRetries lc node base c s"

text \<open>The part of \<open>sync\<close> after the attempt with the latest lease.\<close>

definition ensureAndUpdate :: "nat \<Rightarrow> 's lease_client \<Rightarrow> Node \<Rightarrow> leaseController \<Rightarrow> 's \<Rightarrow> (leaseController \<times> 's) option" where
  "ensureAndUpdate k lc node c s =
     (case backoffEnsureLease k lc c node s of
        None \<Rightarrow> None
      | Some (s1, lease, created) \<Rightarrow>
          let c1 = c\<lparr>latestLease := lease\<rparr> in
          if \<not> created \<and> lease \<noteq> None then
            (case retryUpdateLease k lc node lease c1 s1 of None \<Rightarrow> None | Some (c2, s2, err) \<Rightarrow> Some (c2, s2))
          else Some (c1, s1))"

text \<open>
  \<open>sync\<close>: the error of \<open>getResult\<close> is only logged, and the result is read whether there was one or not. The first argument
  bounds the rounds of each backoff, the third is the end of the context \<open>getResult\<close> may see.
\<close>

definition lease_sync ::
    "nat \<Rightarrow> 's lease_client \<Rightarrow> goerror option \<Rightarrow> 'n NodeController \<Rightarrow> leaseController \<Rightarrow> 's \<Rightarrow> ('n NodeController \<times> leaseController \<times> 's) option outcome" where
  "lease_sync k lc ctx n c s =
     obind (getResult ctx (nodePing n)) (\<lambda>got.
       case got of
         None \<Rightarrow> Val None
       | Some (npc, pingResult, err) \<Rightarrow>
           let n1 = n\<lparr>nodePing := npc\<rparr> in
           obind (deref pingResult) (\<lambda>r.
             if ping_error r \<noteq> None then Val (Some (n1, c, s))
             else (case getServerNode n1 of
               Inl nerr \<Rightarrow> Val (Some (n1, c, s))
             | Inr node \<Rightarrow>
                 (case latestLease c of
                    None \<Rightarrow> Val (map_option (\<lambda>(c', s'). (n1, c', s')) (ensureAndUpdate k lc node c s))
                  | Some latest \<Rightarrow>
                      (case retryUpdateLease k lc node (Some (newLease lc c node (Some latest) s)) c s of
                         None \<Rightarrow> Val None
                       | Some (c1, s1, None) \<Rightarrow> Val (Some (n1, c1, s1))
                       | Some (c1, s1, Some uerr) \<Rightarrow>
                           Val (map_option (\<lambda>(c', s'). (n1, c', s')) (ensureAndUpdate k lc node c1 s1)))))))"

subsection \<open>Construction and options\<close>

text \<open>The numbers in the messages are left out; the comparison of the two durations, of floats in the code, is exact here.\<close>

definition newLeaseControllerWithRenewInterval :: "int \<Rightarrow> int \<Rightarrow> leaseController result" where
  "newLeaseControllerWithRenewInterval duration interval =
     (if duration \<le> 0 then Inl (ErrorString ''Lease duration seconds is invalid, it must be > 0'')
      else if interval = 0 then Inl (ErrorString ''Lease renew interval is invalid, it must be > 0'')
      else if duration * time_Second \<le> interval then
        Inl (ErrorString ''Lease renew interval is invalid, it must be less than lease duration seconds'')
      else Inr \<lparr>leaseDurationSeconds = duration, renewInterval = interval, latestLease = None\<rparr>)"

text \<open>\<open>int(float64(d) * 0.25)\<close>: the product is exact and the conversion truncates.\<close>

definition renewFraction :: "int \<Rightarrow> int" where
  "renewFraction d = (if d < 0 then - ((- d) div 4) else d div 4)"

datatype 's NodeControllerOpt =
    WithNodePingTimeout int
  | WithNodePingInterval int
  | WithNodeStatusUpdateInterval int
  | WithNodeStatusUpdateErrorHandler "goerror \<Rightarrow> 's \<Rightarrow> 's \<times> goerror option"
  | WithNodeEnableLeaseV1WithRenewInterval int int

text \<open>The client of a lease option is never nil here (the option panics on one).\<close>

definition WithNodeEnableLeaseV1 :: "int \<Rightarrow> 's NodeControllerOpt" where
  "WithNodeEnableLeaseV1 d =
     (let d' = (if d = 0 then DefaultLeaseDuration else d)
      in WithNodeEnableLeaseV1WithRenewInterval d' (int64 (time_Second * renewFraction d')))"

definition ErrConflictingLeaseControllerConfiguration :: goerror where
  "ErrConflictingLeaseControllerConfiguration = ErrorString ''Multiple, conflicting lease configurations have been put into place''"

record 's node_config =
  cfg_pingInterval :: int
  cfg_statusInterval :: int
  cfg_pingTimeout :: "int option"
  cfg_handler :: "(goerror \<Rightarrow> 's \<Rightarrow> 's \<times> goerror option) option"
  cfg_lease :: "leaseController option"

fun applyOpt :: "'s NodeControllerOpt \<Rightarrow> 's node_config \<Rightarrow> 's node_config result" where
  "applyOpt (WithNodePingTimeout d) n = Inr (n\<lparr>cfg_pingTimeout := Some d\<rparr>)"
| "applyOpt (WithNodePingInterval d) n = Inr (n\<lparr>cfg_pingInterval := d\<rparr>)"
| "applyOpt (WithNodeStatusUpdateInterval d) n = Inr (n\<lparr>cfg_statusInterval := d\<rparr>)"
| "applyOpt (WithNodeStatusUpdateErrorHandler h) n = Inr (n\<lparr>cfg_handler := Some h\<rparr>)"
| "applyOpt (WithNodeEnableLeaseV1WithRenewInterval duration interval) n =
     (if cfg_lease n \<noteq> None then Inl ErrConflictingLeaseControllerConfiguration
      else case newLeaseControllerWithRenewInterval (if duration = 0 then DefaultLeaseDuration else duration) interval of
        Inl err \<Rightarrow> Inl (WrapError (''Unable to configure lease controller: '' @ Error err) err)
      | Inr c \<Rightarrow> Inr (n\<lparr>cfg_lease := Some c\<rparr>))"

fun applyOpts :: "'s NodeControllerOpt list \<Rightarrow> 's node_config \<Rightarrow> 's node_config result" where
  "applyOpts [] n = Inr n"
| "applyOpts (opt # opts) n =
     (case applyOpt opt n of Inl err \<Rightarrow> Inl (Wrap err ''error applying node option'') | Inr n' \<Rightarrow> applyOpts opts n')"

definition DefaultPingInterval :: int where "DefaultPingInterval = 10 * time_Second"
definition DefaultStatusUpdateInterval :: int where "DefaultStatusUpdateInterval = time_Minute"

definition NewNodeController :: "Node \<Rightarrow> 's \<Rightarrow> 's NodeControllerOpt list \<Rightarrow> (('s NodeController \<times> leaseController option) result) outcome" where
  "NewNodeController node s opts =
     (case applyOpts opts \<lparr>cfg_pingInterval = 0, cfg_statusInterval = 0, cfg_pingTimeout = None, cfg_handler = None, cfg_lease = None\<rparr> of
        Inl err \<Rightarrow> Val (Inl err)
      | Inr n \<Rightarrow>
          let ping = (if cfg_pingInterval n = 0 then DefaultPingInterval else cfg_pingInterval n);
              status = (if cfg_statusInterval n = 0 then DefaultStatusUpdateInterval else cfg_statusInterval n) in
          obind (newNodePingController ping (cfg_pingTimeout n)) (\<lambda>npc.
            Val (Inr (\<lparr>serverNode = Some node, nodePing = npc, nc_outside = s, pingInterval = ping, statusInterval = status,
              pingTimeout = cfg_pingTimeout n, leaseEnabled = (cfg_lease n \<noteq> None), nodeStatusUpdateErrorHandler = cfg_handler n\<rparr>, cfg_lease n))))"

subsection \<open>Renewal\<close>

text \<open>The lease of the controller is the stored one and was renewed between the times of two states.\<close>

definition lease_renewed :: "'s lease_client \<Rightarrow> ('s \<Rightarrow> Lease option) \<Rightarrow> leaseController \<Rightarrow> 's \<Rightarrow> 's \<Rightarrow> bool" where
  "lease_renewed lc stored c s s' =
     (case latestLease c of
        None \<Rightarrow> False
      | Some l \<Rightarrow> stored s' = Some l \<and> (case RenewTime l of None \<Rightarrow> False | Some t \<Rightarrow> lc_Now lc s \<le> t \<and> t \<le> lc_Now lc s'))"

text \<open>
  What the controller relies on in a server that answers: \<open>stored s\<close> is the lease of the node named \<open>nm\<close>; reading returns
  it; an update of its current version replaces it, one of another version is refused as a conflict, one without a
  stored lease as neither a conflict nor the end of a context; creating stores the lease; time does not go back.
\<close>

locale lease_server =
  fixes lc :: "'s lease_client" and nm :: string and stored :: "'s \<Rightarrow> Lease option"
  assumes get: "\<exists>s'. stored s' = stored s \<and> lc_Now lc s \<le> lc_Now lc s' \<and>
      (case stored s of
         Some l \<Rightarrow> lc_Get lc nm s = (s', Inr l)
       | None \<Rightarrow> \<exists>e. lc_Get lc nm s = (s', Inl e) \<and> lc_IsNotFound lc e)"
    and update: "stored s = Some cur \<Longrightarrow> LeaseVersion l = LeaseVersion cur \<Longrightarrow>
      \<exists>s' l'. lc_Update lc l s = (s', Inr l') \<and> stored s' = Some l' \<and> RenewTime l' = RenewTime l \<and> lc_Now lc s \<le> lc_Now lc s'"
    and conflict: "stored s = Some cur \<Longrightarrow> LeaseVersion l \<noteq> LeaseVersion cur \<Longrightarrow>
      \<exists>s' e. lc_Update lc l s = (s', Inl e) \<and> lc_IsConflict lc e \<and> \<not> is_ctx_error e \<and> stored s' = stored s \<and> lc_Now lc s \<le> lc_Now lc s'"
    and missing: "stored s = None \<Longrightarrow>
      \<exists>s' e. lc_Update lc l s = (s', Inl e) \<and> \<not> lc_IsConflict lc e \<and> \<not> is_ctx_error e \<and> stored s' = None \<and> lc_Now lc s \<le> lc_Now lc s'"
    and create: "stored s = None \<Longrightarrow>
      \<exists>s' l'. lc_Create lc l s = (s', Inr l') \<and> stored s' = Some l' \<and> RenewTime l' = RenewTime l \<and> lc_Now lc s \<le> lc_Now lc s'"
begin

lemma renewed_later: "lease_renewed lc stored c s1 s' \<Longrightarrow> lc_Now lc s \<le> lc_Now lc s1 \<Longrightarrow> lease_renewed lc stored c s s'"
  by (auto simp: lease_renewed_def split: option.splits)

lemma newLease_renews [simp]: "RenewTime (newLease lc c node base s) = Some (lc_Now lc s)"
  by (simp add: newLease_def Let_def split: option.split)

lemma newLease_version [simp]: "LeaseVersion (newLease lc c node (Some b) s) = LeaseVersion b"
  by (simp add: newLease_def Let_def)

lemma newLease_owner [simp]: "OwnerReferences (newLease lc c node base s) \<noteq> []"
  by (simp add: newLease_def Let_def)

lemma ensureLease_existing:
  assumes "Name (NMeta node) = nm" and "stored s = Some cur"
  shows "\<exists>s'. ensureLease lc c node s = (s', Some cur, False, None) \<and> stored s' = Some cur \<and> lc_Now lc s \<le> lc_Now lc s'"
  using get [of s] assms by (auto simp: ensureLease_def)

lemma ensureLease_creates:
  assumes "Name (NMeta node) = nm" and "stored s = None"
  shows "\<exists>s' l t. ensureLease lc c node s = (s', Some l, True, None) \<and> stored s' = Some l \<and> RenewTime l = Some t \<and>
    lc_Now lc s \<le> t \<and> t \<le> lc_Now lc s'"
proof -
  obtain s1 e where g: "lc_Get lc nm s = (s1, Inl e)" "lc_IsNotFound lc e" "stored s1 = None" "lc_Now lc s \<le> lc_Now lc s1"
    using get [of s] assms(2) by auto
  obtain s2 l where c: "lc_Create lc (newLease lc c node None s1) s1 = (s2, Inr l)" "stored s2 = Some l"
      "RenewTime l = Some (lc_Now lc s1)" "lc_Now lc s1 \<le> lc_Now lc s2"
    using create [OF g(3), of "newLease lc c node None s1"] by auto
  then show ?thesis using g assms(1) by (auto simp: ensureLease_def Let_def)
qed

lemma update_current:
  assumes "stored s = Some cur" and "LeaseVersion b = LeaseVersion cur"
  shows "\<exists>c' s'. updateLoop k (Suc i) lc node (Some b) c s = Some (c', s', None) \<and> lease_renewed lc stored c' s s'"
proof -
  obtain s' l' where "lc_Update lc (newLease lc c node (Some b) s) s = (s', Inr l')" "stored s' = Some l'"
      "RenewTime l' = Some (lc_Now lc s)" "lc_Now lc s \<le> lc_Now lc s'"
    using update [OF assms(1), of "newLease lc c node (Some b) s"] assms(2) by auto
  then show ?thesis by (auto simp: lease_renewed_def)
qed

lemma update_stale:
  assumes "Name (NMeta node) = nm" and "stored s = Some cur" and "LeaseVersion b \<noteq> LeaseVersion cur" and "0 < k"
  shows "\<exists>c' s'. updateLoop k (Suc (Suc i)) lc node (Some b) c s = Some (c', s', None) \<and> lease_renewed lc stored c' s s'"
proof -
  obtain s1 e where u: "lc_Update lc (newLease lc c node (Some b) s) s = (s1, Inl e)" "lc_IsConflict lc e" "\<not> is_ctx_error e"
      "stored s1 = Some cur" "lc_Now lc s \<le> lc_Now lc s1"
    using conflict [OF assms(2), of "newLease lc c node (Some b) s"] assms(2,3) by auto
  obtain s2 where g: "ensureLease lc c node s1 = (s2, Some cur, False, None)" "stored s2 = Some cur" "lc_Now lc s1 \<le> lc_Now lc s2"
    using ensureLease_existing [OF assms(1) u(4)] by blast
  obtain c' s' where "updateLoop k (Suc i) lc node (Some cur) c s2 = Some (c', s', None)" "lease_renewed lc stored c' s2 s'"
    using update_current [OF g(2) refl] by blast
  moreover have "updateLoop k (Suc (Suc i)) lc node (Some b) c s = updateLoop k (Suc i) lc node (Some cur) c s2"
    unfolding updateLoop.simps(2) [of k "Suc i"] using u g(1) assms(4) by (cases k) (simp_all add: backoffEnsureLease_def del: updateLoop.simps)
  ultimately show ?thesis using u(5) g(3) renewed_later by (metis order_trans)
qed

text \<open>A stored lease is renewed from any base in at most two updates.\<close>

lemma retry_renews:
  assumes "Name (NMeta node) = nm" and "stored s = Some cur" and "0 < k"
  shows "\<exists>c' s'. retryUpdateLease k lc node (Some b) c s = Some (c', s', None) \<and> lease_renewed lc stored c' s s'"
proof (cases "LeaseVersion b = LeaseVersion cur")
  case True
  then show ?thesis using update_current [OF assms(2)] by (simp add: retryUpdateLease_def maxUpdateRetries_def eval_nat_numeral del: updateLoop.simps)
next
  case False
  then show ?thesis using update_stale [OF assms(1,2) _ assms(3)] by (simp add: retryUpdateLease_def maxUpdateRetries_def eval_nat_numeral del: updateLoop.simps)
qed

lemma update_missing:
  assumes "stored s = None"
  shows "\<exists>s'. updateLoop k i lc node base c s = Some (c, s', Some (ErrorString attempts_failed)) \<and> stored s' = None \<and> lc_Now lc s \<le> lc_Now lc s'"
  using assms
proof (induction i arbitrary: s)
  case (Suc i)
  obtain s1 e where u: "lc_Update lc (newLease lc c node base s) s = (s1, Inl e)" "\<not> lc_IsConflict lc e" "\<not> is_ctx_error e"
      "stored s1 = None" "lc_Now lc s \<le> lc_Now lc s1"
    using missing [OF Suc.prems, of "newLease lc c node base s"] by auto
  with Suc.IH [OF u(4)] show ?case by (auto intro: order_trans)
qed simp

lemma ensure_renews:
  assumes "Name (NMeta node) = nm" and "0 < k"
  shows "\<exists>c' s'. ensureAndUpdate k lc node c s = Some (c', s') \<and> lease_renewed lc stored c' s s'"
proof (cases "stored s")
  case None
  obtain s' l t where e: "ensureLease lc c node s = (s', Some l, True, None)" "stored s' = Some l" "RenewTime l = Some t"
      "lc_Now lc s \<le> t" "t \<le> lc_Now lc s'"
    using ensureLease_creates [OF assms(1) None] by blast
  then show ?thesis
    using assms(2) by (cases k) (auto simp: ensureAndUpdate_def backoffEnsureLease_def lease_renewed_def)
next
  case (Some cur)
  obtain s1 where e: "ensureLease lc c node s = (s1, Some cur, False, None)" "stored s1 = Some cur" "lc_Now lc s \<le> lc_Now lc s1"
    using ensureLease_existing [OF assms(1) Some] by blast
  obtain c' s' where "retryUpdateLease k lc node (Some cur) (c\<lparr>latestLease := Some cur\<rparr>) s1 = Some (c', s', None)" "lease_renewed lc stored c' s1 s'"
    using retry_renews [OF assms(1) e(2) assms(2)] by blast
  then show ?thesis
    using e(1,3) assms(2) renewed_later by (cases k) (auto simp: ensureAndUpdate_def backoffEnsureLease_def)
qed

lemma sync_renews:
  assumes "ping_inv (sels @ [sel]) (nodePing n)" and "ping_error (ping_result_of sel) = None"
    and "serverNode n = Some node" and "Name (NMeta node) = nm" and "0 < k"
  shows "\<exists>n' c' s'. lease_sync k lc None n c s = Val (Some (n', c', s')) \<and> lease_renewed lc stored c' s s'"
proof -
  obtain npc' where g: "getResult None (nodePing n) = Val (Some (npc', Some (ping_result_of sel), None))"
    using getResult_waits [OF assms(1)] by fastforce
  have node: "getServerNode (n\<lparr>nodePing := npc'\<rparr>) = Inr node" using assms(3) by (simp add: getServerNode_def)
  show ?thesis
  proof (cases "latestLease c")
    case None
    obtain c' s' where "ensureAndUpdate k lc node c s = Some (c', s')" "lease_renewed lc stored c' s s'" using ensure_renews [OF assms(4,5)] by blast
    then show ?thesis using g node None assms(2) by (simp add: lease_sync_def Let_def)
  next
    case (Some latest)
    let ?b = "newLease lc c node (Some latest) s"
    show ?thesis
    proof (cases "stored s")
      case None
      obtain s1 where r: "retryUpdateLease k lc node (Some ?b) c s = Some (c, s1, Some (ErrorString attempts_failed))" "lc_Now lc s \<le> lc_Now lc s1"
        using update_missing [OF None] unfolding retryUpdateLease_def by blast
      obtain c' s' where "ensureAndUpdate k lc node c s1 = Some (c', s')" "lease_renewed lc stored c' s1 s'" using ensure_renews [OF assms(4,5)] by blast
      then show ?thesis using g node Some r assms(2) renewed_later by (auto simp: lease_sync_def Let_def)
    next
      case (Some cur)
      obtain c' s' where "retryUpdateLease k lc node (Some ?b) c s = Some (c', s', None)" "lease_renewed lc stored c' s s'"
        using retry_renews [OF assms(4) Some assms(5)] by blast
      then show ?thesis using g node \<open>latestLease c = Some latest\<close> assms(2) by (simp add: lease_sync_def Let_def)
    qed
  qed
qed

end

text \<open>
  C27: While the node answers its pings and the API server answers, every round of the lease controller ends (one round of
  backoff is enough) with the node's lease on the server renewed during the round and remembered as the latest:
  when the lease is missing or was deleted it is created, and when another client has changed it the update is
  repeated on the new version.
\<close>

theorem lease_sync_renews:
  assumes "lease_server lc (Name (NMeta node)) stored"
    and "newNodePingController interval timeout = Val npc0" and "ping_Run (sels @ [sel]) npc0 = Val (nodePing n)"
    and "ping_error (ping_result_of sel) = None" and "serverNode n = Some node" and "0 < k"
  shows "\<exists>n' c' s'. lease_sync k lc None n c s = Val (Some (n', c', s')) \<and> lease_renewed lc stored c' s s'"
proof -
  have "ping_inv (sels @ [sel]) (nodePing n)"
    using ping_Run_inv [OF ping_inv_new [OF assms(2)], of "sels @ [sel]"] assms(3) by simp
  from lease_server.sync_renews [OF assms(1) this assms(4,5) refl assms(6)] show ?thesis .
qed

text \<open>
  \<open>sync\<close> of the lease controller panics exactly when its context ends before it has got a ping result: the error of
  \<open>getResult\<close> is logged and the nil result is read.
\<close>

theorem lease_sync_panics_iff:
  assumes "newNodePingController interval timeout = Val npc0" and "ping_Run sels npc0 = Val (nodePing n)"
  shows "\<not> no_panic (lease_sync k lc ctx n c s) \<longleftrightarrow> ctx \<noteq> None"
proof -
  have inv: "ping_inv sels (nodePing n)"
    using ping_Run_inv [OF ping_inv_new [OF assms(1)], of sels] assms(2) by simp
  show ?thesis
  proof (cases ctx)
    case None
    obtain npc' where "getResult None (nodePing n) = (if sels = [] then Val None else Val (Some (npc', Some (ping_result_of (last sels)), None)))"
      using getResult_waits [OF inv] by blast
    then show ?thesis
      using None by (auto simp: lease_sync_def Let_def no_panic_iff split: sum.split option.split)
  next
    case (Some e)
    then show ?thesis using getResult_cancelled [OF inv, of e] by (auto simp: lease_sync_def Let_def simp del: obind_Val_iff)
  qed
qed

text \<open>
  A failed ping stops the renewal: the round makes no call and keeps the latest lease.
\<close>

theorem failed_ping_stops_renewal:
  assumes "newNodePingController interval timeout = Val npc0" and "ping_Run (sels @ [sel]) npc0 = Val (nodePing n)"
    and "ping_error (ping_result_of sel) \<noteq> None"
  shows "\<exists>n'. lease_sync k lc None n c s = Val (Some (n', c, s)) \<and> serverNode n' = serverNode n"
proof -
  have "ping_inv (sels @ [sel]) (nodePing n)"
    using ping_Run_inv [OF ping_inv_new [OF assms(1)], of "sels @ [sel]"] assms(2) by simp
  then obtain npc' where "getResult None (nodePing n) = Val (Some (npc', Some (ping_result_of sel), None))"
    using getResult_waits by fastforce
  then show ?thesis using assms(3) by (simp add: lease_sync_def Let_def)
qed

subsection \<open>Backoff\<close>

text \<open>The sleep after \<open>n\<close> failures.\<close>

definition backoff_sleep :: "nat \<Rightarrow> int" where
  "backoff_sleep n = min (100000000 * 2 ^ n) maxBackoff"

lemma backoff_sleep_Suc: "minDuration (2 * backoff_sleep n) maxBackoff = backoff_sleep (Suc n)"
  by (auto simp: backoff_sleep_def minDuration_def maxBackoff_def time_Second_def)

lemma backoffLoop_returns:
  assumes "\<And>i. i < n \<Longrightarrow> \<exists>s1 l cr e. ensureLease lc c node (st i) = (s1, l, cr, Some e) \<and> lc_wait lc (backoff_sleep (Suc (m + i))) s1 = (st (Suc i), False)"
    and "ensureLease lc c node (st n) = (s', lease, created, None)" and "n < k"
  shows "backoffLoop k lc c node (backoff_sleep m) (st 0) = Some (s', lease, created)"
  using assms
proof (induction n arbitrary: m k st)
  case 0
  then show ?case by (cases k) simp_all
next
  case (Suc n)
  obtain s1 l cr e where r: "ensureLease lc c node (st 0) = (s1, l, cr, Some e)" "lc_wait lc (backoff_sleep (Suc m)) s1 = (st (Suc 0), False)"
    using Suc.prems(1) [of 0] by auto
  obtain k' where k: "k = Suc k'" "n < k'" using Suc.prems(3) by (cases k) auto
  have "backoffLoop k' lc c node (backoff_sleep (Suc m)) (st (Suc 0)) = Some (s', lease, created)"
    using Suc.IH [of "\<lambda>i. st (Suc i)" "Suc m" k'] Suc.prems(1) [of "Suc _"] Suc.prems(2) k(2) by simp
  then show ?case using r k(1) by (simp add: backoff_sleep_Suc)
qed

text \<open>
  Backing off ends: when ensuring the lease fails \<open>n\<close> times and then succeeds, and the context does not end meanwhile,
  \<open>backoffEnsureLease\<close> returns the lease in its round \<open>n + 1\<close>; the sleeps between the rounds double from 200 milliseconds
  and never exceed seven seconds.
\<close>

theorem backoff_ends_with_lease:
  assumes "\<And>i. i < n \<Longrightarrow> \<exists>s1 l cr e. ensureLease lc c node (st i) = (s1, l, cr, Some e) \<and>
      lc_wait lc (min (100000000 * 2 ^ Suc i) maxBackoff) s1 = (st (Suc i), False)"
    and "ensureLease lc c node (st n) = (s', lease, created, None)" and "n < k"
  shows "backoffEnsureLease k lc c node (st 0) = Some (s', lease, created)"
proof -
  have "backoff_sleep 0 = 100000000" by (simp add: backoff_sleep_def maxBackoff_def time_Second_def)
  then show ?thesis
    unfolding backoffEnsureLease_def using backoffLoop_returns [where m = 0 and n = n and st = st and k = k] assms
    by (simp add: backoff_sleep_def)
qed

subsection \<open>Options\<close>

text \<open>
  The option that enables leases with the default renewal fraction is accepted exactly for the durations 0 (the
  default of 40 seconds) and at least 4 seconds: the fraction of a shorter one truncates to an interval of zero,
  which is rejected.
\<close>

theorem lease_option_accepted_iff:
  assumes "\<bar>d\<bar> < 2 ^ 31"
  shows "(\<exists>n. NewNodeController node s [WithNodeEnableLeaseV1 d] = Val (Inr n)) \<longleftrightarrow> d = 0 \<or> 4 \<le> d"
proof -
  define d' where "d' = (if d = 0 then DefaultLeaseDuration else d)"
  have frac: "- (2 ^ 30) \<le> renewFraction d'" "renewFraction d' < 2 ^ 30"
    using assms by (auto simp: renewFraction_def d'_def DefaultLeaseDuration_def)
  have i64: "int64 (time_Second * renewFraction d') = time_Second * renewFraction d'"
    by (rule int64_id) (use frac in \<open>simp_all add: time_Second_def\<close>)
  have ok: "(\<exists>c. newLeaseControllerWithRenewInterval d' (time_Second * renewFraction d') = Inr c) \<longleftrightarrow> d = 0 \<or> 4 \<le> d"
    by (auto simp: newLeaseControllerWithRenewInterval_def renewFraction_def d'_def DefaultLeaseDuration_def time_Second_def)
  have d'0: "(if d' = 0 then DefaultLeaseDuration else d') = d'" by (simp add: d'_def DefaultLeaseDuration_def)
  have opt: "WithNodeEnableLeaseV1 d = WithNodeEnableLeaseV1WithRenewInterval d' (time_Second * renewFraction d')"
    unfolding WithNodeEnableLeaseV1_def Let_def d'_def [symmetric] i64 ..
  show ?thesis
    unfolding ok [symmetric] opt
    by (cases "newLeaseControllerWithRenewInterval d' (time_Second * renewFraction d')")
      (auto simp: NewNodeController_def d'0 newNodePingController_def DefaultPingInterval_def time_Second_def simp del: obind_Val_iff)
qed

theorem lease_option_accepted_iff_witness:
  "\<not> (\<exists>n. NewNodeController emptyNode (0::nat) [WithNodeEnableLeaseV1 3] = Val (Inr n)) \<and>
   (\<exists>n. NewNodeController emptyNode (0::nat) [WithNodeEnableLeaseV1 4] = Val (Inr n))"
  using lease_option_accepted_iff [of 3 emptyNode "0::nat"] lease_option_accepted_iff [of 4 emptyNode "0::nat"] by simp

subsection \<open>A concrete server\<close>

text \<open>One lease with a counter for its version and a clock that every call advances.\<close>

record lease_table =
  lt_lease :: "Lease option"
  lt_version :: nat
  lt_clock :: int

definition tick :: "lease_table \<Rightarrow> lease_table" where
  "tick s = s\<lparr>lt_clock := lt_clock s + 1\<rparr>"

definition lt_store :: "Lease \<Rightarrow> lease_table \<Rightarrow> lease_table \<times> Lease result" where
  "lt_store l s = (let l' = l\<lparr>LeaseVersion := replicate (lt_version s) CHR ''v''\<rparr>
     in ((tick s)\<lparr>lt_lease := Some l', lt_version := Suc (lt_version s)\<rparr>, Inr l'))"

definition table_client :: "lease_table lease_client" where
  "table_client = \<lparr>lc_Get = (\<lambda>n s. (tick s, case lt_lease s of Some l \<Rightarrow> Inr l | None \<Rightarrow> Inl (StatusError ''NotFound'' ''no lease''))),
     lc_Create = lt_store,
     lc_Update = (\<lambda>l s. case lt_lease s of
         None \<Rightarrow> (tick s, Inl (StatusError ''NotFound'' ''no lease''))
       | Some cur \<Rightarrow> if LeaseVersion l = LeaseVersion cur then lt_store l s else (tick s, Inl (StatusError ''Conflict'' ''changed''))),
     lc_IsNotFound = (\<lambda>e. e = StatusError ''NotFound'' ''no lease''), lc_IsConflict = (\<lambda>e. e = StatusError ''Conflict'' ''changed''),
     lc_Now = lt_clock, lc_wait = (\<lambda>d s. (s\<lparr>lt_clock := lt_clock s + max 0 d\<rparr>, False))\<rparr>"

lemma lease_server_table: "lease_server table_client nm lt_lease"
proof
  fix s
  show "\<exists>s'. lt_lease s' = lt_lease s \<and> lc_Now table_client s \<le> lc_Now table_client s' \<and>
      (case lt_lease s of
         Some l \<Rightarrow> lc_Get table_client nm s = (s', Inr l)
       | None \<Rightarrow> \<exists>e. lc_Get table_client nm s = (s', Inl e) \<and> lc_IsNotFound table_client e)"
    by (rule exI [of _ "tick s"]) (simp add: table_client_def tick_def split: option.split)
qed (auto simp: table_client_def lt_store_def tick_def Let_def split: option.split)

interpretation leases: lease_server table_client "''n1''" lt_lease
  by (rule lease_server_table)

definition lease_ctl :: leaseController where
  "lease_ctl = \<lparr>leaseDurationSeconds = 40, renewInterval = 10, latestLease = None\<rparr>"

definition no_lease :: lease_table where
  "no_lease = \<lparr>lt_lease = None, lt_version = 0, lt_clock = 100\<rparr>"

theorem lease_sync_renews_witness:
  "\<exists>n' c' s'. lease_sync 1 table_client None healthy lease_ctl no_lease = Val (Some (n', c', s')) \<and>
     lease_renewed table_client lt_lease c' no_lease s'"
  by (rule lease_sync_renews [OF lease_server_table fresh_ping_new healthy_pinged]) (simp_all add: healthy_def)

theorem lease_sync_panics_iff_witness:
  "\<not> no_panic (lease_sync 1 table_client (Some CtxCanceled) healthy lease_ctl no_lease) \<and>
   no_panic (lease_sync 1 table_client None healthy lease_ctl no_lease)"
  using lease_sync_panics_iff [OF fresh_ping_new healthy_pinged, of 1 table_client "Some CtxCanceled" lease_ctl no_lease]
    lease_sync_panics_iff [OF fresh_ping_new healthy_pinged, of 1 table_client None lease_ctl no_lease] by simp

theorem failed_ping_stops_renewal_witness:
  "\<exists>n'. lease_sync 1 table_client None sick lease_ctl no_lease = Val (Some (n', lease_ctl, no_lease)) \<and> serverNode n' = serverNode sick"
  by (rule failed_ping_stops_renewal [OF fresh_ping_new sick_pinged]) simp

text \<open>A server whose first read fails.\<close>

definition flaky_client :: "lease_table lease_client" where
  "flaky_client = table_client\<lparr>lc_Get := (\<lambda>n s. if lt_clock s = 100 then (tick s, Inl (StatusError ''Timeout'' ''slow'')) else lc_Get table_client n s)\<rparr>"

theorem backoff_ends_with_lease_witness:
  "\<exists>s' lease. backoffEnsureLease 2 flaky_client lease_ctl node1 no_lease = Some (s', lease, True)"
proof -
  define st where "st = (\<lambda>i::nat. if i = 0 then no_lease else no_lease\<lparr>lt_clock := 200000101\<rparr>)"
  obtain s' lease where ok: "ensureLease flaky_client lease_ctl node1 (st 1) = (s', lease, True, None)"
    by (simp add: st_def ensureLease_def flaky_client_def table_client_def no_lease_def tick_def lt_store_def newLease_def Let_def)
  have "backoffEnsureLease 2 flaky_client lease_ctl node1 (st 0) = Some (s', lease, True)"
  proof (rule backoff_ends_with_lease [where n = 1 and st = st, OF _ ok])
    fix i :: nat
    assume "i < 1"
    then show "\<exists>s1 l cr e. ensureLease flaky_client lease_ctl node1 (st i) = (s1, l, cr, Some e) \<and>
        lc_wait flaky_client (min (100000000 * 2 ^ Suc i) maxBackoff) s1 = (st (Suc i), False)"
      by (simp add: st_def ensureLease_def flaky_client_def table_client_def no_lease_def tick_def maxBackoff_def time_Second_def)
        (rule exI [of _ False], simp)
  qed simp
  then show ?thesis by (auto simp: st_def)
qed

end
