(* ===== verification/Node_Config.thy ===== *)
theory Node_Config
  imports Node_Lease Mock_Provider Strconv
begin

text \<open>
  The node object of the kubelet: how it is built (\<open>NodeFromProvider\<close> and \<open>setNodeReady\<close> under
  \<open>src/cmd/virtual-kubelet/internal/commands/root\<close>), how the two providers configure it (\<open>native/node.go\<close> and the node methods of \<open>mock.go\<close>)
  and the arithmetic on resource lists of \<open>native/node.go\<close>. Writing to a nil map of labels panics.
\<close>

subsection \<open>Resource lists\<close>

fun add :: "ResourceList \<Rightarrow> ResourceList \<Rightarrow> ResourceList" where
  "add tot [] = tot"
| "add tot ((name, quantity) # item) =
     add (go_put name (case go_get tot name of None \<Rightarrow> quantity | Some r \<Rightarrow> r + quantity) tot) item"

fun sub :: "ResourceList \<Rightarrow> ResourceList \<Rightarrow> ResourceList" where
  "sub tot [] = tot"
| "sub tot ((name, val) # item) =
     (case go_get tot name of None \<Rightarrow> sub tot item | Some r \<Rightarrow> sub (go_put name (r - val) tot) item)"

definition totalResourceList :: "ResourceList list \<Rightarrow> ResourceList" where
  "totalResourceList rs = fold (\<lambda>item tot. add tot item) rs []"

subsection \<open>Labels\<close>

definition nil_map_write :: string where "nil_map_write = ''assignment to entry in nil map''"

definition put_label :: "string \<Rightarrow> string \<Rightarrow> Node \<Rightarrow> Node outcome" where
  "put_label k v node =
     (case Labels (NMeta node) of
        None \<Rightarrow> Panic nil_map_write
      | Some l \<Rightarrow> Val (node\<lparr>NMeta := (NMeta node)\<lparr>Labels := Some (go_put k v l)\<rparr>\<rparr>))"

fun put_labels :: "(string \<times> string) list \<Rightarrow> Node \<Rightarrow> Node outcome" where
  "put_labels [] node = Val node"
| "put_labels ((k, v) # kvs) node = obind (put_label k v node) (put_labels kvs)"

subsection \<open>The native provider's node\<close>

definition node_condition :: "int \<Rightarrow> string \<Rightarrow> string \<Rightarrow> string \<Rightarrow> string \<Rightarrow> NodeCondition" where
  "node_condition now t st reason msg =
     \<lparr>NCType = t, NCStatus = st, LastHeartbeatTime = now, LastTransitionTime = now, NCReason = reason, NCMessage = msg\<rparr>"

definition ConditionTrue :: string where "ConditionTrue = ''True''"
definition ConditionFalse :: string where "ConditionFalse = ''False''"

definition native_nodeConditions :: "int \<Rightarrow> NodeCondition list" where
  "native_nodeConditions now =
     [node_condition now ''Ready'' ConditionTrue ''KubeletReady'' ''virtual-kubelet is posting ready status'',
      node_condition now ''MemoryPressure'' ConditionFalse ''KubeletHasSufficientMemory'' ''virtual-kubelet has sufficient memory available'',
      node_condition now ''DiskPressure'' ConditionFalse ''KubeletHasNoDiskPressure'' ''virtual-kubelet has no disk pressure'',
      node_condition now ''PIDPressure'' ConditionFalse ''KubeletHasSufficientPID'' ''virtual-kubelet has sufficient PID available'']"

record InitConfig =
  ConfigPath :: string
  ic_NodeName :: string
  ic_OperatingSystem :: string
  ic_InternalIP :: string
  DaemonPort :: int
  ic_KubeClusterDomain :: string
  ic_Version :: string

text \<open>\<open>VirtualMemory\<close> of gopsutil (the available bytes) and \<open>runtime.NumCPU\<close> are parameters. \<open>math.MaxInt64\<close> pods.\<close>

definition native_resources :: "int \<Rightarrow> int \<Rightarrow> ResourceList" where
  "native_resources numCPU available = [(''cpu'', numCPU * 1000), (''memory'', 1000 * int64 available), (''pods'', 1000 * (2 ^ 63 - 1))]"

definition exclude_balancer_labels :: "(string \<times> string) list" where
  "exclude_balancer_labels = [(''alpha.service-controller.kubernetes.io/exclude-balancer'', ''true''),
     (''node.kubernetes.io/exclude-from-external-load-balancers'', ''true'')]"

definition configureNode :: "InitConfig \<Rightarrow> int \<Rightarrow> int \<Rightarrow> int result \<Rightarrow> Node \<Rightarrow> Node outcome" where
  "configureNode cfg now numCPU virtualMemory node =
     (case virtualMemory of
        Inl err \<Rightarrow> Panic (Error err)
      | Inr available \<Rightarrow>
          let resources = native_resources numCPU available;
              status = (NStatus node)\<lparr>NAddresses := [(''InternalIP'', ic_InternalIP cfg)], NConditions := native_nodeConditions now,
                DaemonEndpoint := DaemonPort cfg, Allocatable := resources, Capacity := resources,
                NodeInfo := (NodeInfo (NStatus node))\<lparr>KubeletVersion := ic_Version cfg, OSImage := ic_Version cfg, KernelVersion := ic_Version cfg,
                  NodeOS := ''linux'', Architecture := ''amd64''\<rparr>\<rparr> in
          put_labels ([(''kubernetes.io/arch'', ''amd64''), (''kubernetes.io/os'', ''linux'')] @ exclude_balancer_labels) (node\<lparr>NStatus := status\<rparr>))"

subsection \<open>The mock provider's node\<close>

definition mock_nodeConditions :: "int \<Rightarrow> NodeCondition list" where
  "mock_nodeConditions now =
     [node_condition now ''Ready'' ConditionFalse ''KubeletPending'' ''kubelet is pending.'',
      node_condition now ''OutOfDisk'' ConditionFalse ''KubeletHasSufficientDisk'' ''kubelet has sufficient disk space available'',
      node_condition now ''MemoryPressure'' ConditionFalse ''KubeletHasSufficientMemory'' ''kubelet has sufficient memory available'',
      node_condition now ''DiskPressure'' ConditionFalse ''KubeletHasNoDiskPressure'' ''kubelet has no disk pressure'',
      node_condition now ''NetworkUnavailable'' ConditionFalse ''RouteCreated'' ''RouteController created a route'']"

text \<open>\<open>resource.MustParse\<close> panics on what \<open>ParseQuantity\<close>, a parameter, refuses.\<close>

definition MustParse :: "(string \<Rightarrow> int option) \<Rightarrow> string \<Rightarrow> int outcome" where
  "MustParse parseQuantity s = (case parseQuantity s of None \<Rightarrow> Panic (''cannot parse '' @ s) | Some n \<Rightarrow> Val n)"

definition mock_capacity :: "(string \<Rightarrow> int option) \<Rightarrow> MockConfig \<Rightarrow> ResourceList outcome" where
  "mock_capacity parseQuantity cfg =
     obind (MustParse parseQuantity (CPU cfg)) (\<lambda>cpu.
     obind (MustParse parseQuantity (Memory cfg)) (\<lambda>mem.
     obind (MustParse parseQuantity (Pods cfg)) (\<lambda>npods.
       Val [(''cpu'', cpu), (''memory'', mem), (''pods'', npods)])))"

definition nodeAddresses :: "MockProvider \<Rightarrow> (string \<times> string) list" where
  "nodeAddresses p = [(''InternalIP'', internalIP p)]"

definition mock_ConfigureNode :: "(string \<Rightarrow> int option) \<Rightarrow> int \<Rightarrow> MockProvider \<Rightarrow> Node \<Rightarrow> Node outcome" where
  "mock_ConfigureNode parseQuantity now p node =
     obind (mock_capacity parseQuantity (config p)) (\<lambda>cap.
       let os = (if operatingSystem p = [] then ''Linux'' else operatingSystem p);
           status = (NStatus node)\<lparr>Capacity := cap, Allocatable := cap, NConditions := mock_nodeConditions now, NAddresses := nodeAddresses p,
             DaemonEndpoint := daemonEndpointPort p, NodeInfo := (NodeInfo (NStatus node))\<lparr>NodeOS := os, Architecture := ''amd64''\<rparr>\<rparr> in
       put_labels exclude_balancer_labels (node\<lparr>NStatus := status\<rparr>))"

subsection \<open>The node from its provider\<close>

definition osLabel :: string where "osLabel = ''beta.kubernetes.io/os''"
definition NodeTypeLabel :: string where "NodeTypeLabel = ''type''"
definition NodeRoleLabel :: string where "NodeRoleLabel = ''kubernetes.io/role''"
definition NodeHostNameLabel :: string where "NodeHostNameLabel = ''kubernetes.io/hostname''"
definition NodeTypeValue :: string where "NodeTypeValue = ''virtual-kubelet''"
definition NodeRoleValue :: string where "NodeRoleValue = ''agent''"

lemmas node_labels = osLabel_def NodeTypeLabel_def NodeRoleLabel_def NodeHostNameLabel_def NodeTypeValue_def NodeRoleValue_def

definition base_node :: "string \<Rightarrow> Taint option \<Rightarrow> string \<Rightarrow> Node" where
  "base_node name taint version =
     emptyNode\<lparr>NMeta := emptyMeta\<lparr>Name := name,
         Labels := Some [(NodeTypeLabel, NodeTypeValue), (NodeRoleLabel, NodeRoleValue), (NodeHostNameLabel, name)]\<rparr>,
       Taints := (case taint of None \<Rightarrow> [] | Some t \<Rightarrow> [t]),
       NStatus := emptyNodeStatus\<lparr>NodeInfo := (NodeInfo emptyNodeStatus)\<lparr>Architecture := ''amd64'', KubeletVersion := version\<rparr>\<rparr>\<rparr>"

definition label_of :: "Node \<Rightarrow> string \<Rightarrow> string option" where
  "label_of node k = (case Labels (NMeta node) of None \<Rightarrow> None | Some l \<Rightarrow> go_get l k)"

definition NodeFromProvider :: "(Node \<Rightarrow> Node outcome) \<Rightarrow> string \<Rightarrow> Taint option \<Rightarrow> string \<Rightarrow> Node outcome" where
  "NodeFromProvider ConfigureNode name taint version =
     obind (ConfigureNode (base_node name taint version)) (\<lambda>node.
       if label_of node osLabel = None then put_label osLabel (ToLower (NodeOS (NodeInfo (NStatus node)))) node else Val node)"

fun readyConditions :: "int \<Rightarrow> NodeCondition list \<Rightarrow> NodeCondition list" where
  "readyConditions now [] = []"
| "readyConditions now (c # cs) =
     (if NCType c \<noteq> ''Ready'' then c # readyConditions now cs
      else c\<lparr>NCMessage := ''Kubelet is ready'', NCReason := ''KubeletReady'', NCStatus := ConditionTrue, LastHeartbeatTime := now, LastTransitionTime := now\<rparr> # cs)"

definition setNodeReady :: "int \<Rightarrow> Node \<Rightarrow> Node" where
  "setNodeReady now n = n\<lparr>NStatus := (NStatus n)\<lparr>NConditions := readyConditions now (NConditions (NStatus n))\<rparr>\<rparr>"

subsection \<open>Sums of resources\<close>

lemma add_get:
  "distinct (map fst item) \<Longrightarrow> go_get (add tot item) k =
     (case go_get item k of None \<Rightarrow> go_get tot k | Some q \<Rightarrow> Some (q + (case go_get tot k of None \<Rightarrow> 0 | Some r \<Rightarrow> r)))"
proof (induction tot item rule: add.induct)
  case (2 tot name q item)
  have "go_get item name = None" using "2.prems" by (simp add: map_of_eq_None_iff)
  then show ?case using 2 by (cases "k = name") (auto simp: go_get_put split: option.split)
qed simp

lemma sub_get:
  "distinct (map fst item) \<Longrightarrow> go_get (sub tot item) k =
     (case go_get tot k of None \<Rightarrow> None | Some r \<Rightarrow> Some (r - (case go_get item k of None \<Rightarrow> 0 | Some q \<Rightarrow> q)))"
proof (induction tot item rule: sub.induct)
  case (2 tot name q item)
  have "go_get item name = None" using "2.prems" by (simp add: map_of_eq_None_iff)
  then show ?case using 2 by (cases "k = name") (auto simp: go_get_put split: option.split)
qed (simp split: option.split)

text \<open>The amount of a resource in a list of resource lists, where it is in one of them at all.\<close>

definition amount :: "ResourceList \<Rightarrow> string \<Rightarrow> int" where
  "amount r k = (case go_get r k of None \<Rightarrow> 0 | Some q \<Rightarrow> q)"

lemma fold_add_get:
  "(\<forall>item \<in> set rs. distinct (map fst item)) \<Longrightarrow> go_get (fold (\<lambda>item tot. add tot item) rs tot) k =
     (if go_get tot k = None \<and> (\<forall>item \<in> set rs. go_get item k = None) then None
      else Some (amount tot k + (\<Sum>item \<leftarrow> rs. amount item k)))"
proof (induction rs arbitrary: tot)
  case Nil
  show ?case by (auto simp: amount_def split: option.split)
next
  case (Cons item rs)
  have get: "go_get (add tot item) k =
      (case go_get item k of None \<Rightarrow> go_get tot k | Some q \<Rightarrow> Some (q + (case go_get tot k of None \<Rightarrow> 0 | Some r \<Rightarrow> r)))"
    using Cons.prems by (intro add_get) simp
  have "amount (add tot item) k = amount tot k + amount item k" by (simp add: amount_def get split: option.split)
  moreover have "go_get (add tot item) k = None \<longleftrightarrow> go_get tot k = None \<and> go_get item k = None" by (simp add: get split: option.split)
  ultimately show ?case using Cons.IH [of "add tot item"] Cons.prems
    by (auto simp: algebra_simps dest: weak_map_of_SomeI)
qed

text \<open>
  The total of resource lists has exactly the resources that occur in one of them, each with the sum of its amounts.
\<close>

theorem totalResourceList_sums:
  assumes "\<forall>item \<in> set rs. distinct (map fst item)"
  shows "go_get (totalResourceList rs) k =
    (if \<forall>item \<in> set rs. go_get item k = None then None else Some (\<Sum>item \<leftarrow> rs. amount item k))"
  using fold_add_get [OF assms, of "[]" k] by (simp add: totalResourceList_def amount_def)

theorem totalResourceList_sums_witness:
  "go_get (totalResourceList [[(''cpu'', 1500)], [(''memory'', 8), (''cpu'', 250)]]) ''cpu'' = Some 1750"
  using totalResourceList_sums [of "[[(''cpu'', 1500)], [(''memory'', 8), (''cpu'', 250)]]" "''cpu''"] by (simp add: amount_def)

lemma sub_undoes_add:
  "distinct (map fst item) \<Longrightarrow> go_get tot k = Some q \<Longrightarrow> go_get (sub (add tot item) item) k = Some q"
  by (simp add: sub_get add_get split: option.split)

subsection \<open>The node of a provider\<close>

lemma put_labels_ok:
  assumes "Labels (NMeta node) = Some l"
  shows "\<exists>l'. put_labels kvs node = Val (node\<lparr>NMeta := (NMeta node)\<lparr>Labels := Some l'\<rparr>\<rparr>) \<and>
    (\<forall>k. go_get l' k = (case go_get (rev kvs) k of None \<Rightarrow> go_get l k | Some v \<Rightarrow> Some v))"
  using assms
proof (induction kvs arbitrary: node l)
  case Nil
  then show ?case by (intro exI [of _ l]) (cases node; cases "NMeta node"; simp)
next
  case (Cons kv kvs)
  obtain k v where kv: "kv = (k, v)" by fastforce
  let ?n = "node\<lparr>NMeta := (NMeta node)\<lparr>Labels := Some (go_put k v l)\<rparr>\<rparr>"
  have "Labels (NMeta ?n) = Some (go_put k v l)" by simp
  from Cons.IH [OF this] obtain l' where
      "put_labels kvs ?n = Val (?n\<lparr>NMeta := (NMeta ?n)\<lparr>Labels := Some l'\<rparr>\<rparr>)"
      "\<forall>x. go_get l' x = (case go_get (rev kvs) x of None \<Rightarrow> go_get (go_put k v l) x | Some w \<Rightarrow> Some w)" by blast
  then show ?case
    using Cons.prems kv by (intro exI [of _ l']) (auto simp: put_label_def go_get_put map_add_def split: option.split)
qed

lemma readyConditions_status:
  "\<exists>c \<in> set cs. NCType c = ''Ready'' \<Longrightarrow>
     map_of (map (\<lambda>c. (NCType c, c)) (readyConditions now cs)) t =
       (if t = ''Ready'' then Some (node_condition now ''Ready'' ConditionTrue ''KubeletReady'' ''Kubelet is ready'')
        else map_of (map (\<lambda>c. (NCType c, c)) cs) t)"
proof (induction cs)
  case (Cons c cs)
  show ?case
  proof (cases "NCType c = ''Ready''")
    case True
    then have "c\<lparr>NCMessage := ''Kubelet is ready'', NCReason := ''KubeletReady'', NCStatus := ConditionTrue, LastHeartbeatTime := now, LastTransitionTime := now\<rparr>
        = node_condition now ''Ready'' ConditionTrue ''KubeletReady'' ''Kubelet is ready''"
      by (cases c) (simp add: node_condition_def)
    then show ?thesis using True by (simp add: node_condition_def)
  next
    case False
    then show ?thesis using Cons by auto
  qed
qed simp

definition identity_labels :: "string list" where
  "identity_labels = [NodeTypeLabel, NodeRoleLabel, NodeHostNameLabel, osLabel]"

definition has_ready :: "Node \<Rightarrow> bool" where
  "has_ready node = list_ex (\<lambda>c. NCType c = ''Ready'') (NConditions (NStatus node))"

definition configured :: "string \<Rightarrow> Node \<Rightarrow> Node \<Rightarrow> bool" where
  "configured os_name node node' = (Labels (NMeta node') \<noteq> None \<and> Name (NMeta node') = Name (NMeta node) \<and> Taints node' = Taints node \<and>
     list_all (\<lambda>k. label_of node' k = label_of node k) identity_labels \<and> NodeOS (NodeInfo (NStatus node')) = os_name \<and> has_ready node')"

text \<open>
  What the kubelet relies on in a provider's configuration of the node: it does not panic, keeps the node's name, taints and the labels
  that identify it, and leaves a condition \<open>Ready\<close>.
\<close>

locale node_configurer =
  fixes configure :: "Node \<Rightarrow> Node outcome" and os_name :: string
  assumes configures: "Labels (NMeta node) \<noteq> None \<Longrightarrow> \<exists>node'. configure node = Val node' \<and> configured os_name node node'"
begin

lemma node_from_provider:
  "\<exists>node. NodeFromProvider configure name taint version = Val node \<and> Name (NMeta node) = name \<and>
     Taints node = (case taint of None \<Rightarrow> [] | Some t \<Rightarrow> [t]) \<and> label_of node NodeTypeLabel = Some NodeTypeValue \<and>
     label_of node NodeRoleLabel = Some NodeRoleValue \<and> label_of node NodeHostNameLabel = Some name \<and>
     label_of node osLabel = Some (ToLower os_name) \<and> has_ready node"
proof -
  let ?b = "base_node name taint version"
  have b: "Labels (NMeta ?b) \<noteq> None" "Name (NMeta ?b) = name" "Taints ?b = (case taint of None \<Rightarrow> [] | Some t \<Rightarrow> [t])"
      "label_of ?b NodeTypeLabel = Some NodeTypeValue" "label_of ?b NodeRoleLabel = Some NodeRoleValue" "label_of ?b NodeHostNameLabel = Some name"
      "label_of ?b osLabel = None"
    by (simp_all add: base_node_def label_of_def node_labels)
  from configures [OF b(1)] obtain n where run: "configure ?b = Val n" and "configured os_name ?b n" by blast
  then have n: "Labels (NMeta n) \<noteq> None" "Name (NMeta n) = name" "Taints n = Taints ?b" "has_ready n" "NodeOS (NodeInfo (NStatus n)) = os_name"
      and ls: "label_of n NodeTypeLabel = Some NodeTypeValue" "label_of n NodeRoleLabel = Some NodeRoleValue"
      "label_of n NodeHostNameLabel = Some name" "label_of n osLabel = None"
    using b by (simp_all add: configured_def identity_labels_def)
  obtain l where l: "Labels (NMeta n) = Some l" using n(1) by blast
  have ne: "NodeTypeLabel \<noteq> osLabel" "NodeRoleLabel \<noteq> osLabel" "NodeHostNameLabel \<noteq> osLabel" by (simp_all add: node_labels)
  let ?n = "n\<lparr>NMeta := (NMeta n)\<lparr>Labels := Some (go_put osLabel (ToLower os_name) l)\<rparr>\<rparr>"
  have "NodeFromProvider configure name taint version = Val ?n"
    using run n(5) l ls(4) by (simp add: NodeFromProvider_def put_label_def)
  then show ?thesis
    using n(2-4) b(3) ls ne l by (intro exI [of _ ?n] conjI) (simp_all add: label_of_def go_get_put has_ready_def)
qed

lemma ready_after_start:
  "\<exists>node. NodeFromProvider configure name taint version = Val node \<and>
     condition_of (NStatus (setNodeReady now node)) ''Ready'' =
       Some (node_condition now ''Ready'' ConditionTrue ''KubeletReady'' ''Kubelet is ready'') \<and>
     (\<forall>t. t \<noteq> ''Ready'' \<longrightarrow> condition_of (NStatus (setNodeReady now node)) t = condition_of (NStatus node) t)"
proof -
  obtain node where run: "NodeFromProvider configure name taint version = Val node" and "has_ready node"
    using node_from_provider by blast
  then have "\<exists>c \<in> set (NConditions (NStatus node)). NCType c = ''Ready''" by (simp add: has_ready_def list_ex_iff)
  from readyConditions_status [OF this, of now] show ?thesis
    using run by (intro exI [of _ node]) (simp add: condition_of_def setNodeReady_def)
qed

end

text \<open>Both providers set a status and then labels of their own.\<close>

lemma configured_by_labels:
  assumes "Labels (NMeta node) \<noteq> None" and "set (map fst kvs) \<inter> set identity_labels = {}"
    and "NodeOS (NodeInfo st) = os_name" and "list_ex (\<lambda>c. NCType c = ''Ready'') (NConditions st)"
  shows "\<exists>node'. put_labels kvs (node\<lparr>NStatus := st\<rparr>) = Val node' \<and> configured os_name node node'"
proof -
  obtain l where l: "Labels (NMeta node) = Some l" "Labels (NMeta (node\<lparr>NStatus := st\<rparr>)) = Some l" using assms(1) by auto
  obtain l' where run: "put_labels kvs (node\<lparr>NStatus := st\<rparr>) = Val (node\<lparr>NStatus := st, NMeta := (NMeta node)\<lparr>Labels := Some l'\<rparr>\<rparr>)"
      and get: "\<And>k. go_get l' k = (case go_get (rev kvs) k of None \<Rightarrow> go_get l k | Some v \<Rightarrow> Some v)"
    using put_labels_ok [OF l(2), of kvs] by auto
  have "go_get (rev kvs) k = None" if "k \<in> set identity_labels" for k
    using assms(2) that by (force simp: map_of_eq_None_iff)
  then have "list_all (\<lambda>k. go_get l' k = go_get l k) identity_labels" by (simp add: list_all_iff get)
  then show ?thesis using run l(1) assms(3,4) by (simp add: configured_def label_of_def has_ready_def)
qed

lemma exclude_balancer_no_identity: "set (map fst exclude_balancer_labels) \<inter> set identity_labels = {}"
  by (simp add: exclude_balancer_labels_def identity_labels_def node_labels)

interpretation native_node: node_configurer "configureNode cfg now numCPU (Inr available)" "''linux''"
proof
  fix node :: Node
  assume l: "Labels (NMeta node) \<noteq> None"
  let ?kvs = "[(''kubernetes.io/arch'', ''amd64''), (''kubernetes.io/os'', ''linux'')] @ exclude_balancer_labels"
  have "set (map fst ?kvs) \<inter> set identity_labels = {}"
    using exclude_balancer_no_identity by (simp add: identity_labels_def node_labels)
  then show "\<exists>node'. configureNode cfg now numCPU (Inr available) node = Val node' \<and> configured ''linux'' node node'"
    unfolding configureNode_def Let_def sum.case
    by (intro configured_by_labels [OF l]) (simp_all add: native_nodeConditions_def node_condition_def)
qed

definition mock_os :: "MockProvider \<Rightarrow> string" where
  "mock_os p = (if operatingSystem p = [] then ''Linux'' else operatingSystem p)"

lemma mock_node_configurer:
  assumes "mock_capacity parseQuantity (config p) = Val cap"
  shows "node_configurer (mock_ConfigureNode parseQuantity now p) (mock_os p)"
proof
  fix node :: Node
  assume l: "Labels (NMeta node) \<noteq> None"
  show "\<exists>node'. mock_ConfigureNode parseQuantity now p node = Val node' \<and> configured (mock_os p) node node'"
    unfolding mock_ConfigureNode_def Let_def assms obind.simps mock_os_def [symmetric]
    by (intro configured_by_labels [OF l exclude_balancer_no_identity]) (simp_all add: mock_nodeConditions_def node_condition_def)
qed

text \<open>
  The node the native provider registers never fails to be built when the memory of the host can be read, and has the identity the kubelet gives it: its name, the
  taint if there is one, the labels of a virtual kubelet, and the operating system in lower case.
\<close>

theorem native_node_identity:
  "\<exists>node. NodeFromProvider (configureNode cfg now numCPU (Inr available)) name taint version = Val node \<and> Name (NMeta node) = name \<and>
     Taints node = (case taint of None \<Rightarrow> [] | Some t \<Rightarrow> [t]) \<and> label_of node NodeTypeLabel = Some ''virtual-kubelet'' \<and>
     label_of node NodeRoleLabel = Some ''agent'' \<and> label_of node NodeHostNameLabel = Some name \<and> label_of node osLabel = Some ''linux''"
proof -
  have "ToLower ''linux'' = ''linux''" by code_simp
  then show ?thesis
    using native_node.node_from_provider [of cfg now numCPU available name taint version] by (auto simp: NodeTypeValue_def NodeRoleValue_def)
qed

text \<open>
  Once the kubelet has started, its node is ready whichever provider it has: the condition \<open>Ready\<close> is true, with the time of the start, and
  the other conditions are the provider's.
\<close>

theorem started_node_is_ready:
  assumes "mock_capacity parseQuantity (config p) = Val cap"
    and "configure \<in> set [configureNode cfg t0 numCPU (Inr available), mock_ConfigureNode parseQuantity t0 p]"
  shows "\<exists>node. NodeFromProvider configure name taint version = Val node \<and>
     condition_of (NStatus (setNodeReady now node)) ''Ready'' =
       Some (node_condition now ''Ready'' ConditionTrue ''KubeletReady'' ''Kubelet is ready'') \<and>
     (\<forall>t. t \<noteq> ''Ready'' \<longrightarrow> condition_of (NStatus (setNodeReady now node)) t = condition_of (NStatus node) t)"
  using assms(2) native_node.ready_after_start [of cfg t0 numCPU available name taint version now]
    node_configurer.ready_after_start [OF mock_node_configurer [OF assms(1)], of t0 name taint version now]
  by auto

definition sample_mock :: MockProvider where
  "sample_mock = \<lparr>nodeName = ''n'', operatingSystem = ''Linux'', internalIP = ''10.0.0.1'', daemonEndpointPort = 10250, pods = [],
     config = \<lparr>CPU = ''20'', Memory = ''100'', Pods = ''20''\<rparr>, startTime = 0, notifier_set = False\<rparr>"

definition sample_init :: InitConfig where
  "sample_init = \<lparr>ConfigPath = [], ic_NodeName = ''n'', ic_OperatingSystem = ''Linux'', ic_InternalIP = ''10.0.0.1'', DaemonPort = 10250,
     ic_KubeClusterDomain = ''cluster.local'', ic_Version = ''v1''\<rparr>"

theorem started_node_is_ready_witness:
  "\<exists>node. NodeFromProvider (mock_ConfigureNode (\<lambda>s. Some 20000) 5 sample_mock) ''n'' None ''v1'' = Val node \<and>
     condition_of (NStatus (setNodeReady 9 node)) ''Ready'' = Some (node_condition 9 ''Ready'' ConditionTrue ''KubeletReady'' ''Kubelet is ready'')"
proof -
  have "mock_capacity (\<lambda>s. Some 20000) (config sample_mock) = Val [(''cpu'', 20000), (''memory'', 20000), (''pods'', 20000)]"
    by (simp add: mock_capacity_def MustParse_def del: obind_Val_iff)
  from started_node_is_ready [OF this, of "mock_ConfigureNode (\<lambda>s. Some 20000) 5 sample_mock" sample_init 5] show ?thesis by fastforce
qed

end
