(* ===== verification/Remote_Command.thy ===== *)
theory Remote_Command
  imports Strconv "HOL-Library.Word"
begin

text \<open>
  Remote commands (\<open>src/internal/kubernetes/remotecommand\<close>): the streams of an exec session over SPDY (four protocol
  versions) and over WebSocket, and the status that ends it. A stream is a number. A run of the \<open>select\<close> loop that waits
  for the streams is the list of what it receives. The negotiation of the protocol, the upgrades of the connection and
  JSON are parameters.
\<close>

subsection \<open>Options\<close>

record Options =
  opt_Stdin :: bool
  opt_Stdout :: bool
  opt_Stderr :: bool
  opt_TTY :: bool

definition ExecTTYParam :: string where "ExecTTYParam = ''tty''"
definition ExecStdinParam :: string where "ExecStdinParam = ''input''"
definition ExecStdoutParam :: string where "ExecStdoutParam = ''output''"
definition ExecStderrParam :: string where "ExecStderrParam = ''error''"

definition NewOptions :: "(string \<Rightarrow> string) \<Rightarrow> Options result" where
  "NewOptions FormValue =
     (let tty = (FormValue ExecTTYParam = ''1''); stdin = (FormValue ExecStdinParam = ''1'');
          stdout = (FormValue ExecStdoutParam = ''1''); stderr = (FormValue ExecStderrParam = ''1'' \<and> \<not> tty) in
      if \<not> stdin \<and> \<not> stdout \<and> \<not> stderr then Inl (ErrorString ''you must specify at least 1 of stdin, stdout, stderr'')
      else Inr \<lparr>opt_Stdin = stdin, opt_Stdout = stdout, opt_Stderr = stderr, opt_TTY = tty\<rparr>)"

subsection \<open>The streams of a session\<close>

datatype protocolHandler = v1ProtocolHandler | v2ProtocolHandler | v3ProtocolHandler | v4ProtocolHandler

fun supportsTerminalResizing :: "protocolHandler \<Rightarrow> bool" where
  "supportsTerminalResizing v4ProtocolHandler = True"
| "supportsTerminalResizing v3ProtocolHandler = True"
| "supportsTerminalResizing v2ProtocolHandler = False"
| "supportsTerminalResizing v1ProtocolHandler = False"

datatype status_writer = v1WriteStatusFunc nat | v4WriteStatusFunc nat

record exec_context =
  stdinStream :: "nat option"
  stdoutStream :: "nat option"
  stderrStream :: "nat option"
  writeStatus :: "status_writer option"
  resizeStream :: "nat option"
  ctx_tty :: bool
  closed_stdin :: bool                 \<comment> \<open>version 1 closes it\<close>
  reset_streams :: "nat list"          \<comment> \<open>version 1 resets its error streams\<close>

definition no_streams :: exec_context where
  "no_streams = \<lparr>stdinStream = None, stdoutStream = None, stderrStream = None, writeStatus = None, resizeStream = None,
     ctx_tty = False, closed_stdin = False, reset_streams = []\<rparr>"

record stream =
  stream_id :: nat
  stream_type :: string

definition StreamTypeError :: string where "StreamTypeError = ''error''"
definition StreamTypeStdin :: string where "StreamTypeStdin = ''stdin''"
definition StreamTypeStdout :: string where "StreamTypeStdout = ''stdout''"
definition StreamTypeStderr :: string where "StreamTypeStderr = ''stderr''"
definition StreamTypeResize :: string where "StreamTypeResize = ''resize''"

lemmas stream_types = StreamTypeError_def StreamTypeStdin_def StreamTypeStdout_def StreamTypeStderr_def StreamTypeResize_def

text \<open>What a handler does with a new stream; \<open>None\<close> for an unexpected type, which it only reports.\<close>

definition accept_stream :: "protocolHandler \<Rightarrow> stream \<Rightarrow> exec_context \<Rightarrow> exec_context option" where
  "accept_stream h s ctx =
     (let n = stream_id s; t = stream_type s in
      if t = StreamTypeError then
        Some (case h of
          v4ProtocolHandler \<Rightarrow> ctx\<lparr>writeStatus := Some (v4WriteStatusFunc n)\<rparr>
        | v1ProtocolHandler \<Rightarrow> ctx\<lparr>writeStatus := Some (v1WriteStatusFunc n), reset_streams := n # reset_streams ctx\<rparr>
        | _ \<Rightarrow> ctx\<lparr>writeStatus := Some (v1WriteStatusFunc n)\<rparr>)
      else if t = StreamTypeStdin then Some (ctx\<lparr>stdinStream := Some n\<rparr>)
      else if t = StreamTypeStdout then Some (ctx\<lparr>stdoutStream := Some n\<rparr>)
      else if t = StreamTypeStderr then Some (ctx\<lparr>stderrStream := Some n\<rparr>)
      else if t = StreamTypeResize \<and> supportsTerminalResizing h then Some (ctx\<lparr>resizeStream := Some n\<rparr>)
      else None)"

text \<open>
  What the loop receives: a stream, the notice of the goroutine that waited for the reply of a stream, or the expiry of
  the timer. \<open>pending\<close> holds the streams with a goroutine that has not sent its notice. \<open>None\<close>: still waiting.
\<close>

datatype wait_event = StreamArrives stream | ReplySent nat | Expired

definition streams_timed_out :: goerror where
  "streams_timed_out = ErrorString ''timed out waiting for client to create streams''"

fun waitLoop :: "protocolHandler \<Rightarrow> nat \<Rightarrow> wait_event list \<Rightarrow> exec_context \<Rightarrow> nat list \<Rightarrow> nat \<Rightarrow> exec_context result option" where
  "waitLoop h expectedStreams [] ctx pending receivedStreams = None"
| "waitLoop h expectedStreams (StreamArrives s # events) ctx pending receivedStreams =
     (case accept_stream h s ctx of
        Some ctx' \<Rightarrow> waitLoop h expectedStreams events ctx' (stream_id s # pending) receivedStreams
      | None \<Rightarrow> waitLoop h expectedStreams events ctx pending receivedStreams)"
| "waitLoop h expectedStreams (ReplySent n # events) ctx pending receivedStreams =
     (if n \<in> set pending then
        (if Suc receivedStreams = expectedStreams then Some (Inr ctx)
         else waitLoop h expectedStreams events ctx (remove1 n pending) (Suc receivedStreams))
      else waitLoop h expectedStreams events ctx pending receivedStreams)"
| "waitLoop h expectedStreams (Expired # events) ctx pending receivedStreams = Some (Inl streams_timed_out)"

definition v4_waitForStreams :: "nat \<Rightarrow> wait_event list \<Rightarrow> exec_context result option" where
  "v4_waitForStreams n events = waitLoop v4ProtocolHandler n events no_streams [] 0"

definition v3_waitForStreams :: "nat \<Rightarrow> wait_event list \<Rightarrow> exec_context result option" where
  "v3_waitForStreams n events = waitLoop v3ProtocolHandler n events no_streams [] 0"

definition v2_waitForStreams :: "nat \<Rightarrow> wait_event list \<Rightarrow> exec_context result option" where
  "v2_waitForStreams n events = waitLoop v2ProtocolHandler n events no_streams [] 0"

text \<open>Version 1 closes the input stream.\<close>

definition v1_waitForStreams :: "nat \<Rightarrow> wait_event list \<Rightarrow> exec_context result option" where
  "v1_waitForStreams n events =
     (case waitLoop v1ProtocolHandler n events no_streams [] 0 of
        Some (Inr ctx) \<Rightarrow> Some (Inr (if stdinStream ctx \<noteq> None then ctx\<lparr>closed_stdin := True\<rparr> else ctx))
      | r \<Rightarrow> r)"

fun waitForStreams :: "protocolHandler \<Rightarrow> nat \<Rightarrow> wait_event list \<Rightarrow> exec_context result option" where
  "waitForStreams v4ProtocolHandler n events = v4_waitForStreams n events"
| "waitForStreams v3ProtocolHandler n events = v3_waitForStreams n events"
| "waitForStreams v2ProtocolHandler n events = v2_waitForStreams n events"
| "waitForStreams v1ProtocolHandler n events = v1_waitForStreams n events"

lemmas waitForStreams_defs = v4_waitForStreams_def v3_waitForStreams_def v2_waitForStreams_def v1_waitForStreams_def

definition expectedStreams :: "Options \<Rightarrow> protocolHandler \<Rightarrow> nat" where
  "expectedStreams opts h = 1 + (if opt_Stdin opts then 1 else 0) + (if opt_Stdout opts then 1 else 0)
     + (if opt_Stderr opts then 1 else 0) + (if opt_TTY opts \<and> supportsTerminalResizing h then 1 else 0)"

definition StreamProtocolV1Name :: string where "StreamProtocolV1Name = ''channel.k8s.io''"
definition StreamProtocolV2Name :: string where "StreamProtocolV2Name = ''v2.channel.k8s.io''"
definition StreamProtocolV3Name :: string where "StreamProtocolV3Name = ''v3.channel.k8s.io''"
definition StreamProtocolV4Name :: string where "StreamProtocolV4Name = ''v4.channel.k8s.io''"

lemmas stream_protocols = StreamProtocolV1Name_def StreamProtocolV2Name_def StreamProtocolV3Name_def StreamProtocolV4Name_def

definition handler_for :: "string \<Rightarrow> protocolHandler option" where
  "handler_for protocol =
     (if protocol = StreamProtocolV4Name then Some v4ProtocolHandler
      else if protocol = StreamProtocolV3Name then Some v3ProtocolHandler
      else if protocol = StreamProtocolV2Name then Some v2ProtocolHandler
      else if protocol = [] \<or> protocol = StreamProtocolV1Name then Some v1ProtocolHandler
      else None)"

text \<open>
  How creating the streams of a request ends: refused with an HTTP error, given up (the upgrade or the wait failed),
  waiting, or with its streams. For an unknown protocol no handler is set, and calling its methods panics.
\<close>

datatype created = Refused int string | GivenUp | StillWaiting | Streams exec_context

definition createHTTPStreamStreams :: "(string list \<Rightarrow> string result) \<Rightarrow> bool \<Rightarrow> wait_event list \<Rightarrow> Options \<Rightarrow> string list \<Rightarrow> created outcome" where
  "createHTTPStreamStreams Handshake upgraded events opts supportedStreamProtocols =
     (case Handshake supportedStreamProtocols of
        Inl err \<Rightarrow> Val (Refused 400 (Error err))
      | Inr protocol \<Rightarrow>
          if \<not> upgraded then Val GivenUp
          else obind (deref (handler_for protocol)) (\<lambda>h.
            Val (case waitForStreams h (expectedStreams opts h) events of
                   None \<Rightarrow> StillWaiting
                 | Some (Inl err) \<Rightarrow> GivenUp
                 | Some (Inr ctx) \<Rightarrow> Streams (ctx\<lparr>ctx_tty := opt_TTY opts\<rparr>))))"

subsection \<open>WebSocket\<close>

definition stdinChannel :: nat where "stdinChannel = 0"
definition stdoutChannel :: nat where "stdoutChannel = 1"
definition stderrChannel :: nat where "stderrChannel = 2"
definition errorChannel :: nat where "errorChannel = 3"
definition resizeChannel :: nat where "resizeChannel = 4"

datatype ChannelType = IgnoreChannel | ReadChannel | WriteChannel

definition readChannel :: "bool \<Rightarrow> ChannelType" where "readChannel real = (if real then ReadChannel else IgnoreChannel)"
definition writeChannel :: "bool \<Rightarrow> ChannelType" where "writeChannel real = (if real then WriteChannel else IgnoreChannel)"

definition createChannels :: "Options \<Rightarrow> ChannelType list" where
  "createChannels opts =
     (replicate 5 IgnoreChannel)[stdinChannel := readChannel (opt_Stdin opts), stdoutChannel := writeChannel (opt_Stdout opts),
       stderrChannel := writeChannel (opt_Stderr opts), errorChannel := WriteChannel, resizeChannel := ReadChannel]"

definition v4BinaryWebsocketProtocol :: string where "v4BinaryWebsocketProtocol = ''v4.channel.k8s.io''"
definition v4Base64WebsocketProtocol :: string where "v4Base64WebsocketProtocol = ''v4.base64.channel.k8s.io''"

text \<open>
  \<open>Open\<close> yields the negotiated protocol and a stream per channel, here its number. The first component is the channel
  that gets the empty message.
\<close>

definition createWebSocketStreams :: "(ChannelType list \<Rightarrow> string result) \<Rightarrow> Options \<Rightarrow> nat option \<times> created" where
  "createWebSocketStreams Open opts =
     (case Open (createChannels opts) of
        Inl err \<Rightarrow> (None, GivenUp)
      | Inr negotiatedProtocol \<Rightarrow>
          (Some (if opt_Stdout opts then stdoutChannel else if opt_Stderr opts then stderrChannel else errorChannel),
           Streams (no_streams\<lparr>stdinStream := Some stdinChannel, stdoutStream := Some stdoutChannel, stderrStream := Some stderrChannel,
             ctx_tty := opt_TTY opts, resizeStream := Some resizeChannel,
             writeStatus := Some (if negotiatedProtocol = v4BinaryWebsocketProtocol \<or> negotiatedProtocol = v4Base64WebsocketProtocol
               then v4WriteStatusFunc errorChannel else v1WriteStatusFunc errorChannel)\<rparr>)))"

subsection \<open>Running the command\<close>

record TerminalSize =
  Width :: "16 word"
  Height :: "16 word"

text \<open>What \<open>handleResizeEvents\<close> sends before it closes the channel: the sizes decoded up to the first error.\<close>

fun handleResizeEvents :: "TerminalSize result list \<Rightarrow> TerminalSize list" where
  "handleResizeEvents (Inr sz # rest) = sz # handleResizeEvents rest"
| "handleResizeEvents _ = []"

record exec_request =
  IsWebSocketRequest :: bool
  Handshake :: "string list \<Rightarrow> string result"
  upgraded :: bool
  wait_events :: "wait_event list"
  ws_Open :: "ChannelType list \<Rightarrow> string result"

definition createStreams :: "exec_request \<Rightarrow> Options \<Rightarrow> string list \<Rightarrow> created outcome" where
  "createStreams req opts supportedStreamProtocols =
     (if IsWebSocketRequest req then Val (snd (createWebSocketStreams (ws_Open req) opts))
      else createHTTPStreamStreams (Handshake req) (upgraded req) (wait_events req) opts supportedStreamProtocols)"

record status =
  st_Status :: string
  st_Reason :: string
  st_ExitCode :: "string option"
  st_Message :: string

record exec_lib =
  json_status :: "status \<Rightarrow> string result"
  as_ExitError :: "goerror \<Rightarrow> (bool \<times> int) option"   \<comment> \<open>\<open>Exited()\<close> and \<open>ExitStatus()\<close>\<close>
  NewInternalError :: "string \<Rightarrow> status"

definition StatusSuccess :: string where "StatusSuccess = ''Success''"
definition StatusFailure :: string where "StatusFailure = ''Failure''"
definition NonZeroExitCodeReason :: string where "NonZeroExitCodeReason = ''NonZeroExitCode''"

text \<open>The writes of a status: the stream and the bytes.\<close>

definition v1_write :: "nat \<Rightarrow> status \<Rightarrow> (nat \<times> string) list" where
  "v1_write n st = (if st_Status st = StatusSuccess then [] else [(n, st_Message st)])"

definition v4_write :: "exec_lib \<Rightarrow> nat \<Rightarrow> status \<Rightarrow> (nat \<times> string) list" where
  "v4_write lib n st = (case json_status lib st of Inl err \<Rightarrow> [] | Inr bs \<Rightarrow> [(n, bs)])"

fun write_status :: "exec_lib \<Rightarrow> status_writer \<Rightarrow> status \<Rightarrow> (nat \<times> string) list" where
  "write_status lib (v1WriteStatusFunc n) st = v1_write n st"
| "write_status lib (v4WriteStatusFunc n) st = v4_write lib n st"

definition exit_status :: "exec_lib \<Rightarrow> goerror option \<Rightarrow> status" where
  "exit_status lib err =
     (case err of
        None \<Rightarrow> \<lparr>st_Status = StatusSuccess, st_Reason = [], st_ExitCode = None, st_Message = []\<rparr>
      | Some e \<Rightarrow>
          (case as_ExitError lib e of
             Some (True, rc) \<Rightarrow> \<lparr>st_Status = StatusFailure, st_Reason = NonZeroExitCodeReason, st_ExitCode = Some (Itoa rc),
               st_Message = ''command terminated with non-zero exit code: '' @ Error e\<rparr>
           | _ \<Rightarrow> NewInternalError lib (''error executing command in container: '' @ Error e)))"

text \<open>
  \<open>ServeExec\<close>: the answer to the request, the streams the executor was given, and what was written as its status.
  \<open>None\<close> while the streams are awaited.
\<close>

datatype served = Answered int string | NothingServed | Executed exec_context "(nat \<times> string) list"

definition ServeExec :: "exec_lib \<Rightarrow> exec_request \<Rightarrow> (exec_context \<Rightarrow> goerror option) \<Rightarrow> Options \<Rightarrow> string list \<Rightarrow> served option outcome" where
  "ServeExec lib req executor opts supportedProtocols =
     obind (createStreams req opts supportedProtocols) (\<lambda>r.
       case r of
         Refused code msg \<Rightarrow> Val (Some (Answered code msg))
       | GivenUp \<Rightarrow> Val (Some NothingServed)
       | StillWaiting \<Rightarrow> Val None
       | Streams ctx \<Rightarrow> obind (deref (writeStatus ctx)) (\<lambda>w.
           Val (Some (Executed ctx (write_status lib w (exit_status lib (executor ctx)))))))"

subsection \<open>Which streams a session has\<close>

text \<open>The types a handler accepts, and the streams it accepted among what the loop received.\<close>

definition accepted_type :: "protocolHandler \<Rightarrow> string \<Rightarrow> bool" where
  "accepted_type h t = (t \<in> {StreamTypeError, StreamTypeStdin, StreamTypeStdout, StreamTypeStderr} \<or>
     t = StreamTypeResize \<and> supportsTerminalResizing h)"

fun accepted :: "protocolHandler \<Rightarrow> wait_event list \<Rightarrow> string list" where
  "accepted h [] = []"
| "accepted h (StreamArrives s # events) = (if accepted_type h (stream_type s) then stream_type s # accepted h events else accepted h events)"
| "accepted h (_ # events) = accepted h events"

definition requested :: "Options \<Rightarrow> protocolHandler \<Rightarrow> string list" where
  "requested opts h = [StreamTypeError] @ (if opt_Stdin opts then [StreamTypeStdin] else []) @ (if opt_Stdout opts then [StreamTypeStdout] else [])
     @ (if opt_Stderr opts then [StreamTypeStderr] else []) @ (if opt_TTY opts \<and> supportsTerminalResizing h then [StreamTypeResize] else [])"

lemma length_requested: "length (requested opts h) = expectedStreams opts h"
  by (simp add: requested_def expectedStreams_def)

text \<open>A context that has exactly the streams of the given types.\<close>

definition has_streams :: "exec_context \<Rightarrow> string set \<Rightarrow> bool" where
  "has_streams ctx ts = ((writeStatus ctx \<noteq> None \<longleftrightarrow> StreamTypeError \<in> ts) \<and> (stdinStream ctx \<noteq> None \<longleftrightarrow> StreamTypeStdin \<in> ts) \<and>
     (stdoutStream ctx \<noteq> None \<longleftrightarrow> StreamTypeStdout \<in> ts) \<and> (stderrStream ctx \<noteq> None \<longleftrightarrow> StreamTypeStderr \<in> ts) \<and>
     (resizeStream ctx \<noteq> None \<longleftrightarrow> StreamTypeResize \<in> ts))"

lemma accept_stream_None: "accept_stream h s ctx = None \<longleftrightarrow> \<not> accepted_type h (stream_type s)"
  by (auto simp: accept_stream_def accepted_type_def Let_def)

lemma stream_types_distinct: "distinct [StreamTypeError, StreamTypeStdin, StreamTypeStdout, StreamTypeStderr, StreamTypeResize]"
  by (simp add: stream_types)

lemma accept_stream_has:
  assumes "accept_stream h s ctx = Some ctx'" and "has_streams ctx ts"
  shows "has_streams ctx' (insert (stream_type s) ts)"
proof -
  note ne = stream_types_distinct [simplified]
  have "accepted_type h (stream_type s)" using assms(1) accept_stream_None [of h s ctx] by auto
  then consider (err) "stream_type s = StreamTypeError" | (other) "stream_type s \<noteq> StreamTypeError" by blast
  then show ?thesis
  proof cases
    case err
    have "writeStatus ctx' \<noteq> None" "stdinStream ctx' = stdinStream ctx" "stdoutStream ctx' = stdoutStream ctx"
        "stderrStream ctx' = stderrStream ctx" "resizeStream ctx' = resizeStream ctx"
      using assms(1) err by (cases h; auto simp: accept_stream_def Let_def)+
    then show ?thesis using assms(2) err ne by (auto simp: has_streams_def)
  next
    case other
    then consider "stream_type s = StreamTypeStdin" "ctx' = ctx\<lparr>stdinStream := Some (stream_id s)\<rparr>"
      | "stream_type s = StreamTypeStdout" "ctx' = ctx\<lparr>stdoutStream := Some (stream_id s)\<rparr>"
      | "stream_type s = StreamTypeStderr" "ctx' = ctx\<lparr>stderrStream := Some (stream_id s)\<rparr>"
      | "stream_type s = StreamTypeResize" "ctx' = ctx\<lparr>resizeStream := Some (stream_id s)\<rparr>"
      using assms(1) unfolding accept_stream_def Let_def by (simp split: if_splits)
    then show ?thesis by cases (use assms(2) ne in \<open>auto simp: has_streams_def\<close>)
  qed
qed

text \<open>
  When the loop ends with a context, the number of streams accepted by then is at least the number expected.
\<close>

lemma waitLoop_accepted:
  assumes "waitLoop h n events ctx pending received = Some (Inr ctx')" "has_streams ctx ts" "received < n"
  shows "\<exists>arrived. (\<exists>rest. accepted h events = arrived @ rest) \<and> has_streams ctx' (ts \<union> set arrived) \<and>
    n \<le> received + length pending + length arrived"
  using assms
proof (induction h n events ctx pending received arbitrary: ts rule: waitLoop.induct)
  case (2 h n s events ctx pending received)
  show ?case
  proof (cases "accept_stream h s ctx")
    case None
    then have "accepted h (StreamArrives s # events) = accepted h events" by (simp add: accept_stream_None)
    then show ?thesis using "2.IH"(1) [OF None _ "2.prems"(2,3)] "2.prems"(1) None by simp
  next
    case (Some ctx1)
    then have acc: "accepted h (StreamArrives s # events) = stream_type s # accepted h events"
      using accept_stream_None [of h s ctx] by auto
    have run: "waitLoop h n events ctx1 (stream_id s # pending) received = Some (Inr ctx')" using "2.prems"(1) Some by simp
    obtain arrived rest where "accepted h events = arrived @ rest" "has_streams ctx' (insert (stream_type s) ts \<union> set arrived)"
        "n \<le> received + length (stream_id s # pending) + length arrived"
      using "2.IH"(2) [OF Some run accept_stream_has [OF Some "2.prems"(2)] "2.prems"(3)] by blast
    then show ?thesis using acc by (intro exI [of _ "stream_type s # arrived"]) simp
  qed
next
  case (3 h n k events ctx pending received)
  show ?case
  proof (cases "k \<in> set pending")
    case True
    then have len: "length pending = Suc (length (remove1 k pending))" using length_pos_if_in_set [OF True] by (simp add: length_remove1)
    show ?thesis
    proof (cases "Suc received = n")
      case last: True
      then show ?thesis using "3.prems" True len by (intro exI [of _ "[]"]) simp
    next
      case False
      then have run: "waitLoop h n events ctx (remove1 k pending) (Suc received) = Some (Inr ctx')" using "3.prems"(1) True by simp
      have "Suc received < n" using "3.prems"(3) False by simp
      then show ?thesis using "3.IH"(1) [OF True False run "3.prems"(2)] len by simp
    qed
  next
    case False
    then show ?thesis using "3.IH"(2) [OF False _ "3.prems"(2,3)] "3.prems"(1) by simp
  qed
qed simp_all

lemma has_streams_closed: "has_streams (ctx\<lparr>closed_stdin := b\<rparr>) ts = has_streams ctx ts"
  by (simp add: has_streams_def)

lemma waitForStreams_loop:
  assumes "waitForStreams h n events = Some (Inr ctx)"
  shows "\<exists>ctx0. waitLoop h n events no_streams [] 0 = Some (Inr ctx0) \<and> (\<forall>ts. has_streams ctx ts = has_streams ctx0 ts)"
proof (cases "h = v1ProtocolHandler")
  case True
  show ?thesis
  proof (cases "waitLoop v1ProtocolHandler n events no_streams [] 0")
    case None
    then show ?thesis using assms True by (simp add: v1_waitForStreams_def)
  next
    case (Some r)
    then obtain ctx0 where r: "r = Inr ctx0" using assms True by (cases r) (auto simp: v1_waitForStreams_def)
    then have "ctx = (if stdinStream ctx0 \<noteq> None then ctx0\<lparr>closed_stdin := True\<rparr> else ctx0)"
      using assms True Some by (simp add: v1_waitForStreams_def)
    then show ?thesis using Some r True has_streams_closed by simp
  qed
next
  case False
  then have "waitLoop h n events no_streams [] 0 = Some (Inr ctx)" using assms by (cases h) (simp_all add: waitForStreams_defs)
  then show ?thesis by blast
qed

text \<open>
  C20: A session has the streams that were asked for: when the client opens no stream type twice and only those it
  asked for, a wait that succeeds leaves a context with a status writer and with exactly the requested streams.
\<close>

theorem streams_complete:
  assumes "waitForStreams h (expectedStreams opts h) events = Some (Inr ctx)"
    and "distinct (accepted h events)" and "set (accepted h events) \<subseteq> set (requested opts h)"
  shows "writeStatus ctx \<noteq> None \<and> (stdinStream ctx \<noteq> None \<longleftrightarrow> opt_Stdin opts) \<and> (stdoutStream ctx \<noteq> None \<longleftrightarrow> opt_Stdout opts) \<and>
    (stderrStream ctx \<noteq> None \<longleftrightarrow> opt_Stderr opts) \<and> (resizeStream ctx \<noteq> None \<longleftrightarrow> opt_TTY opts \<and> supportsTerminalResizing h)"
proof -
  obtain ctx0 where loop: "waitLoop h (expectedStreams opts h) events no_streams [] 0 = Some (Inr ctx0)"
      and same: "\<And>ts. has_streams ctx ts = has_streams ctx0 ts"
    using waitForStreams_loop [OF assms(1)] by blast
  have "has_streams no_streams {}" by (simp add: has_streams_def no_streams_def)
  moreover have "0 < expectedStreams opts h" by (simp add: expectedStreams_def)
  ultimately obtain arrived rest where arr: "accepted h events = arrived @ rest" "has_streams ctx0 (set arrived)"
      "expectedStreams opts h \<le> length arrived"
    using waitLoop_accepted [OF loop] by force
  have sub: "set arrived \<subseteq> set (requested opts h)" and dist: "distinct arrived" using assms(2,3) arr(1) by auto
  have "card (set (requested opts h)) \<le> card (set arrived)"
    using arr(3) distinct_card [OF dist] card_length [of "requested opts h"] by (simp add: length_requested)
  then have eq: "set arrived = set (requested opts h)" by (intro card_seteq sub) simp_all
  have "has_streams ctx (set (requested opts h))" using arr(2) same eq by simp
  then show ?thesis by (auto simp: has_streams_def requested_def stream_types)
qed

definition tty_session :: Options where "tty_session = \<lparr>opt_Stdin = True, opt_Stdout = True, opt_Stderr = False, opt_TTY = True\<rparr>"

definition tty_events :: "wait_event list" where
  "tty_events = [StreamArrives \<lparr>stream_id = 1, stream_type = ''error''\<rparr>, ReplySent 1, StreamArrives \<lparr>stream_id = 3, stream_type = ''stdin''\<rparr>,
     StreamArrives \<lparr>stream_id = 5, stream_type = ''stdout''\<rparr>, ReplySent 5, ReplySent 3, StreamArrives \<lparr>stream_id = 7, stream_type = ''resize''\<rparr>, ReplySent 7]"

definition tty_context :: exec_context where
  "tty_context = no_streams\<lparr>writeStatus := Some (v4WriteStatusFunc 1), stdinStream := Some 3, stdoutStream := Some 5, resizeStream := Some 7\<rparr>"

theorem streams_complete_witness:
  "waitForStreams v4ProtocolHandler (expectedStreams tty_session v4ProtocolHandler) tty_events = Some (Inr tty_context) \<and>
   writeStatus tty_context \<noteq> None \<and> (resizeStream tty_context \<noteq> None \<longleftrightarrow> opt_TTY tty_session \<and> supportsTerminalResizing v4ProtocolHandler)"
proof -
  have run: "waitForStreams v4ProtocolHandler (expectedStreams tty_session v4ProtocolHandler) tty_events = Some (Inr tty_context)" by code_simp
  moreover have "distinct (accepted v4ProtocolHandler tty_events)" by code_simp
  moreover have "set (accepted v4ProtocolHandler tty_events) \<subseteq> set (requested tty_session v4ProtocolHandler)" by code_simp
  ultimately show ?thesis using streams_complete [OF run] by blast
qed

text \<open>
  The count does not look at the types: a client that opens its input stream twice and no error stream gets its session
  too, and reporting the result of the command calls a nil function.
\<close>

theorem duplicate_stream_panics:
  "ServeExec lib \<lparr>IsWebSocketRequest = False, Handshake = (\<lambda>ps. Inr StreamProtocolV4Name), upgraded = True,
      wait_events = [StreamArrives \<lparr>stream_id = 1, stream_type = ''stdin''\<rparr>, StreamArrives \<lparr>stream_id = 3, stream_type = ''stdin''\<rparr>, ReplySent 1, ReplySent 3],
      ws_Open = open\<rparr> executor \<lparr>opt_Stdin = True, opt_Stdout = False, opt_Stderr = False, opt_TTY = False\<rparr> ps = Panic nil_deref"
  by (simp add: ServeExec_def createStreams_def createHTTPStreamStreams_def handler_for_def stream_protocols waitForStreams_defs
      expectedStreams_def accept_stream_def stream_types no_streams_def Let_def)

subsection \<open>How a session ends\<close>


definition plain_exec :: exec_lib where
  "plain_exec = \<lparr>json_status = (\<lambda>st. Inr (st_Status st @ '' '' @ (case st_ExitCode st of None \<Rightarrow> [] | Some c \<Rightarrow> c))),
     as_ExitError = (\<lambda>e. case e of CustomError m nf ii c \<Rightarrow> Some (True, 3) | _ \<Rightarrow> None),
     NewInternalError = (\<lambda>m. \<lparr>st_Status = StatusFailure, st_Reason = ''InternalError'', st_ExitCode = None, st_Message = m\<rparr>)\<rparr>"

definition tty_request :: exec_request where
  "tty_request = \<lparr>IsWebSocketRequest = False, Handshake = (\<lambda>ps. Inr StreamProtocolV4Name), upgraded = True, wait_events = tty_events,
     ws_Open = (\<lambda>cs. Inr [])\<rparr>"


end
