(* ===== verification/Node_Api.thy ===== *)
theory Node_Api
  imports Remote_Command K8s_Types
begin

text \<open>
  The kubelet's HTTP API (\<open>src/node/api\<close>): status codes of errors, parsing of log options, and the handlers for logs,
  running pods, stats and exec. A response is its status code, once one is written, and its body. What a provider's reader yields
  and how much of it reaches the client, the parsing of times and the encoders are parameters; the routing
  (gorilla/mux) is not modelled, a request has its variables already.
\<close>

subsection \<open>Responses and errors\<close>

record http_response =
  rs_code :: "int option"
  rs_body :: string

definition empty_response :: http_response where
  "empty_response = \<lparr>rs_code = None, rs_body = []\<rparr>"

text \<open>Only the first header counts; writing a body without one sends 200, as does returning.\<close>

definition WriteHeader :: "int \<Rightarrow> http_response \<Rightarrow> http_response" where
  "WriteHeader code w = (case rs_code w of None \<Rightarrow> w\<lparr>rs_code := Some code\<rparr> | Some c \<Rightarrow> w)"

definition rsp_Write :: "string \<Rightarrow> http_response \<Rightarrow> http_response" where
  "rsp_Write bs w = (WriteHeader 200 w)\<lparr>rs_body := rs_body w @ bs\<rparr>"

definition final_code :: "http_response \<Rightarrow> int" where
  "final_code w = (case rs_code w of None \<Rightarrow> 200 | Some c \<Rightarrow> c)"

definition httpStatusCode :: "goerror option \<Rightarrow> int" where
  "httpStatusCode err =
     (if err = None then 200 else if IsNotFound err then 404 else if IsInvalidInput err then 400 else 500)"

definition handleError :: "(http_response \<Rightarrow> (http_response \<times> goerror option) outcome) \<Rightarrow> http_response \<Rightarrow> http_response outcome" where
  "handleError f w =
     obind (f w) (\<lambda>(w', err).
       case err of
         None \<Rightarrow> Val w'
       | Some e \<Rightarrow> Val (rsp_Write (Error e) (WriteHeader (httpStatusCode err) w')))"

text \<open>\<open>http.Error\<close> adds a newline to the message.\<close>

definition http_Error :: "string \<Rightarrow> int \<Rightarrow> http_response \<Rightarrow> http_response" where
  "http_Error msg code w = rsp_Write (msg @ [CHR 0x0A]) (WriteHeader code w)"

definition api_NotFound :: "http_response \<Rightarrow> http_response" where
  "api_NotFound w = http_Error ''404 request not found'' 404 w"

definition NotImplemented :: "http_response \<Rightarrow> http_response" where
  "NotImplemented w = http_Error ''501 not implemented'' 501 w"

subsection \<open>Log options\<close>

record ContainerLogOpts =
  Tail :: int
  LimitBytes :: int
  Timestamps :: bool
  Follow :: bool
  Previous :: bool
  SinceSeconds :: int
  SinceTime :: "int option"   \<comment> \<open>\<open>None\<close> is the zero time\<close>

definition zero_log_opts :: ContainerLogOpts where
  "zero_log_opts = \<lparr>Tail = 0, LimitBytes = 0, Timestamps = False, Follow = False, Previous = False, SinceSeconds = 0, SinceTime = None\<rparr>"

definition could_not_parse :: "string \<Rightarrow> goerror \<Rightarrow> goerror" where
  "could_not_parse param err = InvalidInputError (WithMessage (''could not parse '' @ fmt_q param) err)"

text \<open>One parameter of the query: absent, parsed and stored, or an error.\<close>

fun rbind :: "'a result \<Rightarrow> ('a \<Rightarrow> 'b result) \<Rightarrow> 'b result" where
  "rbind (Inl e) f = Inl e"
| "rbind (Inr a) f = f a"

definition int_param :: "(string \<Rightarrow> string) \<Rightarrow> string \<Rightarrow> int \<Rightarrow> int result" where
  "int_param q param least =
     (if q param = [] then Inr 0
      else case Atoi (q param) of
        Inl err \<Rightarrow> Inl (could_not_parse param err)
      | Inr n \<Rightarrow> if n < least then Inl (InvalidInputf (fmt_q param @ '' is '' @ Itoa n)) else Inr n)"

definition bool_param :: "(string \<Rightarrow> string) \<Rightarrow> string \<Rightarrow> bool result" where
  "bool_param q param =
     (if q param = [] then Inr False
      else case ParseBool (q param) of Inl err \<Rightarrow> Inl (could_not_parse param err) | Inr b \<Rightarrow> Inr b)"

definition time_param :: "(string \<Rightarrow> int result) \<Rightarrow> (string \<Rightarrow> string) \<Rightarrow> int \<Rightarrow> int option result" where
  "time_param time_Parse q sinceSeconds =
     (if q ''sinceTime'' = [] then Inr None
      else case time_Parse (q ''sinceTime'') of
        Inl err \<Rightarrow> Inl (could_not_parse ''sinceTime'' err)
      | Inr t \<Rightarrow> if sinceSeconds > 0 then Inl (InvalidInput (''both '' @ fmt_q ''sinceSeconds'' @ '' and '' @ fmt_q ''sinceTime'' @ '' are set''))
                else Inr (Some t))"

definition parseLogOptions :: "(string \<Rightarrow> int result) \<Rightarrow> (string \<Rightarrow> string) \<Rightarrow> ContainerLogOpts result" where
  "parseLogOptions time_Parse q =
     rbind (int_param q ''tailLines'' 0) (\<lambda>tailn.
     rbind (bool_param q ''follow'') (\<lambda>follow.
     rbind (int_param q ''limitBytes'' 1) (\<lambda>limit.
     rbind (bool_param q ''previous'') (\<lambda>prev.
     rbind (int_param q ''sinceSeconds'' 1) (\<lambda>secs.
     rbind (time_param time_Parse q secs) (\<lambda>since.
     rbind (bool_param q ''timestamps'') (\<lambda>stamps.
       Inr \<lparr>Tail = tailn, LimitBytes = limit, Timestamps = stamps, Follow = follow, Previous = prev, SinceSeconds = secs, SinceTime = since\<rparr>)))))))"

subsection \<open>Logs, pods and stats\<close>

text \<open>
  \<open>copy\<close> says what of a reader reaches the client and with which error. The reader may be nil with a nil error; its
  methods then panic.
\<close>

definition HandleContainerLogs ::
    "(string \<Rightarrow> int result) \<Rightarrow> (string \<Rightarrow> string \<times> goerror option) \<Rightarrow> (string \<Rightarrow> string \<Rightarrow> string \<Rightarrow> ContainerLogOpts \<Rightarrow> string option \<times> goerror option) option
     \<Rightarrow> string gomap \<Rightarrow> (string \<Rightarrow> string) \<Rightarrow> http_response outcome" where
  "HandleContainerLogs time_Parse copy h vars q =
     (case h of
        None \<Rightarrow> Val (NotImplemented empty_response)
      | Some getLogs \<Rightarrow> handleError (\<lambda>w.
          if length vars \<noteq> 3 then Val (w, Some (NotFound ''not found''))
          else
            let arg = (\<lambda>k. case go_get vars k of None \<Rightarrow> [] | Some v \<Rightarrow> v) in
            (case parseLogOptions time_Parse q of
               Inl err \<Rightarrow> Val (w, Some err)
             | Inr opts \<Rightarrow>
                 (case getLogs (arg ''namespace'') (arg ''pod'') (arg ''container'') opts of
                    (logs, Some err) \<Rightarrow> Val (w, Some (WithMessage ''error getting container logs?)'' err))
                  | (logs, None) \<Rightarrow> obind (deref logs) (\<lambda>reader.
                      case copy reader of
                        (bytes, None) \<Rightarrow> Val (rsp_Write bytes w, None)
                      | (bytes, Some err) \<Rightarrow> Val (rsp_Write bytes w, Some (WithMessage ''error writing response to client'' err)))))) empty_response)"

definition HandleRunningPods :: "(Pod list \<Rightarrow> string result) \<Rightarrow> (string \<Rightarrow> goerror option) \<Rightarrow> Pod list result option \<Rightarrow> http_response outcome" where
  "HandleRunningPods encode write getPods =
     (case getPods of
        None \<Rightarrow> Val (NotImplemented empty_response)
      | Some pods \<Rightarrow> handleError (\<lambda>w.
          Val (case rbind pods encode of
                 Inl err \<Rightarrow> (w, Some err)
               | Inr bytes \<Rightarrow> (rsp_Write bytes w, write bytes))) empty_response)"

function isCancelled :: "goerror option \<Rightarrow> bool" where
  "isCancelled None = False"
| "isCancelled (Some err) =
     (if err = CtxCanceled then True else case causeMethod err of Some c \<Rightarrow> isCancelled c | None \<Rightarrow> False)"
  by pat_completeness auto
termination
  by (relation "measure (\<lambda>e. case e of None \<Rightarrow> 0 | Some x \<Rightarrow> Suc (size x))")
    (auto split: option.splits dest: causeMethod_size)

definition HandlePodStatsSummary :: "('s \<Rightarrow> string result) \<Rightarrow> (string \<Rightarrow> goerror option) \<Rightarrow> 's result option \<Rightarrow> http_response outcome" where
  "HandlePodStatsSummary marshal write h =
     (case h of
        None \<Rightarrow> Val (NotImplemented empty_response)
      | Some stats \<Rightarrow> handleError (\<lambda>w.
          Val (case stats of
                 Inl err \<Rightarrow> (w, Some (if isCancelled (Some err) then err else WithMessage ''error getting status from provider'' err))
               | Inr s \<Rightarrow>
                   (case marshal s of
                      Inl err \<Rightarrow> (w, Some (WithMessage ''error marshalling stats'' err))
                    | Inr bytes \<Rightarrow> (rsp_Write bytes w, pkg_Wrap (write bytes) ''could not write to client'')))) empty_response)"

subsection \<open>Exec\<close>

definition getExecOptions :: "(string \<Rightarrow> string) \<Rightarrow> Options result" where
  "getExecOptions FormValue =
     (let tty = (FormValue ExecTTYParam = ''1''); stdin = (FormValue ExecStdinParam = ''1'');
          stdout = (FormValue ExecStdoutParam = ''1''); stderr = (FormValue ExecStderrParam = ''1'') in
      if tty \<and> stderr then Inl (ErrorString ''cannot exec with tty and stderr'')
      else if \<not> stdin \<and> \<not> stdout \<and> \<not> stderr then Inl (ErrorString ''you must specify at least one of stdin, stdout, stderr'')
      else Inr \<lparr>opt_Stdin = stdin, opt_Stdout = stdout, opt_Stderr = stderr, opt_TTY = tty\<rparr>)"

record ContainerExecHandlerConfig =
  StreamIdleTimeout :: int
  StreamCreationTimeout :: int

definition WithExecStreamIdleTimeout :: "int \<Rightarrow> ContainerExecHandlerConfig \<Rightarrow> ContainerExecHandlerConfig" where
  "WithExecStreamIdleTimeout dur cfg = cfg\<lparr>StreamIdleTimeout := dur\<rparr>"

definition WithExecStreamCreationTimeout :: "int \<Rightarrow> ContainerExecHandlerConfig \<Rightarrow> ContainerExecHandlerConfig" where
  "WithExecStreamCreationTimeout dur cfg = cfg\<lparr>StreamCreationTimeout := dur\<rparr>"

definition exec_config :: "(ContainerExecHandlerConfig \<Rightarrow> ContainerExecHandlerConfig) list \<Rightarrow> ContainerExecHandlerConfig" where
  "exec_config opts =
     (let cfg = fold (\<lambda>opt. opt) opts \<lparr>StreamIdleTimeout = 0, StreamCreationTimeout = 0\<rparr>;
          cfg = (if StreamIdleTimeout cfg = 0 then cfg\<lparr>StreamIdleTimeout := 30 * time_Second\<rparr> else cfg) in
      if StreamCreationTimeout cfg = 0 then cfg\<lparr>StreamCreationTimeout := 30 * time_Second\<rparr> else cfg)"

text \<open>What the provider is called with.\<close>

record execIO =
  eio_tty :: bool
  eio_stdin :: "nat option"
  eio_stdout :: "nat option"
  eio_stderr :: "nat option"
  has_resize :: bool

text \<open>The container's name is the one of the request, not the argument. The streams come from the context of \<open>ServeExec\<close>.\<close>

definition ExecInContainer ::
    "(string \<Rightarrow> string \<Rightarrow> string \<Rightarrow> string list \<Rightarrow> execIO \<Rightarrow> goerror option) \<Rightarrow> string \<Rightarrow> string \<Rightarrow> string \<Rightarrow> string list \<Rightarrow> exec_context \<Rightarrow> goerror option" where
  "ExecInContainer h namespace pod container cmd ctx =
     h namespace pod container cmd \<lparr>eio_tty = ctx_tty ctx, eio_stdin = stdinStream ctx, eio_stdout = stdoutStream ctx, eio_stderr = stderrStream ctx,
       has_resize = ctx_tty ctx\<rparr>"

text \<open>
  What the goroutine of \<open>ExecInContainer\<close> sends to the provider in its first \<open>n\<close> rounds, when the provider takes every
  size: what it receives from a channel on which \<open>sizes\<close> were sent and which was then closed.
\<close>

fun forwardResize :: "nat \<Rightarrow> TerminalSize list \<Rightarrow> TerminalSize list" where
  "forwardResize 0 sizes = []"
| "forwardResize (Suc n) (sz # sizes) = sz # forwardResize n sizes"
| "forwardResize (Suc n) [] = \<lparr>Width = 0, Height = 0\<rparr> # forwardResize n []"

record exec_http_request =
  conn_req :: exec_request
  ProtocolHeader :: string          \<comment> \<open>\<open>Header.Get("X-Stream-Protocol-Version")\<close>\<close>
  FormValue :: "string \<Rightarrow> string"
  command_query :: "string list"
  exec_vars :: "string gomap"

datatype exec_answer = PlainAnswer http_response | ExecAnswer served

definition HandleContainerExec ::
    "exec_lib \<Rightarrow> (string \<Rightarrow> string \<Rightarrow> string \<Rightarrow> string list \<Rightarrow> execIO \<Rightarrow> goerror option) option \<Rightarrow> exec_http_request \<Rightarrow> exec_answer option outcome" where
  "HandleContainerExec lib h req =
     (case h of
        None \<Rightarrow> Val (Some (PlainAnswer (NotImplemented empty_response)))
      | Some run \<Rightarrow>
          let arg = (\<lambda>k. case go_get (exec_vars req) k of None \<Rightarrow> [] | Some v \<Rightarrow> v);
              supportedStreamProtocols = split_at (CHR '','') (ProtocolHeader req) in
          (case getExecOptions (FormValue req) of
             Inl err \<Rightarrow> obind (handleError (\<lambda>w. Val (w, AsInvalidInput (Some err))) empty_response) (\<lambda>w. Val (Some (PlainAnswer w)))
           | Inr streamOpts \<Rightarrow>
               obind (ServeExec lib (conn_req req)
                   (ExecInContainer run (arg ''namespace'') (arg ''pod'') (arg ''container'') (command_query req))
                   streamOpts supportedStreamProtocols) (\<lambda>r.
                 Val (map_option ExecAnswer r))))"

subsection \<open>Log options are read back\<close>

lemma rbind_Inr_iff [simp]: "rbind m f = Inr b \<longleftrightarrow> (\<exists>a. m = Inr a \<and> f a = Inr b)"
  by (cases m) auto

lemma rbind_Inl_iff: "rbind m f = Inl e \<longleftrightarrow> m = Inl e \<or> (\<exists>a. m = Inr a \<and> f a = Inl e)"
  by (cases m) auto

definition int64_nonneg :: "int \<Rightarrow> bool" where
  "int64_nonneg n = (0 \<le> n \<and> n < 2 ^ 63)"

definition valid_log_opts :: "ContainerLogOpts \<Rightarrow> bool" where
  "valid_log_opts opts = (int64_nonneg (Tail opts) \<and> int64_nonneg (LimitBytes opts) \<and> int64_nonneg (SinceSeconds opts) \<and>
     (SinceTime opts = None \<or> SinceSeconds opts = 0))"

definition write_int :: "int \<Rightarrow> string" where "write_int n = (if n = 0 then [] else Itoa n)"
definition write_bool :: "bool \<Rightarrow> string" where "write_bool b = (if b then FormatBool b else [])"

text \<open>The query a client writes for its options: a parameter for each that is not the default.\<close>

definition log_query :: "(int \<Rightarrow> string) \<Rightarrow> ContainerLogOpts \<Rightarrow> string \<Rightarrow> string" where
  "log_query fmt opts k =
     (if k = ''tailLines'' then write_int (Tail opts)
      else if k = ''follow'' then write_bool (Follow opts)
      else if k = ''limitBytes'' then write_int (LimitBytes opts)
      else if k = ''previous'' then write_bool (Previous opts)
      else if k = ''sinceSeconds'' then write_int (SinceSeconds opts)
      else if k = ''sinceTime'' then (case SinceTime opts of None \<Rightarrow> [] | Some t \<Rightarrow> fmt t)
      else if k = ''timestamps'' then write_bool (Timestamps opts)
      else [])"

lemma int_param_write: "q p = write_int n \<Longrightarrow> int64_nonneg n \<Longrightarrow> least \<le> 1 \<Longrightarrow> int_param q p least = Inr n"
  using Atoi_Itoa [of n] by (auto simp: int_param_def write_int_def int64_nonneg_def)

lemma bool_param_write: "q p = write_bool b \<Longrightarrow> bool_param q p = Inr b"
  by (cases b) (auto simp: bool_param_def write_bool_def FormatBool_def ParseBool_def)

text \<open>
  C34: Log options written to a query are parsed back exactly, for every valid combination of them, if the parser of times reads what its formatter
  writes.
\<close>

theorem parseLogOptions_roundtrip:
  assumes "valid_log_opts opts" and "\<And>t. time_Parse (fmt t) = Inr t \<and> fmt t \<noteq> []"
  shows "parseLogOptions time_Parse (log_query fmt opts) = Inr opts"
proof -
  let ?q = "log_query fmt opts"
  have "int_param ?q ''tailLines'' 0 = Inr (Tail opts)" "int_param ?q ''limitBytes'' 1 = Inr (LimitBytes opts)"
      "int_param ?q ''sinceSeconds'' 1 = Inr (SinceSeconds opts)"
    using assms(1) by (auto simp: valid_log_opts_def log_query_def intro!: int_param_write)
  moreover have "bool_param ?q ''follow'' = Inr (Follow opts)" "bool_param ?q ''previous'' = Inr (Previous opts)"
      "bool_param ?q ''timestamps'' = Inr (Timestamps opts)"
    by (simp_all add: log_query_def bool_param_write)
  moreover have "time_param time_Parse ?q (SinceSeconds opts) = Inr (SinceTime opts)"
    using assms by (auto simp: time_param_def log_query_def valid_log_opts_def split: option.split)
  ultimately show ?thesis unfolding parseLogOptions_def by (simp del: rbind_Inr_iff)
qed

text \<open>Times written as seconds, for the witnesses.\<close>

definition parse_seconds :: "string \<Rightarrow> int result" where
  "parse_seconds s =
     (case s of
        [] \<Rightarrow> Inl (ErrorString ''empty time'')
      | c # cs \<Rightarrow>
          (case parse_digits 0 (if c = CHR ''-'' then cs else s) of
             None \<Rightarrow> Inl (ErrorString ''cannot parse time'')
           | Some n \<Rightarrow> Inr (if c = CHR ''-'' then - int n else int n)))"

lemma parse_seconds_Itoa: "parse_seconds (Itoa t) = Inr t"
proof (cases "t < 0")
  case True
  then show ?thesis by (simp add: parse_seconds_def Itoa_def parse_digits)
next
  case False
  obtain d ds where d: "d < 10" "digits (nat t) = char_of (48 + d :: nat) # ds" using digits_Cons by blast
  then show ?thesis using False parse_digits [of "nat t"] digit_char_ne_sign [OF d(1)] by (simp add: parse_seconds_def Itoa_def)
qed

definition sample_log_opts :: ContainerLogOpts where
  "sample_log_opts = \<lparr>Tail = 20, LimitBytes = 9223372036854775807, Timestamps = True, Follow = False, Previous = True, SinceSeconds = 0, SinceTime = Some (- 7)\<rparr>"

theorem parseLogOptions_roundtrip_witness:
  "parseLogOptions parse_seconds (log_query Itoa sample_log_opts) = Inr sample_log_opts"
  by (rule parseLogOptions_roundtrip)
    (simp_all add: sample_log_opts_def valid_log_opts_def int64_nonneg_def parse_seconds_Itoa)

lemma int_param_result:
  assumes "0 \<le> least"
  shows "case int_param q p least of Inr n \<Rightarrow> int64_nonneg n | Inl e \<Rightarrow> IsInvalidInput (Some e)"
proof (cases "q p = []")
  case True
  then show ?thesis by (simp add: int_param_def int64_nonneg_def)
next
  case False
  show ?thesis
  proof (cases "Atoi (q p)")
    case (Inl err)
    then show ?thesis using False by (simp add: int_param_def could_not_parse_def)
  next
    case (Inr n)
    then have "n < 2 ^ 63" by (auto simp: Atoi_def Let_def split: if_splits option.splits)
    then show ?thesis using False Inr assms by (simp add: int_param_def InvalidInputf_def int64_nonneg_def)
  qed
qed

lemma bool_param_result: "bool_param q p = Inl e \<Longrightarrow> IsInvalidInput (Some e)"
  by (auto simp: bool_param_def could_not_parse_def split: sum.splits if_splits)

lemma time_param_result:
  "case time_param tp q secs of Inr t \<Rightarrow> t = None \<or> secs \<le> 0 | Inl e \<Rightarrow> IsInvalidInput (Some e)"
  by (simp add: time_param_def could_not_parse_def InvalidInput_def split: sum.split)

text \<open>
  C35: Every query is either refused as invalid input or gives options in their bounds: no count is negative or above the range of
  64-bit integers, and at most one of the two starting points is set.
\<close>

theorem parseLogOptions_valid_or_refused:
  "case parseLogOptions time_Parse q of Inr opts \<Rightarrow> valid_log_opts opts | Inl err \<Rightarrow> IsInvalidInput (Some err)"
proof (cases "parseLogOptions time_Parse q")
  case (Inl err)
  then consider "\<exists>p least. 0 \<le> least \<and> int_param q p least = Inl err" | "\<exists>p. bool_param q p = Inl err" | "\<exists>s. time_param time_Parse q s = Inl err"
    unfolding parseLogOptions_def rbind_Inl_iff by force
  then have "IsInvalidInput (Some err)"
  proof cases
    case 1
    then obtain p least where "0 \<le> least" "int_param q p least = Inl err" by blast
    then show ?thesis using int_param_result [of least q p] by (simp del: IsInvalidInput.simps)
  next
    case 2
    then show ?thesis using bool_param_result by blast
  next
    case 3
    then obtain s where "time_param time_Parse q s = Inl err" by blast
    then show ?thesis using time_param_result [of s time_Parse q] by (simp del: IsInvalidInput.simps)
  qed
  then show ?thesis using Inl by (simp del: IsInvalidInput.simps)
next
  case (Inr opts)
  then have "int_param q ''tailLines'' 0 = Inr (Tail opts)" "int_param q ''limitBytes'' 1 = Inr (LimitBytes opts)"
      "int_param q ''sinceSeconds'' 1 = Inr (SinceSeconds opts)" "time_param time_Parse q (SinceSeconds opts) = Inr (SinceTime opts)"
    by (auto simp: parseLogOptions_def)
  then show ?thesis
    using Inr int_param_result [of 0 q "''tailLines''"] int_param_result [of 1 q "''limitBytes''"]
      int_param_result [of 1 q "''sinceSeconds''"] time_param_result [of "SinceSeconds opts" time_Parse q]
    by (auto simp: valid_log_opts_def int64_nonneg_def)
qed

subsection \<open>Answers to log requests\<close>

lemma handleError_error:
  "f empty_response = Val (empty_response, Some e) \<Longrightarrow> handleError f empty_response = Val \<lparr>rs_code = Some (httpStatusCode (Some e)), rs_body = Error e\<rparr>"
  by (simp add: handleError_def rsp_Write_def WriteHeader_def empty_response_def)

text \<open>The answer once the route has matched; \<open>None\<close> for a provider that returns neither a reader nor an error.\<close>

definition logs_answer :: "(string \<Rightarrow> string \<times> goerror option) \<Rightarrow> ContainerLogOpts result \<Rightarrow> (ContainerLogOpts \<Rightarrow> string option \<times> goerror option) \<Rightarrow> http_response option" where
  "logs_answer copy opts answer =
     (case opts of
        Inl err \<Rightarrow> Some \<lparr>rs_code = Some (httpStatusCode (Some err)), rs_body = Error err\<rparr>
      | Inr o' \<Rightarrow>
          (case answer o' of
             (r, Some err) \<Rightarrow> Some \<lparr>rs_code = Some (httpStatusCode (Some err)), rs_body = ''error getting container logs?): '' @ Error err\<rparr>
           | (Some reader, None) \<Rightarrow>
               Some \<lparr>rs_code = Some 200, rs_body = fst (copy reader) @ (case snd (copy reader) of None \<Rightarrow> [] | Some err \<Rightarrow> ''error writing response to client: '' @ Error err)\<rparr>
           | (None, None) \<Rightarrow> None))"

text \<open>
  The answer to a request for logs: 501 without a provider function, 404 for a route with other variables, the code of the parser's
  or of the provider's error, and 200 with the bytes that were copied. It panics exactly when the provider returns neither
  a reader nor an error.
\<close>

theorem logs_request_answer:
  "HandleContainerLogs time_Parse copy h vars q =
     (case h of
        None \<Rightarrow> Val \<lparr>rs_code = Some 501, rs_body = ''501 not implemented'' @ [CHR 0x0A]\<rparr>
      | Some getLogs \<Rightarrow>
          if length vars \<noteq> 3 then Val \<lparr>rs_code = Some 404, rs_body = ''not found''\<rparr>
          else
            let arg = (\<lambda>k. case go_get vars k of None \<Rightarrow> [] | Some v \<Rightarrow> v) in
            (case logs_answer copy (parseLogOptions time_Parse q) (getLogs (arg ''namespace'') (arg ''pod'') (arg ''container'')) of
               Some w \<Rightarrow> Val w
             | None \<Rightarrow> Panic nil_deref))"
proof (cases h)
  case None
  then show ?thesis by (simp add: HandleContainerLogs_def NotImplemented_def http_Error_def rsp_Write_def WriteHeader_def empty_response_def)
next
  case (Some getLogs)
  show ?thesis
  proof (cases "length vars = 3")
    case False
    then show ?thesis using Some
      by (simp add: HandleContainerLogs_def handleError_error NotFound_def httpStatusCode_def)
  next
    case True
    show ?thesis
    proof (cases "parseLogOptions time_Parse q")
      case (Inl err)
      then show ?thesis using Some True
        by (simp add: HandleContainerLogs_def handleError_error logs_answer_def Let_def)
    next
      case (Inr opts)
      let ?arg = "\<lambda>k. case go_get vars k of None \<Rightarrow> [] | Some v \<Rightarrow> v"
      obtain r e where a: "getLogs (?arg ''namespace'') (?arg ''pod'') (?arg ''container'') opts = (r, e)" by fastforce
      have code: "httpStatusCode (Some (WithMessage m err)) = httpStatusCode (Some err)" for m err
        by (simp add: httpStatusCode_def)
      show ?thesis
      proof (cases e)
        case (Some err)
        then show ?thesis using \<open>h = Some getLogs\<close> True Inr a
          by (cases r) (simp_all add: HandleContainerLogs_def handleError_error logs_answer_def Let_def code)
      next
        case None
        then show ?thesis using \<open>h = Some getLogs\<close> True Inr a
          by (cases r; cases "copy (the r)"; cases "snd (copy (the r))")
            (simp_all add: HandleContainerLogs_def handleError_def logs_answer_def Let_def rsp_Write_def WriteHeader_def empty_response_def)
      qed
    qed
  qed
qed

subsection \<open>Exec requests\<close>

text \<open>The two parsers of exec options agree unless a terminal and an error stream are asked for, which only this one refuses.\<close>

theorem exec_options_agree:
  "case getExecOptions f of
     Inr opts \<Rightarrow> NewOptions f = Inr opts \<and> \<not> (opt_TTY opts \<and> opt_Stderr opts) \<and> (opt_Stdin opts \<or> opt_Stdout opts \<or> opt_Stderr opts)
   | Inl err \<Rightarrow> (\<exists>err'. NewOptions f = Inl err') \<or> f ExecTTYParam = ''1'' \<and> f ExecStderrParam = ''1''"
  by (auto simp: getExecOptions_def NewOptions_def Let_def)

lemma split_at_plain: "c \<notin> set s \<Longrightarrow> split_at c s = [s]"
  by (induction s) auto

text \<open>
  The handler offers the client its own header as the protocols the server supports. So a client that names one protocol
  gets it, whatever it is, and if it is none of the four that are implemented, the request panics.
\<close>

theorem unknown_protocol_panics:
  assumes "getExecOptions (FormValue req) = Inr opts" and "CHR '','' \<notin> set (ProtocolHeader req)"
    and "\<And>ps. ProtocolHeader req \<in> set ps \<Longrightarrow> Handshake (conn_req req) ps = Inr (ProtocolHeader req)"
    and "\<not> IsWebSocketRequest (conn_req req)" and "upgraded (conn_req req)" and "handler_for (ProtocolHeader req) = None"
  shows "HandleContainerExec lib (Some run) req = Panic nil_deref"
proof -
  have "Handshake (conn_req req) (split_at (CHR '','') (ProtocolHeader req)) = Inr (ProtocolHeader req)"
    using assms(3) split_at_plain [OF assms(2)] by simp
  then show ?thesis
    using assms(1,4-6) by (simp add: HandleContainerExec_def ServeExec_def createStreams_def createHTTPStreamStreams_def)
qed

definition new_client :: exec_http_request where
  "new_client = \<lparr>conn_req = \<lparr>IsWebSocketRequest = False, Handshake = (\<lambda>ps. if ''v5.channel.k8s.io'' \<in> set ps then Inr ''v5.channel.k8s.io'' else Inl (ErrorString ''unable to upgrade'')),
       upgraded = True, wait_events = [], ws_Open = (\<lambda>cs. Inr [])\<rparr>,
     ProtocolHeader = ''v5.channel.k8s.io'', FormValue = (\<lambda>k. if k = ''output'' then ''1'' else []), command_query = [''ls''], exec_vars = []\<rparr>"

theorem unknown_protocol_panics_witness:
  "HandleContainerExec plain_exec (Some (\<lambda>ns p c cmd eio. None)) new_client = Panic nil_deref"
proof (rule unknown_protocol_panics)
  show "getExecOptions (FormValue new_client) = Inr \<lparr>opt_Stdin = False, opt_Stdout = True, opt_Stderr = False, opt_TTY = False\<rparr>" by code_simp
  show "handler_for (ProtocolHeader new_client) = None" by code_simp
qed (simp_all add: new_client_def)

text \<open>
  When the client closes its resize stream the channel of sizes is closed, and the goroutine that reads it does not stop: after
  the sizes that were sent the provider is told, without end, that the terminal has size zero.
\<close>

theorem closed_resize_floods_zero_sizes:
  "forwardResize (length sizes + k) sizes = sizes @ replicate k \<lparr>Width = 0, Height = 0\<rparr>"
proof (induction sizes)
  case Nil
  show ?case by (induction k) simp_all
qed simp

end
