(* ===== verification/Filepath.thy ===== *)
theory Filepath
  imports Main
begin

text \<open>
  \<open>Clean\<close>, \<open>Join\<close> and \<open>Dir\<close> of Go's \<open>path/filepath\<close> on Unix: a path is split at its slashes, empty elements and dots are
  dropped, and \<open>..\<close> removes the element before it.
\<close>

fun split_slash :: "string \<Rightarrow> string list" where
  "split_slash [] = [[]]"
| "split_slash (c # cs) = (if c = CHR ''/'' then [] # split_slash cs
     else case split_slash cs of [] \<Rightarrow> [[c]] | w # ws \<Rightarrow> (c # w) # ws)"

definition comps :: "string \<Rightarrow> string list" where
  "comps s = filter (\<lambda>c. c \<noteq> [] \<and> c \<noteq> ''.'') (split_slash s)"

text \<open>The elements of a path with each \<open>..\<close> removing the element before it; at the root it removes nothing.\<close>

fun resolve :: "bool \<Rightarrow> string list \<Rightarrow> string list \<Rightarrow> string list" where
  "resolve rooted acc [] = acc"
| "resolve rooted acc (c # cs) =
     (if c = ''..'' then
        (if acc \<noteq> [] \<and> last acc \<noteq> ''..'' then resolve rooted (butlast acc) cs
         else if rooted then resolve rooted acc cs
         else resolve rooted (acc @ [c]) cs)
      else resolve rooted (acc @ [c]) cs)"

definition render :: "string list \<Rightarrow> string" where
  "render cs = concat (map (\<lambda>c. CHR ''/'' # c) cs)"

definition Clean :: "string \<Rightarrow> string" where
  "Clean s =
     (let rooted = (s \<noteq> [] \<and> hd s = CHR ''/''); cs = resolve rooted [] (comps s) in
      if rooted then (if cs = [] then ''/'' else render cs) else (if cs = [] then ''.'' else tl (render cs)))"

definition Join :: "string \<Rightarrow> string \<Rightarrow> string" where
  "Join a b = (if a = [] then (if b = [] then [] else Clean b) else Clean (a @ ''/'' @ b))"

definition Dir :: "string \<Rightarrow> string" where
  "Dir p = Clean (rev (dropWhile (\<lambda>c. c \<noteq> CHR ''/'') (rev p)))"

end
