(* ===== verification/Native_Images.thy ===== *)
theory Native_Images
  imports Native_Pods Filepath
begin

text \<open>
  The image manager of the native provider (\<open>image_manager.go\<close>) and the unpacking of layers (\<open>layer.go\<close>). The file system is a table of directories and files. The registry
  client (\<open>containers/image\<close>), the encoding of the manifest and file names are parameters.
\<close>

subsection \<open>The file system\<close>

datatype fsnode = FDir | FFile string

type_synonym fs = "(string \<times> fsnode) list"

definition not_exist :: goerror where "not_exist = ErrorString ''no such file or directory''"
definition not_a_dir :: goerror where "not_a_dir = ErrorString ''not a directory''"
definition is_a_dir :: goerror where "is_a_dir = ErrorString ''is a directory''"

definition is_dir :: "fs \<Rightarrow> string \<Rightarrow> bool" where
  "is_dir d p = (case map_of d p of Some x \<Rightarrow> x = FDir | None \<Rightarrow> p = ''/'')"

text \<open>\<open>os.MkdirAll\<close>: the directories of a path from the root down.\<close>

fun mkdirs :: "string list \<Rightarrow> string list \<Rightarrow> fs \<Rightarrow> fs \<times> goerror option" where
  "mkdirs up [] d = (d, None)"
| "mkdirs up (c # cs) d =
     (let p = render (up @ [c]) in
      case map_of d p of
        None \<Rightarrow> mkdirs (up @ [c]) cs ((p, FDir) # d)
      | Some FDir \<Rightarrow> mkdirs (up @ [c]) cs d
      | Some (FFile s) \<Rightarrow> (d, Some not_a_dir))"

definition MkdirAll :: "string \<Rightarrow> fs \<Rightarrow> fs \<times> goerror option" where
  "MkdirAll p d = mkdirs [] (comps p) d"

text \<open>
  Opening with \<open>O_CREATE|O_RDWR\<close> and copying: the file is created if there is none, and written from its start without
  being truncated.
\<close>

definition write_over :: "string \<Rightarrow> string \<Rightarrow> string" where
  "write_over old new = new @ drop (length new) old"

definition copyFile :: "string \<Rightarrow> string \<Rightarrow> fs \<Rightarrow> fs \<times> goerror option" where
  "copyFile p content d =
     (if is_dir d p then (d, Some is_a_dir)
      else if \<not> is_dir d (Dir p) then (d, Some (if map_of d (Dir p) = None then not_exist else not_a_dir))
      else case map_of d p of
        Some (FFile old) \<Rightarrow> ((p, FFile (write_over old content)) # d, None)
      | _ \<Rightarrow> ((p, FFile content) # d, None))"

definition ExistDir :: "string \<Rightarrow> fs \<Rightarrow> bool" where
  "ExistDir p d = is_dir d p"

definition checkAndCreatePath :: "string \<Rightarrow> fs \<Rightarrow> fs \<times> goerror option" where
  "checkAndCreatePath p d = (if p = ''/'' \<or> map_of d p \<noteq> None then (d, None) else MkdirAll p d)"

subsection \<open>Layers\<close>

text \<open>What the tar reader yields before the end of the archive. A torn file is one that cannot be read to its end.\<close>

datatype tar_item =
    TarDir string
  | TarReg string string
  | TarTorn string string goerror
  | TarOther string string
  | TarNil
  | TarError goerror

definition unsupported_entry :: "string \<Rightarrow> string \<Rightarrow> goerror" where
  "unsupported_entry src flag = ErrorString (''unsupport tar '' @ src @ '' Typeflag '' @ flag)"

fun untarLoop :: "string \<Rightarrow> string \<Rightarrow> tar_item list \<Rightarrow> fs \<Rightarrow> fs \<times> goerror option" where
  "untarLoop src dest [] d = (d, None)"
| "untarLoop src dest (TarError err # entries) d = (d, Some err)"
| "untarLoop src dest (TarNil # entries) d = untarLoop src dest entries d"
| "untarLoop src dest (TarDir name # entries) d =
     (let dstFileDir = Join dest name in
      if ExistDir dstFileDir d then untarLoop src dest entries d
      else case MkdirAll dstFileDir d of
        (d', Some err) \<Rightarrow> (d', Some err)
      | (d', None) \<Rightarrow> untarLoop src dest entries d')"
| "untarLoop src dest (TarReg name content # entries) d =
     (case copyFile (Join dest name) content d of
        (d', Some err) \<Rightarrow> (d', Some err)
      | (d', None) \<Rightarrow> untarLoop src dest entries d')"
| "untarLoop src dest (TarTorn name content err # entries) d =
     (case copyFile (Join dest name) content d of
        (d', Some err') \<Rightarrow> (d', Some err')
      | (d', None) \<Rightarrow> (d', Some err))"
| "untarLoop src dest (TarOther name flag # entries) d = (d, Some (unsupported_entry src flag))"

definition UnTar :: "(string \<Rightarrow> tar_item list result) \<Rightarrow> string \<Rightarrow> string \<Rightarrow> fs \<Rightarrow> fs \<times> goerror option" where
  "UnTar openTar src dest d = (case openTar src of Inl err \<Rightarrow> (d, Some err) | Inr entries \<Rightarrow> untarLoop src dest entries d)"

subsection \<open>Images\<close>

record img_lib =
  ParseImageName :: "string \<Rightarrow> goerror option"
  ParseDirReference :: "string \<Rightarrow> goerror option"
  transportNames :: "string list"
  archiveName :: string
  img_Filenamify :: "string \<Rightarrow> string result"
  policyError :: "goerror option"
  openPullLog :: "goerror option"
  cc_Image :: "string \<Rightarrow> string \<Rightarrow> goerror option"        \<comment> \<open>source and destination\<close>
  readManifest :: "string \<Rightarrow> (string \<times> string) list result"  \<comment> \<open>media type and digest of each layer\<close>
  openTar :: "string \<Rightarrow> tar_item list result"

definition getLayerFilePath :: "string \<Rightarrow> string \<Rightarrow> string" where "getLayerFilePath imageDir digest = Join imageDir digest"
definition containerWorkDir :: "string \<Rightarrow> string" where "containerWorkDir wd = Join wd ''container''"
definition manifestDir :: "string \<Rightarrow> string" where "manifestDir wd = Join wd ''manifest.json''"
definition getImageWorkDir :: "string \<Rightarrow> string" where "getImageWorkDir wd = Join wd ''image''"

text \<open>\<open>strings.NewReplacer\<close> with empty replacements: at each position the first of the strings that matches is removed.\<close>

fun first_match :: "string list \<Rightarrow> string \<Rightarrow> nat option" where
  "first_match [] s = None"
| "first_match (n # ns) s = (if n \<noteq> [] \<and> take (length n) s = n then Some (length n) else first_match ns s)"

lemma first_match_pos: "first_match ns s = Some k \<Longrightarrow> 0 < k"
  by (induction ns) (auto split: if_splits)

function removeAll :: "string list \<Rightarrow> string \<Rightarrow> string" where
  "removeAll ns [] = []"
| "removeAll ns (c # cs) = (case first_match ns (c # cs) of Some k \<Rightarrow> removeAll ns (drop k (c # cs)) | None \<Rightarrow> c # removeAll ns cs)"
  by pat_completeness auto
termination
  by (relation "measure (\<lambda>(ns, s). length s)") (auto dest: first_match_pos)

definition imageDestDir :: "img_lib \<Rightarrow> string \<Rightarrow> string \<Rightarrow> (string \<times> string) result" where
  "imageDestDir lib path imageName =
     (case img_Filenamify lib (removeAll (transportNames lib @ [''//'']) imageName) of
        Inl err \<Rightarrow> Inl err
      | Inr s \<Rightarrow> let filep = Join path s @ ''.tar.gz'' in Inr (archiveName lib @ '':'' @ filep, filep))"

text \<open>\<open>os.Remove\<close> removes a file or an empty directory; the error of \<open>deleteExistImage\<close> is overwritten by the next call's.\<close>

definition not_empty :: goerror where "not_empty = ErrorString ''directory not empty''"

definition os_Remove :: "string \<Rightarrow> fs \<Rightarrow> fs \<times> goerror option" where
  "os_Remove p d =
     (case map_of d p of
        None \<Rightarrow> (d, Some not_exist)
      | Some (FFile s) \<Rightarrow> (filter (\<lambda>kv. fst kv \<noteq> p) d, None)
      | Some FDir \<Rightarrow>
          if list_ex (\<lambda>kv. take (Suc (length p)) (fst kv) = p @ ''/'') d then (d, Some not_empty)
          else (filter (\<lambda>kv. fst kv \<noteq> p) d, None))"

definition deleteExistImage :: "string \<Rightarrow> fs \<Rightarrow> fs \<times> goerror option" where
  "deleteExistImage p d =
     (case os_Remove p d of
        (d', Some err) \<Rightarrow> if err = not_exist then (d', None) else (d', Some err)
      | (d', None) \<Rightarrow> (d', None))"

text \<open>
  \<open>PullImage\<close> with no other pull of the same image under way. The flag of the result says whether the image was copied
  from its registry.
\<close>

definition PullImage :: "'d bitcask \<Rightarrow> img_lib \<Rightarrow> string \<Rightarrow> string \<Rightarrow> 'd \<times> fs \<Rightarrow> ('d \<times> fs) \<times> bool \<times> goerror option" where
  "PullImage kv lib imagePath name st =
     (let (dbs, d) = st in
      case ParseImageName lib name of
        Some err \<Rightarrow> (st, False, Some err)
      | None \<Rightarrow> (case imageDestDir lib imagePath name of
          Inl err \<Rightarrow> (st, False, Some err)
        | Inr (dest, imageDir) \<Rightarrow> (case checkAndCreatePath (Dir imageDir) d of
            (d1, Some err) \<Rightarrow> ((dbs, d1), False, Some err)
          | (d1, None) \<Rightarrow> (case ParseImageName lib dest of
              Some err \<Rightarrow> ((dbs, d1), False, Some err)
            | None \<Rightarrow> (case policyError lib of
                Some err \<Rightarrow> ((dbs, d1), False, Some err)
              | None \<Rightarrow>
                  if db_Has kv dbs name then ((dbs, d1), False, None)
                  else let (d2, err) = deleteExistImage imageDir d1 in
                    (case openPullLog lib of
                       Some err \<Rightarrow> ((dbs, d2), False, Some err)
                     | None \<Rightarrow> (case cc_Image lib name dest of
                         Some err \<Rightarrow> ((dbs, d2), True, Some err)
                       | None \<Rightarrow> let (dbs', perr) = db_Put kv name (PathEntry dest) dbs in ((dbs', d2), True, perr))))))))"

definition MediaTypeDockerSchema2LayerGzip :: string where
  "MediaTypeDockerSchema2LayerGzip = ''application/vnd.docker.image.rootfs.diff.tar.gzip''"

fun unzipLayers :: "img_lib \<Rightarrow> string \<Rightarrow> string \<Rightarrow> string \<Rightarrow> (string \<times> string) list \<Rightarrow> fs \<Rightarrow> fs \<times> goerror option" where
  "unzipLayers lib img wd imageDir [] d = (d, None)"
| "unzipLayers lib img wd imageDir ((mediaType, digest) # layers) d =
     (if mediaType = MediaTypeDockerSchema2LayerGzip then
        (case checkAndCreatePath (containerWorkDir wd) d of
           (d1, Some err) \<Rightarrow> (d1, Some err)
         | (d1, None) \<Rightarrow> (case UnTar (openTar lib) (getLayerFilePath imageDir digest) (containerWorkDir wd) d1 of
             (d2, Some err) \<Rightarrow> (d2, Some err)
           | (d2, None) \<Rightarrow> unzipLayers lib img wd imageDir layers d2))
      else (d, Some (ErrorString (''unsupport image '' @ img @ '' layer '' @ digest @ '' media type:'' @ mediaType))))"

definition UnzipImage :: "'d bitcask \<Rightarrow> img_lib \<Rightarrow> string \<Rightarrow> string \<Rightarrow> 'd \<Rightarrow> fs \<Rightarrow> fs \<times> goerror option" where
  "UnzipImage kv lib img wd dbs d =
     (let imageDir = getImageWorkDir wd in
      case policyError lib of
        Some err \<Rightarrow> (d, Some err)
      | None \<Rightarrow> (case checkAndCreatePath imageDir d of
          (d1, Some err) \<Rightarrow> (d1, Some err)
        | (d1, None) \<Rightarrow> (case (ParseDirReference lib imageDir, db_Get kv dbs (dockerImageName img)) of
            (Some err, _) \<Rightarrow> (d1, Some err)
          | (None, Inl err) \<Rightarrow> (d1, Some err)
          | (None, Inr v) \<Rightarrow>
              let imagePath = (case v of PathEntry s \<Rightarrow> s | PodEntry p \<Rightarrow> []) in
              (case ParseImageName lib imagePath of
                 Some err \<Rightarrow> (d1, Some err)
               | None \<Rightarrow> (case cc_Image lib imagePath imageDir of
                   Some err \<Rightarrow> (d1, Some err)
                 | None \<Rightarrow> (case readManifest lib (manifestDir imageDir) of
                     Inl err \<Rightarrow> (d1, Some err)
                   | Inr layers \<Rightarrow> unzipLayers lib img wd imageDir layers d1))))))"

subsection \<open>Joined paths\<close>

definition good_comp :: "string \<Rightarrow> bool" where
  "good_comp c = (c \<noteq> [] \<and> c \<noteq> ''.'' \<and> c \<noteq> ''..'' \<and> CHR ''/'' \<notin> set c)"

text \<open>A cleaned absolute path, by its elements.\<close>

definition abs_path :: "string list \<Rightarrow> string \<Rightarrow> bool" where
  "abs_path cs p = (cs \<noteq> [] \<and> list_all good_comp cs \<and> p = render cs)"

lemma split_slash_ne [simp]: "split_slash s \<noteq> []"
  by (cases s) (auto split: list.split)

lemma split_slash_append: "split_slash (a @ CHR ''/'' # b) = split_slash a @ split_slash b"
  by (induction a) (auto split: list.split)

lemma split_slash_single: "CHR ''/'' \<notin> set c \<Longrightarrow> split_slash c = [c]"
  by (induction c) auto

lemma comps_append: "comps (a @ CHR ''/'' # b) = comps a @ comps b"
  by (simp add: comps_def split_slash_append)

lemma comps_good: "good_comp c \<Longrightarrow> comps c = [c]"
  by (simp add: comps_def good_comp_def split_slash_single)

lemma render_snoc: "render (cs @ [c]) = render cs @ CHR ''/'' # c"
  by (simp add: render_def)

lemma comps_render: "list_all good_comp cs \<Longrightarrow> comps (render cs) = cs"
proof (induction cs rule: rev_induct)
  case Nil
  show ?case by (simp add: render_def comps_def)
next
  case (snoc c cs)
  then show ?case by (simp add: render_snoc comps_append comps_good)
qed

lemma resolve_plain: "''..'' \<notin> set cs \<Longrightarrow> resolve rooted acc cs = acc @ cs"
  by (induction cs arbitrary: acc) auto

lemma render_rooted: "cs \<noteq> [] \<Longrightarrow> render cs \<noteq> [] \<and> hd (render cs) = CHR ''/''"
  by (cases cs) (auto simp: render_def)

lemma Join_plain:
  assumes "abs_path cs dest" and "''..'' \<notin> set (comps name)"
  shows "Join dest name = render (cs @ comps name)"
proof -
  have ne: "cs \<noteq> []" and good: "list_all good_comp cs" and d: "dest = render cs" using assms(1) by (auto simp: abs_path_def)
  have "comps (dest @ ''/'' @ name) = cs @ comps name" using comps_append [of dest name] comps_render [OF good] d by simp
  moreover have "''..'' \<notin> set cs" using good by (auto simp: list_all_iff good_comp_def)
  moreover have "dest \<noteq> []" "hd (dest @ ''/'' @ name) = CHR ''/''" using render_rooted [OF ne] d by auto
  ultimately show ?thesis
    using assms(2) ne by (simp add: Join_def Clean_def Let_def resolve_plain)
qed

definition below :: "string \<Rightarrow> string \<Rightarrow> bool" where
  "below dest p = (p = dest \<or> take (Suc (length dest)) p = dest @ ''/'')"

lemma below_render: "below (render cs) (render (cs @ ds))"
  by (cases ds) (simp_all add: below_def render_def)

lemma split_slash_no_slash: "c \<in> set (split_slash s) \<Longrightarrow> CHR ''/'' \<notin> set c"
  by (induction s arbitrary: c) (auto split: if_splits list.splits)

lemma comps_all_good: "''..'' \<notin> set (comps name) \<Longrightarrow> list_all good_comp (comps name)"
  by (auto simp: comps_def list_all_iff good_comp_def dest: split_slash_no_slash)

subsection \<open>Changes of the file system\<close>

lemma mkdirs_keeps: "mkdirs up cs d = (d', e) \<Longrightarrow> map_of d q = Some x \<Longrightarrow> map_of d' q = Some x"
proof (induction up cs d rule: mkdirs.induct)
  case (2 up c cs d)
  have "q \<noteq> render (up @ [c])" if "map_of d (render (up @ [c])) = None" using that "2.prems"(2) by auto
  then show ?case using 2 by (auto simp: Let_def split: option.splits fsnode.splits)
qed simp

lemma mkdirs_adds:
  "mkdirs up cs d = (d', e) \<Longrightarrow> map_of d q = None \<Longrightarrow> map_of d' q = None \<or> map_of d' q = Some FDir \<and> (\<exists>n < length cs. q = render (up @ take (Suc n) cs))"
proof (induction up cs d rule: mkdirs.induct)
  case (2 dn c cs d)
  let ?p = "render (dn @ [c])"
  show ?case
  proof (cases "map_of d ?p")
    case None
    then have run: "mkdirs (dn @ [c]) cs ((?p, FDir) # d) = (d', e)" using "2.prems"(1) by (simp add: Let_def)
    show ?thesis
    proof (cases "q = ?p")
      case True
      then have "map_of d' q = Some FDir" using mkdirs_keeps [OF run, of q FDir] by simp
      with True show ?thesis by (auto intro!: exI [of _ 0])
    next
      case False
      then have "map_of ((?p, FDir) # d) q = None" using "2.prems"(2) by simp
      from "2.IH"(1) [OF refl None run this] show ?thesis by (auto intro: exI [of _ "Suc _"])
    qed
  next
    case (Some x)
    show ?thesis
    proof (cases x)
      case FDir
      then have "mkdirs (dn @ [c]) cs d = (d', e)" using "2.prems"(1) Some by (simp add: Let_def)
      from "2.IH"(2) [OF refl Some FDir this "2.prems"(2)] show ?thesis by (auto intro: exI [of _ "Suc _"])
    next
      case (FFile y)
      then show ?thesis using "2.prems" Some by (simp add: Let_def)
    qed
  qed
qed simp

text \<open>The destination and the directories above it exist.\<close>

definition dest_ready :: "string list \<Rightarrow> fs \<Rightarrow> bool" where
  "dest_ready cs d = (\<forall>n. 0 < n \<and> n \<le> length cs \<longrightarrow> map_of d (render (take n cs)) = Some FDir)"

definition same_outside :: "string \<Rightarrow> fs \<Rightarrow> fs \<Rightarrow> bool" where
  "same_outside dest d d' = (\<forall>p. \<not> below dest p \<longrightarrow> map_of d' p = map_of d p)"

lemma same_outside_trans: "same_outside dest d d1 \<Longrightarrow> same_outside dest d1 d2 \<Longrightarrow> same_outside dest d d2"
  by (simp add: same_outside_def)

lemma MkdirAll_below:
  assumes "abs_path cs dest" "dest_ready cs d" "''..'' \<notin> set (comps name)" "MkdirAll (Join dest name) d = (d', e)"
  shows "same_outside dest d d' \<and> dest_ready cs d'"
proof -
  have good: "list_all good_comp (cs @ comps name)" using assms(1,3) comps_all_good by (simp add: abs_path_def)
  then have run: "mkdirs [] (cs @ comps name) d = (d', e)"
    using assms(4) by (simp add: MkdirAll_def Join_plain [OF assms(1,3)] comps_render)
  have "map_of d' p = map_of d p" if p: "\<not> below dest p" for p
  proof (cases "map_of d p")
    case None
    show ?thesis
    proof (rule ccontr)
      assume "map_of d' p \<noteq> map_of d p"
      then obtain n where n: "p = render (take (Suc n) (cs @ comps name))" using mkdirs_adds [OF run None] None by auto
      show False
      proof (cases "Suc n \<le> length cs")
        case True
        then show False using assms(2) n None by (simp add: dest_ready_def)
      next
        case False
        then have "p = render (cs @ take (Suc n - length cs) (comps name))" using n by simp
        then show False using p below_render assms(1) by (simp add: abs_path_def)
      qed
    qed
  qed (use mkdirs_keeps [OF run] in simp)
  moreover have "dest_ready cs d'" using assms(2) mkdirs_keeps [OF run] by (simp add: dest_ready_def)
  ultimately show ?thesis by (simp add: same_outside_def)
qed

lemma copyFile_below:
  assumes "abs_path cs dest" "dest_ready cs d" "''..'' \<notin> set (comps name)" "copyFile (Join dest name) content d = (d', e)"
  shows "same_outside dest d d' \<and> dest_ready cs d'"
proof -
  have p: "below dest (Join dest name)" using Join_plain [OF assms(1,3)] below_render assms(1) by (simp add: abs_path_def)
  have "map_of d' q = map_of d q" if "q \<noteq> Join dest name \<or> map_of d q = Some FDir" for q
    using assms(4) that by (auto simp: copyFile_def is_dir_def split: if_splits option.splits fsnode.splits)
  then show ?thesis using p assms(2) unfolding same_outside_def dest_ready_def by metis
qed

fun entry_name :: "tar_item \<Rightarrow> string" where
  "entry_name (TarDir n) = n"
| "entry_name (TarReg n c) = n"
| "entry_name (TarTorn n c e) = n"
| "entry_name (TarOther n f) = n"
| "entry_name TarNil = []"
| "entry_name (TarError e) = []"

text \<open>
  C33: Unpacking an archive none of whose names has an element \<open>..\<close> changes nothing outside the destination, whether it
  succeeds or fails.
\<close>

theorem untar_stays_below:
  assumes "abs_path cs dest" and "dest_ready cs d" and "list_all (\<lambda>it. ''..'' \<notin> set (comps (entry_name it))) entries"
    and "untarLoop src dest entries d = (d', e)"
  shows "\<forall>p. \<not> below dest p \<longrightarrow> map_of d' p = map_of d p"
proof -
  have "same_outside dest d d'"
    using assms(2-4)
  proof (induction entries arbitrary: d)
    case (Cons it entries)
    have step: "same_outside dest d d'" if "same_outside dest d d1 \<and> dest_ready cs d1" "untarLoop src dest entries d1 = (d', e)" for d1
      using Cons.IH [of d1] that Cons.prems(2) same_outside_trans by auto
    show ?case
    proof (cases it)
      case (TarDir name)
      obtain d1 e1 where mk: "MkdirAll (Join dest name) d = (d1, e1)" by fastforce
      have "same_outside dest d d1 \<and> dest_ready cs d1"
        using MkdirAll_below [OF assms(1) Cons.prems(1) _ mk] Cons.prems(2) TarDir by simp
      then show ?thesis
        using step [of d1] step [of d] mk TarDir Cons.prems(1,3) by (cases e1) (auto simp: same_outside_def Let_def split: if_splits)
    next
      case (TarReg name content)
      obtain d1 e1 where cp: "copyFile (Join dest name) content d = (d1, e1)" by fastforce
      have "same_outside dest d d1 \<and> dest_ready cs d1"
        using copyFile_below [OF assms(1) Cons.prems(1) _ cp] Cons.prems(2) TarReg by simp
      then show ?thesis using step [of d1] cp TarReg Cons.prems(3) by (cases e1) auto
    next
      case (TarTorn name content err)
      obtain d1 e1 where cp: "copyFile (Join dest name) content d = (d1, e1)" by fastforce
      have "same_outside dest d d1 \<and> dest_ready cs d1"
        using copyFile_below [OF assms(1) Cons.prems(1) _ cp] Cons.prems(2) TarTorn by simp
      then show ?thesis using cp TarTorn Cons.prems(3) by (cases e1) auto
    qed (use Cons.prems step [of d] in \<open>auto simp: same_outside_def\<close>)
  qed (simp add: same_outside_def)
  then show ?thesis by (simp add: same_outside_def)
qed

definition sample_layer :: "tar_item list" where
  "sample_layer = [TarDir ''app/conf'', TarReg ''app/run.sh'' ''#!/bin/sh'', TarNil, TarReg ''app/conf/a'' ''x=1'']"

definition sample_fs :: fs where
  "sample_fs = [(''/w'', FDir), (''/w/c'', FDir), (''/w/c/old'', FFile ''old''), (''/etc'', FDir)]"

lemma sample_dest: "abs_path [''w'', ''c''] ''/w/c'' \<and> dest_ready [''w'', ''c''] sample_fs"
proof -
  have "map_of sample_fs (render (take n [''w'', ''c''])) = Some FDir" if "0 < n" "n \<le> length [''w'', ''c'']" for n
  proof -
    from that have "n = 1 \<or> n = 2" by auto
    then show ?thesis by (auto simp: render_def sample_fs_def)
  qed
  then show ?thesis by (simp add: abs_path_def dest_ready_def good_comp_def render_def)
qed

lemma sample_untar: "untarLoop ''l'' ''/w/c'' sample_layer sample_fs =
    ((''/w/c/app/conf/a'', FFile ''x=1'') # (''/w/c/app/run.sh'', FFile ''#!/bin/sh'') # (''/w/c/app/conf'', FDir) # (''/w/c/app'', FDir) # sample_fs, None)"
  by code_simp

theorem untar_stays_below_witness:
  "list_all (\<lambda>it. ''..'' \<notin> set (comps (entry_name it))) sample_layer \<and>
   map_of (fst (untarLoop ''l'' ''/w/c'' sample_layer sample_fs)) ''/etc'' = map_of sample_fs ''/etc''"
proof -
  have names: "list_all (\<lambda>it. ''..'' \<notin> set (comps (entry_name it))) sample_layer" by code_simp
  moreover have "\<not> below ''/w/c'' ''/etc''" by code_simp
  ultimately show ?thesis
    using untar_stays_below [OF conjunct1 [OF sample_dest] conjunct2 [OF sample_dest] names sample_untar] sample_untar by simp
qed

text \<open>The files of an archive, in order.\<close>

fun tar_files :: "tar_item list \<Rightarrow> (string \<times> string) list" where
  "tar_files [] = []"
| "tar_files (TarReg n c # entries) = (n, c) # tar_files entries"
| "tar_files (_ # entries) = tar_files entries"

lemma untar_keeps_file:
  assumes "untarLoop src dest entries d = (d', None)" "map_of d p = Some (FFile x)" "p \<notin> set (map (\<lambda>(n, c). Join dest n) (tar_files entries))"
  shows "map_of d' p = Some (FFile x)"
  using assms
proof (induction entries arbitrary: d)
  case (Cons it entries)
  show ?case
  proof (cases it)
    case (TarDir name)
    obtain d1 e1 where mk: "MkdirAll (Join dest name) d = (d1, e1)" by fastforce
    then have "map_of d1 p = Some (FFile x)" using mkdirs_keeps Cons.prems(2) by (fastforce simp: MkdirAll_def)
    then show ?thesis using Cons mk TarDir by (cases e1) (auto simp: Let_def split: if_splits)
  next
    case (TarReg name content)
    obtain d1 e1 where cp: "copyFile (Join dest name) content d = (d1, e1)" by fastforce
    then have "map_of d1 p = Some (FFile x)"
      using Cons.prems(2,3) TarReg by (auto simp: copyFile_def split: if_splits option.splits fsnode.splits)
    then show ?thesis using Cons cp TarReg by (cases e1) auto
  qed (use Cons in \<open>auto split: prod.splits option.splits\<close>)
qed simp

definition no_file :: "fs \<Rightarrow> string \<Rightarrow> bool" where
  "no_file d p = (case map_of d p of Some (FFile x) \<Rightarrow> False | _ \<Rightarrow> True)"

lemma no_file_same: "map_of d1 p = map_of d p \<Longrightarrow> no_file d1 p = no_file d p"
  by (simp add: no_file_def)

lemma no_file_MkdirAll: "MkdirAll q d = (d1, e1) \<Longrightarrow> no_file d p \<Longrightarrow> no_file d1 p"
  using mkdirs_keeps [of "[]" "comps q" d d1 e1 p] mkdirs_adds [of "[]" "comps q" d d1 e1 p]
  by (auto simp: MkdirAll_def no_file_def split: option.splits fsnode.splits)



text \<open>
  A file that a later layer replaces has the layer's content exactly if it is not shorter than the old one: the file is not
  truncated when it is opened, so the tail of a longer old file stays.
\<close>

theorem replaced_file_exact_iff:
  assumes "map_of d (Join dest name) = Some (FFile old)" and "is_dir d (Dir (Join dest name))"
  shows "\<exists>d'. untarLoop src dest [TarReg name new] d = (d', None) \<and>
    (map_of d' (Join dest name) = Some (FFile new) \<longleftrightarrow> length old \<le> length new)"
  using assms by (simp add: copyFile_def write_over_def is_dir_def)

theorem replaced_file_exact_iff_witness:
  "map_of sample_fs (Join ''/w/c'' ''old'') = Some (FFile ''old'') \<and>
   (\<exists>d'. untarLoop ''l'' ''/w/c'' [TarReg ''old'' ''ne''] sample_fs = (d', None) \<and>
     (map_of d' (Join ''/w/c'' ''old'') = Some (FFile ''ne'') \<longleftrightarrow> length ''old'' \<le> length ''ne''))"
proof -
  have "map_of sample_fs (Join ''/w/c'' ''old'') = Some (FFile ''old'')" by code_simp
  moreover have "is_dir sample_fs (Dir (Join ''/w/c'' ''old''))" by code_simp
  ultimately show ?thesis using replaced_file_exact_iff [of sample_fs "''/w/c''" "''old''" "''old''" "''l''" "''ne''"] by blast
qed

text \<open>An archive with names that climb out of the destination writes there.\<close>

lemma untar_escapes:
  "fst (untarLoop ''layer'' ''/w/p/container'' [TarReg ''../../../etc/cron'' ''x''] [(''/etc'', FDir)]) = [(''/etc/cron'', FFile ''x''), (''/etc'', FDir)]"
  by code_simp

subsection \<open>Images are copied once\<close>

text \<open>
  Once an image has been pulled it is never copied from its registry again: \<open>PullImage\<close> returns as soon as the database
  has its name, also when it is called because the pull policy is \<open>Always\<close> or the tag is \<open>latest\<close>.
\<close>

theorem pulled_image_is_never_copied_again:
  assumes "kv_store kv os" and "\<And>dbs k. db_Has kv dbs k \<longleftrightarrow> (\<exists>v. db_Get kv dbs k = Inr v)"
    and "PullImage kv lib path name st = ((dbs', d'), True, None)"
  shows "fst (snd (PullImage kv lib path name (dbs', d))) = False"
proof -
  obtain dest where "db_Put kv name (PathEntry dest) (fst st) = (dbs', None)"
    using assms(3) by (auto simp: PullImage_def Let_def split: prod.splits option.splits sum.splits if_splits)
  then have "db_Has kv dbs' name"
    using kv_store.get_put_same [OF assms(1)] assms(2) by blast
  then show ?thesis by (auto simp: PullImage_def Let_def split: option.split sum.split prod.split)
qed

definition sample_images :: img_lib where
  "sample_images = \<lparr>ParseImageName = (\<lambda>s. None), ParseDirReference = (\<lambda>s. None), transportNames = [''docker:''], archiveName = ''docker-archive'',
     img_Filenamify = Inr, policyError = None, openPullLog = None, cc_Image = (\<lambda>s d. None),
     readManifest = (\<lambda>s. Inr []), openTar = (\<lambda>s. Inr [])\<rparr>"

lemma alist_db_Has: "db_Has alist_kv dbs k \<longleftrightarrow> (\<exists>v. db_Get alist_kv dbs k = Inr v)"
  by (auto simp: alist_kv_def split: option.splits)

lemma sample_pull:
  "PullImage alist_kv sample_images ''/w'' ''docker://nginx:latest'' ([], [(''/w'', FDir)]) =
     (([(''docker://nginx:latest'', PathEntry ''docker-archive:/w/nginx:latest.tar.gz'')], [(''/w'', FDir)]), True, None)"
  by code_simp

theorem pulled_image_is_never_copied_again_witness:
  "fst (snd (PullImage alist_kv sample_images ''/w'' ''docker://nginx:latest''
     ([(''docker://nginx:latest'', PathEntry ''docker-archive:/w/nginx:latest.tar.gz'')], []))) = False"
  by (rule pulled_image_is_never_copied_again [OF alist_store.kv_store_axioms alist_db_Has sample_pull])

end
