(* ===== verification/Provider_Api.thy ===== *)
theory Provider_Api
  imports Node_Config Node_Api Native_Images
begin

text \<open>
  The providers behind the HTTP API and at start-up: reading logs and running commands with the native and the mock
  provider, the start of the native provider (\<open>start\<close> of \<open>cluster.go\<close> and \<open>ProcessManager.Start\<close>), and the conversion of
  metrics (\<open>native/pod.go\<close>).
\<close>

subsection \<open>Logs and commands\<close>

definition mock_GetContainerLogs :: "string \<Rightarrow> string \<Rightarrow> string \<Rightarrow> ContainerLogOpts \<Rightarrow> string option \<times> goerror option" where
  "mock_GetContainerLogs namespace podName containerName opts = (Some [], None)"

definition mock_RunInContainer :: "string \<Rightarrow> string \<Rightarrow> string \<Rightarrow> string list \<Rightarrow> execIO \<Rightarrow> goerror option" where
  "mock_RunInContainer namespace name container cmd attach = None"

text \<open>The options are passed on and not used.\<close>

definition native_logs ::
    "'d bitcask \<Rightarrow> native_os \<Rightarrow> (string \<Rightarrow> string result) \<Rightarrow> 'd ProcessManager \<Rightarrow> string \<Rightarrow> string \<Rightarrow> string \<Rightarrow> ContainerLogOpts \<Rightarrow> string option \<times> goerror option" where
  "native_logs kv os openFile m namespace podName containerName opts = GetContainerLogs kv os openFile namespace podName containerName m"

definition native_RunInContainer :: "string \<Rightarrow> string \<Rightarrow> string \<Rightarrow> string list \<Rightarrow> execIO \<Rightarrow> goerror option" where
  "native_RunInContainer namespace podName containerName cmd attach = None"

subsection \<open>Start-up of the native provider\<close>

record native_config =
  WorkDir :: string
  MaxTimeout :: int

definition DbPath :: string where "DbPath = ''data''"
definition ImagePath :: string where "ImagePath = ''images''"
definition ContainerPath :: string where "ContainerPath = ''containers''"

text \<open>Each stored record is run again, in the order of the scan, which stops at the first error.\<close>

fun resumePods :: "'d bitcask \<Rightarrow> string list \<Rightarrow> 'd ProcessManager \<Rightarrow> 'd ProcessManager \<times> goerror option" where
  "resumePods kv [] m = (m, None)"
| "resumePods kv (key # keys) m =
     (case db_Get kv (processDb m) key of
        Inl err \<Rightarrow> (m, Some err)
      | Inr v \<Rightarrow> (case json_Unmarshal v of
          Inl err \<Rightarrow> (m, Some err)
        | Inr pp \<Rightarrow> resumePods kv keys (m\<lparr>spawned := spawned m @ [pp]\<rparr>)))"

definition pm_Start :: "'d bitcask \<Rightarrow> 'd ProcessManager \<Rightarrow> 'd ProcessManager \<times> goerror option" where
  "pm_Start kv m = resumePods kv (db_Scan kv (processDb m) PodPrefix) m"

record 'd start_lib =
  ReadConfig :: "string \<Rightarrow> native_config result"   \<comment> \<open>\<open>ioutil.ReadFile\<close> and \<open>json.Unmarshal\<close>\<close>
  bitcask_Open :: "string \<Rightarrow> 'd result"

record 'd native_provider =
  np_imagePath :: string
  np_max :: int
  np_pm :: "'d ProcessManager"

definition native_provider_start :: "'d start_lib \<Rightarrow> 'd bitcask \<Rightarrow> InitConfig \<Rightarrow> 'd native_provider result" where
  "native_provider_start lib kv cfg =
     (case ReadConfig lib (ConfigPath cfg) of
        Inl err \<Rightarrow> Inl err
      | Inr conf \<Rightarrow> (case bitcask_Open lib (Join (WorkDir conf) DbPath) of
          Inl err \<Rightarrow> Inl err
        | Inr d \<Rightarrow>
            (case pm_Start kv \<lparr>workdir = Join (WorkDir conf) ContainerPath, processDb = d, spawned = []\<rparr> of
               (m, Some err) \<Rightarrow> Inl err
             | (m, None) \<Rightarrow> Inr \<lparr>np_imagePath = Join (WorkDir conf) ImagePath, np_max = MaxTimeout conf, np_pm = m\<rparr>)))"

subsection \<open>Metrics\<close>

text \<open>The usage of a container: its name, nano cores and bytes as the quantities give them.\<close>

record ContainerMetrics =
  cm_Name :: string
  cm_NanoCores :: int
  cm_Memory :: int

record PodMetrics =
  pm_Namespace :: string
  pm_Name :: string
  pm_Containers :: "ContainerMetrics list"

record ContainerUsage =
  cu_Name :: string
  cu_NanoCores :: "64 word"
  cu_WorkingSet :: "64 word"

record PodUsage =
  pu_Ref :: "string \<times> string"
  pu_Containers :: "ContainerUsage list"
  pu_NanoCores :: "64 word"
  pu_WorkingSet :: "64 word"

fun statsLoop :: "ContainerMetrics list \<Rightarrow> PodUsage \<Rightarrow> PodUsage" where
  "statsLoop [] u = u"
| "statsLoop (c # cs) u =
     (let nanoCore = word_of_int (cm_NanoCores c); memory = word_of_int (cm_Memory c) in
      statsLoop cs (u\<lparr>pu_Containers := pu_Containers u @ [\<lparr>cu_Name = cm_Name c, cu_NanoCores = nanoCore, cu_WorkingSet = memory\<rparr>],
        pu_NanoCores := pu_NanoCores u + nanoCore, pu_WorkingSet := pu_WorkingSet u + memory\<rparr>))"

definition convert2PodStats :: "PodMetrics option \<Rightarrow> PodUsage option" where
  "convert2PodStats metric =
     (case metric of
        None \<Rightarrow> None
      | Some mt \<Rightarrow> Some (statsLoop (pm_Containers mt)
          \<lparr>pu_Ref = (pm_Namespace mt, pm_Name mt), pu_Containers = [], pu_NanoCores = 0, pu_WorkingSet = 0\<rparr>))"

lemma statsLoop_sums:
  "pu_NanoCores (statsLoop cs u) = pu_NanoCores u + (\<Sum>c \<leftarrow> cs. word_of_int (cm_NanoCores c)) \<and>
   pu_WorkingSet (statsLoop cs u) = pu_WorkingSet u + (\<Sum>c \<leftarrow> cs. word_of_int (cm_Memory c)) \<and>
   pu_Containers (statsLoop cs u) = pu_Containers u @ map (\<lambda>c. \<lparr>cu_Name = cm_Name c, cu_NanoCores = word_of_int (cm_NanoCores c), cu_WorkingSet = word_of_int (cm_Memory c)\<rparr>) cs"
  by (induction cs arbitrary: u) (simp_all add: Let_def algebra_simps)

lemma word_sum: "(\<Sum>c \<leftarrow> cs. word_of_int (f c)) = (word_of_int (\<Sum>c \<leftarrow> cs. f c) :: 'a::len word)"
  by (induction cs) simp_all

lemma sum_list_ge_0: "(\<And>c. c \<in> set cs \<Longrightarrow> 0 \<le> f c) \<Longrightarrow> 0 \<le> (\<Sum>c \<leftarrow> cs. f c :: int)"
  by (induction cs) auto

text \<open>
  The totals of a pod's metrics are the sums over its containers as long as these fit 64 bits.
\<close>

theorem pod_metrics_totals:
  assumes "\<forall>c \<in> set cs. 0 \<le> cm_NanoCores c \<and> 0 \<le> cm_Memory c"
    and "(\<Sum>c \<leftarrow> cs. cm_NanoCores c) < 2 ^ 64" and "(\<Sum>c \<leftarrow> cs. cm_Memory c) < 2 ^ 64"
  shows "\<exists>u. convert2PodStats (Some \<lparr>pm_Namespace = ns, pm_Name = n, pm_Containers = cs\<rparr>) = Some u \<and>
    uint (pu_NanoCores u) = (\<Sum>c \<leftarrow> cs. cm_NanoCores c) \<and> uint (pu_WorkingSet u) = (\<Sum>c \<leftarrow> cs. cm_Memory c) \<and>
    map cu_Name (pu_Containers u) = map cm_Name cs"
proof -
  have "uint (word_of_int k :: 64 word) = k" if "0 \<le> k" "k < 2 ^ 64" for k using that by (simp add: unsigned_of_int take_bit_int_eq_self)
  moreover have "0 \<le> (\<Sum>c \<leftarrow> cs. cm_NanoCores c)" "0 \<le> (\<Sum>c \<leftarrow> cs. cm_Memory c)" using assms(1) by (auto intro: sum_list_ge_0)
  ultimately show ?thesis using assms(2,3) by (simp add: convert2PodStats_def statsLoop_sums word_sum)
qed

theorem pod_metrics_totals_witness:
  "\<exists>u. convert2PodStats (Some \<lparr>pm_Namespace = ''d'', pm_Name = ''web'', pm_Containers = [\<lparr>cm_Name = ''a'', cm_NanoCores = 5, cm_Memory = 7\<rparr>,
      \<lparr>cm_Name = ''b'', cm_NanoCores = 6, cm_Memory = 8\<rparr>]\<rparr>) = Some u \<and> uint (pu_NanoCores u) = 11 \<and> uint (pu_WorkingSet u) = 15"
  using pod_metrics_totals [of "[\<lparr>cm_Name = ''a'', cm_NanoCores = 5, cm_Memory = 7\<rparr>, \<lparr>cm_Name = ''b'', cm_NanoCores = 6, cm_Memory = 8\<rparr>]" "''d''" "''web''"]
  by auto

subsection \<open>Requests for logs\<close>



text \<open>
  Commands are not run by the native provider, and the client is told that they succeeded: whatever the command and the container, the
  session ends with the status of success.
\<close>

theorem native_exec_reports_success:
  assumes "createStreams req opts ps = Val (Streams ctx)" and "writeStatus ctx = Some w"
  shows "ServeExec lib req (ExecInContainer native_RunInContainer ns pod c cmd) opts ps =
    Val (Some (Executed ctx (write_status lib w \<lparr>st_Status = StatusSuccess, st_Reason = [], st_ExitCode = None, st_Message = []\<rparr>)))"
  using assms by (simp add: ServeExec_def exit_status_def ExecInContainer_def native_RunInContainer_def)

theorem native_exec_reports_success_witness:
  "ServeExec plain_exec tty_request (ExecInContainer native_RunInContainer ''d'' ''none'' ''none'' [''false'']) tty_session [] =
     Val (Some (Executed (tty_context\<lparr>ctx_tty := True\<rparr>) [(1, ''Success '')]))"
proof -
  have "createStreams tty_request tty_session [] = Val (Streams (tty_context\<lparr>ctx_tty := True\<rparr>))" by code_simp
  moreover have "writeStatus (tty_context\<lparr>ctx_tty := True\<rparr>) = Some (v4WriteStatusFunc 1)" by (simp add: tty_context_def)
  ultimately show ?thesis
    using native_exec_reports_success [of tty_request tty_session "[]" "tty_context\<lparr>ctx_tty := True\<rparr>" "v4WriteStatusFunc 1" plain_exec] by (simp add: plain_exec_def StatusSuccess_def v4_write_def)
qed

subsection \<open>Pods run again after a restart\<close>

lemma resumePods_all:
  assumes "\<forall>k \<in> set keys. \<exists>p. db_Get kv (processDb m) k = Inr (PodEntry p)"
  shows "\<exists>ps. resumePods kv keys m = (m\<lparr>spawned := spawned m @ ps\<rparr>, None) \<and> map Inr (map PodEntry ps) = map (db_Get kv (processDb m)) keys"
  using assms
proof (induction keys arbitrary: m)
  case Nil
  show ?case by simp
next
  case (Cons k keys)
  then obtain p where p: "db_Get kv (processDb m) k = Inr (PodEntry p)" by auto
  let ?m = "m\<lparr>spawned := spawned m @ [p]\<rparr>"
  obtain ps where ps: "resumePods kv keys ?m = (?m\<lparr>spawned := spawned ?m @ ps\<rparr>, None)" "map Inr (map PodEntry ps) = map (db_Get kv (processDb ?m)) keys"
    using Cons.IH [of ?m] Cons.prems by auto
  then show ?case using p by (intro exI [of _ "p # ps"]) simp
qed

text \<open>
  Starting over a well-formed database runs exactly the pods that are stored: no record stops the scan, and the pods whose processes are
  started are those the provider reports.
\<close>

theorem restart_runs_stored_pods:
  assumes "kv_store kv os" and "native_ok kv m"
  shows "\<exists>ps. pm_Start kv m = (m\<lparr>spawned := spawned m @ ps\<rparr>, None) \<and> set (map pp_Pod ps) = ran (native_view kv m)"
proof -
  let ?keys = "db_Scan kv (processDb m) PodPrefix"
  have keys: "set ?keys = {k. take 6 k = PodPrefix \<and> (\<exists>v. db_Get kv (processDb m) k = Inr v)}"
    using kv_store.scan [OF assms(1)] by simp
  have entry: "\<exists>p. db_Get kv (processDb m) k = Inr (PodEntry p)" if "k \<in> set ?keys" for k
    using that assms(2) unfolding keys native_ok_def entry_ok_def by fastforce
  then obtain ps where run: "pm_Start kv m = (m\<lparr>spawned := spawned m @ ps\<rparr>, None)"
      and ps: "map Inr (map PodEntry ps) = map (db_Get kv (processDb m)) ?keys"
    using resumePods_all [of ?keys kv m] unfolding pm_Start_def by blast
  have mem: "p \<in> set ps \<longleftrightarrow> (\<exists>k \<in> set ?keys. db_Get kv (processDb m) k = Inr (PodEntry p))" for p
  proof -
    have "p \<in> set ps \<longleftrightarrow> (Inr (PodEntry p) :: dbvalue result) \<in> set (map Inr (map PodEntry ps))" by auto
    then show ?thesis unfolding ps by (fastforce simp: image_iff)
  qed
  have "pod \<in> set (map pp_Pod ps) \<longleftrightarrow> pod \<in> ran (native_view kv m)" for pod
  proof -
    have "pod \<in> set (map pp_Pod ps) \<longleftrightarrow> (\<exists>k p. take 6 k = PodPrefix \<and> db_Get kv (processDb m) k = Inr (PodEntry p) \<and> pp_Pod p = pod)"
      unfolding set_map image_iff Bex_def mem keys by blast
    moreover have "native_view kv m k = Some pod \<longleftrightarrow> take 6 k = PodPrefix \<and> (\<exists>p. db_Get kv (processDb m) k = Inr (PodEntry p) \<and> pp_Pod p = pod)" for k
      by (auto simp: native_view_def split: sum.split dbvalue.split)
    ultimately show ?thesis unfolding ran_def by blast
  qed
  then show ?thesis using run by blast
qed

theorem restart_runs_stored_pods_witness:
  "\<exists>ps. pm_Start alist_kv (provider native_created) = ((provider native_created)\<lparr>spawned := spawned (provider native_created) @ ps\<rparr>, None) \<and>
     set (map pp_Pod ps) = ran (native_view alist_kv (provider native_created))"
  by (rule restart_runs_stored_pods [OF alist_store.kv_store_axioms native_created_ok])

end
