(* ===== verification/Native_Bus.thy ===== *)
theory Native_Bus
  imports Native_Pods "HOL-Library.Sublist" "HOL-Library.Multiset"
begin

text \<open>
  The event bus of the native provider with all its goroutines (\<open>Start\<close>, \<open>startEventDispatcher\<close>, \<open>startRecorder\<close>, \<open>startContainerDaemon\<close> and \<open>AddSubscribe\<close> of \<open>process_manager.go\<close>, \<open>PodEventHandler.start\<close> of \<open>pod.go\<close>): goroutines
  that run pods and containers send events on the channel \<open>bus\<close>; the dispatcher takes one and sends it to the channels in the slice \<open>subscribes\<close> one after the other; each subscriber takes an event from its channel, handles it, and waits for the next. The
  channels have no buffer, so a send and its receive are one move. \<open>AddSubscribe\<close> is a read and a write of the slice without a lock, hence two moves. Meanwhile the pod methods of the provider change the database, and the runs change the process
  records they hold. A move is one event of \<open>bus_event\<close>; handling an event is one move of its subscriber.
\<close>

subsection \<open>State\<close>

text \<open>Where a subscriber is: not started, before \<open>AddSubscribe\<close>, between the read and the write of the slice, waiting in its \<open>select\<close>, handling an event, returned.\<close>

datatype sub_place = SubOff | SubNew | SubLoaded "subscriber list" | SubWait | SubBusy ProcessEvent | SubGone

text \<open>Where the dispatcher is: in its \<open>select\<close>, sending an event to the channels that are left, returned.\<close>

datatype disp_place = DispWait | DispSend ProcessEvent "subscriber list" | DispGone

record 'd bus_state =
  b_subs :: "subscriber list"                 \<comment> \<open>\<open>subscribes\<close>\<close>
  b_disp :: disp_place
  b_sub :: "subscriber \<Rightarrow> sub_place"
  b_senders :: "ProcessEvent list list"       \<comment> \<open>for each goroutine that runs a pod or container, what it has still to send\<close>
  b_native :: "'d native_state"
  b_workdir :: string
  b_ctx :: bool                               \<comment> \<open>the context of the process manager has ended\<close>
  b_hctx :: bool                              \<comment> \<open>the context of \<open>NotifyPods\<close> has ended\<close>
  b_crash :: bool
  b_sent :: "ProcessEvent list"               \<comment> \<open>history: what the dispatcher took from the bus\<close>
  b_got :: "subscriber \<Rightarrow> ProcessEvent list"  \<comment> \<open>history: what each subscriber received\<close>
  b_handled :: "(int \<times> ProcessEvent) list"   \<comment> \<open>history: what the pod event handler has handled, and when\<close>
  b_first :: "Pod list"                       \<comment> \<open>history: the pod of each process record when it was made\<close>

text \<open>The state after \<open>ProcessManager.Start\<close> has started its goroutines over the records of \<open>ns\<close>.\<close>

definition bus_start :: "string \<Rightarrow> 'd native_state \<Rightarrow> 'd bus_state" where
  "bus_start wd ns =
     \<lparr>b_subs = [], b_disp = DispWait, b_sub = (\<lambda>s. if s = PodHandler then SubOff else SubNew), b_senders = [], b_native = ns, b_workdir = wd,
      b_ctx = False, b_hctx = False, b_crash = False, b_sent = [], b_got = (\<lambda>s. []), b_handled = [], b_first = map pp_Pod (procs ns)\<rparr>"

datatype pod_op = OpCreate Pod | OpUpdate Pod | OpDelete Pod

datatype bus_event =
    BRun "ProcessEvent list"                        \<comment> \<open>a goroutine starts that sends these\<close>
  | BWork nat "ContainerProcess list" nat          \<comment> \<open>a run changes the chain and the index of its record\<close>
  | BPods pod_op                                   \<comment> \<open>a pod method of the provider\<close>
  | BNotifyPods
  | BLoad subscriber
  | BStore subscriber
  | BTake nat
  | BDeliver
  | BNext
  | BHandle subscriber int ResourceManager
  | BCancel
  | BHandlerCancel
  | BQuit subscriber
  | BDispQuit

subsection \<open>Moves\<close>

text \<open>An event that a run may send: it points to a record and to a container of its chain.\<close>

definition event_ok :: "PodProcess list \<Rightarrow> ProcessEvent \<Rightarrow> bool" where
  "event_ok ps e =
     (getPodProcess e < length ps \<and>
      (case ev_cp (base e) of
         None \<Rightarrow> (case e of ContainerProcessFinish b pid i s \<Rightarrow> False | _ \<Rightarrow> True)
       | Some i \<Rightarrow> i < length (ProcessChain (ps ! getPodProcess e))))"

definition sub_ctx :: "'d bus_state \<Rightarrow> subscriber \<Rightarrow> bool" where
  "sub_ctx st s = (b_ctx st \<or> s = PodHandler \<and> b_hctx st)"

definition set_sub :: "subscriber \<Rightarrow> sub_place \<Rightarrow> 'd bus_state \<Rightarrow> 'd bus_state" where
  "set_sub s p st = st\<lparr>b_sub := (b_sub st)(s := p)\<rparr>"

text \<open>The pod methods on the database; a process that \<open>RunPod\<close> starts is a new record.\<close>

fun pods_op :: "'d bitcask \<Rightarrow> native_os \<Rightarrow> pod_op \<Rightarrow> 'd ProcessManager \<Rightarrow> 'd ProcessManager outcome" where
  "pods_op kv os (OpCreate pod) m = Val (fst (RunPod kv os pod m))"
| "pods_op kv os (OpUpdate pod) m = Val (fst (pm_UpdatePod kv pod m))"
| "pods_op kv os (OpDelete pod) m = obind (pm_DeletePod kv os pod m) (\<lambda>(m', err). Val m')"

definition podsMove :: "'d bitcask \<Rightarrow> native_os \<Rightarrow> pod_op \<Rightarrow> 'd bus_state \<Rightarrow> 'd bus_state" where
  "podsMove kv os op st =
     (case pods_op kv os op \<lparr>workdir = b_workdir st, processDb = db (b_native st), spawned = []\<rparr> of
        Panic e \<Rightarrow> st\<lparr>b_crash := True\<rparr>
      | Val m \<Rightarrow> st\<lparr>b_native := (b_native st)\<lparr>db := processDb m, procs := procs (b_native st) @ spawned m\<rparr>,
                   b_first := b_first st @ map pp_Pod (spawned m)\<rparr>)"

definition workMove :: "nat \<Rightarrow> ContainerProcess list \<Rightarrow> nat \<Rightarrow> 'd bus_state \<Rightarrow> 'd bus_state option" where
  "workMove a chain k st =
     (let ps = procs (b_native st) in
      if a < length ps \<and> length chain = length (ProcessChain (ps ! a))
      then Some (st\<lparr>b_native := (b_native st)\<lparr>procs := ps[a := (ps ! a)\<lparr>ProcessChain := chain, pp_Index := k\<rparr>]\<rparr>\<rparr>)
      else None)"

definition takeMove :: "nat \<Rightarrow> 'd bus_state \<Rightarrow> 'd bus_state option" where
  "takeMove i st =
     (if b_disp st = DispWait \<and> i < length (b_senders st) then
        (case b_senders st ! i of
           [] \<Rightarrow> None
         | e # es \<Rightarrow> Some (st\<lparr>b_disp := DispSend e (b_subs st), b_senders := (b_senders st)[i := es], b_sent := b_sent st @ [e]\<rparr>))
      else None)"

definition deliverMove :: "'d bus_state \<Rightarrow> 'd bus_state option" where
  "deliverMove st =
     (case b_disp st of
        DispSend e (s # ss) \<Rightarrow>
          if b_sub st s = SubWait
          then Some ((set_sub s (SubBusy e) st)\<lparr>b_disp := DispSend e ss, b_got := (b_got st)(s := b_got st s @ [e])\<rparr>)
          else None
      | _ \<Rightarrow> None)"

definition handleMove :: "'d bitcask \<Rightarrow> string \<Rightarrow> subscriber \<Rightarrow> int \<Rightarrow> ResourceManager \<Rightarrow> 'd bus_state \<Rightarrow> 'd bus_state option" where
  "handleMove kv hostIp s now rm st =
     (case b_sub st s of
        SubBusy e \<Rightarrow>
          Some (case subscriber_step kv \<lparr>HostIp = hostIp, nrm = rm, ev_now = now\<rparr> e s (b_native st) of
              Panic err \<Rightarrow> st\<lparr>b_crash := True\<rparr>
            | Val ns \<Rightarrow> (set_sub s SubWait st)\<lparr>b_native := ns,
                b_handled := (if s = PodHandler then b_handled st @ [(now, e)] else b_handled st)\<rparr>)
      | _ \<Rightarrow> None)"

text \<open>What \<open>AddSubscribe\<close> writes when \<open>l\<close> is the slice that it has read.\<close>

definition AddSubscribe :: "subscriber \<Rightarrow> subscriber list \<Rightarrow> subscriber list" where
  [simp]: "AddSubscribe s l = l @ [s]"

fun bus_move :: "'d bitcask \<Rightarrow> native_os \<Rightarrow> string \<Rightarrow> bus_event \<Rightarrow> 'd bus_state \<Rightarrow> 'd bus_state option" where
  "bus_move kv os ip (BRun es) st = (if list_all (event_ok (procs (b_native st))) es then Some (st\<lparr>b_senders := b_senders st @ [es]\<rparr>) else None)"
| "bus_move kv os ip (BWork a chain k) st = workMove a chain k st"
| "bus_move kv os ip (BPods op) st = Some (podsMove kv os op st)"
| "bus_move kv os ip BNotifyPods st = (if b_sub st PodHandler = SubOff then Some (set_sub PodHandler SubNew st) else None)"
| "bus_move kv os ip (BLoad s) st = (if b_sub st s = SubNew then Some (set_sub s (SubLoaded (b_subs st)) st) else None)"
| "bus_move kv os ip (BStore s) st =
     (case b_sub st s of SubLoaded l \<Rightarrow> Some ((set_sub s SubWait st)\<lparr>b_subs := AddSubscribe s l\<rparr>) | _ \<Rightarrow> None)"
| "bus_move kv os ip (BTake i) st = takeMove i st"
| "bus_move kv os ip BDeliver st = deliverMove st"
| "bus_move kv os ip BNext st = (case b_disp st of DispSend e [] \<Rightarrow> Some (st\<lparr>b_disp := DispWait\<rparr>) | _ \<Rightarrow> None)"
| "bus_move kv os ip (BHandle s now rm) st = handleMove kv ip s now rm st"
| "bus_move kv os ip BCancel st = Some (st\<lparr>b_ctx := True\<rparr>)"
| "bus_move kv os ip BHandlerCancel st = Some (st\<lparr>b_hctx := True\<rparr>)"
| "bus_move kv os ip (BQuit s) st = (if b_sub st s = SubWait \<and> sub_ctx st s then Some (set_sub s SubGone st) else None)"
| "bus_move kv os ip BDispQuit st = (if b_disp st = DispWait \<and> b_ctx st then Some (st\<lparr>b_disp := DispGone\<rparr>) else None)"

definition bus_next :: "'d bitcask \<Rightarrow> native_os \<Rightarrow> string \<Rightarrow> bus_event \<Rightarrow> 'd bus_state \<Rightarrow> 'd bus_state option" where
  "bus_next kv os ip ev st = (if b_crash st then None else bus_move kv os ip ev st)"

fun bus_play :: "'d bitcask \<Rightarrow> native_os \<Rightarrow> string \<Rightarrow> bus_event list \<Rightarrow> 'd bus_state \<Rightarrow> 'd bus_state option" where
  "bus_play kv os ip [] st = Some st"
| "bus_play kv os ip (ev # evs) st = (case bus_next kv os ip ev st of None \<Rightarrow> None | Some st' \<Rightarrow> bus_play kv os ip evs st')"

subsection \<open>The subscriptions\<close>

fun in_loop :: "sub_place \<Rightarrow> bool" where
  "in_loop SubOff = False"
| "in_loop SubNew = False"
| "in_loop (SubLoaded l) = False"
| "in_loop _ = True"

text \<open>The subscribers that the dispatcher has still to serve, and those that occur in a copy of the slice.\<close>

fun remaining :: "disp_place \<Rightarrow> subscriber list" where
  "remaining (DispSend e ss) = ss"
| "remaining _ = []"

fun loaded :: "sub_place \<Rightarrow> subscriber list" where
  "loaded (SubLoaded l) = l"
| "loaded _ = []"

text \<open>Who is in a copy of the slice has subscribed, and no copy has a channel twice; who has not subscribed has got nothing; who has returned had a reason.\<close>

definition sub_inv :: "'d bus_state \<Rightarrow> bool" where
  "sub_inv st =
     ((\<forall>s \<in> set (b_subs st). in_loop (b_sub st s)) \<and> (\<forall>s \<in> set (remaining (b_disp st)). in_loop (b_sub st s)) \<and>
      (\<forall>t. \<forall>s \<in> set (loaded (b_sub st t)). in_loop (b_sub st s)) \<and>
      distinct (b_subs st) \<and> distinct (remaining (b_disp st)) \<and> (\<forall>t. distinct (loaded (b_sub st t))) \<and>
      (\<forall>s. \<not> in_loop (b_sub st s) \<longrightarrow> b_got st s = []) \<and> (\<forall>s. b_sub st s = SubGone \<longrightarrow> sub_ctx st s) \<and> (b_disp st = DispGone \<longrightarrow> b_ctx st))"

lemma set_sub_simps [simp]:
  "b_subs (set_sub s p st) = b_subs st" "b_disp (set_sub s p st) = b_disp st" "b_sub (set_sub s p st) = (b_sub st)(s := p)"
  "b_senders (set_sub s p st) = b_senders st" "b_native (set_sub s p st) = b_native st" "b_ctx (set_sub s p st) = b_ctx st" "b_hctx (set_sub s p st) = b_hctx st"
  "b_crash (set_sub s p st) = b_crash st" "b_sent (set_sub s p st) = b_sent st" "b_got (set_sub s p st) = b_got st" "b_handled (set_sub s p st) = b_handled st"
  "b_first (set_sub s p st) = b_first st" "b_workdir (set_sub s p st) = b_workdir st"
  by (simp_all add: set_sub_def)

lemmas move_defs = workMove_def takeMove_def deliverMove_def handleMove_def podsMove_def

lemma in_loop_iff: "in_loop p \<longleftrightarrow> p = SubWait \<or> (\<exists>e. p = SubBusy e) \<or> p = SubGone"
  by (cases p) auto

text \<open>The moves by what they do, for the proofs that go through all of them.\<close>

lemma bus_next_cases [consumes 1, case_names run work pods crashed notify load store take deliver nxt handle cancel hcancel quit dquit]:
  assumes "bus_next kv os ip ev st = Some st'"
  obtains es where "ev = BRun es" "list_all (event_ok (procs (b_native st))) es" "st' = st\<lparr>b_senders := b_senders st @ [es]\<rparr>"
  | a chain k p where "ev = BWork a chain k" "a < length (procs (b_native st))" "p = procs (b_native st) ! a" "length chain = length (ProcessChain p)"
      "st' = st\<lparr>b_native := (b_native st)\<lparr>procs := (procs (b_native st))[a := p\<lparr>ProcessChain := chain, pp_Index := k\<rparr>]\<rparr>\<rparr>"
  | op m where "ev = BPods op" "pods_op kv os op \<lparr>workdir = b_workdir st, processDb = db (b_native st), spawned = []\<rparr> = Val m"
      "st' = st\<lparr>b_native := (b_native st)\<lparr>db := processDb m, procs := procs (b_native st) @ spawned m\<rparr>, b_first := b_first st @ map pp_Pod (spawned m)\<rparr>"
  | "st' = st\<lparr>b_crash := True\<rparr>"
  | "ev = BNotifyPods" "b_sub st PodHandler = SubOff" "st' = set_sub PodHandler SubNew st"
  | s where "ev = BLoad s" "b_sub st s = SubNew" "st' = set_sub s (SubLoaded (b_subs st)) st"
  | s l where "ev = BStore s" "b_sub st s = SubLoaded l" "st' = (set_sub s SubWait st)\<lparr>b_subs := l @ [s]\<rparr>"
  | i e es where "ev = BTake i" "b_disp st = DispWait" "i < length (b_senders st)" "b_senders st ! i = e # es"
      "st' = st\<lparr>b_disp := DispSend e (b_subs st), b_senders := (b_senders st)[i := es], b_sent := b_sent st @ [e]\<rparr>"
  | e s ss where "ev = BDeliver" "b_disp st = DispSend e (s # ss)" "b_sub st s = SubWait"
      "st' = (set_sub s (SubBusy e) st)\<lparr>b_disp := DispSend e ss, b_got := (b_got st)(s := b_got st s @ [e])\<rparr>"
  | e where "ev = BNext" "b_disp st = DispSend e []" "st' = st\<lparr>b_disp := DispWait\<rparr>"
  | s now rm e ns where "ev = BHandle s now rm" "b_sub st s = SubBusy e"
      "subscriber_step kv \<lparr>HostIp = ip, nrm = rm, ev_now = now\<rparr> e s (b_native st) = Val ns"
      "st' = (set_sub s SubWait st)\<lparr>b_native := ns, b_handled := (if s = PodHandler then b_handled st @ [(now, e)] else b_handled st)\<rparr>"
  | "ev = BCancel" "st' = st\<lparr>b_ctx := True\<rparr>"
  | "ev = BHandlerCancel" "st' = st\<lparr>b_hctx := True\<rparr>"
  | s where "ev = BQuit s" "b_sub st s = SubWait" "sub_ctx st s" "st' = set_sub s SubGone st"
  | "ev = BDispQuit" "b_disp st = DispWait" "b_ctx st" "st' = st\<lparr>b_disp := DispGone\<rparr>"
proof -
  have move: "bus_move kv os ip ev st = Some st'" using assms by (simp add: bus_next_def split: if_splits)
  show thesis
  proof (cases ev)
    case (BRun es)
    then show thesis using move that(1) by (auto split: if_splits list.splits sub_place.splits disp_place.splits)
  next
    case (BWork a chain k)
    then show thesis using move that(2) by (auto simp: workMove_def Let_def split: if_splits outcome.splits list.splits sub_place.splits disp_place.splits)
  next
    case (BPods op)
    then show thesis using move that(3,4) by (auto simp: podsMove_def split: if_splits outcome.splits list.splits sub_place.splits disp_place.splits)
  next
    case BNotifyPods
    then show thesis using move that(5) by (auto split: if_splits list.splits sub_place.splits disp_place.splits)
  next
    case (BLoad s)
    then show thesis using move that(6) by (auto split: if_splits list.splits sub_place.splits disp_place.splits)
  next
    case (BStore s)
    then show thesis using move that(7) by (auto split: if_splits list.splits sub_place.splits disp_place.splits)
  next
    case (BTake i)
    then show thesis using move that(8) by (auto simp: takeMove_def split: if_splits outcome.splits list.splits sub_place.splits disp_place.splits)
  next
    case BDeliver
    then show thesis using move that(9) by (auto simp: deliverMove_def split: if_splits outcome.splits list.splits sub_place.splits disp_place.splits)
  next
    case BNext
    then show thesis using move that(10) by (auto split: if_splits list.splits sub_place.splits disp_place.splits)
  next
    case (BHandle s now rm)
    then show thesis using move that(11,4) by (auto simp: handleMove_def split: if_splits outcome.splits list.splits sub_place.splits disp_place.splits)
  next
    case BCancel
    then show thesis using move that(12) by (auto split: if_splits list.splits sub_place.splits disp_place.splits)
  next
    case BHandlerCancel
    then show thesis using move that(13) by (auto split: if_splits list.splits sub_place.splits disp_place.splits)
  next
    case (BQuit s)
    then show thesis using move that(14) by (auto split: if_splits list.splits sub_place.splits disp_place.splits)
  next
    case BDispQuit
    then show thesis using move that(15) by (auto split: if_splits list.splits sub_place.splits disp_place.splits)
  qed
qed

lemma sub_inv_start: "sub_inv (bus_start wd ns)"
  by (auto simp: sub_inv_def bus_start_def)

lemma not_subscribed:
  assumes "sub_inv st" "\<not> in_loop (b_sub st s)"
  shows "s \<notin> set (b_subs st)" "s \<notin> set (remaining (b_disp st))" "s \<notin> set (loaded (b_sub st t))"
  using assms unfolding sub_inv_def by blast+

lemma sub_inv_next:
  assumes "sub_inv st" "bus_next kv os ip ev st = Some st'"
  shows "sub_inv st'"
  using assms(2)
proof (cases rule: bus_next_cases)
  case (store s l)
  have l: "\<forall>t \<in> set l. in_loop (b_sub st t)" "distinct l" using assms(1) store(2) unfolding sub_inv_def by (metis loaded.simps(1))+
  then have "s \<notin> set l" using store(2) by auto
  then show ?thesis using assms(1) store l by (auto simp: sub_inv_def sub_ctx_def)
next
  case notify
  then show ?thesis using assms(1) not_subscribed [OF assms(1), of PodHandler] by (auto simp: sub_inv_def sub_ctx_def)
next
  case (load s)
  then show ?thesis using assms(1) not_subscribed [OF assms(1), of s] by (auto simp: sub_inv_def sub_ctx_def)
qed (use assms(1) in \<open>auto simp: sub_inv_def sub_ctx_def split: if_splits\<close>)

subsection \<open>The order of events\<close>

fun sending :: "disp_place \<Rightarrow> ProcessEvent list" where
  "sending (DispSend e ss) = [e]"
| "sending _ = []"

fun busy :: "sub_place \<Rightarrow> ProcessEvent list" where
  "busy (SubBusy e) = [e]"
| "busy _ = []"

text \<open>Subscribers get events in the order of the bus, each at most once; what the pod event handler has got is what it has handled and what it is handling.\<close>

definition order_inv :: "'d bus_state \<Rightarrow> bool" where
  "order_inv st =
     ((\<forall>s. subseq (b_got st s) (b_sent st)) \<and>
      (\<forall>e ss. b_disp st = DispSend e ss \<longrightarrow> (\<exists>ts. b_sent st = ts @ [e] \<and> (\<forall>s \<in> set ss. subseq (b_got st s) ts))) \<and>
      b_got st PodHandler = map snd (b_handled st) @ busy (b_sub st PodHandler))"

lemma order_inv_start: "order_inv (bus_start wd ns)"
  by (simp add: order_inv_def bus_start_def)

lemma order_inv_next:
  assumes "sub_inv st" "order_inv st" "bus_next kv os ip ev st = Some st'"
  shows "order_inv st'"
  using assms(3)
proof (cases rule: bus_next_cases)
  case (take i e es)
  then show ?thesis using assms(2) by (auto simp: order_inv_def intro: subseq_rev_drop_many)
next
  case (deliver e s ss)
  obtain ts where ts: "b_sent st = ts @ [e]" "\<forall>t \<in> set (s # ss). subseq (b_got st t) ts"
    using assms(2) deliver(2) unfolding order_inv_def by blast
  have "s \<notin> set ss" using assms(1) deliver(2) by (simp add: sub_inv_def)
  moreover have "subseq (b_got st s @ [e]) (b_sent st)" using ts by (simp add: list_emb_append_mono)
  ultimately show ?thesis using assms(2) deliver ts by (auto simp: order_inv_def)
qed (use assms(2) in \<open>auto simp: order_inv_def split: if_splits\<close>)

subsection \<open>Records and pods\<close>

text \<open>Records are only added, and keep the length of their chain.\<close>

definition grown :: "PodProcess list \<Rightarrow> PodProcess list \<Rightarrow> bool" where
  "grown ps ps' = (length ps \<le> length ps' \<and> (\<forall>a < length ps. length (ProcessChain (ps' ! a)) = length (ProcessChain (ps ! a))))"

lemma grown_refl [simp]: "grown ps ps"
  by (simp add: grown_def)

lemma grown_append [simp]: "grown ps (ps @ qs)"
  by (simp add: grown_def nth_append)

lemma grown_update [simp]: "length (ProcessChain p) = length (ProcessChain (ps ! a)) \<Longrightarrow> grown ps (ps[a := p])"
  by (cases "a < length ps") (auto simp: grown_def nth_list_update)

lemma event_ok_grown: "event_ok ps e \<Longrightarrow> grown ps ps' \<Longrightarrow> event_ok ps' e"
  by (auto simp: event_ok_def grown_def split: option.splits)

lemma subscriber_step_procs:
  assumes "subscriber_step kv cfg e s ns = Val ns'"
  shows "procs ns' = procs ns \<and> pods_notified ns' = pods_notified ns \<or>
    s = PodHandler \<and> (\<exists>pod. handlePodEvent (HostIp cfg) (ev_now cfg) e (pp_Pod (procs ns ! getPodProcess e)) = Val pod \<and>
      procs ns' = (procs ns)[getPodProcess e := (procs ns ! getPodProcess e)\<lparr>pp_Pod := pod\<rparr>] \<and> pods_notified ns' = pods_notified ns @ [pod])"
  using assms
  by (cases s) (auto simp: recorder_step_def recordEvent_def daemon_step_def handler_step_def Let_def split: ProcessEvent.splits if_splits)

lemma bus_next_grown:
  assumes "bus_next kv os ip ev st = Some st'"
  shows "grown (procs (b_native st)) (procs (b_native st'))"
  using assms
proof (cases rule: bus_next_cases)
  case (handle s now rm e ns)
  then show ?thesis using subscriber_step_procs [OF handle(3)] by auto
qed simp_all

definition heap_inv :: "'d bus_state \<Rightarrow> bool" where
  "heap_inv st =
     (let ok = event_ok (procs (b_native st)) in
      list_all (list_all ok) (b_senders st) \<and> list_all ok (sending (b_disp st)) \<and> (\<forall>s. list_all ok (busy (b_sub st s))) \<and>
      length (b_first st) = length (procs (b_native st)))"

lemma heap_inv_start: "heap_inv (bus_start wd ns)"
  by (simp add: heap_inv_def bus_start_def)

lemma heap_inv_next:
  assumes "heap_inv st" "bus_next kv os ip ev st = Some st'"
  shows "heap_inv st'"
proof -
  let ?ok = "event_ok (procs (b_native st'))"
  note g = bus_next_grown [OF assms(2)]
  have old: "\<forall>es \<in> set (b_senders st). list_all ?ok es" "list_all ?ok (sending (b_disp st))" "\<forall>s. list_all ?ok (busy (b_sub st s))"
      "length (b_first st) = length (procs (b_native st))"
    using assms(1) event_ok_grown [OF _ g] by (auto simp: heap_inv_def Let_def list_all_iff)
  have new: "list_all (list_all ?ok) (b_senders st') \<and> list_all ?ok (sending (b_disp st')) \<and> (\<forall>s. list_all ?ok (busy (b_sub st' s)))"
    using assms(2)
  proof (cases rule: bus_next_cases)
    case (take i e es)
    then have "list_all ?ok (e # es)" using old(1) nth_mem [OF take(3)] by metis
    then show ?thesis using take old by (auto simp: list_all_iff dest!: in_set_takeD set_update_subset_insert [THEN subsetD])
  qed (use old in \<open>auto simp: list_all_iff split: if_splits\<close>)
  moreover have "length (b_first st') = length (procs (b_native st'))"
    using assms(2)
  proof (cases rule: bus_next_cases)
    case (handle s now rm e ns)
    then show ?thesis using old(4) subscriber_step_procs [OF handle(3)] by auto
  qed (use old(4) in auto)
  ultimately show ?thesis by (simp add: heap_inv_def)
qed

text \<open>The specification of a pod's status: its events one after the other, with their times.\<close>

fun pod_after :: "string \<Rightarrow> (int \<times> ProcessEvent) list \<Rightarrow> Pod \<Rightarrow> Pod outcome" where
  "pod_after ip [] pod = Val pod"
| "pod_after ip ((t, e) # hs) pod = obind (handlePodEvent ip t e pod) (pod_after ip hs)"

definition events_of :: "nat \<Rightarrow> (int \<times> ProcessEvent) list \<Rightarrow> (int \<times> ProcessEvent) list" where
  "events_of a hs = filter (\<lambda>(t, e). getPodProcess e = a) hs"

lemma pod_after_snoc: "pod_after ip (hs @ [(t, e)]) pod = obind (pod_after ip hs pod) (handlePodEvent ip t e)"
proof (induction hs arbitrary: pod)
  case Nil
  show ?case by (cases "handlePodEvent ip t e pod") simp_all
next
  case (Cons h hs)
  then show ?case by (cases h; cases "handlePodEvent ip (fst h) (snd h) pod") simp_all
qed

lemma events_of_snoc: "events_of a (hs @ [(t, e)]) = events_of a hs @ (if getPodProcess e = a then [(t, e)] else [])"
  by (simp add: events_of_def)

text \<open>Each record holds its pod with its own events handled in order, and each notification carried that pod as it was after the event.\<close>

definition status_inv :: "string \<Rightarrow> 'd bus_state \<Rightarrow> bool" where
  "status_inv ip st =
     ((\<forall>a < length (procs (b_native st)). pod_after ip (events_of a (b_handled st)) (b_first st ! a) = Val (pp_Pod (procs (b_native st) ! a))) \<and>
      (\<exists>calls old. pods_notified (b_native st) = old @ calls \<and> length calls = length (b_handled st) \<and>
        (\<forall>i < length calls. let a = getPodProcess (snd (b_handled st ! i)) in
           a < length (b_first st) \<and> pod_after ip (events_of a (take (Suc i) (b_handled st))) (b_first st ! a) = Val (calls ! i))))"

lemma status_inv_start: "status_inv ip (bus_start wd ns)"
  by (auto simp: status_inv_def bus_start_def events_of_def)

lemma status_inv_same:
  assumes "status_inv ip st" "length (b_first st) = length (procs (b_native st))" "b_handled st' = b_handled st" "b_first st' = b_first st @ map pp_Pod qs"
    and "map pp_Pod (procs (b_native st')) = map pp_Pod (procs (b_native st)) @ map pp_Pod qs"
    and "pods_notified (b_native st') = pods_notified (b_native st)" "\<forall>h \<in> set (b_handled st). getPodProcess (snd h) < length (procs (b_native st))"
  shows "status_inv ip st'"
proof -
  let ?n = "length (procs (b_native st))"
  have len: "length (procs (b_native st')) = ?n + length qs" using arg_cong [OF assms(5), of length] by simp
  have pods: "pp_Pod (procs (b_native st') ! a) = (map pp_Pod (procs (b_native st)) @ map pp_Pod qs) ! a" if "a < ?n + length qs" for a
    using that len arg_cong [OF assms(5), of "\<lambda>xs. xs ! a"] by simp
  have "pod_after ip (events_of a (b_handled st)) (b_first st' ! a) = Val (pp_Pod (procs (b_native st') ! a))" if "a < ?n + length qs" for a
  proof (cases "a < ?n")
    case True
    then show ?thesis using assms(1,2,4) pods [OF that] by (simp add: status_inv_def nth_append)
  next
    case False
    then have "events_of a (b_handled st) = []" using assms(7) by (auto simp: events_of_def filter_empty_conv)
    then show ?thesis using False that pods [OF that] assms(2,4) by (simp add: nth_append)
  qed
  then show ?thesis using assms(1,2,3,4,6) len unfolding status_inv_def by (auto simp: Let_def nth_append)
qed

lemma handled_allocated: "status_inv ip st \<Longrightarrow> h \<in> set (b_handled st) \<Longrightarrow> getPodProcess (snd h) < length (b_first st)"
  unfolding status_inv_def by (auto simp: Let_def in_set_conv_nth)

lemma status_inv_handled:
  assumes "status_inv ip st" "length (b_first st) = length (procs (b_native st))" "getPodProcess e < length (procs (b_native st))"
    and "handlePodEvent ip now e (pp_Pod (procs (b_native st) ! getPodProcess e)) = Val pod"
    and "procs ns = (procs (b_native st))[getPodProcess e := (procs (b_native st) ! getPodProcess e)\<lparr>pp_Pod := pod\<rparr>]"
    and "pods_notified ns = pods_notified (b_native st) @ [pod]"
    and "b_native st' = ns" "b_first st' = b_first st" "b_handled st' = b_handled st @ [(now, e)]"
  shows "status_inv ip st'"
proof -
  let ?a = "getPodProcess e"
  have pods: "pod_after ip (events_of a (b_handled st')) (b_first st ! a) = Val (pp_Pod (procs ns ! a))" if "a < length (procs ns)" for a
    using that assms(1,3,4,5,9) by (cases "a = ?a") (auto simp: status_inv_def events_of_snoc pod_after_snoc)
  obtain calls old where n: "pods_notified (b_native st) = old @ calls" "length calls = length (b_handled st)"
      "\<forall>i < length calls. let a = getPodProcess (snd (b_handled st ! i)) in
           a < length (b_first st) \<and> pod_after ip (events_of a (take (Suc i) (b_handled st))) (b_first st ! a) = Val (calls ! i)"
    using assms(1) unfolding status_inv_def by blast
  have "let a = getPodProcess (snd (b_handled st' ! i)) in
           a < length (b_first st') \<and> pod_after ip (events_of a (take (Suc i) (b_handled st'))) (b_first st' ! a) = Val ((calls @ [pod]) ! i)"
    if "i < length (calls @ [pod])" for i
  proof (cases "i < length calls")
    case True
    then show ?thesis using n assms(8,9) by (auto simp: Let_def nth_append)
  next
    case False
    then have "i = length calls" using that by simp
    then show ?thesis using n(2) assms(2,3,5,8,9) pods [of ?a] by (simp add: Let_def nth_append)
  qed
  then show ?thesis
    unfolding status_inv_def using pods assms(6-9) n(1,2)
    by (intro conjI, force) (rule exI [of _ "calls @ [pod]"], rule exI [of _ old], simp)
qed

lemma status_inv_next:
  assumes "heap_inv st" "status_inv ip st" "bus_next kv os ip ev st = Some st'"
  shows "status_inv ip st'"
proof -
  have len: "length (b_first st) = length (procs (b_native st))" using assms(1) by (simp add: heap_inv_def Let_def)
  note same = status_inv_same [OF assms(2) len]
  have h: "\<forall>h \<in> set (b_handled st). getPodProcess (snd h) < length (procs (b_native st))" using handled_allocated [OF assms(2)] len by simp
  from assms(3) show ?thesis
  proof (cases rule: bus_next_cases)
    case (work a chain k p)
    have "map pp_Pod ((procs (b_native st))[a := p\<lparr>ProcessChain := chain, pp_Index := k\<rparr>]) = map pp_Pod (procs (b_native st))"
      using map_update [of pp_Pod "procs (b_native st)" a p] map_update [of pp_Pod "procs (b_native st)" a "procs (b_native st) ! a"] work(3) by (simp add: map_update)
    then show ?thesis using work h by (intro same [where qs = "[]"]) auto
  next
    case (pods op m)
    then show ?thesis using h by (intro same [where qs = "spawned m"]) auto
  next
    case (handle s now rm e ns)
    have a: "getPodProcess e < length (procs (b_native st))" using assms(1) handle(2) by (auto simp: heap_inv_def Let_def event_ok_def dest: spec [of _ s])
    from subscriber_step_procs [OF handle(3)] show ?thesis
    proof (elim disjE conjE exE)
      assume *: "procs ns = procs (b_native st)" "pods_notified ns = pods_notified (b_native st)"
      show ?thesis
      proof (cases "s = PodHandler")
        case True
        then show ?thesis using handle(3) * by (auto simp: handler_step_def Let_def)
      next
        case False
        then show ?thesis using * handle h by (intro same [where qs = "[]"]) auto
      qed
    next
      fix pod
      assume *: "s = PodHandler" "handlePodEvent (HostIp \<lparr>HostIp = ip, nrm = rm, ev_now = now\<rparr>) (ev_now \<lparr>HostIp = ip, nrm = rm, ev_now = now\<rparr>) e
          (pp_Pod (procs (b_native st) ! getPodProcess e)) = Val pod"
        "procs ns = (procs (b_native st))[getPodProcess e := (procs (b_native st) ! getPodProcess e)\<lparr>pp_Pod := pod\<rparr>]"
        "pods_notified ns = pods_notified (b_native st) @ [pod]"
      show ?thesis using status_inv_handled [OF assms(2) len a _ *(3,4), of now st'] * handle(4) by simp
    qed
  qed (use h in \<open>auto intro!: same [where qs = "[]"]\<close>)
qed

subsection \<open>Runs of the bus\<close>

definition bus_inv :: "string \<Rightarrow> 'd bus_state \<Rightarrow> bool" where
  "bus_inv ip st = (sub_inv st \<and> order_inv st \<and> heap_inv st \<and> status_inv ip st)"

lemma bus_inv_start: "bus_inv ip (bus_start wd ns)"
  by (simp add: bus_inv_def sub_inv_start order_inv_start heap_inv_start status_inv_start)

lemma bus_inv_next: "bus_inv ip st \<Longrightarrow> bus_next kv os ip ev st = Some st' \<Longrightarrow> bus_inv ip st'"
  unfolding bus_inv_def by (meson sub_inv_next order_inv_next heap_inv_next status_inv_next)

lemma bus_play_induct [consumes 1, case_names start step]:
  assumes "bus_play kv os ip evs st = Some st'" "P st"
    and "\<And>ev st st'. ev \<in> set evs \<Longrightarrow> P st \<Longrightarrow> bus_next kv os ip ev st = Some st' \<Longrightarrow> P st'"
  shows "P st'"
  using assms
proof (induction evs arbitrary: st)
  case (Cons ev evs)
  then obtain st1 where st1: "bus_next kv os ip ev st = Some st1" "bus_play kv os ip evs st1 = Some st'" by (auto split: option.splits)
  have "P st1" using Cons.prems(3) [OF _ Cons.prems(2) st1(1)] by simp
  then show ?case by (rule Cons.IH [OF st1(2)]) (rule Cons.prems(3), simp_all)
qed simp

lemma bus_play_inv: "bus_play kv os ip evs st = Some st' \<Longrightarrow> bus_inv ip st \<Longrightarrow> bus_inv ip st'"
  by (erule bus_play_induct) (auto intro: bus_inv_next)

text \<open>
  C2: In every interleaving of the goroutines of the native provider, the pod of a process record has the status that its own events give when they are handled one after the other, in the order in which the dispatcher took them from the bus: no
  event is handled twice or out of order, and events of other pods, the recorder, the restarts and the pod methods of the provider do not interfere. Each notification of the pod controller carries the pod as it was after one event.
\<close>

theorem pod_status_follows_its_events:
  assumes "bus_play kv os ip evs (bus_start wd ns) = Some st"
  shows "subseq (map snd (b_handled st)) (b_sent st) \<and>
    (\<forall>a < length (procs (b_native st)). pod_after ip (events_of a (b_handled st)) (b_first st ! a) = Val (pp_Pod (procs (b_native st) ! a))) \<and>
    (\<exists>calls. pods_notified (b_native st) = pods_notified ns @ calls \<and> length calls = length (b_handled st) \<and>
      (\<forall>i < length calls. let a = getPodProcess (snd (b_handled st ! i)) in
         pod_after ip (events_of a (take (Suc i) (b_handled st))) (b_first st ! a) = Val (calls ! i)))"
proof -
  have inv: "bus_inv ip st" using bus_play_inv [OF assms bus_inv_start] .
  have "b_got st PodHandler = map snd (b_handled st) @ busy (b_sub st PodHandler)" "subseq (b_got st PodHandler) (b_sent st)"
    using inv unfolding bus_inv_def order_inv_def by blast+
  then have "subseq (map snd (b_handled st)) (b_got st PodHandler)" "subseq (b_got st PodHandler) (b_sent st)"
    by (simp_all add: subseq_rev_drop_many)
  then have "subseq (map snd (b_handled st)) (b_sent st)" by (rule subseq_order.trans)
  moreover have "\<exists>calls. pods_notified (b_native st) = pods_notified ns @ calls" using assms
  proof (induction rule: bus_play_induct)
    case start
    show ?case by (simp add: bus_start_def)
  next
    case (step ev st st')
    from step(2) show ?case
    proof (cases rule: bus_next_cases)
      case (handle s now rm e ns)
      then show ?thesis using step(3) subscriber_step_procs [OF handle(3)] by auto
    qed (use step(3) in auto)
  qed
  moreover have "length (pods_notified (b_native st)) = length (pods_notified ns) + length (b_handled st)" using assms
  proof (induction rule: bus_play_induct)
    case start
    show ?case by (simp add: bus_start_def)
  next
    case (step ev st st')
    from step(2) show ?case
    proof (cases rule: bus_next_cases)
      case (handle s now rm e ns)
      then show ?thesis using step(3) by (cases s) (auto simp: recorder_step_def recordEvent_def daemon_step_def handler_step_def Let_def split: ProcessEvent.splits)
    qed (use step(3) in auto)
  qed
  moreover obtain calls old where "pods_notified (b_native st) = old @ calls" "length calls = length (b_handled st)"
      "\<forall>i < length calls. let a = getPodProcess (snd (b_handled st ! i)) in
           a < length (b_first st) \<and> pod_after ip (events_of a (take (Suc i) (b_handled st))) (b_first st ! a) = Val (calls ! i)"
    using inv unfolding bus_inv_def status_inv_def by blast
  ultimately show ?thesis using inv by (auto simp: bus_inv_def status_inv_def Let_def intro!: exI [of _ calls])
qed

subsection \<open>Delivery\<close>

text \<open>The moves of the dispatcher and of the subscribers that carry events on.\<close>

fun internal :: "bus_event \<Rightarrow> bool" where
  "internal (BTake i) = True"
| "internal BDeliver = True"
| "internal BNext = True"
| "internal (BHandle s now rm) = True"
| "internal _ = False"

text \<open>What the dispatcher holds for a subscriber.\<close>

definition owed :: "'d bus_state \<Rightarrow> subscriber \<Rightarrow> ProcessEvent list" where
  "owed st s = (if s \<in> set (remaining (b_disp st)) then sending (b_disp st) else [])"

fun disp_weight :: "disp_place \<Rightarrow> nat" where
  "disp_weight (DispSend e ss) = 2 * length ss + 1"
| "disp_weight _ = 0"

definition bus_measure :: "'d bus_state \<Rightarrow> nat" where
  "bus_measure st =
     (2 * length (b_subs st) + 2) * length (concat (b_senders st)) + disp_weight (b_disp st) +
     length (concat (map (\<lambda>s. busy (b_sub st s)) [Recorder, ContainerDaemon, PodHandler])) + (if b_crash st then 0 else 1)"

definition quiet :: "'d bus_state \<Rightarrow> bool" where
  "quiet st = (concat (b_senders st) = [] \<and> b_disp st = DispWait \<and> (\<forall>s. busy (b_sub st s) = []))"

lemma all_subscribers: "(\<forall>s. P s) \<longleftrightarrow> P Recorder \<and> P ContainerDaemon \<and> P PodHandler"
  by (metis subscriber.exhaust)

lemma concat_update: "i < length xss \<Longrightarrow> xss ! i = x # xs \<Longrightarrow> mset (concat xss) = add_mset x (mset (concat (xss[i := xs])))"
proof (induction xss arbitrary: i)
  case (Cons ys xss)
  then show ?case by (cases i) auto
qed simp

lemma concat_update_length: "i < length xss \<Longrightarrow> xss ! i = x # xs \<Longrightarrow> length (concat xss) = Suc (length (concat (xss[i := xs])))"
  using arg_cong [OF concat_update, of i xss x xs size] by simp

text \<open>One internal move: what it leaves alone, that it comes nearer to the end, and how it carries events on.\<close>

definition carried :: "'d bus_state \<Rightarrow> 'd bus_state \<Rightarrow> ProcessEvent list \<Rightarrow> bool" where
  "carried st st' new =
     (b_subs st' = b_subs st \<and> b_ctx st' = b_ctx st \<and> b_hctx st' = b_hctx st \<and> b_sent st' = b_sent st @ new \<and>
      mset (concat (b_senders st)) = mset new + mset (concat (b_senders st')) \<and> length (b_senders st') = length (b_senders st) \<and>
      (\<forall>i < length (b_senders st). \<exists>taken. b_senders st ! i = taken @ b_senders st' ! i \<and> subseq taken new) \<and>
      (\<forall>s \<in> set (b_subs st). b_got st' s @ owed st' s = b_got st s @ owed st s @ new))"

lemma carried_refl: "carried st st []"
  by (simp add: carried_def)

lemma carried_trans:
  assumes "carried st st1 new1" "carried st1 st2 new2"
  shows "carried st st2 (new1 @ new2)"
proof -
  have "\<exists>taken. b_senders st ! i = taken @ b_senders st2 ! i \<and> subseq taken (new1 @ new2)" if i: "i < length (b_senders st)" for i
  proof -
    obtain t1 where "b_senders st ! i = t1 @ b_senders st1 ! i" "subseq t1 new1" using assms(1) i unfolding carried_def by blast
    moreover obtain t2 where "b_senders st1 ! i = t2 @ b_senders st2 ! i" "subseq t2 new2" using assms i unfolding carried_def by auto
    ultimately show ?thesis by (intro exI [of _ "t1 @ t2"]) (auto intro: list_emb_append_mono)
  qed
  then show ?thesis using assms unfolding carried_def by (auto simp: ac_simps)
qed

lemma internal_carries:
  assumes "sub_inv st" "internal ev" "bus_next kv os ip ev st = Some st'"
  shows "bus_measure st' < bus_measure st \<and> (\<exists>new. carried st st' new)"
proof -
  have alive: "\<not> b_crash st" using assms(3) by (simp add: bus_next_def split: if_splits)
  from assms(3) show ?thesis
  proof (cases rule: bus_next_cases)
    case (take i e es)
    have "\<exists>taken. b_senders st ! j = taken @ b_senders st' ! j \<and> subseq taken [e]" if "j < length (b_senders st)" for j
      using take that by (cases "j = i") auto
    then have "carried st st' [e]" using take concat_update [OF take(3,4)] by (auto simp: carried_def owed_def)
    moreover have "bus_measure st' < bus_measure st" using take concat_update_length [OF take(3,4)] alive by (simp add: bus_measure_def)
    ultimately show ?thesis by blast
  next
    case (deliver e s ss)
    have "carried st st' []" using deliver assms(1) by (auto simp: carried_def owed_def sub_inv_def)
    moreover have "bus_measure st' < bus_measure st" using deliver alive by (cases s) (simp_all add: bus_measure_def)
    ultimately show ?thesis by blast
  next
    case (handle s now rm e ns)
    have "carried st st' []" using handle by (auto simp: carried_def owed_def)
    moreover have "bus_measure st' < bus_measure st" using handle alive by (cases s) (simp_all add: bus_measure_def)
    ultimately show ?thesis by blast
  next
    case crashed
    then show ?thesis using alive by (auto simp: bus_measure_def carried_def owed_def)
  next
    case nxt
    then show ?thesis using alive by (auto simp: bus_measure_def carried_def owed_def)
  qed (use assms(2) in auto)
qed

lemma internal_play:
  assumes "sub_inv st" "list_all internal evs" "bus_play kv os ip evs st = Some st'"
  shows "length evs + bus_measure st' \<le> bus_measure st \<and> (\<exists>new. carried st st' new)"
  using assms
proof (induction evs arbitrary: st)
  case Nil
  then show ?case using carried_refl by auto
next
  case (Cons ev evs)
  then obtain st1 where st1: "bus_next kv os ip ev st = Some st1" "bus_play kv os ip evs st1 = Some st'" by (auto split: option.splits)
  obtain new where new: "bus_measure st1 < bus_measure st" "carried st st1 new" using internal_carries [OF Cons.prems(1) _ st1(1)] Cons.prems(2) by auto
  obtain new' where "length evs + bus_measure st' \<le> bus_measure st1" "carried st1 st' new'"
    using Cons.IH [OF sub_inv_next [OF Cons.prems(1) st1(1)] _ st1(2)] Cons.prems(2) by auto
  then show ?case using new carried_trans [OF new(2)] by fastforce
qed

text \<open>While the contexts last the bus is never stuck.\<close>

lemma bus_progress:
  assumes "sub_inv st" "\<not> b_crash st" "\<not> b_ctx st" "\<not> b_hctx st" "\<not> quiet st"
  shows "\<exists>ev st'. internal ev \<and> bus_next kv os ip ev st = Some st'"
proof (cases "\<exists>s e. b_sub st s = SubBusy e")
  case True
  then obtain s e where "b_sub st s = SubBusy e" by blast
  then show ?thesis using assms(2) by (intro exI [of _ "BHandle s now rm" for now rm] exI conjI) (auto simp: bus_next_def handleMove_def)
next
  case False
  then have idle: "busy (b_sub st s) = []" for s by (cases "b_sub st s") auto
  show ?thesis
  proof (cases "b_disp st")
    case DispWait
    then obtain i where "i < length (b_senders st)" "b_senders st ! i \<noteq> []" using assms(5) idle by (auto simp: quiet_def in_set_conv_nth)
    then show ?thesis using DispWait assms(2)
      by (intro exI [of _ "BTake i"]) (auto simp: bus_next_def takeMove_def split: list.splits)
  next
    case (DispSend e ss)
    show ?thesis
    proof (cases ss)
      case Nil
      then show ?thesis using DispSend assms(2) by (intro exI [of _ BNext]) (auto simp: bus_next_def)
    next
      case (Cons s ss')
      have "in_loop (b_sub st s)" "b_sub st s = SubGone \<longrightarrow> sub_ctx st s" using assms(1) DispSend Cons by (auto simp: sub_inv_def)
      then have "b_sub st s = SubWait" using False assms(3,4) by (auto simp: in_loop_iff sub_ctx_def)
      then show ?thesis using DispSend Cons assms(2) by (intro exI [of _ BDeliver]) (auto simp: bus_next_def deliverMove_def)
    qed
  next
    case DispGone
    then show ?thesis using assms(1,3) by (simp add: sub_inv_def)
  qed
qed


end
