(* ===== verification/Native_Bus_Props.thy ===== *)
theory Native_Bus_Props
  imports Native_Bus
begin

text \<open>
  What the event bus of the native provider does to the database, what becomes of subscriptions that race and of subscribers that return, and how the events of runs of containers arrive at the container daemon.
\<close>

subsection \<open>Well-formed records\<close>

definition record_ok :: "PodProcess \<Rightarrow> bool" where
  "record_ok p = (Key p = getPodKey (Namespace (Meta (pp_Pod p))) (Name (Meta (pp_Pod p))))"

definition bus_pm :: "'d bus_state \<Rightarrow> 'd ProcessManager" where
  "bus_pm st = \<lparr>workdir = b_workdir st, processDb = db (b_native st), spawned = []\<rparr>"

definition records_inv :: "'d bitcask \<Rightarrow> 'd bus_state \<Rightarrow> bool" where
  "records_inv kv st = (native_ok kv (bus_pm st) \<and> list_all record_ok (procs (b_native st)))"

lemma native_ok_cong: "processDb m = processDb m' \<Longrightarrow> native_ok kv m \<longleftrightarrow> native_ok kv m'"
  by (simp add: native_ok_def)

lemma setPhase_Meta [simp]: "Meta (setPhase pod c) = Meta pod"
  by (simp add: setPhase_def)

lemma handlePodEvent_Meta: "handlePodEvent ip t e pod = Val pod' \<Longrightarrow> Meta pod' = Meta pod"
  by (cases e) (auto simp: OnPodStart_def OnContainerRun_def OnFinish_def OnDownloadResource_def Let_def split: if_splits)

lemma list_all_update: "list_all P xs \<Longrightarrow> P x \<Longrightarrow> list_all P (xs[i := x])"
  by (auto simp: list_all_iff dest: set_update_subset_insert [THEN subsetD])

context kv_store
begin

lemma pods_op_ok:
  assumes "native_ok kv m" "pods_op kv os op m = Val m'" "spawned m = []"
  shows "native_ok kv m' \<and> list_all record_ok (spawned m')"
proof (cases op)
  case (OpCreate pod)
  obtain e where run: "RunPod kv os pod m = (m', e)" using assms(2) OpCreate by (cases "RunPod kv os pod m") simp
  then have "native_CreatePod kv os 0 pod m = Val (m', [], e)" by (simp add: native_CreatePod_def)
  moreover have "list_all record_ok (spawned m')"
    using run assms(3) convertPod2Process_names [of os "workdir m" pod]
    by (auto simp: RunPod_def record_ok_def Key_def split: sum.splits prod.splits option.splits)
  ultimately show ?thesis using native_create [OF assms(1)] by blast
next
  case (OpUpdate pod)
  obtain e where run: "pm_UpdatePod kv pod m = (m', e)" using assms(2) OpUpdate by (cases "pm_UpdatePod kv pod m") simp
  then have "native_UpdatePod kv 0 pod m = Val (m', [], e)" by (simp add: native_UpdatePod_def)
  moreover have "spawned m' = spawned m" using run by (auto simp: pm_UpdatePod_def split: sum.splits prod.splits)
  ultimately show ?thesis using native_update [OF assms(1)] assms(3) by auto
next
  case (OpDelete pod)
  obtain e where run: "pm_DeletePod kv os pod m = Val (m', e)" using assms(2) OpDelete by auto
  then have "native_DeletePod kv os 0 pod m = Val (m', [], hide_api_nf os e)" by (simp add: native_DeletePod_hides)
  moreover have "spawned m' = spawned m" using run by (auto simp: pm_DeletePod_def split: sum.splits prod.splits option.splits if_splits)
  ultimately show ?thesis using native_delete [OF assms(1)] assms(3) by auto
qed

lemma records_inv_next:
  assumes "heap_inv st" "records_inv kv st" "bus_next kv os ip ev st = Some st'"
  shows "records_inv kv st'"
  using assms(3)
proof (cases rule: bus_next_cases)
  case (work a chain k p)
  then show ?thesis using assms(2)
    by (auto simp: records_inv_def bus_pm_def record_ok_def Key_def list_all_iff native_ok_def dest!: set_update_subset_insert [THEN subsetD])
next
  case (pods op m)
  have "native_ok kv m \<and> list_all record_ok (spawned m)"
    by (rule pods_op_ok [OF _ pods(2)]) (use assms(2) in \<open>simp_all add: records_inv_def bus_pm_def\<close>)
  moreover have "native_ok kv (bus_pm st') = native_ok kv m" by (rule native_ok_cong) (simp add: pods(3) bus_pm_def)
  ultimately show ?thesis using assms(2) pods(3) by (simp add: records_inv_def)
next
  case (handle s now rm e ns)
  have a: "getPodProcess e < length (procs (b_native st))" using assms(1) handle(2) by (auto simp: heap_inv_def Let_def event_ok_def dest: spec [of _ s])
  have p: "record_ok (procs (b_native st) ! getPodProcess e)" using assms(2) a by (simp add: records_inv_def list_all_length)
  show ?thesis
  proof (cases s)
    case Recorder
    let ?p = "procs (b_native st) ! getPodProcess e"
    obtain d err where put: "Put kv ?p (db (b_native st)) = (d, err)" by fastforce
    have "native_ok kv ((bus_pm st)\<lparr>processDb := d, spawned := []\<rparr>)"
      using native_ok_put [of "bus_pm st" ?p d err "[]"] assms(2) put p by (simp add: records_inv_def bus_pm_def record_ok_def)
    then show ?thesis
      using handle Recorder put assms(2) by (auto simp: records_inv_def bus_pm_def recorder_step_def recordEvent_def Let_def native_ok_def)
  next
    case ContainerDaemon
    then show ?thesis using handle assms(2)
      by (auto simp: records_inv_def bus_pm_def daemon_step_def native_ok_def Let_def split: ProcessEvent.splits if_splits)
  next
    case PodHandler
    then obtain pod where pod: "handlePodEvent ip now e (pp_Pod (procs (b_native st) ! getPodProcess e)) = Val pod"
        "ns = (b_native st)\<lparr>procs := (procs (b_native st))[getPodProcess e := (procs (b_native st) ! getPodProcess e)\<lparr>pp_Pod := pod\<rparr>],
          pods_notified := pods_notified (b_native st) @ [pod]\<rparr>"
      using handle(3) by (auto simp: handler_step_def Let_def)
    then have "record_ok ((procs (b_native st) ! getPodProcess e)\<lparr>pp_Pod := pod\<rparr>)"
      using p handlePodEvent_Meta [OF pod(1)] by (simp add: record_ok_def Key_def)
    then show ?thesis using assms(2) handle(4) pod(2) by (auto simp: records_inv_def bus_pm_def native_ok_def intro: list_all_update)
  qed
qed (use assms(2) in \<open>auto simp: records_inv_def bus_pm_def native_ok_def\<close>)

end

lemma records_inv_play:
  assumes "kv_store kv os" and "bus_play kv os ip evs (bus_start wd ns) = Some st" and "records_inv kv (bus_start wd ns)"
  shows "records_inv kv st"
proof -
  have "heap_inv st \<and> records_inv kv st" using assms(2)
  proof (induction rule: bus_play_induct)
    case start
    then show ?case using assms(3) by (simp add: heap_inv_start)
  next
    case (step ev st st')
    then show ?case using heap_inv_next kv_store.records_inv_next [OF assms(1)] by blast
  qed
  then show ?thesis by simp
qed

lemma records_inv_start: "records_inv kv (bus_start wd ns) \<longleftrightarrow> native_ok kv (bus_pm (bus_start wd ns)) \<and> list_all record_ok (procs ns)"
  by (simp add: records_inv_def) (simp add: bus_start_def)

text \<open>
  C15: In every interleaving of the pod methods of the provider, the runs of containers, the recorder and the other subscribers, over any database that behaves as documented, also when writes and deletions of it fail: each entry under the pod
  prefix is a process record, stored under its own key, which is the key of the pod it holds; and so is each record in memory.
\<close>

theorem records_stay_well_formed:
  assumes "kv_store kv os" and "native_ok kv (bus_pm (bus_start wd ns))" and "list_all record_ok (procs ns)"
    and "bus_play kv os ip evs (bus_start wd ns) = Some st"
  shows "native_ok kv (bus_pm st) \<and> list_all record_ok (procs (b_native st))"
  using records_inv_play [OF assms(1,4)] assms(2,3) by (simp add: records_inv_start) (simp add: records_inv_def)

subsection \<open>One event for the end of each run\<close>

text \<open>The events that a run of a container sends, in order.\<close>

fun bus_events :: "run_effect list \<Rightarrow> ProcessEvent list" where
  "bus_events [] = []"
| "bus_events (Bus e # es) = e # bus_events es"
| "bus_events (_ # es) = bus_events es"

fun finishes :: "nat \<Rightarrow> nat \<Rightarrow> ProcessEvent \<Rightarrow> bool" where
  "finishes a i (ContainerProcessFinish b pid index s) = (ev_p b = a \<and> index = int i)"
| "finishes a i _ = False"

record run_call =
  rc_ext :: run_ext
  rc_addr :: nat
  rc_index :: nat
  rc_pod :: Pod
  rc_cp :: ContainerProcess

definition run_events :: "run_call \<Rightarrow> ProcessEvent list" where
  "run_events r =
     (case startFunc (rc_ext r) (rc_addr r) (rc_index r) (rc_pod r) (rc_cp r) of
        Val (p', es, err) \<Rightarrow> bus_events es
      | Panic e \<Rightarrow> [])"

lemma bus_events_append: "bus_events (es @ fs) = bus_events es @ bus_events fs"
  by (induction es rule: bus_events.induct) auto

text \<open>The events of a run are about its container.\<close>

fun own_effect :: "nat \<Rightarrow> nat \<Rightarrow> run_effect \<Rightarrow> bool" where
  "own_effect a i (Bus e) = (getPodProcess e = a \<and> ev_cp (base e) = Some i)"
| "own_effect a i _ = True"

abbreviation own_events :: "nat \<Rightarrow> nat \<Rightarrow> run_effect list \<Rightarrow> bool" where
  "own_events a i es \<equiv> list_all (own_effect a i) es"

lemma own_cp_event [simp]: "ev_p (cp_event a i err msg) = a" "ev_cp (cp_event a i err msg) = Some i"
  by (simp_all add: cp_event_def)

lemma getPodProcess_base [simp]: "getPodProcess e = ev_p (base e)"
  by (simp add: getPodProcess_def)

lemma own_events_writes: "\<forall>e \<in> set ws. is_write e \<Longrightarrow> own_events a i ws"
  by (metis (no_types, lifting) is_write.elims(2) list_all_iff own_effect.simps)

lemma run_ends_then_own:
  assumes "run_ends m (\<lambda>p es err. own_events a i es)" and "\<And>p. run_ends (f p) (\<lambda>p es err. own_events a i es)"
  shows "run_ends (run_then m f) (\<lambda>p es err. own_events a i es)"
  by (rule run_ends_then [OF assms(1)]) (auto intro: run_ends_mono [OF assms(2)])

lemma download_kind_own:
  assumes "\<And>ws err. got = Val (ws, err) \<Longrightarrow> \<forall>e \<in> set ws. is_write e"
  shows "run_ends (download_kind a i k p mark got) (\<lambda>q es err. own_events a i es)"
  unfolding download_kind_def by (rule run_ends_obind) (auto split: option.split intro!: own_events_writes dest!: assms)

lemma run_steps_own: "run_ends (run_steps ext a i pod p) (\<lambda>q es err. own_events a i es)"
proof -
  have pull: "run_ends (pull ext a i n p) (\<lambda>q es err. own_events a i es)" for n p
    by (auto simp: pull_def Let_def split: option.split)
  have unzip: "run_ends (unzip ext a i p) (\<lambda>q es err. own_events a i es)" for p
    by (auto simp: unzip_def Let_def split: option.split)
  have down: "run_ends (downloadResource ext a i pod wd p) (\<lambda>q es err. own_events a i es)" for wd p
    unfolding downloadResource_def
    by (rule run_ends_then_own) (auto simp: downloadConfigMaps_def downloadSecrets_def intro!: download_kind_own dest: configMapVolumes_writes secretVolumes_writes)
  have proc: "run_ends (runProcess ext a i pod wd p) (\<lambda>q es err. own_events a i es)" for wd p
    by (auto simp: runProcess_def start_cmd_def Let_def split: sum.split option.split bool.split intro!: run_ends_obind)
  have wait: "run_ends (processWaiter ext a i p) (\<lambda>q es err. own_events a i es)" for p
    by (auto simp: processWaiter_def Let_def split: sum.split)
  have "run_ends (obind (runProcess ext a i pod wd p) (\<lambda>(p4, es, err). Val (p4, es, None))) (\<lambda>q es err. own_events a i es)" for wd p
    using proc [of wd p] by (auto intro!: run_ends_obind dest: run_endsD)
  then show ?thesis
    unfolding run_steps_def Let_def by (auto intro!: run_ends_then_own pull unzip down proc wait run_ends_obind)
qed

lemma run_one_finish:
  assumes "startFunc ext a i pod p = Val (p', es, err)" "\<not> ctx_done ext"
  shows "own_events a i es \<and> (\<exists>pre b pid s. es = pre @ [Bus (ContainerProcessFinish b pid (int i) s)] \<and> list_all (\<lambda>e. \<not> is_finish e) pre)"
proof -
  let ?last = "Bus (ContainerProcessFinish (cp_event a i err (''run container process error,index:'' @ Itoa (int i))) (-1) (int i) None)"
  obtain es0 where steps: "run_steps ext a i pod p = Val (p', es0, err)" and es: "es = es0 @ (if err = None then [] else [?last])"
    by (rule startFunc_steps [OF assms(1)]) auto
  obtain prep started ended where *: "es0 = prep @ started @ ended" "preparing prep"
      "started = [] \<or> prepared p' \<and> (\<exists>env dir cmd b pid. started = [Call_Start env dir cmd, Bus (ContainerProcessRun b pid (int i))])"
      "if err = None \<and> \<not> ctx_done ext then \<exists>b s. ended = [Bus (ContainerProcessFinish b (Pid p') (int i) s)] else ended = []"
    by (rule run_shapeE [OF run_endsD [OF run_steps_ends steps]])
  have pre: "list_all (\<lambda>e. \<not> is_finish e) (prep @ started)" using *(2,3) by (auto simp: preparing_def list_all_iff)
  have "\<exists>b pid s. es = (prep @ started) @ [Bus (ContainerProcessFinish b pid (int i) s)]" using es *(1,4) assms(2) by (cases err) auto
  moreover have "own_events a i es" using run_endsD [OF run_steps_own steps] es by simp
  ultimately show ?thesis using pre by blast
qed

lemma finishes_none: "list_all (\<lambda>e. \<not> is_finish e) es \<Longrightarrow> filter (finishes a i) (bus_events es) = []"
proof (induction es rule: bus_events.induct)
  case (2 e es)
  then show ?case by (cases e) auto
qed auto

lemma run_events_finish:
  assumes "startFunc (rc_ext r) (rc_addr r) (rc_index r) (rc_pod r) (rc_cp r) = Val x" "\<not> ctx_done (rc_ext r)"
  shows "length (filter (finishes a i) (run_events r)) = (if rc_addr r = a \<and> rc_index r = i then 1 else 0)"
proof -
  obtain p' es err where x: "x = (p', es, err)" by (cases x)
  obtain pre b pid s where own: "own_events (rc_addr r) (rc_index r) es" and es: "es = pre @ [Bus (ContainerProcessFinish b pid (int (rc_index r)) s)]"
      and pre: "list_all (\<lambda>e. \<not> is_finish e) pre"
    using run_one_finish [OF assms [unfolded x]] by blast
  have "ev_p b = rc_addr r" using own es by simp
  then show ?thesis using assms(1) x finishes_none [OF pre] by (auto simp: run_events_def es bus_events_append)
qed

text \<open>
  C16: Each run of a container is judged once. When goroutines run containers and their contexts last, then after all events have been delivered the container daemon, which decides on restarts, has received exactly one finish event for each run,
  whatever the order of the moves: a run is neither forgotten nor seen twice.
\<close>

theorem each_run_is_judged_once:
  assumes "bus_play kv os ip evs (bus_start wd ns) = Some st" and "\<not> b_ctx st" and "\<not> b_hctx st" and "ContainerDaemon \<in> set (b_subs st)"
    and "b_senders st = others @ map run_events rs" and "list_all (list_all (\<lambda>e. \<not> finishes a i e)) others"
    and "\<forall>r \<in> set rs. \<not> ctx_done (rc_ext r) \<and> no_panic (startFunc (rc_ext r) (rc_addr r) (rc_index r) (rc_pod r) (rc_cp r))"
    and "list_all internal evs'" and "bus_play kv os ip evs' st = Some st'" and "quiet st'"
  shows "length (filter (finishes a i) (b_got st' ContainerDaemon)) =
    length (filter (finishes a i) (b_got st ContainerDaemon @ owed st ContainerDaemon)) + length (filter (\<lambda>r. rc_addr r = a \<and> rc_index r = i) rs)"
proof -
  have inv: "sub_inv st" using bus_play_inv [OF assms(1) bus_inv_start] by (simp add: bus_inv_def)
  obtain new where new: "carried st st' new" using internal_play [OF inv assms(8,9)] by blast
  have "owed st' ContainerDaemon = []" "concat (b_senders st') = []" using assms(10) by (auto simp: quiet_def owed_def)
  then have got: "b_got st' ContainerDaemon = b_got st ContainerDaemon @ owed st ContainerDaemon @ new" and m: "mset new = mset (concat (b_senders st))"
    using new assms(4) by (auto simp: carried_def simp del: mset_concat)
  have "length (filter (finishes a i) new) = length (filter (finishes a i) (concat others)) + length (filter (finishes a i) (concat (map run_events rs)))"
    using arg_cong [OF m, of "\<lambda>M. size (filter_mset (finishes a i) M)"] unfolding assms(5) by (metis concat_append filter_append length_append mset_filter size_mset)
  also have "filter (finishes a i) (concat others) = []" using assms(6) by (auto simp: filter_empty_conv list_all_iff)
  also have "length [] + length (filter (finishes a i) (concat (map run_events rs))) = length (filter (\<lambda>r. rc_addr r = a \<and> rc_index r = i) rs)"
    using assms(7)
  proof (induction rs)
    case (Cons r rs)
    then show ?case using run_events_finish [of r _ a i] by (auto simp: no_panic_iff)
  qed simp
  finally show ?thesis using got by simp
qed

subsection \<open>Subscriptions that race, subscribers that return\<close>

text \<open>A subscriber in no copy of the slice waits for ever: it gets no event any more, whatever happens.\<close>

definition lost :: "'d bus_state \<Rightarrow> subscriber \<Rightarrow> bool" where
  "lost st s = (b_sub st s \<in> {SubWait, SubGone} \<and> s \<notin> set (b_subs st) \<and> s \<notin> set (remaining (b_disp st)) \<and> (\<forall>t. s \<notin> set (loaded (b_sub st t))))"

lemma lost_next:
  assumes "lost st s" "bus_next kv os ip ev st = Some st'"
  shows "lost st' s \<and> b_got st' s = b_got st s"
  using assms(2)
proof (cases rule: bus_next_cases)
  case (store t l)
  then show ?thesis using assms(1) by (auto simp: lost_def) (metis loaded.simps(1))+
qed (use assms(1) in \<open>auto simp: lost_def split: if_splits\<close>)

lemma lost_subscriber_gets_nothing:
  assumes "lost st s" "bus_play kv os ip evs st = Some st'"
  shows "lost st' s \<and> b_got st' s = b_got st s"
  using assms(2)
proof (induction rule: bus_play_induct)
  case (step ev st1 st2)
  then show ?case using lost_next by metis
qed (use assms(1) in simp)

text \<open>
  \<open>AddSubscribe\<close> takes no lock and the recorder and the daemon subscribe in goroutines of their own: if both read the slice before either writes it, the recorder's channel is lost, no event is recorded and no
  status is stored from then on.
\<close>

lemma racing_subscriptions_lose_the_recorder:
  "\<exists>st. bus_play kv os ip [BLoad Recorder, BLoad ContainerDaemon, BStore Recorder, BStore ContainerDaemon] (bus_start wd ns) = Some st \<and> lost st Recorder \<and>
     b_subs st = [ContainerDaemon]"
  by (auto simp: bus_next_def bus_start_def lost_def split: sub_place.splits)

text \<open>The dispatcher does not look at the context while it sends: once a subscriber has returned, it waits for it for ever, and no event is taken from the bus any more.\<close>

lemma gone_subscriber_blocks_the_bus:
  assumes "b_disp st = DispSend e (s # ss)" "b_sub st s = SubGone" "bus_play kv os ip evs st = Some st'"
  shows "b_disp st' = DispSend e (s # ss) \<and> b_sub st' s = SubGone \<and> b_sent st' = b_sent st"
  using assms(3)
proof (induction rule: bus_play_induct)
  case (step ev st1 st2)
  from step(2) show ?case by (cases rule: bus_next_cases) (use step(3) in auto)
qed (use assms(1,2) in simp)

subsection \<open>A run of the bus\<close>

text \<open>A pod with one container is created and its events are delivered; the database is the association list.\<close>

definition bus_pod :: Pod where
  "bus_pod = (named_pod ''ns'' ''web'')\<lparr>Spec := emptySpec\<lparr>Containers := [emptyContainer]\<rparr>\<rparr>"

definition no_records :: "alist_db native_state" where
  "no_records = \<lparr>db = [], procs = [], events_recorded = [], pods_notified = [], restarts = []\<rparr>"

definition subscribe_all :: "bus_event list" where
  "subscribe_all = [BLoad Recorder, BStore Recorder, BLoad ContainerDaemon, BStore ContainerDaemon, BNotifyPods, BLoad PodHandler, BStore PodHandler]"

definition bus_run :: run_call where
  "bus_run = \<lparr>rc_ext = calm_ext, rc_addr = 0, rc_index = 0, rc_pod = bus_pod, rc_cp =
     (NewProcess bus_pod emptyContainer ''/w'' False)\<lparr>ImagePulled := True, ImageUnzipped := True, ConfigMapDownload := True, SecretDownload := True\<rparr>\<rparr>"

definition bus_prelude :: "bus_event list" where
  "bus_prelude = subscribe_all @ [BPods (OpCreate bus_pod), BRun [PodProcessStart \<lparr>ev_p = 0, ev_cp = None, ev_err = None, ev_msg = []\<rparr> 3], BRun (run_events bus_run)]"

definition one_event :: "nat \<Rightarrow> bus_event list" where
  "one_event i = [BTake i, BDeliver, BHandle Recorder 4 sample_rm, BDeliver, BDeliver, BHandle PodHandler 5 sample_rm, BHandle ContainerDaemon 5 sample_rm, BNext]"

definition bus_moves :: "bus_event list" where
  "bus_moves = one_event 0 @ concat (replicate 4 (one_event 1))"

definition bus_ready :: "alist_db bus_state" where
  "bus_ready = the (bus_play alist_kv posix ''10.0.0.1'' bus_prelude (bus_start ''/var'' no_records))"

definition bus_end :: "alist_db bus_state" where
  "bus_end = the (bus_play alist_kv posix ''10.0.0.1'' bus_moves bus_ready)"

lemma quiet_code [code]:
  "quiet st = (concat (b_senders st) = [] \<and> b_disp st = DispWait \<and> busy (b_sub st Recorder) = [] \<and> busy (b_sub st ContainerDaemon) = [] \<and> busy (b_sub st PodHandler) = [])"
  unfolding quiet_def by (simp only: all_subscribers [of "\<lambda>s. busy (b_sub st s) = []"])

lemma bus_play_append: "bus_play kv os ip (evs @ evs') st = Option.bind (bus_play kv os ip evs st) (bus_play kv os ip evs')"
  by (induction evs arbitrary: st) (auto split: option.split)

definition ready_check :: "alist_db bus_state \<Rightarrow> bool" where
  "ready_check st = (\<not> b_ctx st \<and> \<not> b_hctx st \<and> b_subs st = [Recorder, ContainerDaemon, PodHandler] \<and> bus_measure st = 41 \<and>
     b_senders st = [[PodProcessStart \<lparr>ev_p = 0, ev_cp = None, ev_err = None, ev_msg = []\<rparr> 3]] @ map run_events [bus_run] \<and>
     b_got st ContainerDaemon = [] \<and> owed st ContainerDaemon = [])"

text \<open>At the end the pod in memory has succeeded and nothing is left to do.\<close>

definition end_check :: "alist_db bus_state \<Rightarrow> bool" where
  "end_check st = (quiet st \<and> length (procs (b_native st)) = 1 \<and> Phase (Status (pp_Pod (procs (b_native st) ! 0))) = PodSucceeded)"

text \<open>The database has the status before the last event: the recorder, which got it first, stored the record before the event handler had changed it.\<close>

definition stale_check :: "alist_db bus_state \<Rightarrow> bool" where
  "stale_check st = (case native_GetPodStatus alist_kv ''ns'' ''web'' (bus_pm st) of Val (Some s, None) \<Rightarrow> Phase s = PodRunning | _ \<Rightarrow> False)"

lemma case_Some: "(case x of None \<Rightarrow> False | Some y \<Rightarrow> P y) \<Longrightarrow> x = Some (the x) \<and> P (the x)"
  by (cases x) simp_all

lemma bus_ready: "bus_play alist_kv posix ''10.0.0.1'' bus_prelude (bus_start ''/var'' no_records) = Some bus_ready \<and> ready_check bus_ready"
  unfolding bus_ready_def by (rule case_Some) code_simp

lemma bus_end: "bus_play alist_kv posix ''10.0.0.1'' bus_moves bus_ready = Some bus_end \<and> (end_check bus_end \<and> stale_check bus_end)"
  unfolding bus_end_def by (rule case_Some) code_simp

lemma bus_end_played: "bus_play alist_kv posix ''10.0.0.1'' (bus_prelude @ bus_moves) (bus_start ''/var'' no_records) = Some bus_end"
  using bus_ready bus_end by (simp add: bus_play_append)

text \<open>The status that the provider reports may lag behind the status it has notified, also when nothing is left to be handled.\<close>

lemma recorded_status_lags:
  "quiet bus_end \<and> Phase (Status (pp_Pod (procs (b_native bus_end) ! 0))) = PodSucceeded \<and>
   (\<exists>s. native_GetPodStatus alist_kv ''ns'' ''web'' (bus_pm bus_end) = Val (Some s, None) \<and> Phase s = PodRunning)"
  using bus_end unfolding end_check_def stale_check_def by (auto split: outcome.splits option.splits prod.splits)

theorem pod_status_follows_its_events_witness:
  "pod_after ''10.0.0.1'' (events_of 0 (b_handled bus_end)) (b_first bus_end ! 0) = Val (pp_Pod (procs (b_native bus_end) ! 0)) \<and>
   Phase (Status (pp_Pod (procs (b_native bus_end) ! 0))) = PodSucceeded"
  using pod_status_follows_its_events [OF bus_end_played] bus_end by (auto simp: end_check_def)


theorem records_stay_well_formed_witness:
  "native_ok alist_kv (bus_pm bus_end) \<and> list_all record_ok (procs (b_native bus_end))"
proof (rule records_stay_well_formed [OF alist_store.kv_store_axioms _ _ bus_end_played])
  show "native_ok alist_kv (bus_pm (bus_start ''/var'' no_records))" by (simp add: native_ok_def bus_pm_def bus_start_def no_records_def alist_db_Get)
  show "list_all record_ok (procs no_records)" by (simp add: no_records_def)
qed

theorem each_run_is_judged_once_witness:
  "length (filter (finishes 0 0) (b_got bus_end ContainerDaemon)) = 1"
proof -
  have r: "\<not> b_ctx bus_ready" "\<not> b_hctx bus_ready" "ContainerDaemon \<in> set (b_subs bus_ready)"
      "b_senders bus_ready = [[PodProcessStart \<lparr>ev_p = 0, ev_cp = None, ev_err = None, ev_msg = []\<rparr> 3]] @ map run_events [bus_run]"
      "b_got bus_ready ContainerDaemon @ owed bus_ready ContainerDaemon = []"
    using bus_ready by (auto simp: ready_check_def)
  have i: "list_all internal bus_moves" by code_simp
  have run: "\<not> ctx_done (rc_ext bus_run) \<and> no_panic (startFunc (rc_ext bus_run) (rc_addr bus_run) (rc_index bus_run) (rc_pod bus_run) (rc_cp bus_run))" by code_simp
  have "rc_addr bus_run = 0" "rc_index bus_run = 0" "quiet bus_end" using bus_end by (simp_all add: bus_run_def end_check_def)
  then show ?thesis
    using each_run_is_judged_once [OF bus_ready [THEN conjunct1] r(1-4), of 0 0 bus_moves bus_end] run i r(5) bus_end by simp
qed

end
