(* ===== verification/Native_Restart.thy ===== *)
theory Native_Restart
  imports Provider_Api Native_Bus_Props
begin

text \<open>
  The native provider from one start to the next (\<open>NewProvider\<close> and \<open>start\<close> of \<open>cluster.go\<close>, \<open>NewProcessManager\<close> and \<open>Start\<close> of \<open>process_manager.go\<close>): a provider opens its database, resumes the stored processes, and works as the event bus describes until the
  process ends, at any move. The next provider opens the database as it was left: that a write which has returned is found again is what the embedded database documents.
\<close>

definition NewProvider :: "'d start_lib \<Rightarrow> 'd bitcask \<Rightarrow> InitConfig \<Rightarrow> 'd native_provider result" where
  "NewProvider lib kv cfg = (case native_provider_start lib kv cfg of Inl err \<Rightarrow> Inl err | Inr p \<Rightarrow> Inr p)"

text \<open>The goroutines of a provider that has started, with the processes it resumes as their records.\<close>

definition provider_bus :: "'d native_provider \<Rightarrow> 'd bus_state" where
  "provider_bus p = bus_start (workdir (np_pm p))
     \<lparr>db = processDb (np_pm p), procs = spawned (np_pm p), events_recorded = [], pods_notified = [], restarts = []\<rparr>"

text \<open>One life of the provider: it starts on the database \<open>d\<close> and leaves \<open>d'\<close>.\<close>

definition opened :: "'d start_lib \<Rightarrow> 'd \<Rightarrow> 'd start_lib" where
  "opened lib d = lib\<lparr>bitcask_Open := (\<lambda>path. Inr d)\<rparr>"

inductive provider_life :: "'d start_lib \<Rightarrow> 'd bitcask \<Rightarrow> native_os \<Rightarrow> InitConfig \<Rightarrow> 'd \<Rightarrow> 'd \<Rightarrow> bool" for lib kv os cfg where
  "NewProvider (opened lib d) kv cfg = Inr p \<Longrightarrow> bus_play kv os (ic_InternalIP cfg) evs (provider_bus p) = Some st \<Longrightarrow>
     provider_life lib kv os cfg d (db (b_native st))"

inductive provider_lives :: "'d start_lib \<Rightarrow> 'd bitcask \<Rightarrow> native_os \<Rightarrow> InitConfig \<Rightarrow> 'd \<Rightarrow> 'd \<Rightarrow> bool" for lib kv os cfg where
  none: "provider_lives lib kv os cfg d d"
| life: "provider_lives lib kv os cfg d d' \<Longrightarrow> provider_life lib kv os cfg d' d'' \<Longrightarrow> provider_lives lib kv os cfg d d''"

inductive_cases provider_lifeE: "provider_life lib kv os cfg d d'"

definition stored :: "'d \<Rightarrow> 'd ProcessManager" where
  "stored d = \<lparr>workdir = [], processDb = d, spawned = []\<rparr>"

lemma native_view_db: "native_view kv m = native_view kv (stored (processDb m))" "native_ok kv m = native_ok kv (stored (processDb m))"
  by (auto simp: native_view_def native_ok_def stored_def fun_eq_iff)

text \<open>A well-formed database is resumed: the processes are its records.\<close>

lemma NewProvider_resumes:
  assumes "kv_store kv os" and "native_ok kv (stored d)" and "ReadConfig lib (ConfigPath cfg) = Inr conf"
  obtains p where "NewProvider (opened lib d) kv cfg = Inr p" "processDb (np_pm p) = d" "list_all record_ok (spawned (np_pm p))"
    "set (map pp_Pod (spawned (np_pm p))) = ran (native_view kv (stored d))" "workdir (np_pm p) = Join (WorkDir conf) ContainerPath"
proof -
  let ?m = "\<lparr>workdir = Join (WorkDir conf) ContainerPath, processDb = d, spawned = []\<rparr>"
  have ok: "native_ok kv ?m" using assms(2) by (simp add: native_view_db(2) [of kv ?m])
  obtain ps where run: "pm_Start kv ?m = (?m\<lparr>spawned := spawned ?m @ ps\<rparr>, None)" and pods: "set (map pp_Pod ps) = ran (native_view kv (stored d))"
    using restart_runs_stored_pods [OF assms(1) ok] by (auto simp: native_view_db(1) [of kv ?m])
  have entry: "\<exists>p. db_Get kv d k = Inr (PodEntry p) \<and> record_ok p" if "k \<in> set (db_Scan kv d PodPrefix)" for k
    using that assms(2) kv_store.scan [OF assms(1), of d PodPrefix] by (fastforce simp: native_ok_def stored_def entry_ok_def record_ok_def)
  then have eq: "map Inr (map PodEntry ps) = map (db_Get kv d) (db_Scan kv d PodPrefix)"
    using resumePods_all [of "db_Scan kv d PodPrefix" kv ?m] run by (auto simp: pm_Start_def)
  have "record_ok x" if "x \<in> set ps" for x
  proof -
    have "(Inr (PodEntry x) :: dbvalue result) \<in> set (map Inr (map PodEntry ps))" using that by simp
    then obtain k where "k \<in> set (db_Scan kv d PodPrefix)" "db_Get kv d k = Inr (PodEntry x)" unfolding eq by auto
    then show ?thesis using entry by fastforce
  qed
  moreover have "NewProvider (opened lib d) kv cfg = Inr \<lparr>np_imagePath = Join (WorkDir conf) ImagePath, np_max = MaxTimeout conf, np_pm = ?m\<lparr>spawned := ps\<rparr>\<rparr>"
    using run assms(3) by (simp add: NewProvider_def native_provider_start_def opened_def)
  ultimately show thesis using pods that by (simp add: list_all_iff)
qed

lemma provider_life_ok:
  assumes "provider_life lib kv os cfg d d'" and "kv_store kv os" and "native_ok kv (stored d)" and "ReadConfig lib (ConfigPath cfg) = Inr conf"
  shows "native_ok kv (stored d')"
  using assms(1)
proof (rule provider_lifeE)
  fix p evs st
  assume d': "d' = db (b_native st)" and p: "NewProvider (opened lib d) kv cfg = Inr p" and run: "bus_play kv os (ic_InternalIP cfg) evs (provider_bus p) = Some st"
  obtain p' where "NewProvider (opened lib d) kv cfg = Inr p'" "processDb (np_pm p') = d" "list_all record_ok (spawned (np_pm p'))"
    by (rule NewProvider_resumes [OF assms(2-4)])
  then have "records_inv kv (provider_bus p)"
    using p assms(3) by (simp add: provider_bus_def records_inv_start) (simp add: bus_pm_def bus_start_def native_ok_def stored_def)
  then have "records_inv kv st" using run records_inv_play [OF assms(2)] unfolding provider_bus_def by blast
  then show ?thesis by (simp add: d' records_inv_def native_view_db(2) [of kv "bus_pm st"]) (simp add: bus_pm_def)
qed


text \<open>A kubelet that ends after its only pod has been created and has run, and starts again.\<close>

definition restart_lib :: "alist_db start_lib" where
  "restart_lib = \<lparr>ReadConfig = (\<lambda>path. Inr \<lparr>WorkDir = ''/var'', MaxTimeout = 30\<rparr>), bitcask_Open = (\<lambda>path. Inr [])\<rparr>"

definition restart_config :: InitConfig where
  "restart_config = \<lparr>ConfigPath = ''/etc/native.json'', ic_NodeName = ''n'', ic_OperatingSystem = ''linux'', ic_InternalIP = ''10.0.0.1'', DaemonPort = 10250,
     ic_KubeClusterDomain = ''cluster.local'', ic_Version = ''v1''\<rparr>"

definition first_life :: "alist_db bus_state option" where
  "first_life = (case NewProvider (opened restart_lib []) alist_kv restart_config of Inl err \<Rightarrow> None | Inr p \<Rightarrow> bus_play alist_kv posix ''10.0.0.1'' [BPods (OpCreate bus_pod)] (provider_bus p))"

lemma first_life: "\<exists>st. first_life = Some st \<and> native_view alist_kv (stored (db (b_native st))) (getPodKey ''ns'' ''web'') = Some bus_pod"
proof -
  have "(case first_life of None \<Rightarrow> False | Some st \<Rightarrow> native_view alist_kv (stored (db (b_native st))) (getPodKey ''ns'' ''web'') = Some bus_pod)" by code_simp
  then show ?thesis by (auto split: option.splits)
qed


end
