(* ===== verification/Api_Routes.thy ===== *)
theory Api_Routes
  imports Provider_Api
begin

text \<open>
  The routes of the kubelet's HTTP API (\<open>src/node/api/server.go\<close>): which handler a request reaches and with which variables. The router (gorilla/mux) is a parameter; what is used of its documented behaviour is the
  locale \<open>mux_router\<close>, on paths that are already clean (others are redirected first): the first route whose template matches the path and whose methods contain the request's is taken, with the values of the template's
  variables, and a path that matches no template, with or without a slash at its end, is not found. \<open>simple_mux\<close> is a router that does so.
\<close>

subsection \<open>Templates\<close>

datatype seg = Lit string | PathVar string

definition parse_seg :: "string \<Rightarrow> seg" where
  "parse_seg s =
     (case s of
        [] \<Rightarrow> Lit []
      | c # cs \<Rightarrow> if c = CHR ''{'' \<and> cs \<noteq> [] \<and> last cs = CHR ''}'' then PathVar (butlast cs) else Lit s)"

fun match_segs :: "seg list \<Rightarrow> string list \<Rightarrow> string gomap option" where
  "match_segs [] [] = Some []"
| "match_segs (Lit l # ts) (s # ss) = (if l = s then match_segs ts ss else None)"
| "match_segs (PathVar v # ts) (s # ss) = (if s = [] then None else map_option (\<lambda>vars. (v, s) # vars) (match_segs ts ss))"
| "match_segs _ _ = None"

definition path_match :: "string \<Rightarrow> string \<Rightarrow> string gomap option" where
  "path_match template path = match_segs (map parse_seg (split_at (CHR ''/'') template)) (split_at (CHR ''/'') path)"

text \<open>The same path with its last slash taken away, or with one put there.\<close>

definition toggle_slash :: "string \<Rightarrow> string" where
  "toggle_slash path = (if path \<noteq> [] \<and> last path = CHR ''/'' then butlast path else path @ ''/'')"

definition clean_path :: "string \<Rightarrow> bool" where
  "clean_path path =
     (case split_at (CHR ''/'') path of
        s # s' # ss \<Rightarrow> s = [] \<and> [] \<notin> set (butlast (s' # ss)) \<and> ''.'' \<notin> set (s' # ss) \<and> ''..'' \<notin> set (s' # ss)
      | _ \<Rightarrow> False)"

definition no_path_match :: "string \<Rightarrow> string \<Rightarrow> bool" where
  "no_path_match template path = (path_match template path = None \<and> path_match template (toggle_slash path) = None)"

record 'h route =
  rt_path :: string
  rt_methods :: "string list"
  rt_handler :: 'h

datatype 'h mux_result = MuxRoute 'h "string gomap" | MuxRedirect string | MuxMethodNotAllowed | MuxNotFound

type_synonym 'h mux_dispatch = "bool \<Rightarrow> 'h route list \<Rightarrow> string \<Rightarrow> string \<Rightarrow> 'h mux_result"

locale mux_router =
  fixes dispatch :: "'h mux_dispatch"
  assumes first_match: "clean_path path \<Longrightarrow> \<forall>r\<in>set before. no_path_match (rt_path r) path \<Longrightarrow> path_match (rt_path r) path = Some vars \<Longrightarrow>
      m \<in> set (rt_methods r) \<Longrightarrow> dispatch strict (before @ r # after) m path = MuxRoute (rt_handler r) vars"
    and no_match: "clean_path path \<Longrightarrow> \<forall>r\<in>set rs. no_path_match (rt_path r) path \<Longrightarrow>
      dispatch strict rs m path = MuxNotFound"

fun simple_mux :: "'h mux_dispatch" where
  "simple_mux strict rs m path =
     (case find (\<lambda>r. path_match (rt_path r) path \<noteq> None \<and> m \<in> set (rt_methods r)) rs of
        Some r \<Rightarrow> MuxRoute (rt_handler r) (the (path_match (rt_path r) path))
      | None \<Rightarrow>
          if list_ex (\<lambda>r. path_match (rt_path r) path \<noteq> None) rs then MuxMethodNotAllowed
          else if strict \<and> list_ex (\<lambda>r. path_match (rt_path r) (toggle_slash path) \<noteq> None) rs then MuxRedirect (toggle_slash path)
          else MuxNotFound)"

lemma find_skip: "\<forall>r\<in>set before. \<not> P r \<Longrightarrow> P r \<Longrightarrow> find P (before @ r # after) = Some r"
  by (induction before) auto

interpretation simple: mux_router simple_mux
proof (unfold_locales, goal_cases)
  case (1 path before r vars m strict after)
  then show ?case unfolding no_path_match_def
    using find_skip [of before "\<lambda>r. path_match (rt_path r) path \<noteq> None \<and> m \<in> set (rt_methods r)" r after] by simp
next
  case (2 path rs strict m)
  note 2 = 2 [unfolded no_path_match_def]
  have "find (\<lambda>r. path_match (rt_path r) path \<noteq> None \<and> m \<in> set (rt_methods r)) rs = None" using 2 by (auto simp: find_None_iff)
  then show ?case using 2 by (auto simp: list_ex_iff)
qed

subsection \<open>The routes\<close>

datatype api_handler = RunningPodsHandler | PodsHandler | LogsHandler | ExecHandler | StatsHandler

record 's PodHandlerConfig =
  ph_RunInContainer :: "(string \<Rightarrow> string \<Rightarrow> string \<Rightarrow> string list \<Rightarrow> execIO \<Rightarrow> goerror option) option"
  ph_GetContainerLogs :: "(string \<Rightarrow> string \<Rightarrow> string \<Rightarrow> ContainerLogOpts \<Rightarrow> string option \<times> goerror option) option"
  ph_GetPods :: "Pod list result option"
  ph_GetPodsFromKubernetes :: "Pod list result option"
  ph_GetStatsSummary :: "'s result option"
  ph_StreamIdleTimeout :: int
  ph_StreamCreationTimeout :: int

record 'h router =
  StrictSlash :: bool
  rt_routes :: "'h route list"

definition HandleFunc :: "string \<Rightarrow> 'h \<Rightarrow> string list \<Rightarrow> 'h router \<Rightarrow> 'h router" where
  "HandleFunc path h methods r = r\<lparr>rt_routes := rt_routes r @ [\<lparr>rt_path = path, rt_methods = methods, rt_handler = h\<rparr>]\<rparr>"

definition PodHandler :: "'s PodHandlerConfig \<Rightarrow> bool \<Rightarrow> api_handler router" where
  "PodHandler p debug =
     (let r = \<lparr>StrictSlash = True, rt_routes = []\<rparr>;
          r = (if debug then HandleFunc ''/runningpods/'' RunningPodsHandler [''GET''] r else r);
          r = HandleFunc ''/pods'' PodsHandler [''GET''] r;
          r = HandleFunc ''/containerLogs/{namespace}/{pod}/{container}'' LogsHandler [''GET''] r;
          r = HandleFunc ''/exec/{namespace}/{pod}/{container}'' ExecHandler [''POST'', ''GET''] r in
      if ph_GetStatsSummary p \<noteq> None then
        HandleFunc ''/stats/summary/'' StatsHandler [''GET''] (HandleFunc ''/stats/summary'' StatsHandler [''GET''] r)
      else r)"

definition exec_handler_config :: "'s PodHandlerConfig \<Rightarrow> ContainerExecHandlerConfig" where
  "exec_handler_config p = exec_config [WithExecStreamCreationTimeout (ph_StreamCreationTimeout p), WithExecStreamIdleTimeout (ph_StreamIdleTimeout p)]"

text \<open>\<open>None\<close>: the handler that answers 501 without a router.\<close>

definition PodStatsSummaryHandler :: "'s result option \<Rightarrow> api_handler router option" where
  "PodStatsSummaryHandler f =
     (if f = None then None
      else Some (HandleFunc ''/stats/summary/'' StatsHandler [''GET'']
        (HandleFunc ''/stats/summary'' StatsHandler [''GET''] \<lparr>StrictSlash = False, rt_routes = []\<rparr>)))"

subsection \<open>Serving\<close>

record api_request =
  rq_Method :: string
  rq_Path :: string
  rq_RequestURI :: string
  rq_Query :: "string \<Rightarrow> string"
  rq_Exec :: exec_http_request      \<comment> \<open>the connection and form of an exec request\<close>

record 's api_lib =
  al_time_Parse :: "string \<Rightarrow> int result"
  al_copy :: "string \<Rightarrow> string \<times> goerror option"
  al_encode :: "Pod list \<Rightarrow> string result"
  al_marshal :: "'s \<Rightarrow> string result"
  al_write :: "string \<Rightarrow> goerror option"
  al_exec :: exec_lib

definition plain :: "http_response outcome \<Rightarrow> exec_answer option outcome" where
  "plain w = obind w (\<lambda>r. Val (Some (PlainAnswer r)))"

definition callHandler :: "'s api_lib \<Rightarrow> 's PodHandlerConfig \<Rightarrow> api_handler \<Rightarrow> string gomap \<Rightarrow> api_request \<Rightarrow> exec_answer option outcome" where
  "callHandler lib p h vars req =
     (case h of
        RunningPodsHandler \<Rightarrow> plain (HandleRunningPods (al_encode lib) (al_write lib) (ph_GetPods p))
      | PodsHandler \<Rightarrow> plain (HandleRunningPods (al_encode lib) (al_write lib) (ph_GetPodsFromKubernetes p))
      | LogsHandler \<Rightarrow> plain (HandleContainerLogs (al_time_Parse lib) (al_copy lib) (ph_GetContainerLogs p) vars (rq_Query req))
      | ExecHandler \<Rightarrow> HandleContainerExec (al_exec lib) (ph_RunInContainer p) ((rq_Exec req)\<lparr>exec_vars := vars\<rparr>)
      | StatsHandler \<Rightarrow> plain (HandlePodStatsSummary (al_marshal lib) (al_write lib) (ph_GetStatsSummary p)))"

definition redirect_response :: "string \<Rightarrow> http_response" where
  "redirect_response path = (WriteHeader 301 empty_response)\<lparr>rs_body := path\<rparr>"

definition serveRouter :: "'s api_lib \<Rightarrow> api_handler mux_dispatch \<Rightarrow> 's PodHandlerConfig \<Rightarrow> api_handler router \<Rightarrow> api_request \<Rightarrow> exec_answer option outcome" where
  "serveRouter lib mux p r req =
     (case mux (StrictSlash r) (rt_routes r) (rq_Method req) (rq_Path req) of
        MuxRoute h vars \<Rightarrow> callHandler lib p h vars req
      | MuxRedirect path \<Rightarrow> Val (Some (PlainAnswer (redirect_response path)))
      | MuxMethodNotAllowed \<Rightarrow> Val (Some (PlainAnswer (WriteHeader 405 empty_response)))
      | MuxNotFound \<Rightarrow> Val (Some (PlainAnswer (api_NotFound empty_response))))"

text \<open>
  \<open>instrumentRequest\<close> puts the address and the variables of the request in the logger. It runs before the router has matched the request, so the request has no variables yet.
\<close>

definition instrumentRequest :: "api_request \<Rightarrow> string gomap option \<Rightarrow> (string \<times> (string + string gomap option)) list" where
  "instrumentRequest req mux_Vars = [(''uri'', Inl (rq_RequestURI req)), (''vars'', Inr mux_Vars)]"

definition InstrumentHandler :: "(api_request \<Rightarrow> exec_answer option outcome) \<Rightarrow> api_request \<Rightarrow> (string \<times> (string + string gomap option)) list \<times> exec_answer option outcome" where
  "InstrumentHandler h req = (instrumentRequest req None, h req)"

definition AttachPodRoutes :: "'s api_lib \<Rightarrow> api_handler mux_dispatch \<Rightarrow> 's PodHandlerConfig \<Rightarrow> bool \<Rightarrow> api_request \<Rightarrow> (string \<times> (string + string gomap option)) list \<times> exec_answer option outcome" where
  "AttachPodRoutes lib mux p debug = InstrumentHandler (serveRouter lib mux p (PodHandler p debug))"

definition AttachPodMetricsRoutes :: "'s api_lib \<Rightarrow> 's result option \<Rightarrow> api_request \<Rightarrow> (string \<times> (string + string gomap option)) list \<times> exec_answer option outcome" where
  "AttachPodMetricsRoutes lib getStatsSummary = InstrumentHandler (\<lambda>req. plain (HandlePodStatsSummary (al_marshal lib) (al_write lib) getStatsSummary))"

text \<open>The pod server of \<open>setupHTTPServer\<close>: the functions of the provider, all routes, no stats.\<close>

definition pod_server_config ::
    "(string \<Rightarrow> string \<Rightarrow> string \<Rightarrow> string list \<Rightarrow> execIO \<Rightarrow> goerror option) \<Rightarrow> (string \<Rightarrow> string \<Rightarrow> string \<Rightarrow> ContainerLogOpts \<Rightarrow> string option \<times> goerror option) \<Rightarrow>
     Pod list result \<Rightarrow> Pod list result \<Rightarrow> int \<Rightarrow> int \<Rightarrow> 's PodHandlerConfig" where
  "pod_server_config run logs getPods fromKubernetes idle creation =
     \<lparr>ph_RunInContainer = Some run, ph_GetContainerLogs = Some logs, ph_GetPods = Some getPods, ph_GetPodsFromKubernetes = Some fromKubernetes,
      ph_GetStatsSummary = None, ph_StreamIdleTimeout = idle, ph_StreamCreationTimeout = creation\<rparr>"

subsection \<open>Requests reach their handlers\<close>

definition good_name :: "string \<Rightarrow> bool" where
  "good_name s = (s \<noteq> [] \<and> CHR ''/'' \<notin> set s \<and> s \<noteq> ''.'' \<and> s \<noteq> ''..'')"

definition container_path :: "string \<Rightarrow> string \<Rightarrow> string \<Rightarrow> string \<Rightarrow> string" where
  "container_path what namespace pod container = ''/'' @ what @ ''/'' @ namespace @ ''/'' @ pod @ ''/'' @ container"

lemma split_at_sep: "x \<notin> set s \<Longrightarrow> split_at x (s @ x # t) = s # split_at x t"
  by (induction s) auto

lemma split_container_path:
  assumes "good_name what" "good_name namespace" "good_name pod" "good_name container"
  shows "split_at (CHR ''/'') (container_path what namespace pod container) = [[], what, namespace, pod, container]"
    and "split_at (CHR ''/'') (toggle_slash (container_path what namespace pod container)) = [[], what, namespace, pod, container, []]"
proof -
  have p: "container_path what namespace pod container = [] @ CHR ''/'' # what @ CHR ''/'' # namespace @ CHR ''/'' # pod @ CHR ''/'' # container"
    by (simp add: container_path_def)
  then show "split_at (CHR ''/'') (container_path what namespace pod container) = [[], what, namespace, pod, container]"
    using assms by (simp add: split_at_sep split_at_plain good_name_def)
  have "last container \<noteq> CHR ''/''" using assms(4) by (metis good_name_def last_in_set)
  then have "toggle_slash (container_path what namespace pod container) =
      [] @ CHR ''/'' # what @ CHR ''/'' # namespace @ CHR ''/'' # pod @ CHR ''/'' # container @ CHR ''/'' # []"
    using assms(4) by (simp add: toggle_slash_def container_path_def good_name_def)
  then show "split_at (CHR ''/'') (toggle_slash (container_path what namespace pod container)) = [[], what, namespace, pod, container, []]"
    using assms by (simp add: split_at_sep good_name_def)
qed

lemma clean_container_path:
  assumes "good_name what" "good_name namespace" "good_name pod" "good_name container"
  shows "clean_path (container_path what namespace pod container)"
  unfolding clean_path_def split_container_path(1) [OF assms] using assms by (auto simp: good_name_def)

text \<open>The segments of the templates.\<close>

lemma template_segs:
  "map parse_seg (split_at (CHR ''/'') ''/runningpods/'') = [Lit [], Lit ''runningpods'', Lit []]"
  "map parse_seg (split_at (CHR ''/'') ''/pods'') = [Lit [], Lit ''pods'']"
  "map parse_seg (split_at (CHR ''/'') ''/containerLogs/{namespace}/{pod}/{container}'') = [Lit [], Lit ''containerLogs'', PathVar ''namespace'', PathVar ''pod'', PathVar ''container'']"
  "map parse_seg (split_at (CHR ''/'') ''/exec/{namespace}/{pod}/{container}'') = [Lit [], Lit ''exec'', PathVar ''namespace'', PathVar ''pod'', PathVar ''container'']"
  by (simp_all add: parse_seg_def)

definition container_vars :: "string \<Rightarrow> string \<Rightarrow> string \<Rightarrow> string gomap" where
  "container_vars namespace pod container = [(''namespace'', namespace), (''pod'', pod), (''container'', container)]"

lemma container_match:
  assumes "good_name namespace" "good_name pod" "good_name container"
  shows "path_match ''/containerLogs/{namespace}/{pod}/{container}'' (container_path ''containerLogs'' namespace pod container) = Some (container_vars namespace pod container)"
    and "path_match ''/exec/{namespace}/{pod}/{container}'' (container_path ''exec'' namespace pod container) = Some (container_vars namespace pod container)"
    and "no_path_match ''/containerLogs/{namespace}/{pod}/{container}'' (container_path ''exec'' namespace pod container)"
proof -
  have w: "good_name ''containerLogs''" "good_name ''exec''" by (simp_all add: good_name_def)
  note sp = split_container_path [OF _ assms]
  have ne: "namespace \<noteq> []" "pod \<noteq> []" "container \<noteq> []" using assms by (simp_all add: good_name_def)
  show "path_match ''/containerLogs/{namespace}/{pod}/{container}'' (container_path ''containerLogs'' namespace pod container) = Some (container_vars namespace pod container)"
    "path_match ''/exec/{namespace}/{pod}/{container}'' (container_path ''exec'' namespace pod container) = Some (container_vars namespace pod container)"
    "no_path_match ''/containerLogs/{namespace}/{pod}/{container}'' (container_path ''exec'' namespace pod container)"
    unfolding path_match_def no_path_match_def template_segs sp [OF w(1)] sp [OF w(2)] using ne by (simp_all add: container_vars_def)
qed

lemma container_no_match:
  assumes "good_name what" "good_name namespace" "good_name pod" "good_name container"
  shows "no_path_match ''/runningpods/'' (container_path what namespace pod container)"
    and "no_path_match ''/pods'' (container_path what namespace pod container)"
  unfolding path_match_def no_path_match_def template_segs split_container_path [OF assms] by simp_all

text \<open>A path below a segment that no template has.\<close>

lemma unknown_no_match:
  assumes a: "good_name a" "a \<notin> {''runningpods'', ''pods'', ''containerLogs'', ''exec''}" and rest: "rest = [] \<or> hd rest = CHR ''/''"
    and t: "t \<in> {''/runningpods/'', ''/pods'', ''/containerLogs/{namespace}/{pod}/{container}'', ''/exec/{namespace}/{pod}/{container}''}"
  shows "path_match t (''/'' @ a @ rest) = None"
proof -
  have "\<exists>ss. split_at (CHR ''/'') (''/'' @ a @ rest) = [] # a # ss"
  proof (cases rest)
    case Nil
    then show ?thesis using a(1) by (simp add: split_at_plain good_name_def)
  next
    case (Cons c r)
    then show ?thesis using rest a(1) by (simp add: split_at_sep good_name_def)
  qed
  then show ?thesis using a(2) t unfolding path_match_def by (auto simp: parse_seg_def)
qed

lemma toggle_below:
  assumes "good_name a" and "rest = [] \<or> hd rest = CHR ''/''"
  shows "\<exists>rest'. toggle_slash (''/'' @ a @ rest) = ''/'' @ a @ rest' \<and> (rest' = [] \<or> hd rest' = CHR ''/'')"
proof (cases "rest = []")
  case True
  moreover have "last a \<noteq> CHR ''/''" using assms(1) by (metis good_name_def last_in_set)
  ultimately show ?thesis using assms(1) by (auto simp: toggle_slash_def good_name_def)
next
  case False
  show ?thesis
  proof (cases "last rest = CHR ''/''")
    case True
    then have "toggle_slash (''/'' @ a @ rest) = ''/'' @ a @ butlast rest" using False by (simp add: toggle_slash_def butlast_append)
    moreover have "butlast rest = [] \<or> hd (butlast rest) = CHR ''/''" using assms(2) False by (cases rest) auto
    ultimately show ?thesis by blast
  next
    case no: False
    then have "toggle_slash (''/'' @ a @ rest) = ''/'' @ a @ (rest @ ''/'')" using False by (simp add: toggle_slash_def)
    then show ?thesis using assms(2) False by (metis hd_append2)
  qed
qed

lemma exec_options_error:
  assumes "getExecOptions f = Inl err"
  shows "\<exists>m. err = ErrorString m"
  using assms by (auto simp: getExecOptions_def Let_def split: if_splits)

text \<open>
  C24: Requests to the pod server reach the provider with the names of their path. For every router that behaves as documented and all names that are one segment of a path: a GET below \<open>/containerLogs\<close> is answered with what the provider's log
  function returns for exactly this namespace, pod and container and the options of the query; a GET or POST below \<open>/exec\<close> runs the command through the provider's function for exactly this container; and a
  clean path below another first segment is answered with 404.
\<close>

theorem api_request_reaches_provider:
  fixes lib :: "'s api_lib"
  assumes "mux_router mux" and "good_name namespace" and "good_name pod" and "good_name container"
  shows "(rq_Method req = ''GET'' \<and> rq_Path req = container_path ''containerLogs'' namespace pod container \<longrightarrow>
      snd (AttachPodRoutes lib mux (pod_server_config run logs getPods fromKubernetes idle creation) debug req) =
        (case logs_answer (al_copy lib) (parseLogOptions (al_time_Parse lib) (rq_Query req)) (logs namespace pod container) of
           Some w \<Rightarrow> Val (Some (PlainAnswer w)) | None \<Rightarrow> Panic nil_deref)) \<and>
    (rq_Method req \<in> {''GET'', ''POST''} \<and> rq_Path req = container_path ''exec'' namespace pod container \<longrightarrow>
      snd (AttachPodRoutes lib mux (pod_server_config run logs getPods fromKubernetes idle creation) debug req) =
        (case getExecOptions (FormValue (rq_Exec req)) of
           Inl err \<Rightarrow> Val (Some (PlainAnswer \<lparr>rs_code = Some 400, rs_body = Error err\<rparr>))
         | Inr streamOpts \<Rightarrow>
             obind (ServeExec (al_exec lib) (conn_req (rq_Exec req)) (ExecInContainer run namespace pod container (command_query (rq_Exec req)))
               streamOpts (split_at (CHR '','') (ProtocolHeader (rq_Exec req)))) (\<lambda>r. Val (map_option ExecAnswer r)))) \<and>
    (\<forall>a rest. good_name a \<and> a \<notin> {''runningpods'', ''pods'', ''containerLogs'', ''exec''} \<and> (rest = [] \<or> hd rest = CHR ''/'') \<and> rq_Path req = ''/'' @ a @ rest \<and> clean_path (rq_Path req) \<longrightarrow>
      snd (AttachPodRoutes lib mux (pod_server_config run logs getPods fromKubernetes idle creation) debug req) =
        Val (Some (PlainAnswer \<lparr>rs_code = Some 404, rs_body = ''404 request not found'' @ [CHR 0x0A]\<rparr>)))"
    (is "(?logs \<longrightarrow> ?A) \<and> (?exec \<longrightarrow> ?B) \<and> ?C")
proof (intro conjI impI allI)
  let ?p = "pod_server_config run logs getPods fromKubernetes idle creation :: 's PodHandlerConfig"
  let ?rd = "if debug then [\<lparr>rt_path = ''/runningpods/'', rt_methods = [''GET''], rt_handler = RunningPodsHandler\<rparr>] else []"
  let ?pods = "\<lparr>rt_path = ''/pods'', rt_methods = [''GET''], rt_handler = PodsHandler\<rparr>"
  let ?l = "\<lparr>rt_path = ''/containerLogs/{namespace}/{pod}/{container}'', rt_methods = [''GET''], rt_handler = LogsHandler\<rparr>"
  let ?e = "\<lparr>rt_path = ''/exec/{namespace}/{pod}/{container}'', rt_methods = [''POST'', ''GET''], rt_handler = ExecHandler\<rparr>"
  have routes: "rt_routes (PodHandler ?p debug) = (?rd @ [?pods]) @ ?l # [?e]" "rt_routes (PodHandler ?p debug) = (?rd @ [?pods, ?l]) @ ?e # []"
    "StrictSlash (PodHandler ?p debug)"
    by (simp_all add: PodHandler_def HandleFunc_def pod_server_config_def Let_def)
  have serve: "snd (AttachPodRoutes lib mux ?p debug req) = serveRouter lib mux ?p (PodHandler ?p debug) req"
    by (simp add: AttachPodRoutes_def InstrumentHandler_def)
  note match = container_match [OF assms(2-4)]
  have w: "good_name ''containerLogs''" "good_name ''exec''" by (simp_all add: good_name_def)
  show ?A if logs: ?logs
  proof -
    have "mux True (rt_routes (PodHandler ?p debug)) (rq_Method req) (rq_Path req) = MuxRoute LogsHandler (container_vars namespace pod container)"
      unfolding routes(1) using logs mux_router.first_match [OF assms(1), of "rq_Path req" "?rd @ [?pods]" ?l "container_vars namespace pod container" "rq_Method req" True "[?e]"]
        match(1) container_no_match [OF w(1) assms(2-4)] clean_container_path [OF w(1) assms(2-4)] by simp
    then show ?thesis
      unfolding serve serveRouter_def using routes(3)
      by (simp add: callHandler_def plain_def logs_request_answer pod_server_config_def container_vars_def split: option.split)
  qed
  show ?B if ex: ?exec
  proof -
    have "mux True (rt_routes (PodHandler ?p debug)) (rq_Method req) (rq_Path req) = MuxRoute ExecHandler (container_vars namespace pod container)"
      unfolding routes(2) using ex mux_router.first_match [OF assms(1), of "rq_Path req" "?rd @ [?pods, ?l]" ?e "container_vars namespace pod container" "rq_Method req" True "[]"]
        match(2,3) container_no_match [OF w(2) assms(2-4)] clean_container_path [OF w(2) assms(2-4)] by auto
    then have "snd (AttachPodRoutes lib mux ?p debug req) =
        HandleContainerExec (al_exec lib) (Some run) ((rq_Exec req)\<lparr>exec_vars := container_vars namespace pod container\<rparr>)"
      unfolding serve serveRouter_def using routes(3) by (simp add: callHandler_def pod_server_config_def)
    then show ?thesis
      by (auto simp: container_vars_def HandleContainerExec_def handleError_error httpStatusCode_def split: sum.split dest: exec_options_error)
  qed
  fix a rest assume u: "good_name a \<and> a \<notin> {''runningpods'', ''pods'', ''containerLogs'', ''exec''} \<and> (rest = [] \<or> hd rest = CHR ''/'') \<and> rq_Path req = ''/'' @ a @ rest \<and> clean_path (rq_Path req)"
  obtain rest' where r': "toggle_slash (''/'' @ a @ rest) = ''/'' @ a @ rest'" "rest' = [] \<or> hd rest' = CHR ''/''" using toggle_below u by blast
  have none: "no_path_match (rt_path r) (rq_Path req)" if "r \<in> set (rt_routes (PodHandler ?p debug))" for r
  proof -
    have "rt_path r \<in> {''/runningpods/'', ''/pods'', ''/containerLogs/{namespace}/{pod}/{container}'', ''/exec/{namespace}/{pod}/{container}''}"
      using that unfolding routes(1) by (auto split: if_splits)
    then show ?thesis using unknown_no_match [of a] u r' unfolding no_path_match_def by metis
  qed
  then have "mux True (rt_routes (PodHandler ?p debug)) (rq_Method req) (rq_Path req) = MuxNotFound"
    using mux_router.no_match [OF assms(1)] u by blast
  then show "snd (AttachPodRoutes lib mux ?p debug req) = Val (Some (PlainAnswer \<lparr>rs_code = Some 404, rs_body = ''404 request not found'' @ [CHR 0x0A]\<rparr>))"
    unfolding serve serveRouter_def using routes(3)
    by (simp add: api_NotFound_def http_Error_def rsp_Write_def WriteHeader_def empty_response_def)
qed

theorem api_request_reaches_provider_witness:
  "snd (AttachPodRoutes \<lparr>al_time_Parse = parse_seconds, al_copy = (\<lambda>s. (s, None)), al_encode = (\<lambda>ps. Inr []), al_marshal = (\<lambda>s :: string. Inr s), al_write = (\<lambda>s. None), al_exec = plain_exec\<rparr>
      simple_mux (pod_server_config (\<lambda>ns pod c cmd io. None) (\<lambda>ns pod c opts. (Some (ns @ pod @ c), None)) (Inr []) (Inr []) 1 1) True
      \<lparr>rq_Method = ''GET'', rq_Path = ''/containerLogs/d/web/a'', rq_RequestURI = ''/containerLogs/d/web/a'', rq_Query = (\<lambda>k. []),
        rq_Exec = \<lparr>conn_req = tty_request, ProtocolHeader = [], FormValue = (\<lambda>k. []), command_query = [], exec_vars = []\<rparr>\<rparr>) =
    Val (Some (PlainAnswer \<lparr>rs_code = Some 200, rs_body = ''dweba''\<rparr>))"
proof -
  let ?lib = "\<lparr>al_time_Parse = parse_seconds, al_copy = (\<lambda>s. (s, None)), al_encode = (\<lambda>ps. Inr []), al_marshal = (\<lambda>s :: string. Inr s), al_write = (\<lambda>s. None), al_exec = plain_exec\<rparr>"
  let ?req = "\<lparr>rq_Method = ''GET'', rq_Path = ''/containerLogs/d/web/a'', rq_RequestURI = ''/containerLogs/d/web/a'', rq_Query = (\<lambda>k. []),
        rq_Exec = \<lparr>conn_req = tty_request, ProtocolHeader = [], FormValue = (\<lambda>k. []), command_query = [], exec_vars = []\<rparr>\<rparr>"
  have names: "good_name ''d''" "good_name ''web''" "good_name ''a''" by (simp_all add: good_name_def)
  have path: "rq_Path ?req = container_path ''containerLogs'' ''d'' ''web'' ''a''" by (simp add: container_path_def)
  have opts: "parseLogOptions parse_seconds (\<lambda>k. []) = Inr zero_log_opts" by code_simp
  show ?thesis
    using api_request_reaches_provider [OF simple.mux_router_axioms names, of ?req ?lib "\<lambda>ns pod c cmd io. None" "\<lambda>ns pod c opts. (Some (ns @ pod @ c), None)" "Inr []" "Inr []" 1 1 True]
      path opts by (simp add: logs_answer_def)
qed

end
