(* ===== verification/Flush_Writer.thy ===== *)
theory Flush_Writer
  imports Errdefs
begin

text \<open>
  Writing a response as it is produced (\<open>flushOnWrite\<close> and \<open>flushWriter\<close> of \<open>src/node/api/helpers.go\<close>), as \<open>HandleContainerLogs\<close> does through \<open>io.Copy\<close>. The writer of the standard library
  buffers what it is given: its \<open>Write\<close> is that of \<open>bufio.Writer\<close> with a buffer of \<open>rw_size\<close> bytes over a connection that takes everything or is broken.
\<close>

record response_writer =
  rw_size :: nat
  rw_flusher :: bool       \<comment> \<open>its type has a method \<open>Flush\<close>\<close>
  rw_broken :: bool
  rw_buffered :: string
  rw_sent :: string        \<comment> \<open>what the client has been sent\<close>

definition rw_drain :: "string \<Rightarrow> response_writer \<Rightarrow> response_writer" where
  "rw_drain p w = (if rw_broken w then w else w\<lparr>rw_sent := rw_sent w @ rw_buffered w @ p, rw_buffered := []\<rparr>)"

definition rw_Write :: "string \<Rightarrow> response_writer \<Rightarrow> response_writer \<times> nat \<times> goerror option" where
  "rw_Write p w =
     (let avail = rw_size w - length (rw_buffered w) in
      if length p \<le> avail then (w\<lparr>rw_buffered := rw_buffered w @ p\<rparr>, length p, None)
      else if rw_broken w then
        (w\<lparr>rw_buffered := (if rw_buffered w = [] then [] else rw_buffered w @ take avail p)\<rparr>, if rw_buffered w = [] then 0 else avail, Some (ErrorString ''write: broken pipe''))
      else if rw_buffered w = [] then (rw_drain p w, length p, None)
      else let w1 = rw_drain (take avail p) w; p1 = drop avail p in
        if length p1 \<le> rw_size w then (w1\<lparr>rw_buffered := p1\<rparr>, length p, None) else (rw_drain p1 w1, length p, None))"

definition rw_Flush :: "response_writer \<Rightarrow> response_writer" where
  "rw_Flush w = rw_drain [] w"

datatype io_writer = PlainWriter response_writer | FlushWriter response_writer

definition flushOnWrite :: "response_writer \<Rightarrow> io_writer" where
  "flushOnWrite w = (if rw_flusher w then FlushWriter w else PlainWriter w)"

fun io_Write :: "string \<Rightarrow> io_writer \<Rightarrow> io_writer \<times> nat \<times> goerror option" where
  "io_Write p (PlainWriter w) = (let (w', n, err) = rw_Write p w in (PlainWriter w', n, err))"
| "io_Write p (FlushWriter w) =
     (let (w', n, err) = rw_Write p w; w'' = (if n > 0 then rw_Flush w' else w') in (FlushWriter w'', n, err))"

fun rw_of :: "io_writer \<Rightarrow> response_writer" where
  "rw_of (PlainWriter w) = w"
| "rw_of (FlushWriter w) = w"

text \<open>\<open>io.Copy\<close> over what the reads return, the last of which may have failed.\<close>

fun io_Copy :: "string list \<Rightarrow> goerror option \<Rightarrow> io_writer \<Rightarrow> io_writer \<times> goerror option" where
  "io_Copy [] readErr w = (w, readErr)"
| "io_Copy (c # cs) readErr w =
     (if c = [] then io_Copy cs readErr w
      else let (w', n, err) = io_Write c w in
        if err \<noteq> None then (w', err)
        else if n \<noteq> length c then (w', Some (ErrorString ''short write''))
        else io_Copy cs readErr w')"

text \<open>A writer over a working connection takes every byte, in order, and loses none.\<close>

definition rw_keeps :: "response_writer \<Rightarrow> response_writer \<Rightarrow> string \<Rightarrow> bool" where
  "rw_keeps w w' p = (rw_sent w' @ rw_buffered w' = rw_sent w @ rw_buffered w @ p \<and> rw_size w' = rw_size w \<and> rw_broken w' = rw_broken w \<and> rw_flusher w' = rw_flusher w)"

lemma rw_Write_keeps:
  assumes "\<not> rw_broken w"
  obtains w' where "rw_Write p w = (w', length p, None)" "rw_keeps w w' p"
proof -
  have "snd (rw_Write p w) = (length p, None) \<and> rw_keeps w (fst (rw_Write p w)) p"
    using assms by (simp add: rw_Write_def rw_drain_def rw_keeps_def Let_def)
  then show thesis using that [of "fst (rw_Write p w)"] by (simp add: prod_eq_iff)
qed

lemma io_Write_keeps:
  assumes "\<not> rw_broken (rw_of w)"
  obtains w' where "io_Write p w = (w', length p, None)" "rw_keeps (rw_of w) (rw_of w') p" "\<And>v. w = FlushWriter v \<Longrightarrow> \<exists>v'. w' = FlushWriter v' \<and> (p \<noteq> [] \<longrightarrow> rw_buffered v' = [])"
    "\<And>v. w = PlainWriter v \<Longrightarrow> \<exists>v'. w' = PlainWriter v'"
proof (cases w)
  case (PlainWriter v)
  obtain v' where "rw_Write p v = (v', length p, None)" "rw_keeps v v' p" by (rule rw_Write_keeps [of v p]) (use assms PlainWriter in auto)
  then show ?thesis using that PlainWriter by simp
next
  case (FlushWriter v)
  obtain v' where "rw_Write p v = (v', length p, None)" "rw_keeps v v' p" by (rule rw_Write_keeps [of v p]) (use assms FlushWriter in auto)
  then show ?thesis using that FlushWriter assms by (simp add: rw_Flush_def rw_drain_def rw_keeps_def Let_def)
qed

lemma io_Copy_keeps:
  assumes "\<not> rw_broken (rw_of w)"
  obtains w' where "io_Copy cs readErr w = (w', readErr)" "rw_keeps (rw_of w) (rw_of w') (concat cs)"
    "\<And>v. w = FlushWriter v \<Longrightarrow> rw_buffered v = [] \<Longrightarrow> rw_buffered (rw_of w') = []"
  using assms
proof (induction cs arbitrary: w thesis)
  case Nil
  then show ?case by (simp add: rw_keeps_def)
next
  case (Cons c cs)
  show ?case
  proof (cases "c = []")
    case False
    obtain w1 where w1: "io_Write c w = (w1, length c, None)" "rw_keeps (rw_of w) (rw_of w1) c" "\<And>v. w = FlushWriter v \<Longrightarrow> \<exists>v'. w1 = FlushWriter v' \<and> rw_buffered v' = []"
      by (rule io_Write_keeps [OF Cons.prems(2), of c]) (use False in blast)
    then have "\<not> rw_broken (rw_of w1)" using Cons.prems(2) by (simp add: rw_keeps_def)
    then obtain w2 where w2: "io_Copy cs readErr w1 = (w2, readErr)" "rw_keeps (rw_of w1) (rw_of w2) (concat cs)" "\<And>v. w1 = FlushWriter v \<Longrightarrow> rw_buffered v = [] \<Longrightarrow> rw_buffered (rw_of w2) = []"
      by (rule Cons.IH [rotated]) blast
    have "rw_keeps (rw_of w) (rw_of w2) (concat (c # cs))" using w1(2) w2(2) by (simp add: rw_keeps_def)
    moreover have "rw_buffered (rw_of w2) = []" if "w = FlushWriter v" for v using w1(3) [OF that] w2(3) by blast
    ultimately show ?thesis using Cons.prems(1) w1(1) w2(1) False by simp
  next
    case True
    obtain w' where w': "io_Copy cs readErr w = (w', readErr)" "rw_keeps (rw_of w) (rw_of w') (concat cs)" "\<And>v. w = FlushWriter v \<Longrightarrow> rw_buffered v = [] \<Longrightarrow> rw_buffered (rw_of w') = []"
      using Cons.prems(2) by (rule Cons.IH [rotated]) blast
    show ?thesis by (rule Cons.prems(1) [OF _ _ w'(3)]) (use True w'(1,2) in simp_all)
  qed
qed

text \<open>
  What was read is with the client and not in a buffer, whatever the sizes of the reads and whether the last one failed, when the writer can be flushed. A writer that cannot keeps a short log back.
\<close>

lemma copied_log_is_sent:
  assumes "rw_flusher w" "\<not> rw_broken w" "rw_buffered w = []"
  shows "rw_sent (rw_of (fst (io_Copy cs readErr (flushOnWrite w)))) = rw_sent w @ concat cs \<and> snd (io_Copy cs readErr (flushOnWrite w)) = readErr"
proof -
  obtain w' where "io_Copy cs readErr (FlushWriter w) = (w', readErr)" "rw_keeps w (rw_of w') (concat cs)" "rw_buffered (rw_of w') = []"
    by (rule io_Copy_keeps [of "FlushWriter w" cs readErr]) (use assms in auto)
  then show ?thesis using assms by (simp add: flushOnWrite_def rw_keeps_def)
qed

lemma plain_writer_keeps_log_back:
  assumes "\<not> rw_flusher w" "rw_buffered w = []" "length c \<le> rw_size w" "c \<noteq> []"
  shows "rw_sent (rw_of (fst (io_Copy [c] None (flushOnWrite w)))) = rw_sent w"
  using assms by (simp add: flushOnWrite_def rw_Write_def Let_def)

end
