(* ===== verification/Resource_Manager.thy ===== *)
theory Resource_Manager
  imports K8s_Types
begin

text \<open>
  The rest of the resource manager (\<open>src/internal/manager/resource.go\<close>): its two constructors and the operations that need a client or the lister of namespaces, which only one of the
  constructors sets. The client of the API server and the broadcaster of events are client-go's: a client is the calls the manager makes of it on a cluster, \<open>'s\<close>, and a recorder is what it was made with.
\<close>

record 's rm_clientset =
  client_DeletePod :: "string \<Rightarrow> string \<Rightarrow> 's \<Rightarrow> 's \<times> goerror option"

record ('s, 'n) clientResourceManager = ResourceManager +
  rm_client :: "'s rm_clientset option"
  rm_namespaceLister :: "(string \<Rightarrow> 'n result) option"

record EventRecorder =
  recorderLogs :: bool
  recorderSinks :: "string list"      \<comment> \<open>the namespaces of its sinks\<close>
  recorderComponent :: string

definition NewResourceManagerWithMultiLister ::
    "'s rm_clientset option \<Rightarrow> Pod list result \<Rightarrow> (string \<Rightarrow> string \<Rightarrow> Pod result) \<Rightarrow> (string \<Rightarrow> string \<Rightarrow> DataObject result) \<Rightarrow> (string \<Rightarrow> string \<Rightarrow> DataObject result) \<Rightarrow>
     Service list result \<Rightarrow> (string \<Rightarrow> 'n result) option \<Rightarrow> goerror + ('s, 'n) clientResourceManager" where
  "NewResourceManagerWithMultiLister client podList podGet secretGet configMapGet serviceList namespaceLister =
     Inr \<lparr>podListerList = podList, podListerGet = podGet, secretListerGet = secretGet, configMapListerGet = configMapGet, serviceListerList = serviceList,
       rm_client = client, rm_namespaceLister = namespaceLister\<rparr>"

definition NewResourceManager ::
    "Pod list result \<Rightarrow> (string \<Rightarrow> string \<Rightarrow> Pod result) \<Rightarrow> (string \<Rightarrow> string \<Rightarrow> DataObject result) \<Rightarrow> (string \<Rightarrow> string \<Rightarrow> DataObject result) \<Rightarrow> Service list result \<Rightarrow>
     goerror + ('s, 'n) clientResourceManager" where
  "NewResourceManager podList podGet secretGet configMapGet serviceList =
     Inr \<lparr>podListerList = podList, podListerGet = podGet, secretListerGet = secretGet, configMapListerGet = configMapGet, serviceListerList = serviceList,
       rm_client = None, rm_namespaceLister = None\<rparr>"

text \<open>A call through a nil client or a nil lister is a nil dereference.\<close>

definition rm_DeletePod :: "('s, 'n) clientResourceManager \<Rightarrow> string \<Rightarrow> string \<Rightarrow> 's \<Rightarrow> ('s \<times> goerror option) outcome" where
  "rm_DeletePod rm namespace name s =
     (case rm_client rm of None \<Rightarrow> Panic ''invalid memory address or nil pointer dereference'' | Some c \<Rightarrow> Val (client_DeletePod c namespace name s))"

definition rm_GetNamespace :: "('s, 'n) clientResourceManager \<Rightarrow> string \<Rightarrow> 'n result outcome" where
  "rm_GetNamespace rm namespace =
     (case rm_namespaceLister rm of None \<Rightarrow> Panic ''invalid memory address or nil pointer dereference'' | Some get \<Rightarrow> Val (get namespace))"

definition rm_GetRecord :: "('s, 'n) clientResourceManager \<Rightarrow> string \<Rightarrow> string \<Rightarrow> EventRecorder outcome" where
  "rm_GetRecord rm namespace component =
     (let eb = \<lparr>recorderLogs = False, recorderSinks = [], recorderComponent = []\<rparr>; eb = eb\<lparr>recorderLogs := True\<rparr> in
      case rm_client rm of
        None \<Rightarrow> Panic ''invalid memory address or nil pointer dereference''
      | Some c \<Rightarrow> (let eb = eb\<lparr>recorderSinks := recorderSinks eb @ [namespace]\<rparr> in Val (eb\<lparr>recorderComponent := component\<rparr>)))"

text \<open>
  The pod controller makes its manager with the constructor that has no client. Its listers answer as those of the command's manager do, given the same informers; the operations that need more than them panic.
\<close>

lemma NewResourceManager_listers:
  assumes "NewResourceManager podList podGet secretGet configMapGet serviceList = Inr (rm :: ('s, 'n) clientResourceManager)"
    and "NewResourceManagerWithMultiLister (client :: 't rm_clientset option) podList podGet secretGet configMapGet serviceList (lister :: (string \<Rightarrow> 'm result) option) = Inr rm'"
  shows "ResourceManager.truncate rm = ResourceManager.truncate rm'"
  using assms by (auto simp: NewResourceManager_def NewResourceManagerWithMultiLister_def ResourceManager.defs)

lemma NewResourceManager_has_no_client:
  assumes "NewResourceManager podList podGet secretGet configMapGet serviceList = Inr (rm :: ('s, 'n) clientResourceManager)"
  shows "(\<exists>e. rm_DeletePod rm namespace name s = Panic e) \<and> (\<exists>e. rm_GetNamespace rm namespace = Panic e) \<and> (\<exists>e. rm_GetRecord rm namespace component = Panic e)"
  using assms by (auto simp: NewResourceManager_def rm_DeletePod_def rm_GetNamespace_def rm_GetRecord_def)

text \<open>The manager of the command has both: a recorder logs its events and sends them to the one namespace it is made for.\<close>

lemma command_manager_never_panics:
  assumes "NewResourceManagerWithMultiLister (Some client) podList podGet secretGet configMapGet serviceList (Some lister) = Inr rm"
  shows "rm_DeletePod rm namespace name s = Val (client_DeletePod client namespace name s) \<and> rm_GetNamespace rm namespace = Val (lister namespace) \<and>
    rm_GetRecord rm namespace component = Val \<lparr>recorderLogs = True, recorderSinks = [namespace], recorderComponent = component\<rparr>"
  using assms by (auto simp: NewResourceManagerWithMultiLister_def rm_DeletePod_def rm_GetNamespace_def rm_GetRecord_def)

end
