(* ===== verification/Tracing.thy ===== *)
theory Tracing
  imports Node_Api "HOL-Library.List_Lexorder" "HOL-Library.Char_ord" "HOL-Library.Multiset"
begin

text \<open>
  Logging and tracing: the logger in a context (\<open>src/log/log.go\<close>), the OpenCensus adapter (\<open>src/trace/opencensus\<close>), which writes every entry to
  its logger and, while the span records events, to the span, and the fields of the klog adapter (\<open>src/log/klogv2\<close>). A value of a field
  other than a string, a 64-bit integer, a boolean or an error is the text that \<open>%+v\<close> prints.
\<close>

subsection \<open>The logger of a context\<close>

text \<open>\<open>None\<close> is a nil logger, of the context or the default one.\<close>

definition GetLogger :: "'l option \<Rightarrow> 'l option \<Rightarrow> 'l outcome" where
  "GetLogger ctxLogger L =
     (case ctxLogger of
        Some l \<Rightarrow> Val l
      | None \<Rightarrow> (case L of None \<Rightarrow> Panic ''default logger not initialized'' | Some l \<Rightarrow> Val l))"

subsection \<open>The OpenCensus adapter\<close>

datatype fval = FString string | FInt64 int | FBool bool | FError goerror | FOther string

datatype attribute = StringAttribute string string | Int64Attribute string int | BoolAttribute string bool

fun makeAttribute :: "string \<Rightarrow> fval \<Rightarrow> attribute" where
  "makeAttribute key (FString v) = StringAttribute key v"
| "makeAttribute key (FInt64 v) = Int64Attribute key v"
| "makeAttribute key (FBool v) = BoolAttribute key v"
| "makeAttribute key (FError v) = StringAttribute key (Error v)"
| "makeAttribute key (FOther s) = StringAttribute key s"

datatype level = LDebug | LInfo | LWarn | LErr | LFatal

fun level_name :: "level \<Rightarrow> string" where
  "level_name LDebug = ''DEBUG''"
| "level_name LInfo = ''INFO''"
| "level_name LWarn = ''WARN''"
| "level_name LErr = ''ERROR''"
| "level_name LFatal = ''FATAL''"

definition withLevel :: "level \<Rightarrow> attribute list \<Rightarrow> attribute list" where
  "withLevel l attrs = attrs @ [StringAttribute ''level'' (level_name l)]"

datatype status_code = StatusCodeOK | StatusCodeNotFound | StatusCodeInvalidArgument | StatusCodeUnknown

record oc_span =
  recording :: bool
  span_status :: "(status_code \<times> string) option"
  span_attributes :: "attribute list"
  annotations :: "(attribute list \<times> string) list"

text \<open>The backend's logger with the fields it was given, and the adapter's attributes. The context in which a span is started has a logger of the backend.\<close>

record logger =
  backend_fields :: "(string \<times> fval) list"
  log_attrs :: "attribute list"

record entry =
  entry_level :: level
  entry_fields :: "(string \<times> fval) list"
  entry_msg :: string

definition span_SetStatus :: "goerror option \<Rightarrow> oc_span \<Rightarrow> oc_span" where
  "span_SetStatus err s =
     (if \<not> recording s then s
      else case err of
        None \<Rightarrow> s\<lparr>span_status := Some (StatusCodeOK, [])\<rparr>
      | Some e \<Rightarrow>
          let code = (if IsNotFound err then StatusCodeNotFound
            else if IsInvalidInput err then StatusCodeInvalidArgument else StatusCodeUnknown) in
          s\<lparr>span_status := Some (code, Error e)\<rparr>)"

text \<open>The fields of a span: its logger and the new context's have them, and its attributes while it records.\<close>

definition span_WithFields :: "(string \<times> fval) list \<Rightarrow> oc_span \<times> logger \<Rightarrow> oc_span \<times> logger" where
  "span_WithFields f sl =
     (let (s, l) = sl in
      (if recording s then s\<lparr>span_attributes := span_attributes s @ map (\<lambda>(k, v). makeAttribute k v) f\<rparr> else s,
       \<lparr>backend_fields = backend_fields l @ f, log_attrs = []\<rparr>))"

definition span_WithField :: "string \<Rightarrow> fval \<Rightarrow> oc_span \<times> logger \<Rightarrow> oc_span \<times> logger" where
  "span_WithField key val sl = span_WithFields [(key, val)] sl"

definition span_Logger :: "oc_span \<times> logger \<Rightarrow> logger" where
  "span_Logger sl = \<lparr>backend_fields = backend_fields (snd sl), log_attrs = []\<rparr>"

definition StartSpan :: "string \<Rightarrow> bool \<Rightarrow> logger \<Rightarrow> oc_span \<times> logger" where
  "StartSpan name rec l = (\<lparr>recording = rec, span_status = None, span_attributes = [], annotations = []\<rparr>,
     \<lparr>backend_fields = backend_fields l @ [(''method'', FString name)], log_attrs = []\<rparr>)"

definition logger_WithFields :: "oc_span \<Rightarrow> (string \<times> fval) list \<Rightarrow> logger \<Rightarrow> logger" where
  "logger_WithFields s f l = \<lparr>backend_fields = backend_fields l @ f,
     log_attrs = (if recording s then log_attrs l @ map (\<lambda>(k, v). makeAttribute k v) f else [])\<rparr>"

definition logger_WithField :: "oc_span \<Rightarrow> string \<Rightarrow> fval \<Rightarrow> logger \<Rightarrow> logger" where
  "logger_WithField s k v l = logger_WithFields s [(k, v)] l"

definition logger_WithError :: "oc_span \<Rightarrow> goerror \<Rightarrow> logger \<Rightarrow> logger" where
  "logger_WithError s err l = logger_WithFields s [(''err'', FError err)] l"

text \<open>Annotating a span that does not record does nothing.\<close>

definition Annotate :: "attribute list \<Rightarrow> string \<Rightarrow> oc_span \<Rightarrow> oc_span" where
  "Annotate attrs msg s = (if recording s then s\<lparr>annotations := annotations s @ [(attrs, msg)]\<rparr> else s)"

text \<open>
  One call of a logging method: the span, the entries written and whether the process has ended. The message of a fatal entry is
  annotated before it is written, since writing it ends the process.
\<close>

type_synonym log_state = "oc_span \<times> entry list \<times> bool"

definition logger_log :: "level \<Rightarrow> string \<Rightarrow> logger \<Rightarrow> log_state \<Rightarrow> log_state" where
  "logger_log lv msg l st =
     (let (s, es, ended) = st; e = \<lparr>entry_level = lv, entry_fields = backend_fields l, entry_msg = msg\<rparr> in
      if ended then st
      else (Annotate (withLevel lv (log_attrs l)) msg s, es @ [e], lv = LFatal))"

subsection \<open>The fields of klog\<close>

fun fval_text :: "fval \<Rightarrow> string" where
  "fval_text (FString s) = s"
| "fval_text (FInt64 i) = Itoa i"
| "fval_text (FBool b) = FormatBool b"
| "fval_text (FError e) = Error e"
| "fval_text (FOther s) = s"

fun join_space :: "string list \<Rightarrow> string" where
  "join_space [] = []"
| "join_space [a] = a"
| "join_space (a # b # as) = a @ '' '' @ join_space (b # as)"

definition processFields :: "(string \<times> fval) list \<Rightarrow> string" where
  "processFields fs = '' ['' @ join_space (sort (map (\<lambda>(k, v). k @ ''='' @ fval_text v) fs)) @ '']''"

definition klog_fields :: "(string \<times> fval) list \<Rightarrow> string" where
  "klog_fields fs = (if fs = [] then [] else processFields fs)"

definition klog_WithFields :: "fval gomap \<Rightarrow> fval gomap \<Rightarrow> fval gomap" where
  "klog_WithFields old new = fold (\<lambda>(k, v) m. go_put k v m) new (fold (\<lambda>(k, v) m. go_put k v m) old [])"

definition klog_WithError :: "fval gomap \<Rightarrow> goerror \<Rightarrow> fval gomap" where
  "klog_WithError old err = klog_WithFields old [(''err'', FError err)]"

subsection \<open>Entries and annotations\<close>

definition annotated :: "entry \<Rightarrow> attribute list \<times> string \<Rightarrow> bool" where
  "annotated e a = (entry_msg e = snd a \<and> last (fst a) = StringAttribute ''level'' (level_name (entry_level e)))"

lemma logger_log_mirrors:
  assumes "recording (fst st)" "list_all2 annotated (fst (snd st)) (annotations (fst st))"
  shows "recording (fst (logger_log lv msg l st)) \<and>
    list_all2 annotated (fst (snd (logger_log lv msg l st))) (annotations (fst (logger_log lv msg l st)))"
proof -
  obtain s es ended where st: "st = (s, es, ended)" by (cases st) auto
  have "list_all2 annotated (es @ [e]) (annotations s @ [a])" if "annotated e a" for e a
    using assms(2) that st by (auto intro: list_all2_appendI)
  then show ?thesis using assms unfolding st by (simp add: logger_log_def Annotate_def withLevel_def annotated_def Let_def)
qed

text \<open>
  While a span records, what its loggers write is what it is annotated with: after any calls on any loggers of the span, with whatever
  fields, the entries and the annotations correspond one to one, in order, with their levels and messages; and nothing is written
  after a fatal entry.
\<close>

theorem annotations_mirror_entries:
  "case fold (\<lambda>(lv, msg, l). logger_log lv msg l) calls (fst (StartSpan name True base), [], False) of
     (s, es, ended) \<Rightarrow> list_all2 annotated es (annotations s) \<and> list_all (\<lambda>e. entry_level e \<noteq> LFatal) (butlast es)"
proof -
  let ?run = "\<lambda>cs st. fold (\<lambda>(lv, msg, l). logger_log lv msg l) cs st"
  define inv :: "log_state \<Rightarrow> bool" where
    "inv = (\<lambda>(s, es, ended). recording s \<and> list_all2 annotated es (annotations s) \<and> list_all (\<lambda>e. entry_level e \<noteq> LFatal) (butlast es) \<and>
       (\<not> ended \<longrightarrow> list_all (\<lambda>e. entry_level e \<noteq> LFatal) es))"
  have step: "inv (logger_log lv msg l st)" if i: "inv st" for lv msg l st
  proof -
    obtain s es ended where st: "st = (s, es, ended)" by (cases st) auto
    show ?thesis
      using i logger_log_mirrors [of st lv msg l] unfolding st inv_def by (auto simp: logger_log_def Let_def)
  qed
  have "inv (?run cs st)" if "inv st" for cs st
    using that
  proof (induction cs arbitrary: st)
    case (Cons c cs)
    obtain lv msg l where "c = (lv, msg, l)" by (cases c) auto
    then show ?case using Cons.IH [OF step [OF Cons.prems]] by simp
  qed simp
  moreover have "inv (fst (StartSpan name True base), [], False)" by (simp add: inv_def StartSpan_def)
  ultimately have "inv (?run calls (fst (StartSpan name True base), [], False))" by blast
  then show ?thesis by (auto simp: inv_def split: prod.splits)
qed

text \<open>The text of fields does not depend on the order in which a map of them is visited.\<close>

lemma klog_fields_order_independent:
  assumes "distinct fs" and "distinct fs'" and "set fs = set fs'"
  shows "klog_fields fs = klog_fields fs'"
proof -
  let ?f = "\<lambda>(k, v). k @ ''='' @ fval_text v"
  have "mset fs = mset fs'" using assms set_eq_iff_mset_eq_distinct by blast
  then have "mset (map ?f fs) = mset (map ?f fs')" by simp
  then have "sort (map ?f fs) = sort (map ?f fs')" by (intro properties_for_sort) (simp_all)
  moreover have "fs = [] \<longleftrightarrow> fs' = []" using assms(3) by auto
  ultimately show ?thesis by (simp add: klog_fields_def processFields_def)
qed

text \<open>Errors are classified alike for spans and for HTTP clients.\<close>

lemma span_status_matches_http:
  assumes "recording s"
  shows "\<exists>code m. span_status (span_SetStatus err s) = Some (code, m) \<and> m = (case err of None \<Rightarrow> [] | Some e \<Rightarrow> Error e) \<and>
    httpStatusCode err = (case code of StatusCodeOK \<Rightarrow> 200 | StatusCodeNotFound \<Rightarrow> 404 | StatusCodeInvalidArgument \<Rightarrow> 400 | StatusCodeUnknown \<Rightarrow> 500)"
  using assms by (cases err) (simp_all add: span_SetStatus_def httpStatusCode_def Let_def del: IsNotFound.simps IsInvalidInput.simps)

end
