(* ===== verification/Logging.thy ===== *)
theory Logging
  imports Tracing
begin

text \<open>
  Loggers behind their interface (\<open>src/log\<close>) and spans behind theirs (\<open>src/trace\<close>): the loggers of the repository as one type whose methods are the methods of the interface, the values a context carries, and the choice of the tracer.
  A logger of a span wraps the logger its span was started with, which may be that of another span. The entry of logrus is modelled by its fields in the order they were set.
\<close>

subsection \<open>The text of klog\<close>

text \<open>\<open>fieldMap\<close> with its \<open>sync.Once\<close>: the text is computed at the first use.\<close>

record fieldMap =
  fm_Fields :: "fval gomap"
  processedFields :: string
  fm_done :: bool

definition newFieldMap :: "fval gomap option \<Rightarrow> fieldMap" where
  "newFieldMap fs = \<lparr>fm_Fields = (case fs of None \<Rightarrow> [] | Some f \<Rightarrow> f), processedFields = [], fm_done = False\<rparr>"

definition fieldMap_String :: "fieldMap \<Rightarrow> string \<times> fieldMap" where
  "fieldMap_String f =
     (let f' = (if fm_done f then f
        else if fm_Fields f \<noteq> [] \<and> processedFields f = [] then f\<lparr>processedFields := processFields (fm_Fields f), fm_done := True\<rparr>
        else f\<lparr>fm_done := True\<rparr>)
      in (processedFields f', f'))"

definition fieldMap_ok :: "fieldMap \<Rightarrow> bool" where
  "fieldMap_ok f = (processedFields f = (if fm_done f then klog_fields (fm_Fields f) else []))"

text \<open>Computing the text once does not change it.\<close>

lemma fieldMap_String_text:
  assumes "fieldMap_ok f"
  shows "fst (fieldMap_String f) = klog_fields (fm_Fields f) \<and> fieldMap_ok (snd (fieldMap_String f)) \<and> fm_Fields (snd (fieldMap_String f)) = fm_Fields f"
  using assms by (simp add: fieldMap_String_def fieldMap_ok_def klog_fields_def Let_def)

lemma newFieldMap_ok: "fieldMap_ok (newFieldMap fs)"
  by (simp add: newFieldMap_def fieldMap_ok_def)

text \<open>\<open>fmt.Sprint\<close>: a space between operands neither of which is a string.\<close>

fun is_FString :: "fval \<Rightarrow> bool" where
  "is_FString (FString s) = True"
| "is_FString _ = False"

fun Sprint :: "fval list \<Rightarrow> string" where
  "Sprint [] = []"
| "Sprint [a] = fval_text a"
| "Sprint (a # b # as) = fval_text a @ (if is_FString a \<or> is_FString b then [] else '' '') @ Sprint (b # as)"

text \<open>The adapter appends the text of its fields to the operands: the line is the message followed by the fields.\<close>

lemma Sprint_append_string: "Sprint (args @ [FString s]) = Sprint args @ s"
  by (induction args rule: Sprint.induct) auto

datatype severity = SevInfo | SevWarning | SevError | SevFatal

fun severity_of :: "level \<Rightarrow> severity" where
  "severity_of LDebug = SevInfo"
| "severity_of LInfo = SevInfo"
| "severity_of LWarn = SevWarning"
| "severity_of LErr = SevError"
| "severity_of LFatal = SevFatal"

text \<open>One call of the adapter with its operands; \<open>v4\<close> is \<open>klog.V(4).Enabled()\<close>. The formatting methods pass the formatted text as their only operand.\<close>

definition klog_call :: "bool \<Rightarrow> level \<Rightarrow> fval list \<Rightarrow> fieldMap \<Rightarrow> (severity \<times> string) option \<times> fieldMap" where
  "klog_call v4 lv args f =
     (if lv = LDebug \<and> \<not> v4 then (None, f)
      else let (text, f') = fieldMap_String f in (Some (severity_of lv, Sprint (args @ [FString text])), f'))"

subsection \<open>Loggers\<close>

text \<open>\<open>SpanLogger id l a\<close> is the logger of a span over \<open>l\<close> with the attributes \<open>a\<close>; spans are numbered.\<close>

datatype any_logger =
    NopLogger
  | LogrusLogger "(string \<times> fval) list"
  | KlogLogger "fval gomap"
  | SpanLogger nat any_logger "attribute list"

record log_world =
  lw_spans :: "oc_span list"
  lw_entries :: "entry list"                  \<comment> \<open>written by logrus\<close>
  lw_klog :: "(severity \<times> string) list"      \<comment> \<open>written by klog\<close>
  lw_v4 :: bool
  lw_ended :: bool

definition span_recording :: "log_world \<Rightarrow> nat \<Rightarrow> bool" where
  "span_recording w i = (i < length (lw_spans w) \<and> recording (lw_spans w ! i))"

fun any_WithFields :: "log_world \<Rightarrow> (string \<times> fval) list \<Rightarrow> any_logger \<Rightarrow> any_logger" where
  "any_WithFields w f NopLogger = NopLogger"
| "any_WithFields w f (LogrusLogger fs) = LogrusLogger (fs @ f)"
| "any_WithFields w f (KlogLogger fs) = KlogLogger (klog_WithFields fs f)"
| "any_WithFields w f (SpanLogger i l a) =
     SpanLogger i (any_WithFields w f l) (if span_recording w i then a @ map (\<lambda>(k, v). makeAttribute k v) f else [])"

definition any_WithField :: "log_world \<Rightarrow> string \<Rightarrow> fval \<Rightarrow> any_logger \<Rightarrow> any_logger" where
  "any_WithField w k v l = any_WithFields w [(k, v)] l"

text \<open>\<open>WithError\<close>: logrus has its own key.\<close>

fun any_WithError :: "log_world \<Rightarrow> goerror \<Rightarrow> any_logger \<Rightarrow> any_logger" where
  "any_WithError w e NopLogger = NopLogger"
| "any_WithError w e (LogrusLogger fs) = LogrusLogger (fs @ [(''error'', FError e)])"
| "any_WithError w e (KlogLogger fs) = KlogLogger (klog_WithError fs e)"
| "any_WithError w e (SpanLogger i l a) = SpanLogger i (any_WithError w e l) (if span_recording w i then a @ [makeAttribute ''err'' (FError e)] else [])"

definition annotate_span :: "nat \<Rightarrow> attribute list \<Rightarrow> string \<Rightarrow> log_world \<Rightarrow> log_world" where
  "annotate_span i attrs msg w = w\<lparr>lw_spans := (if i < length (lw_spans w) then (lw_spans w)[i := Annotate attrs msg (lw_spans w ! i)] else lw_spans w)\<rparr>"

text \<open>A call of a logging method with its message. Once a fatal entry has been written the process has ended.\<close>

fun any_log :: "level \<Rightarrow> string \<Rightarrow> any_logger \<Rightarrow> log_world \<Rightarrow> log_world" where
  "any_log lv msg NopLogger w = w"
| "any_log lv msg (LogrusLogger fs) w =
     (if lw_ended w then w else w\<lparr>lw_entries := lw_entries w @ [\<lparr>entry_level = lv, entry_fields = fs, entry_msg = msg\<rparr>], lw_ended := (lv = LFatal)\<rparr>)"
| "any_log lv msg (KlogLogger fs) w =
     (if lw_ended w then w
      else case fst (klog_call (lw_v4 w) lv [FString msg] (newFieldMap (Some fs))) of
        None \<Rightarrow> w
      | Some line \<Rightarrow> w\<lparr>lw_klog := lw_klog w @ [line], lw_ended := (lv = LFatal)\<rparr>)"
| "any_log lv msg (SpanLogger i l a) w =
     (if lw_ended w then w
      else if lv = LFatal then any_log lv msg l (annotate_span i (withLevel lv a) msg w)
      else annotate_span i (withLevel lv a) msg (any_log lv msg l w))"

subsection \<open>Contexts and tracers\<close>

datatype tracer = NopTracer | OpenCensusAdapter

datatype ctx_value = LoggerValue "any_logger option" | TracerValue tracer

type_synonym go_context = "ctx_value list"    \<comment> \<open>the innermost value first\<close>

fun ctx_logger :: "go_context \<Rightarrow> any_logger option" where
  "ctx_logger [] = None"
| "ctx_logger (LoggerValue l # ctx) = l"
| "ctx_logger (TracerValue t # ctx) = ctx_logger ctx"

fun ctx_tracer :: "go_context \<Rightarrow> tracer option" where
  "ctx_tracer [] = None"
| "ctx_tracer (TracerValue t # ctx) = Some t"
| "ctx_tracer (LoggerValue l # ctx) = ctx_tracer ctx"

definition WithLogger :: "go_context \<Rightarrow> any_logger option \<Rightarrow> go_context" where
  "WithLogger ctx l = LoggerValue l # ctx"

definition WithTracer :: "go_context \<Rightarrow> tracer \<Rightarrow> go_context" where
  "WithTracer ctx t = TracerValue t # ctx"

definition log_G :: "any_logger option \<Rightarrow> go_context \<Rightarrow> any_logger outcome" where
  "log_G L ctx = GetLogger (ctx_logger ctx) L"

datatype span = NopSpan | OcSpan nat any_logger

fun any_span_Logger :: "span \<Rightarrow> any_logger option" where
  "any_span_Logger NopSpan = None"
| "any_span_Logger (OcSpan i l) = Some (SpanLogger i l [])"

text \<open>The adapter's \<open>StartSpan\<close>; \<open>rec\<close> is the decision of the sampler.\<close>

definition adapter_StartSpan :: "any_logger option \<Rightarrow> bool \<Rightarrow> string \<Rightarrow> go_context \<Rightarrow> log_world \<Rightarrow> (go_context \<times> span \<times> log_world) outcome" where
  "adapter_StartSpan L rec name ctx w =
     obind (log_G L ctx) (\<lambda>l0.
       let w' = w\<lparr>lw_spans := lw_spans w @ [\<lparr>recording = rec, span_status = None, span_attributes = [], annotations = []\<rparr>]\<rparr>;
           s = OcSpan (length (lw_spans w)) (any_WithField w' ''method'' (FString name) l0) in
       Val (WithLogger ctx (any_span_Logger s), s, w'))"

definition tracer_StartSpan :: "tracer \<Rightarrow> any_logger option \<Rightarrow> bool \<Rightarrow> string \<Rightarrow> go_context \<Rightarrow> log_world \<Rightarrow> (go_context \<times> span \<times> log_world) outcome" where
  "tracer_StartSpan t L rec name ctx w = (case t of NopTracer \<Rightarrow> Val (ctx, NopSpan, w) | OpenCensusAdapter \<Rightarrow> adapter_StartSpan L rec name ctx w)"

definition trace_StartSpan :: "tracer \<Rightarrow> any_logger option \<Rightarrow> bool \<Rightarrow> string \<Rightarrow> go_context \<Rightarrow> log_world \<Rightarrow> (go_context \<times> span \<times> log_world) outcome" where
  "trace_StartSpan T L rec name ctx w =
     (let tracer = (case ctx_tracer ctx of Some t \<Rightarrow> t | None \<Rightarrow> T) in
      obind (tracer_StartSpan tracer L rec name ctx w) (\<lambda>(ctx', s, w'). Val (WithLogger ctx' (any_span_Logger s), s, w')))"

text \<open>Adding a field to a span: its logger and the context's have it, and its attributes while it records.\<close>

fun any_span_WithField :: "string \<Rightarrow> fval \<Rightarrow> go_context \<times> span \<times> log_world \<Rightarrow> go_context \<times> span \<times> log_world" where
  "any_span_WithField k v (ctx, NopSpan, w) = (ctx, NopSpan, w)"
| "any_span_WithField k v (ctx, OcSpan i l, w) =
     (let l' = any_WithField w k v l in
      (WithLogger ctx (Some (SpanLogger i l' [])), OcSpan i l',
       if span_recording w i
       then w\<lparr>lw_spans := (lw_spans w)[i := (lw_spans w ! i)\<lparr>span_attributes := span_attributes (lw_spans w ! i) @ [makeAttribute k v]\<rparr>]\<rparr> else w))"

fun addPairs :: "string list \<Rightarrow> go_context \<times> span \<times> log_world \<Rightarrow> go_context \<times> span \<times> log_world" where
  "addPairs (k # v # attrs) st = addPairs attrs (any_span_WithField k (FString v) st)"
| "addPairs _ st = st"

definition addAttributes :: "string list \<Rightarrow> go_context \<times> span \<times> log_world \<Rightarrow> go_context \<times> span \<times> log_world" where
  "addAttributes attrs st = (if length attrs mod 2 = 1 then st else addPairs attrs st)"

text \<open>Without a tracer the logger of the context is hidden by a nil one: the default logger is used from then on, and a span's own logger cannot be called.\<close>

lemma nop_tracer_hides_logger:
  assumes "ctx_tracer ctx = None"
  shows "\<exists>ctx'. trace_StartSpan NopTracer L rec name ctx w = Val (ctx', NopSpan, w) \<and> log_G L ctx' = log_G L [] \<and> any_span_Logger NopSpan = None"
  using assms by (simp add: trace_StartSpan_def tracer_StartSpan_def WithLogger_def log_G_def)

subsection \<open>Entries and annotations\<close>

text \<open>The spans a logger annotates, the innermost first, and the logger below them.\<close>

fun span_ids :: "any_logger \<Rightarrow> nat list" where
  "span_ids (SpanLogger i l a) = i # span_ids l"
| "span_ids _ = []"

fun root_logger :: "any_logger \<Rightarrow> any_logger" where
  "root_logger (SpanLogger i l a) = root_logger l"
| "root_logger l = l"

definition logger_ok :: "log_world \<Rightarrow> any_logger \<Rightarrow> bool" where
  "logger_ok w l = (distinct (span_ids l) \<and> (\<forall>i\<in>set (span_ids l). i < length (lw_spans w)))"

lemma span_ids_WithFields [simp]: "span_ids (any_WithFields w f l) = span_ids l"
  by (induction l) simp_all

lemma span_ids_WithError [simp]: "span_ids (any_WithError w e l) = span_ids l"
  by (induction l) simp_all

text \<open>Every logger a span is started with is fine, and stays so when fields are added.\<close>

lemma StartSpan_logger_ok:
  assumes "log_G L ctx = Val l0" "logger_ok w l0" "ctx_tracer ctx = None"
  shows "\<exists>ctx' s w' l. trace_StartSpan OpenCensusAdapter L rec name ctx w = Val (ctx', s, w') \<and> log_G L ctx' = Val l \<and> logger_ok w' l \<and>
    span_ids l = length (lw_spans w) # span_ids l0"
  using assms unfolding trace_StartSpan_def tracer_StartSpan_def adapter_StartSpan_def WithLogger_def logger_ok_def
  by (force simp: log_G_def GetLogger_def Let_def any_WithField_def less_Suc_eq)

lemma annotate_span_annotations:
  assumes "j < length (lw_spans w)"
  shows "map snd (annotations (lw_spans (annotate_span i attrs msg w) ! j)) =
      map snd (annotations (lw_spans w ! j)) @ (if i = j \<and> recording (lw_spans w ! j) then [msg] else [])"
    and "recording (lw_spans (annotate_span i attrs msg w) ! j) = recording (lw_spans w ! j)"
  using assms by (auto simp: annotate_span_def Annotate_def nth_list_update)

lemma annotate_span_simps [simp]:
  "length (lw_spans (annotate_span i attrs msg w)) = length (lw_spans w)" "lw_ended (annotate_span i attrs msg w) = lw_ended w"
  "lw_entries (annotate_span i attrs msg w) = lw_entries w" "lw_v4 (annotate_span i attrs msg w) = lw_v4 w"
  by (simp_all add: annotate_span_def)

lemma any_log_length: "length (lw_spans (any_log lv msg l w)) = length (lw_spans w)"
  by (induction l arbitrary: w) (auto split: option.split)

lemma any_log_not_ended: "\<not> lw_ended w \<Longrightarrow> lv \<noteq> LFatal \<Longrightarrow> \<not> lw_ended (any_log lv msg l w)"
  by (induction l arbitrary: w) (simp_all split: option.split)

lemma any_log_spans:
  assumes "\<not> lw_ended w" "j < length (lw_spans w)" "distinct (span_ids l)"
  shows "map snd (annotations (lw_spans (any_log lv msg l w) ! j)) =
      map snd (annotations (lw_spans w ! j)) @ (if j \<in> set (span_ids l) \<and> recording (lw_spans w ! j) then [msg] else []) \<and>
    recording (lw_spans (any_log lv msg l w) ! j) = recording (lw_spans w ! j)"
  using assms
proof (induction l arbitrary: w)
  case (SpanLogger i l a)
  show ?case
  proof (cases "lv = LFatal")
    case True
    let ?w = "annotate_span i (withLevel lv a) msg w"
    have "\<not> lw_ended ?w" "j < length (lw_spans ?w)" "distinct (span_ids l)" using SpanLogger.prems by simp_all
    from SpanLogger.IH [OF this] show ?thesis using True SpanLogger.prems annotate_span_annotations [OF SpanLogger.prems(2), of i "withLevel lv a" msg] by auto
  next
    case False
    have IH: "map snd (annotations (lw_spans (any_log lv msg l w) ! j)) =
        map snd (annotations (lw_spans w ! j)) @ (if j \<in> set (span_ids l) \<and> recording (lw_spans w ! j) then [msg] else [])"
      "recording (lw_spans (any_log lv msg l w) ! j) = recording (lw_spans w ! j)"
      using SpanLogger.IH [of w] SpanLogger.prems by simp_all
    then show ?thesis using False SpanLogger.prems any_log_length [of lv msg l w] annotate_span_annotations [of j "any_log lv msg l w" i "withLevel lv a" msg] by auto
  qed
qed (simp_all split: option.split)

lemma any_log_entries:
  assumes "\<not> lw_ended w" "root_logger l = LogrusLogger fs"
  shows "lw_entries (any_log lv msg l w) = lw_entries w @ [\<lparr>entry_level = lv, entry_fields = fs, entry_msg = msg\<rparr>]"
  using assms by (induction l arbitrary: w) auto

definition log_calls :: "(level \<times> string \<times> any_logger) list \<Rightarrow> log_world \<Rightarrow> log_world" where
  "log_calls calls w = fold (\<lambda>(lv, msg, l). any_log lv msg l) calls w"

definition call_root_fields :: "any_logger \<Rightarrow> (string \<times> fval) list" where
  "call_root_fields l = (case root_logger l of LogrusLogger fs \<Rightarrow> fs | _ \<Rightarrow> [])"


text \<open>Two nested spans, of which the outer records, over logrus.\<close>

definition two_spans :: log_world where
  "two_spans = \<lparr>lw_spans = [\<lparr>recording = True, span_status = None, span_attributes = [], annotations = []\<rparr>, \<lparr>recording = False, span_status = None, span_attributes = [], annotations = []\<rparr>],
     lw_entries = [], lw_klog = [], lw_v4 = False, lw_ended = False\<rparr>"

definition outer_logger :: any_logger where
  "outer_logger = SpanLogger 0 (LogrusLogger [(''method'', FString ''sync'')]) []"

definition inner_logger :: any_logger where
  "inner_logger = SpanLogger 1 (any_WithField two_spans ''method'' (FString ''create'') outer_logger) []"


subsection \<open>Fields\<close>

text \<open>
  What the interface promises of fields: a logger made by \<open>WithFields\<close> has the new fields and, under other keys, the old ones. The keys of a Go map are distinct.
\<close>

locale field_logger =
  fixes WithFields :: "(string \<times> fval) list \<Rightarrow> 'l \<Rightarrow> 'l" and fields_of :: "'l \<Rightarrow> string \<Rightarrow> fval option"
  assumes with_fields: "distinct (map fst f) \<Longrightarrow> fields_of (WithFields f l) = fields_of l ++ map_of f"
begin

lemma field_set: "fields_of (WithFields [(k, v)] l) = (fields_of l)(k \<mapsto> v)"
  using with_fields [of "[(k, v)]" l] by (simp add: map_add_def fun_eq_iff)

lemma last_field_wins: "fields_of (WithFields [(k, v)] (WithFields [(k, v')] l)) = fields_of (WithFields [(k, v)] l)"
  by (simp add: field_set)

lemma fields_commute:
  assumes "distinct (map fst f)" "distinct (map fst g)" "fst ` set f \<inter> fst ` set g = {}"
  shows "fields_of (WithFields f (WithFields g l)) = fields_of (WithFields g (WithFields f l))"
proof -
  have "dom (map_of f) \<inter> dom (map_of g) = {}" using assms(3) by (simp add: dom_map_of_conv_image_fst)
  then show ?thesis using with_fields assms(1,2) map_add_comm [of "map_of f" "map_of g"] by (metis map_add_assoc)
qed

end

lemma fold_go_put: "go_get (fold (\<lambda>(k, v) m. go_put k v m) f m) = go_get m ++ map_of (rev f)"
proof (induction f arbitrary: m)
  case (Cons kv f)
  then show ?case by (cases kv) (simp add: go_get_put map_add_def fun_eq_iff split: option.split)
qed (simp add: map_add_def)

lemma map_of_rev: "distinct (map fst f) \<Longrightarrow> map_of (rev f) = map_of f"
  by (rule map_of_eqI) (auto simp: map_of_eq_Some_iff rev_map [symmetric])

lemma klog_WithFields_get: "go_get (klog_WithFields old new) = map_of (rev old) ++ map_of (rev new)"
  unfolding klog_WithFields_def fold_go_put by simp

lemma klog_WithFields_keys: "distinct (map fst (klog_WithFields old new))"
proof -
  have "distinct (go_keys (fold (\<lambda>(k, v) m. go_put k v m) f m))" if "distinct (go_keys m)" for f and m :: "fval gomap"
    using that by (induction f arbitrary: m) (auto intro: go_keys_distinct_put)
  then show ?thesis by (simp add: klog_WithFields_def go_keys_def)
qed

interpretation klog: field_logger "\<lambda>f fs. klog_WithFields fs f" "\<lambda>fs. map_of (rev fs)"
proof
  fix f l :: "(string \<times> fval) list"
  assume "distinct (map fst f)"
  then show "map_of (rev (klog_WithFields l f)) = map_of (rev l) ++ map_of f"
    using klog_WithFields_get [of l f] by (simp add: map_of_rev klog_WithFields_keys)
qed

interpretation logrus: field_logger "\<lambda>f fs. fs @ f" "\<lambda>fs. map_of (rev fs)"
  by unfold_locales (simp add: map_of_rev)

interpretation opencensus: field_logger "logger_WithFields s" "\<lambda>l. map_of (rev (backend_fields l))"
  by unfold_locales (simp add: logger_WithFields_def map_of_rev)

text \<open>A logger of spans adds its fields to the logger below them.\<close>

lemma root_WithFields: "root_logger (any_WithFields w f l) = any_WithFields w f (root_logger l)"
  by (induction l) simp_all

text \<open>The attributes of an operation of a provider: all of an even list are fields of the span's logger, in order, and an odd list adds none.\<close>

fun attr_pairs :: "string list \<Rightarrow> (string \<times> fval) list" where
  "attr_pairs (k # v # attrs) = (k, FString v) # attr_pairs attrs"
| "attr_pairs _ = []"

lemma addPairs_fields:
  assumes "root_logger l = LogrusLogger fs"
  shows "\<exists>ctx' l' w'. addPairs attrs (ctx, OcSpan i l, w) = (ctx', OcSpan i l', w') \<and> root_logger l' = LogrusLogger (fs @ attr_pairs attrs)"
  using assms
proof (induction attrs arbitrary: ctx l w fs rule: attr_pairs.induct)
  case (1 k v attrs)
  have "root_logger (any_WithField w k (FString v) l) = LogrusLogger (fs @ [(k, FString v)])"
    using "1.prems" by (simp add: any_WithField_def root_WithFields)
  from "1.IH" [OF this] show ?case by (simp add: Let_def)
qed simp_all

lemma addAttributes_fields:
  assumes "root_logger l = LogrusLogger fs"
  shows "\<exists>ctx' l' w'. addAttributes attrs (ctx, OcSpan i l, w) = (ctx', OcSpan i l', w') \<and>
    root_logger l' = LogrusLogger (if even (length attrs) then fs @ attr_pairs attrs else fs)"
  using addPairs_fields [OF assms] assms by (auto simp: addAttributes_def odd_iff_mod_2_eq_one)

end
