(* ===== verification/Span_Fields.thy ===== *)
theory Span_Fields
  imports Logging Node_Controller
begin

text \<open>
  The fields of nodes and pods in spans and log entries: \<open>taintsStringer\<close> and \<open>addNodeAttributes\<close> of \<open>src/node/node.go\<close>, \<open>addPodAttributes\<close> of \<open>src/node/pod.go\<close> and the span's \<open>WithFields\<close>
  they call (\<open>src/trace/opencensus\<close>). The fields are a Go map; they are modelled in the order the source writes them.
\<close>

text \<open>The loop of \<open>String\<close> takes an empty text as the mark of the first taint.\<close>

definition taint_text :: "Taint \<Rightarrow> string" where
  "taint_text t = TaintKey t @ ''='' @ TaintValue t @ '':'' @ TaintEffect t"

definition taintsStringer :: "Taint list \<Rightarrow> string" where
  "taintsStringer ts = foldl (\<lambda>s t. if s = [] then taint_text t else s @ '', '' @ taint_text t) [] ts"

fun any_span_WithFields :: "(string \<times> fval) list \<Rightarrow> go_context \<times> span \<times> log_world \<Rightarrow> go_context \<times> span \<times> log_world" where
  "any_span_WithFields f (ctx, NopSpan, w) = (ctx, NopSpan, w)"
| "any_span_WithFields f (ctx, OcSpan i l, w) =
     (let l' = any_WithFields w f l in
      (WithLogger ctx (Some (SpanLogger i l' [])), OcSpan i l',
       if span_recording w i
       then w\<lparr>lw_spans := (lw_spans w)[i := (lw_spans w ! i)\<lparr>span_attributes := span_attributes (lw_spans w ! i) @ map (\<lambda>(k, v). makeAttribute k v) f\<rparr>]\<rparr> else w))"

text \<open>\<open>ClusterName\<close> is a field of the metadata that nothing else reads; it is an argument.\<close>

definition addNodeAttributes :: "string \<Rightarrow> Node \<Rightarrow> go_context \<times> span \<times> log_world \<Rightarrow> go_context \<times> span \<times> log_world" where
  "addNodeAttributes clusterName n st = any_span_WithFields
     [(''node.UID'', FString (UID (NMeta n))), (''node.name'', FString (Name (NMeta n))), (''node.cluster'', FString clusterName), (''node.taints'', FOther (taintsStringer (Taints n)))] st"

fun phase_text :: "PodPhase \<Rightarrow> string" where
  "phase_text PhaseEmpty = ''''"
| "phase_text PodPending = ''Pending''"
| "phase_text PodRunning = ''Running''"
| "phase_text PodSucceeded = ''Succeeded''"
| "phase_text PodFailed = ''Failed''"
| "phase_text PodUnknown = ''Unknown''"

definition addPodAttributes :: "Pod \<Rightarrow> go_context \<times> span \<times> log_world \<Rightarrow> go_context \<times> span \<times> log_world" where
  "addPodAttributes pod st = any_span_WithFields
     [(''uid'', FString (UID (Meta pod))), (''namespace'', FString (Namespace (Meta pod))), (''name'', FString (Name (Meta pod))),
      (''phase'', FString (phase_text (Phase (Status pod)))), (''reason'', FString (Reason (Status pod)))] st"

text \<open>No taint has an empty text, so the taints are separated by commas, all of them and in order.\<close>

fun comma_separated :: "string list \<Rightarrow> string" where
  "comma_separated [] = []"
| "comma_separated [x] = x"
| "comma_separated (x # y # xs) = x @ '', '' @ comma_separated (y # xs)"

lemma taint_text_nonempty [simp]: "taint_text t \<noteq> []"
  by (simp add: taint_text_def)

lemma taintsStringer_rest:
  "s \<noteq> [] \<Longrightarrow> foldl (\<lambda>s t. if s = [] then taint_text t else s @ '', '' @ taint_text t) s ts = comma_separated (s # map taint_text ts)"
proof (induction ts arbitrary: s)
  case (Cons t ts)
  have "comma_separated ((s @ '', '' @ taint_text t) # us) = s @ '', '' @ comma_separated (taint_text t # us)" for us by (cases us) simp_all
  then show ?case using Cons by simp
qed simp

lemma taintsStringer_text: "taintsStringer ts = comma_separated (map taint_text ts)"
  by (cases ts) (simp_all add: taintsStringer_def taintsStringer_rest)

text \<open>The entries that are written after a node's or a pod's attributes were added name it, and the span does while it records.\<close>

lemma span_WithFields_root:
  assumes "root_logger l = LogrusLogger fs"
  obtains ctx' l' w' where "any_span_WithFields f (ctx, OcSpan i l, w) = (ctx', OcSpan i l', w')" "root_logger l' = LogrusLogger (fs @ f)" "ctx_logger ctx' = Some (SpanLogger i l' [])"
    "span_recording w i \<Longrightarrow> span_attributes (lw_spans w' ! i) = span_attributes (lw_spans w ! i) @ map (\<lambda>(k, v). makeAttribute k v) f"
  using assms that by (simp add: Let_def WithLogger_def root_WithFields span_recording_def)

lemma addPodAttributes_names_pod:
  assumes "root_logger l = LogrusLogger fs" "span_recording w i"
  obtains ctx' l' w' where "addPodAttributes pod (ctx, OcSpan i l, w) = (ctx', OcSpan i l', w')" "ctx_logger ctx' = Some (SpanLogger i l' [])"
    "\<exists>f. root_logger l' = LogrusLogger (fs @ f) \<and> (''namespace'', FString (Namespace (Meta pod))) \<in> set f \<and> (''name'', FString (Name (Meta pod))) \<in> set f"
    "StringAttribute ''name'' (Name (Meta pod)) \<in> set (span_attributes (lw_spans w' ! i))"
  unfolding addPodAttributes_def
  by (rule span_WithFields_root [OF assms(1), of "[(''uid'', FString (UID (Meta pod))), (''namespace'', FString (Namespace (Meta pod))), (''name'', FString (Name (Meta pod))),
      (''phase'', FString (phase_text (Phase (Status pod)))), (''reason'', FString (Reason (Status pod)))]" ctx i w]) (use assms(2) that in \<open>auto simp del: any_span_WithFields.simps\<close>)

text \<open>Nothing distinguishes the taints \<open>a=b:e, c=d:f\<close> from one taint with that text as its parts.\<close>

lemma taintsStringer_ambiguous:
  "\<exists>ts ts'. ts \<noteq> ts' \<and> taintsStringer ts = taintsStringer ts'"
proof (intro exI conjI)
  show "[\<lparr>TaintKey = ''a'', TaintValue = ''b'', TaintEffect = ''e, c=d:f''\<rparr>] \<noteq>
      [\<lparr>TaintKey = ''a'', TaintValue = ''b'', TaintEffect = ''e''\<rparr>, \<lparr>TaintKey = ''c'', TaintValue = ''d'', TaintEffect = ''f''\<rparr>]" by simp
qed (simp add: taintsStringer_def taint_text_def)

end
