(* ===== verification/Node_Lifecycle.thy ===== *)
theory Node_Lifecycle
  imports Node_Lease
begin

text \<open>
  The goroutines of the node controller (\<open>NodeController.Run\<close> of \<open>src/node/node.go\<close>): the loops of the ping controller and of the lease controller (\<open>wait.UntilWithContext\<close>), the goroutine of \<open>Run\<close> that registers the node,
  follows the control loop and waits for the other two, and whoever calls the provider's callback, which sends on the channel of capacity one. Events are the moves of one goroutine; a round of a loop is one move, since the goroutines share
  only the ping result and the copy of the node, each read once under its lock. The node providers of the repository say when the callback may be called and what a ping answers.
\<close>

subsection \<open>Node providers\<close>

text \<open>
  \<open>NaiveNodeProviderV2 notify updateReady\<close>: whether the callback is set and whether the channel is closed; \<open>NativeNode notifyNodeFunc\<close>: whether the callback is set, which is when the goroutine of \<open>start\<close> runs.
\<close>

datatype node_provider = NaiveNodeProvider | NaiveNodeProviderV2 bool bool | NativeNode bool

definition NewNaiveNodeProvider :: node_provider where
  "NewNaiveNodeProvider = NaiveNodeProviderV2 False False"

definition v2_NotifyNodeStatus :: "bool \<Rightarrow> node_provider outcome" where
  "v2_NotifyNodeStatus updateReady = (if updateReady then Panic ''close of closed channel'' else Val (NaiveNodeProviderV2 True True))"

definition native_NotifyNodeStatus :: node_provider where
  "native_NotifyNodeStatus = NativeNode True"

fun NotifyNodeStatus :: "node_provider \<Rightarrow> node_provider outcome" where
  "NotifyNodeStatus NaiveNodeProvider = Val NaiveNodeProvider"
| "NotifyNodeStatus (NaiveNodeProviderV2 notify updateReady) = v2_NotifyNodeStatus updateReady"
| "NotifyNodeStatus (NativeNode f) = Val native_NotifyNodeStatus"

text \<open>The goroutine that the native provider starts: what its \<open>select\<close> sees each time, and the calls of the callback with its node; whether it has returned.\<close>

datatype native_select = NativeCtxDone | NativeEvent

fun native_node_start :: "Node \<Rightarrow> native_select list \<Rightarrow> Node list \<times> bool" where
  "native_node_start node [] = ([], False)"
| "native_node_start node (NativeCtxDone # evs) = ([], True)"
| "native_node_start node (NativeEvent # evs) = (let (calls, stop) = native_node_start node evs in (node # calls, stop))"

text \<open>A ping with the error of its context.\<close>

definition naive_Ping :: "goerror option \<Rightarrow> goerror option" where
  "naive_Ping ctxErr = ctxErr"

definition native_Ping :: "goerror option \<Rightarrow> goerror option" where
  "native_Ping ctxErr = None"

fun provider_Ping :: "goerror option \<Rightarrow> node_provider \<Rightarrow> goerror option" where
  "provider_Ping ctxErr NaiveNodeProvider = naive_Ping ctxErr"
| "provider_Ping ctxErr (NaiveNodeProviderV2 notify updateReady) = naive_Ping ctxErr"
| "provider_Ping ctxErr (NativeNode f) = native_Ping ctxErr"

datatype update_call = UpdateReturns goerror | UpdateWaits | UpdateNotifies

text \<open>\<open>UpdateStatus\<close>, for a caller whose context has ended (\<open>Some\<close>) or not. If both channels are ready the \<open>select\<close> may take either: the argument says which it sees.\<close>

fun UpdateStatus :: "goerror option \<Rightarrow> node_provider \<Rightarrow> update_call outcome" where
  "UpdateStatus (Some err) (NaiveNodeProviderV2 notify updateReady) = Val (UpdateReturns err)"
| "UpdateStatus None (NaiveNodeProviderV2 notify updateReady) =
     (if \<not> updateReady then Val UpdateWaits else if notify then Val UpdateNotifies else Panic nil_deref)"
| "UpdateStatus _ _ = Panic ''no such method''"

text \<open>Whether the callback can be called: through \<open>UpdateStatus\<close>, or by the native provider's goroutine when it gets an event.\<close>

fun can_notify :: "node_provider \<Rightarrow> bool" where
  "can_notify NaiveNodeProvider = False"
| "can_notify (NaiveNodeProviderV2 notify updateReady) = (UpdateStatus None (NaiveNodeProviderV2 notify updateReady) = Val UpdateNotifies)"
| "can_notify (NativeNode f) = f"

subsection \<open>The loops\<close>

text \<open>
  A goroutine that calls its function once and then \<open>wait.UntilWithContext\<close>: before the first call, at the top of the loop, about to call, between two calls, ended; \<open>TIdle\<close> if it has not been started.
\<close>

datatype ticker = TIdle | TFirst | TTop | TBody | TSleep | TEnded

datatype tick_event = TickCheck | TickTimer | TickStop

fun ticker_move :: "goerror option \<Rightarrow> tick_event \<Rightarrow> ticker \<Rightarrow> ticker option" where
  "ticker_move ctx TickCheck TTop = Some (if ctx = None then TBody else TEnded)"
| "ticker_move ctx TickTimer TSleep = Some TTop"
| "ticker_move ctx TickStop TSleep = (if ctx = None then None else Some TEnded)"
| "ticker_move _ _ _ = None"

fun tick_body :: "ticker \<Rightarrow> ticker option" where
  "tick_body TFirst = Some TTop"
| "tick_body TBody = Some TSleep"
| "tick_body _ = None"

text \<open>Where the goroutine of \<open>Run\<close> is.\<close>

datatype node_place = NBegin | NEnsure Node | NLoop Node | NWait | NReturn "goerror option"

record ('n, 's) nlife =
  nl_ctl :: "'n NodeController"
  nl_leaseCtl :: "leaseController option"
  nl_leaseOut :: 's
  nl_provider :: node_provider
  nl_place :: node_place
  nl_ping :: ticker
  nl_lease :: ticker
  nl_chan :: "Node list"          \<comment> \<open>\<open>chStatusUpdate\<close>\<close>
  nl_senders :: "Node list"       \<comment> \<open>calls of the callback that wait to send\<close>
  nl_chReady :: bool
  nl_ctx :: "goerror option"      \<comment> \<open>the end of the context\<close>
  nl_crash :: "string option"
  nl_sent :: "Node list"          \<comment> \<open>history: what was sent\<close>
  nl_handled :: "Node list"       \<comment> \<open>history: what the loop took\<close>
  nl_pings :: "ping_select list"  \<comment> \<open>history: the checks\<close>

definition node_start :: "'n NodeController \<Rightarrow> leaseController option \<Rightarrow> 's \<Rightarrow> node_provider \<Rightarrow> ('n, 's) nlife" where
  "node_start ctl lease s p =
     \<lparr>nl_ctl = ctl, nl_leaseCtl = lease, nl_leaseOut = s, nl_provider = p, nl_place = NBegin, nl_ping = TIdle, nl_lease = TIdle, nl_chan = [], nl_senders = [],
      nl_chReady = False, nl_ctx = None, nl_crash = None, nl_sent = [], nl_handled = [], nl_pings = []\<rparr>"

datatype node_event =
    NRunStart
  | NPingCheck ping_select
  | NPingTick tick_event
  | NEnsureNode "goerror option" int
  | NLeaseSync "goerror option"
  | NLeaseTick tick_event
  | NLoopRound "goerror option" int loop_event
  | NJoin
  | NNotify Node
  | NSend nat
  | NCancel goerror

text \<open>What a \<open>select\<close> may see of the context, and what a check may end with.\<close>

definition ctx_seen :: "('n, 's) nlife \<Rightarrow> goerror option \<Rightarrow> bool" where
  "ctx_seen st seen = (seen = None \<or> seen = nl_ctx st)"

definition ping_ctx :: "('n, 's) nlife \<Rightarrow> goerror \<Rightarrow> bool" where
  "ping_ctx st err = (nl_ctx st = Some err \<or> err = CtxDeadlineExceeded \<and> np_pingTimeout (nodePing (nl_ctl st)) \<noteq> None)"

fun ping_possible :: "('n, 's) nlife \<Rightarrow> ping_select \<Rightarrow> bool" where
  "ping_possible st (PingCtxDone err) = ping_ctx st err"
| "ping_possible st (PingAnswered now err) =
     (case err of
        None \<Rightarrow> provider_Ping None (nl_provider st) = None
      | Some e \<Rightarrow> ping_ctx st e \<and> provider_Ping (Some e) (nl_provider st) = Some e)"

fun loop_ready :: "('n, 's) nlife \<Rightarrow> loop_event \<Rightarrow> bool" where
  "loop_ready st LoopDone = (nl_ctx st \<noteq> None)"
| "loop_ready st (LoopUpdated node) = (nl_chan st \<noteq> [] \<and> hd (nl_chan st) = node)"
| "loop_ready st LoopTimer = True"

fun take_update :: "loop_event \<Rightarrow> ('n, 's) nlife \<Rightarrow> ('n, 's) nlife" where
  "take_update (LoopUpdated node) st = st\<lparr>nl_chan := tl (nl_chan st), nl_handled := nl_handled st @ [node]\<rparr>"
| "take_update _ st = st"

subsection \<open>The moves\<close>

definition runStart :: "('n, 's) nlife \<Rightarrow> ('n, 's) nlife option" where
  "runStart st =
     (if nl_place st \<noteq> NBegin then None
      else Some (case NotifyNodeStatus (nl_provider st) of
          Panic p \<Rightarrow> st\<lparr>nl_crash := Some p\<rparr>
        | Val prov \<Rightarrow>
            let st1 = st\<lparr>nl_chan := [], nl_provider := prov, nl_ping := TFirst\<rparr> in
            (case serverNode (nl_ctl st1) of
               None \<Rightarrow> st1\<lparr>nl_crash := Some nil_deref\<rparr>
             | Some sn \<Rightarrow> st1\<lparr>nl_place := NEnsure sn\<rparr>)))"

definition pingCheck :: "ping_select \<Rightarrow> ('n, 's) nlife \<Rightarrow> ('n, 's) nlife option" where
  "pingCheck sel st =
     (case tick_body (nl_ping st) of
        None \<Rightarrow> None
      | Some t \<Rightarrow>
          if \<not> ping_possible st sel then None
          else Some (case checkFunc sel (nodePing (nl_ctl st)) of
              Panic p \<Rightarrow> st\<lparr>nl_crash := Some p\<rparr>
            | Val npc \<Rightarrow> st\<lparr>nl_ctl := (nl_ctl st)\<lparr>nodePing := npc\<rparr>, nl_ping := t, nl_pings := nl_pings st @ [sel]\<rparr>))"

definition ensureMove :: "('n, 'p) node_lib \<Rightarrow> goerror option \<Rightarrow> int \<Rightarrow> ('n, 's) nlife \<Rightarrow> ('n, 's) nlife option" where
  "ensureMove lib seen now st =
     (case nl_place st of
        NEnsure pn \<Rightarrow>
          if \<not> ctx_seen st seen then None
          else (case ensureNode lib seen now pn (nl_ctl st) of
              Panic p \<Rightarrow> Some (st\<lparr>nl_crash := Some p\<rparr>)
            | Val None \<Rightarrow> None
            | Val (Some (n1, pn1, Some err)) \<Rightarrow> Some (st\<lparr>nl_ctl := n1, nl_place := NReturn (Some err)\<rparr>)
            | Val (Some (n1, pn1, None)) \<Rightarrow>
                Some (st\<lparr>nl_ctl := n1, nl_place := NLoop pn1, nl_chReady := True, nl_lease := (if nl_leaseCtl st = None then TIdle else TFirst)\<rparr>))
      | _ \<Rightarrow> None)"

definition leaseMove :: "'s lease_client \<Rightarrow> nat \<Rightarrow> goerror option \<Rightarrow> ('n, 's) nlife \<Rightarrow> ('n, 's) nlife option" where
  "leaseMove lc k seen st =
     (case (tick_body (nl_lease st), nl_leaseCtl st) of
        (Some t, Some c) \<Rightarrow>
          if \<not> ctx_seen st seen then None
          else (case lease_sync k lc seen (nl_ctl st) c (nl_leaseOut st) of
              Panic p \<Rightarrow> Some (st\<lparr>nl_crash := Some p\<rparr>)
            | Val None \<Rightarrow> None
            | Val (Some (n1, c1, s1)) \<Rightarrow> Some (st\<lparr>nl_ctl := n1, nl_leaseCtl := Some c1, nl_leaseOut := s1, nl_lease := t\<rparr>))
      | _ \<Rightarrow> None)"

definition loopMove :: "('n, 'p) node_lib \<Rightarrow> goerror option \<Rightarrow> int \<Rightarrow> loop_event \<Rightarrow> ('n, 's) nlife \<Rightarrow> ('n, 's) nlife option" where
  "loopMove lib seen now ev st =
     (case nl_place st of
        NLoop pn \<Rightarrow>
          if \<not> ctx_seen st seen \<or> \<not> loop_ready st ev then None
          else (case loopStep lib seen now ev (nl_ctl st, pn) of
              Panic p \<Rightarrow> Some (st\<lparr>nl_crash := Some p\<rparr>)
            | Val None \<Rightarrow> None
            | Val (Some ((n1, pn1), stop)) \<Rightarrow> Some (take_update ev (st\<lparr>nl_ctl := n1, nl_place := (if stop then NWait else NLoop pn1)\<rparr>)))
      | _ \<Rightarrow> None)"

definition stopped_ticker :: "ticker \<Rightarrow> bool" where
  "stopped_ticker t = (t = TIdle \<or> t = TEnded)"

fun node_next :: "('n, 'p) node_lib \<Rightarrow> 's lease_client \<Rightarrow> nat \<Rightarrow> node_event \<Rightarrow> ('n, 's) nlife \<Rightarrow> ('n, 's) nlife option" where
  "node_next lib lc k NRunStart st = (if nl_crash st \<noteq> None then None else runStart st)"
| "node_next lib lc k (NPingCheck sel) st = (if nl_crash st \<noteq> None then None else pingCheck sel st)"
| "node_next lib lc k (NPingTick ev) st = (if nl_crash st \<noteq> None then None else map_option (\<lambda>t. st\<lparr>nl_ping := t\<rparr>) (ticker_move (nl_ctx st) ev (nl_ping st)))"
| "node_next lib lc k (NEnsureNode seen now) st = (if nl_crash st \<noteq> None then None else ensureMove lib seen now st)"
| "node_next lib lc k (NLeaseSync seen) st = (if nl_crash st \<noteq> None then None else leaseMove lc k seen st)"
| "node_next lib lc k (NLeaseTick ev) st = (if nl_crash st \<noteq> None then None else map_option (\<lambda>t. st\<lparr>nl_lease := t\<rparr>) (ticker_move (nl_ctx st) ev (nl_lease st)))"
| "node_next lib lc k (NLoopRound seen now ev) st = (if nl_crash st \<noteq> None then None else loopMove lib seen now ev st)"
| "node_next lib lc k NJoin st =
     (if nl_crash st \<noteq> None \<or> nl_place st \<noteq> NWait \<or> \<not> stopped_ticker (nl_ping st) \<or> \<not> stopped_ticker (nl_lease st) then None
      else Some (st\<lparr>nl_place := NReturn None\<rparr>))"
| "node_next lib lc k (NNotify node) st =
     (if nl_crash st \<noteq> None \<or> \<not> can_notify (nl_provider st) then None else Some (st\<lparr>nl_senders := nl_senders st @ [node]\<rparr>))"
| "node_next lib lc k (NSend i) st =
     (if nl_crash st \<noteq> None \<or> i \<ge> length (nl_senders st) \<or> nl_chan st \<noteq> [] then None
      else Some (st\<lparr>nl_chan := nl_chan st @ [nl_senders st ! i], nl_sent := nl_sent st @ [nl_senders st ! i],
        nl_senders := take i (nl_senders st) @ drop (Suc i) (nl_senders st)\<rparr>))"
| "node_next lib lc k (NCancel err) st = (if nl_crash st \<noteq> None \<or> nl_ctx st \<noteq> None then None else Some (st\<lparr>nl_ctx := Some err\<rparr>))"

fun node_play :: "('n, 'p) node_lib \<Rightarrow> 's lease_client \<Rightarrow> nat \<Rightarrow> node_event list \<Rightarrow> ('n, 's) nlife \<Rightarrow> ('n, 's) nlife option" where
  "node_play lib lc k [] st = Some st"
| "node_play lib lc k (ev # evs) st = (case node_next lib lc k ev st of None \<Rightarrow> None | Some st' \<Rightarrow> node_play lib lc k evs st')"

subsection \<open>What the rounds keep\<close>

definition last_ping_ok :: "ping_select list \<Rightarrow> bool" where
  "last_ping_ok sels = (sels \<noteq> [] \<and> ping_error (ping_result_of (last sels)) = None)"

definition ctl_ok :: "ping_select list \<Rightarrow> 'n NodeController \<Rightarrow> bool" where
  "ctl_ok sels n = (ping_inv sels (nodePing n) \<and> serverNode n \<noteq> None)"

lemma pushStatus_nodePing [simp]: "pushStatus lib skip pn n = (n', err) \<Longrightarrow> nodePing n' = nodePing n"
  by (auto simp: pushStatus_def split: prod.splits option.splits if_splits)

context node_server
begin

lemma pushStatus_serverNode:
  assumes "pushStatus lib skip pn n = (n', err)" "serverNode n \<noteq> None"
  shows "serverNode n' \<noteq> None"
proof (cases err)
  case None
  then show ?thesis using pushStatus_registers assms(1) by blast
next
  case (Some e)
  then show ?thesis using assms by (auto simp: pushStatus_def split: prod.splits option.splits if_splits)
qed

lemma updateStatus_total:
  assumes "ctl_ok sels n"
  shows "\<exists>r. updateStatus lib seen now skip pn n = Val r \<and> (r = None \<longleftrightarrow> seen = None \<and> sels = []) \<and>
    (\<forall>n' pn' err. r = Some (n', pn', err) \<longrightarrow> ctl_ok sels n' \<and> (last_ping_ok sels \<or> nc_outside n' = nc_outside n))"
proof (cases seen)
  case None
  from assms obtain npc where npc: "ping_inv sels npc" and g: "getResult None (nodePing n) =
      (if sels = [] then Val None else Val (Some (npc, Some (ping_result_of (last sels)), None)))"
    using getResult_waits unfolding ctl_ok_def by blast
  show ?thesis
  proof (cases "sels = []")
    case False
    show ?thesis
    proof (cases "ping_error (ping_result_of (last sels))")
      case (Some e)
      then show ?thesis using g False None assms npc by (simp add: updateStatus_def ctl_ok_def)
    next
      case ok: None
      obtain n2 e where push: "pushStatus lib skip (updateNodeStatusHeartbeat now pn) (n\<lparr>nodePing := npc\<rparr>) = (n2, e)" by fastforce
      then have "ctl_ok sels n2" using pushStatus_serverNode [OF push] assms npc by (simp add: ctl_ok_def)
      then show ?thesis using g False None ok push by (simp add: updateStatus_def last_ping_ok_def)
    qed
  qed (use g None in \<open>simp add: updateStatus_def\<close>)
next
  case (Some e)
  then show ?thesis using getResult_cancelled [of sels "nodePing n" e] assms by (auto simp: updateStatus_def ctl_ok_def simp del: obind_Val_iff)
qed

lemma ensureNode_total:
  assumes "ctl_ok sels n"
  shows "\<exists>r. ensureNode lib seen now pn n = Val r \<and> (r = None \<longrightarrow> seen = None \<and> sels = []) \<and>
    (\<forall>n' pn' err. r = Some (n', pn', err) \<longrightarrow> ctl_ok sels n')"
proof -
  from updateStatus_total [OF assms, of seen now True pn] obtain r where r: "updateStatus lib seen now True pn n = Val r" "r = None \<longleftrightarrow> seen = None \<and> sels = []"
    and keeps: "\<forall>n' pn' err. r = Some (n', pn', err) \<longrightarrow> ctl_ok sels n' \<and> (last_ping_ok sels \<or> nc_outside n' = nc_outside n)" by blast
  show ?thesis
  proof (cases r)
    case (Some q)
    obtain n1 pn1 err where q: "r = Some (n1, pn1, err)" using Some by (cases q) auto
    have n1: "ctl_ok sels n1" using keeps q by simp
    then obtain sn where sn: "serverNode n1 = Some sn" by (auto simp: ctl_ok_def)
    have cr: "ctl_ok sels (n1\<lparr>nc_outside := s', serverNode := Some node\<rparr>)" "ctl_ok sels (n1\<lparr>nc_outside := s'\<rparr>)" for s' node
      using n1 by (simp_all add: ctl_ok_def)
    show ?thesis
    proof (cases "\<exists>e. err = Some e \<and> node_IsNotFound lib e")
      case True
      then obtain e where e: "err = Some e" "node_IsNotFound lib e" by blast
      obtain s' res where "nodes_Create lib sn (nc_outside n1) = (s', res)" by fastforce
      then show ?thesis using r(1) q sn e cr by (cases res) (simp_all add: ensureNode_def)
    next
      case False
      then have "err = None \<or> (case err of Some e \<Rightarrow> \<not> node_IsNotFound lib e | None \<Rightarrow> False)" by (cases err) auto
      then show ?thesis using r(1) q n1 by (simp add: ensureNode_def)
    qed
  qed (use r in \<open>simp add: ensureNode_def\<close>)
qed

lemma loopStep_total:
  assumes "ctl_ok sels n"
  shows "\<exists>r. loopStep lib seen now ev (n, pn) = Val r \<and>
    (\<forall>n' pn' stop. r = Some ((n', pn'), stop) \<longrightarrow> ctl_ok sels n' \<and> (last_ping_ok sels \<or> nc_outside n' = nc_outside n) \<and> (stop \<longleftrightarrow> ev = LoopDone))"
proof -
  have upd: "\<exists>r. obind (updateStatus lib seen now False pn2 n) (\<lambda>done. case done of None \<Rightarrow> Val None | Some (n', pn', err) \<Rightarrow> Val (Some ((n', pn'), False))) = Val r \<and>
      (\<forall>n' pn' stop. r = Some ((n', pn'), stop) \<longrightarrow> ctl_ok sels n' \<and> (last_ping_ok sels \<or> nc_outside n' = nc_outside n) \<and> \<not> stop)" for pn2
  proof -
    from updateStatus_total [OF assms, of seen now False pn2] obtain r where r: "updateStatus lib seen now False pn2 n = Val r"
      "\<forall>n' pn' err. r = Some (n', pn', err) \<longrightarrow> ctl_ok sels n' \<and> (last_ping_ok sels \<or> nc_outside n' = nc_outside n)" by blast
    show ?thesis
    proof (cases r)
      case (Some q)
      obtain n1 pn1 err where "q = (n1, pn1, err)" by (cases q)
      then show ?thesis using r Some by simp
    qed (use r in simp)
  qed
  show ?thesis using assms upd by (cases ev) (simp_all add: loopStep_def)
qed

end

lemma lease_sync_total:
  assumes "ctl_ok sels n"
  shows "(\<exists>p. lease_sync k lc seen n c s = Panic p) \<longleftrightarrow> seen \<noteq> None"
    and "lease_sync k lc seen n c s = Val (Some (n', c', s')) \<Longrightarrow> ctl_ok sels n' \<and> nc_outside n' = nc_outside n"
    and "sels \<noteq> [] \<Longrightarrow> \<forall>node c s. ensureAndUpdate k lc node c s \<noteq> None \<and> (\<forall>base. retryUpdateLease k lc node base c s \<noteq> None) \<Longrightarrow>
      \<exists>q. lease_sync k lc None n c s = Val (Some q)"
proof -
  obtain npc where npc: "ping_inv sels npc" and g: "getResult None (nodePing n) =
      (if sels = [] then Val None else Val (Some (npc, Some (ping_result_of (last sels)), None)))"
    using getResult_waits assms unfolding ctl_ok_def by blast
  have panic: "lease_sync k lc (Some e) n c s = Panic nil_deref" for e
    using getResult_cancelled [of sels "nodePing n" e] assms by (auto simp: lease_sync_def ctl_ok_def Let_def simp del: obind_Val_iff)
  show "(\<exists>p. lease_sync k lc seen n c s = Panic p) \<longleftrightarrow> seen \<noteq> None"
    using g panic by (cases seen) (auto simp: lease_sync_def Let_def simp del: obind_Val_iff split: sum.split option.split)
  show "ctl_ok sels n' \<and> nc_outside n' = nc_outside n" if "lease_sync k lc seen n c s = Val (Some (n', c', s'))"
    using that g panic npc assms
    by (cases seen) (auto simp: lease_sync_def Let_def ctl_ok_def simp del: obind_Val_iff split: if_splits sum.splits option.splits)
  show "\<exists>q. lease_sync k lc None n c s = Val (Some q)"
    if "sels \<noteq> []" and ends: "\<forall>node c s. ensureAndUpdate k lc node c s \<noteq> None \<and> (\<forall>base. retryUpdateLease k lc node base c s \<noteq> None)"
  proof -
    have e: "(ensureAndUpdate k lc node c s = None) = False" "(retryUpdateLease k lc node base c s = None) = False" for node base c s using ends by simp_all
    have e2: "\<exists>a b. ensureAndUpdate k lc node c s = Some (a, b)" for node c s using ends by auto
    show ?thesis using g that(1) by (auto simp: e e2 lease_sync_def Let_def simp del: obind_Val_iff split: sum.split option.split)
  qed
qed

subsection \<open>The invariant\<close>

fun fresh_provider :: "node_provider \<Rightarrow> bool" where
  "fresh_provider NaiveNodeProvider = True"
| "fresh_provider (NaiveNodeProviderV2 notify updateReady) = (\<not> updateReady)"
| "fresh_provider (NativeNode f) = (\<not> f)"

text \<open>How far \<open>Run\<close> is decides which goroutines there are and whether the node is ready.\<close>

fun place_ok :: "node_place \<Rightarrow> ('n, 's) nlife \<Rightarrow> bool" where
  "place_ok NBegin st = (nl_ping st = TIdle \<and> nl_lease st = TIdle \<and> \<not> nl_chReady st \<and> nl_sent st = [] \<and> nl_senders st = [] \<and> fresh_provider (nl_provider st))"
| "place_ok (NEnsure pn) st = (nl_ping st \<noteq> TIdle \<and> nl_lease st = TIdle \<and> \<not> nl_chReady st)"
| "place_ok (NLoop pn) st = (nl_ping st \<noteq> TIdle \<and> nl_chReady st)"
| "place_ok NWait st = (nl_ping st \<noteq> TIdle \<and> nl_chReady st \<and> nl_ctx st \<noteq> None)"
| "place_ok (NReturn None) st = (nl_ping st = TEnded \<and> stopped_ticker (nl_lease st) \<and> nl_chReady st \<and> nl_ctx st \<noteq> None)"
| "place_ok (NReturn (Some err)) st = (nl_ping st \<noteq> TIdle \<and> nl_lease st = TIdle \<and> \<not> nl_chReady st)"

definition node_inv :: "('n, 's) nlife \<Rightarrow> bool" where
  "node_inv st =
     (ctl_ok (nl_pings st) (nl_ctl st) \<and> (nl_crash st = None \<longrightarrow> place_ok (nl_place st) st) \<and> (nl_pings st = [] \<longleftrightarrow> nl_ping st = TIdle \<or> nl_ping st = TFirst) \<and>
      (nl_lease st \<noteq> TIdle \<longrightarrow> nl_leaseCtl st \<noteq> None) \<and> length (nl_chan st) \<le> 1 \<and> nl_sent st = nl_handled st @ nl_chan st \<and>
      (nl_crash st \<noteq> None \<longrightarrow> nl_leaseCtl st \<noteq> None \<and> nl_ctx st \<noteq> None))"

lemma tick_cases:
  assumes "ticker_move ctx ev t = Some t'"
  shows "t \<noteq> TIdle" "t \<noteq> TFirst" "t' \<noteq> TIdle" "t' \<noteq> TFirst" "t \<noteq> TEnded"
  using assms by (cases ev; cases t; simp split: if_splits)+

lemma tick_body_cases:
  assumes "tick_body t = Some t'"
  shows "t \<noteq> TIdle" "t' \<noteq> TIdle" "t' \<noteq> TFirst" "t \<noteq> TEnded"
  using assms by (cases t; simp)+

lemma fresh_notify: "fresh_provider p \<Longrightarrow> \<exists>p'. NotifyNodeStatus p = Val p'"
  by (cases p) (auto simp: v2_NotifyNodeStatus_def)

text \<open>The native provider calls back once per event it gets before the end of its context.\<close>

lemma native_node_start_calls: "native_node_start node evs = (replicate (length (takeWhile (\<lambda>e. e = NativeEvent) evs)) node, NativeCtxDone \<in> set evs)"
  by (induction node evs rule: native_node_start.induct) auto

lemma fresh_cannot_notify: "fresh_provider p \<Longrightarrow> \<not> can_notify p"
  by (cases p) auto

text \<open>The facts of the place do not depend on what a move of another goroutine changes.\<close>

lemma place_ok_cong:
  assumes "place_ok pl st" "nl_lease st' = nl_lease st" "nl_chReady st' = nl_chReady st" "nl_ctx st' = nl_ctx st" "nl_ping st' = nl_ping st"
    "pl = NBegin \<longrightarrow> nl_sent st' = nl_sent st \<and> nl_senders st' = nl_senders st \<and> nl_provider st' = nl_provider st"
  shows "place_ok pl st'"
  using assms by (cases "(pl, st)" rule: place_ok.cases) auto

lemma place_ok_ping:
  assumes "place_ok pl st" "nl_ping st \<noteq> TIdle" "nl_ping st \<noteq> TEnded" "t \<noteq> TIdle"
  shows "place_ok pl (st\<lparr>nl_ping := t\<rparr>)"
  using assms by (cases "(pl, st)" rule: place_ok.cases) (auto simp: stopped_ticker_def)

lemma place_ok_lease:
  assumes "place_ok pl st" "nl_lease st \<noteq> TIdle" "nl_lease st \<noteq> TEnded"
  shows "place_ok pl (st\<lparr>nl_lease := t\<rparr>)"
  using assms by (cases "(pl, st)" rule: place_ok.cases) (auto simp: stopped_ticker_def)

lemma node_inv_start:
  assumes "NewNodeController node s opts = Val (Inr (ctl, lease))" "fresh_provider p"
  shows "node_inv (node_start ctl lease ls p)"
proof -
  have "serverNode ctl \<noteq> None" "ping_inv [] (nodePing ctl)"
    using assms(1) ping_inv_new by (auto simp: NewNodeController_def Let_def split: sum.splits)
  then show ?thesis using assms(2) by (simp add: node_inv_def node_start_def ctl_ok_def)
qed

lemma node_inv_place: "node_inv st \<Longrightarrow> nl_crash st = None \<Longrightarrow> place_ok (nl_place st) st"
  by (simp add: node_inv_def)

lemma node_inv_ctl: "node_inv st \<Longrightarrow> ctl_ok (nl_pings st) (nl_ctl st)"
  by (simp add: node_inv_def)

lemma runStart_inv:
  assumes "node_inv st" "nl_crash st = None" "runStart st = Some st'"
  shows "node_inv st' \<and> nl_crash st' = None"
proof -
  have pl: "nl_place st = NBegin" using assms(3) by (auto simp: runStart_def split: if_splits)
  then have b: "place_ok NBegin st" using assms(1,2) by (simp add: node_inv_def)
  obtain p' where p': "NotifyNodeStatus (nl_provider st) = Val p'" using fresh_notify b by fastforce
  obtain sn where sn: "serverNode (nl_ctl st) = Some sn" using assms(1) by (auto simp: node_inv_def ctl_ok_def)
  have "st' = st\<lparr>nl_chan := [], nl_provider := p', nl_ping := TFirst, nl_place := NEnsure sn\<rparr>"
    using assms(3) pl p' sn by (simp add: runStart_def Let_def)
  moreover have "nl_pings st = []" using assms(1) b by (simp add: node_inv_def)
  ultimately show ?thesis using assms(2) b node_inv_ctl [OF assms(1)] by simp (simp add: node_inv_def assms(1) [unfolded node_inv_def])
qed

lemma pingCheck_inv:
  assumes "node_inv st" "nl_crash st = None" "pingCheck sel st = Some st'"
  shows "node_inv st' \<and> nl_crash st' = None"
proof -
  obtain t where t: "tick_body (nl_ping st) = Some t" using assms(3) by (auto simp: pingCheck_def split: option.splits)
  have ok: "ctl_ok (nl_pings st) (nl_ctl st)" using assms(1) by (simp add: node_inv_def)
  then obtain npc where npc: "checkFunc sel (nodePing (nl_ctl st)) = Val npc" "ping_inv (nl_pings st @ [sel]) npc"
    using checkFunc_inv unfolding ctl_ok_def by blast
  have st': "st' = st\<lparr>nl_ctl := (nl_ctl st)\<lparr>nodePing := npc\<rparr>, nl_ping := t, nl_pings := nl_pings st @ [sel]\<rparr>"
    using assms(3) t npc by (simp add: pingCheck_def split: if_splits)
  have "place_ok (nl_place st) (st\<lparr>nl_ping := t\<rparr>)"
    using place_ok_ping [OF node_inv_place [OF assms(1,2)]] tick_body_cases [OF t] by blast
  then have "place_ok (nl_place st) st'" by (rule place_ok_cong) (simp_all add: st')
  then show ?thesis using assms(1,2) ok npc(2) tick_body_cases [OF t] by (simp add: node_inv_def st' ctl_ok_def)
qed

lemma leaseMove_inv:
  assumes "node_inv st" "nl_crash st = None" "leaseMove lc k seen st = Some st'"
  shows "node_inv st'"
proof -
  obtain t c where t: "tick_body (nl_lease st) = Some t" "nl_leaseCtl st = Some c" "ctx_seen st seen"
    using assms(3) by (auto simp: leaseMove_def split: option.splits if_splits)
  have ok: "ctl_ok (nl_pings st) (nl_ctl st)" using assms(1) by (simp add: node_inv_def)
  show ?thesis
  proof (cases "lease_sync k lc seen (nl_ctl st) c (nl_leaseOut st)")
    case (Panic p)
    then have st': "st' = st\<lparr>nl_crash := Some p\<rparr>" using assms(3) t by (simp add: leaseMove_def)
    have "nl_ctx st \<noteq> None" using lease_sync_total(1) [OF ok] Panic t(3) by (metis ctx_seen_def)
    then show ?thesis using assms(1) t(2) by (simp add: st' node_inv_def)
  next
    case (Val r)
    then obtain n1 c1 s1 where r: "r = Some (n1, c1, s1)" using assms(3) t by (cases r) (auto simp: leaseMove_def)
    have st': "st' = st\<lparr>nl_ctl := n1, nl_leaseCtl := Some c1, nl_leaseOut := s1, nl_lease := t\<rparr>" using assms(3) t Val r by (simp add: leaseMove_def)
    have "place_ok (nl_place st) (st\<lparr>nl_lease := t\<rparr>)"
      using place_ok_lease [OF node_inv_place [OF assms(1,2)]] tick_body_cases [OF t(1)] by blast
    then have "place_ok (nl_place st) st'" by (rule place_ok_cong) (simp_all add: st')
    moreover have "ctl_ok (nl_pings st) n1" using lease_sync_total(2) [OF ok Val [unfolded r]] by blast
    ultimately show ?thesis using assms(1,2) by (simp add: node_inv_def st')
  qed
qed

context node_server
begin

lemma ensureMove_inv:
  assumes "node_inv st" "nl_crash st = None" "ensureMove lib seen now st = Some st'"
  shows "node_inv st' \<and> nl_crash st' = None"
proof -
  obtain pn where pl: "nl_place st = NEnsure pn" using assms(3) by (auto simp: ensureMove_def split: node_place.splits)
  then have b: "place_ok (NEnsure pn) st" using assms(1,2) by (simp add: node_inv_def)
  have "ctl_ok (nl_pings st) (nl_ctl st)" using assms(1) by (simp add: node_inv_def)
  from ensureNode_total [OF this, of seen now pn] obtain n1 pn1 err where r: "ensureNode lib seen now pn (nl_ctl st) = Val (Some (n1, pn1, err))"
    and n1: "ctl_ok (nl_pings st) n1" using assms(3) pl by (fastforce simp: ensureMove_def split: option.splits if_splits)
  show ?thesis
  proof (cases err)
    case None
    then have "st' = st\<lparr>nl_ctl := n1, nl_place := NLoop pn1, nl_chReady := True, nl_lease := (if nl_leaseCtl st = None then TIdle else TFirst)\<rparr>"
      using assms(3) pl r by (cases "ctx_seen st seen") (simp_all add: ensureMove_def)
    then show ?thesis using assms(1,2) b n1 by (simp add: node_inv_def)
  next
    case (Some e)
    then have "st' = st\<lparr>nl_ctl := n1, nl_place := NReturn (Some e)\<rparr>" using assms(3) pl r by (simp add: ensureMove_def split: if_splits)
    then show ?thesis using assms(1,2) b n1 by (simp add: node_inv_def)
  qed
qed

lemma loopMove_cases:
  assumes "node_inv st" "nl_crash st = None" "loopMove lib seen now ev st = Some st'"
  obtains pn n1 pn1 where "nl_place st = NLoop pn" "loop_ready st ev" "ctl_ok (nl_pings st) n1" "last_ping_ok (nl_pings st) \<or> nc_outside n1 = nc_outside (nl_ctl st)"
    "st' = take_update ev (st\<lparr>nl_ctl := n1, nl_place := (if ev = LoopDone then NWait else NLoop pn1)\<rparr>)"
proof -
  obtain pn where pl: "nl_place st = NLoop pn" "loop_ready st ev" "ctx_seen st seen"
    using assms(3) by (auto simp: loopMove_def split: node_place.splits if_splits)
  have "ctl_ok (nl_pings st) (nl_ctl st)" using assms(1) by (simp add: node_inv_def)
  from loopStep_total [OF this, of seen now ev pn] obtain r where r: "loopStep lib seen now ev (nl_ctl st, pn) = Val r"
    and keeps: "\<forall>n' pn' stop. r = Some ((n', pn'), stop) \<longrightarrow> ctl_ok (nl_pings st) n' \<and> (last_ping_ok (nl_pings st) \<or> nc_outside n' = nc_outside (nl_ctl st)) \<and> (stop \<longleftrightarrow> ev = LoopDone)"
    by blast
  obtain n1 pn1 stop where r1: "r = Some ((n1, pn1), stop)"
  proof (cases r)
    case (Some q)
    then show ?thesis using that by (cases q; cases "fst q") auto
  qed (use assms(3) pl r in \<open>simp add: loopMove_def\<close>)
  then have "st' = take_update ev (st\<lparr>nl_ctl := n1, nl_place := (if ev = LoopDone then NWait else NLoop pn1)\<rparr>)"
    using assms(3) pl r keeps by (simp add: loopMove_def)
  moreover have "ctl_ok (nl_pings st) n1" "last_ping_ok (nl_pings st) \<or> nc_outside n1 = nc_outside (nl_ctl st)" using keeps r1 by simp_all
  ultimately show ?thesis by (intro that [OF pl(1,2)])
qed

lemma loopMove_inv:
  assumes "node_inv st" "nl_crash st = None" "loopMove lib seen now ev st = Some st'"
  shows "node_inv st' \<and> nl_crash st' = None"
  using assms
proof (rule loopMove_cases)
  fix pn n1 pn1
  assume *: "nl_place st = NLoop pn" "loop_ready st ev" "ctl_ok (nl_pings st) n1"
    "st' = take_update ev (st\<lparr>nl_ctl := n1, nl_place := (if ev = LoopDone then NWait else NLoop pn1)\<rparr>)"
  then have "place_ok (NLoop pn) st" using assms(1,2) by (simp add: node_inv_def)
  then show ?thesis using assms(1,2) * by (cases ev; cases "nl_chan st") (auto simp: node_inv_def)
qed

end

lemma tick_inv:
  assumes "node_inv st" "nl_crash st = None" "ticker_move (nl_ctx st) ev (nl_ping st) = Some t"
  shows "node_inv (st\<lparr>nl_ping := t\<rparr>)"
  using assms(1,2) tick_cases [OF assms(3)] place_ok_ping [of "nl_place st" st t] by (simp add: node_inv_def ctl_ok_def)

lemma lease_tick_inv:
  assumes "node_inv st" "nl_crash st = None" "ticker_move (nl_ctx st) ev (nl_lease st) = Some t"
  shows "node_inv (st\<lparr>nl_lease := t\<rparr>)"
  using assms(1,2) tick_cases [OF assms(3)] place_ok_lease [of "nl_place st" st t] by (simp add: node_inv_def ctl_ok_def)

lemma join_inv:
  assumes "node_inv st" "nl_place st = NWait" "stopped_ticker (nl_ping st)" "stopped_ticker (nl_lease st)" "nl_crash st = None"
  shows "node_inv (st\<lparr>nl_place := NReturn None\<rparr>)"
  using assms by (auto simp: node_inv_def stopped_ticker_def)

lemma notify_inv:
  assumes "node_inv st" "nl_crash st = None" "can_notify (nl_provider st)"
  shows "node_inv (st\<lparr>nl_senders := xs\<rparr>)"
proof -
  have "nl_place st \<noteq> NBegin" using node_inv_place [OF assms(1,2)] assms(3) fresh_cannot_notify by auto
  then have "place_ok (nl_place st) (st\<lparr>nl_senders := xs\<rparr>)" by (intro place_ok_cong [OF node_inv_place [OF assms(1,2)]]) simp_all
  then show ?thesis using assms(1,2) by (simp add: node_inv_def)
qed

lemma send_inv:
  assumes "node_inv st" "nl_crash st = None" "nl_senders st \<noteq> []" "nl_chan st = []"
  shows "node_inv (st\<lparr>nl_chan := [x], nl_sent := nl_sent st @ [x], nl_senders := xs\<rparr>)"
proof -
  have "nl_place st \<noteq> NBegin" using node_inv_place [OF assms(1,2)] assms(3) by auto
  then have "place_ok (nl_place st) (st\<lparr>nl_chan := [x], nl_sent := nl_sent st @ [x], nl_senders := xs\<rparr>)"
    by (intro place_ok_cong [OF node_inv_place [OF assms(1,2)]]) simp_all
  then show ?thesis using assms by (simp add: node_inv_def)
qed

lemma cancel_inv:
  assumes "node_inv st" "nl_crash st = None" "nl_ctx st = None"
  shows "node_inv (st\<lparr>nl_ctx := Some err\<rparr>)"
proof -
  have "place_ok (nl_place st) (st\<lparr>nl_ctx := Some err\<rparr>)"
    using node_inv_place [OF assms(1,2)] by (cases "(nl_place st, st)" rule: place_ok.cases) auto
  then show ?thesis using assms by (simp add: node_inv_def)
qed

lemma node_next_inv:
  assumes "node_server lib server" "node_inv st" "node_next lib lc k ev st = Some st'"
  shows "node_inv st'"
proof -
  have nc: "nl_crash st = None" using assms(3) by (cases ev) (simp_all split: if_splits)
  note inv = assms(2) nc
  show ?thesis
  proof (cases ev)
    case NRunStart
    then show ?thesis using assms(3) nc runStart_inv [OF inv] by simp
  next
    case (NPingCheck sel)
    then show ?thesis using assms(3) nc pingCheck_inv [OF inv] by simp
  next
    case (NPingTick e)
    then show ?thesis using assms(3) nc tick_inv [OF inv] by auto
  next
    case (NEnsureNode seen now)
    then show ?thesis using assms(3) nc node_server.ensureMove_inv [OF assms(1) inv] by simp
  next
    case (NLeaseSync seen)
    then show ?thesis using assms(3) nc leaseMove_inv [OF inv] by simp
  next
    case (NLeaseTick e)
    then show ?thesis using assms(3) nc lease_tick_inv [OF inv] by auto
  next
    case (NLoopRound seen now e)
    then show ?thesis using assms(3) nc node_server.loopMove_inv [OF assms(1) inv] by simp
  next
    case NJoin
    then show ?thesis using assms(3) nc join_inv [OF assms(2)] by (auto split: if_splits)
  next
    case (NNotify node)
    then show ?thesis using assms(3) nc notify_inv [OF inv] by (auto split: if_splits)
  next
    case (NSend i)
    then show ?thesis using assms(3) nc send_inv [OF inv] by (cases "nl_senders st = []") (auto split: if_splits)
  next
    case (NCancel err)
    then show ?thesis using assms(3) nc cancel_inv [OF inv] by (auto split: if_splits)
  qed
qed

lemma node_play_inv:
  assumes "node_server lib server" "node_inv st" "node_play lib lc k evs st = Some st'"
  shows "node_inv st'"
  using assms(2,3)
proof (induction evs arbitrary: st)
  case (Cons ev evs)
  then show ?case using node_next_inv [OF assms(1), of st lc k ev] by (cases "node_next lib lc k ev st") auto
qed simp

subsection \<open>Safety\<close>


subsection \<open>Shutdown\<close>

text \<open>
  After the end of the context only calls of the callback, sends and rounds of the control loop that take another channel than \<open>ctx.Done()\<close> can go on without bound; every other move brings the controller nearer to its end.
\<close>

fun closing :: "node_event \<Rightarrow> bool" where
  "closing (NLoopRound seen now ev) = (ev = LoopDone)"
| "closing (NNotify node) = False"
| "closing (NSend i) = False"
| "closing _ = True"

fun ticker_weight :: "ticker \<Rightarrow> nat" where
  "ticker_weight TIdle = 0" | "ticker_weight TFirst = 2" | "ticker_weight TTop = 1" | "ticker_weight TBody = 3" | "ticker_weight TSleep = 2" | "ticker_weight TEnded = 0"

fun place_weight :: "node_place \<Rightarrow> nat" where
  "place_weight NBegin = 8" | "place_weight (NEnsure pn) = 5" | "place_weight (NLoop pn) = 2" | "place_weight NWait = 1" | "place_weight (NReturn err) = 0"

definition node_measure :: "('n, 's) nlife \<Rightarrow> nat" where
  "node_measure st = (if nl_crash st \<noteq> None then 0 else 1 + place_weight (nl_place st) + ticker_weight (nl_ping st) + ticker_weight (nl_lease st))"

definition node_done :: "('n, 's) nlife \<Rightarrow> bool" where
  "node_done st = (case nl_place st of NReturn err \<Rightarrow> nl_ping st = TEnded \<and> stopped_ticker (nl_lease st) | _ \<Rightarrow> False)"

lemma ticker_move_weight:
  assumes "ticker_move ctx ev t = Some t'" "ctx \<noteq> None"
  shows "ticker_weight t' < ticker_weight t"
  using assms by (cases ev; cases t) auto

lemma tick_body_weight: "tick_body t = Some t' \<Longrightarrow> ticker_weight t' < ticker_weight t"
  by (cases t) auto

lemma closing_decreases:
  assumes "node_server lib server" "node_inv st" "nl_ctx st \<noteq> None" "node_next lib lc k ev st = Some st'"
  shows "nl_ctx st' = nl_ctx st \<and> node_measure st' \<le> node_measure st \<and> (closing ev \<longrightarrow> node_measure st' < node_measure st)"
proof -
  have nc: "nl_crash st = None" using assms(4) by (cases ev) (simp_all split: if_splits)
  note inv = assms(2) nc
  show ?thesis
  proof (cases ev)
    case NRunStart
    then show ?thesis using assms(4) nc node_inv_place [OF inv]
      by (auto simp: runStart_def node_measure_def Let_def split: if_splits outcome.splits option.splits)
  next
    case (NPingCheck sel)
    then show ?thesis using assms(4) nc
      by (auto simp: pingCheck_def node_measure_def dest: tick_body_weight split: option.splits if_splits outcome.splits)
  next
    case (NPingTick e)
    then show ?thesis using assms(3,4) nc ticker_move_weight by (fastforce simp: node_measure_def)
  next
    case (NEnsureNode seen now)
    then show ?thesis using assms(4) nc node_inv_place [OF inv]
      by (auto simp: ensureMove_def node_measure_def split: node_place.splits option.splits if_splits outcome.splits)
  next
    case (NLeaseSync seen)
    then show ?thesis using assms(4) nc
      by (auto simp: leaseMove_def node_measure_def dest: tick_body_weight split: option.splits if_splits outcome.splits)
  next
    case (NLeaseTick e)
    then show ?thesis using assms(3,4) nc ticker_move_weight by (fastforce simp: node_measure_def)
  next
    case (NLoopRound seen now e)
    then have mv: "loopMove lib seen now e st = Some st'" using assms(4) nc by simp
    show ?thesis
    proof (rule node_server.loopMove_cases [OF assms(1) inv mv])
      fix pn n1 pn1
      assume "nl_place st = NLoop pn" "st' = take_update e (st\<lparr>nl_ctl := n1, nl_place := (if e = LoopDone then NWait else NLoop pn1)\<rparr>)"
      then show ?thesis using NLoopRound nc by (cases e) (simp_all add: node_measure_def)
    qed
  qed (use assms(3,4) nc in \<open>auto simp: node_measure_def split: if_splits\<close>)
qed

lemma closing_enabled:
  assumes server: "node_server lib server" and inv: "node_inv st" "nl_crash st = None" and ctx: "nl_ctx st \<noteq> None" and notdone: "\<not> node_done st"
    and ends: "\<forall>node c s. ensureAndUpdate k lc node c s \<noteq> None \<and> (\<forall>base. retryUpdateLease k lc node base c s \<noteq> None)"
  shows "\<exists>ev st'. closing ev \<and> node_next lib lc k ev st = Some st' \<and> nl_crash st' = None"
proof -
  obtain err where err: "nl_ctx st = Some err" using ctx by blast
  note pl = node_inv_place [OF inv] and ok = node_inv_ctl [OF inv(1)]
  have by_ev: ?thesis if "closing ev" "\<exists>st'. node_next lib lc k ev st = Some st' \<and> nl_crash st' = None" for ev using that by blast
  have lease_step: ?thesis if t: "tick_body (nl_lease st) = Some t" and pings: "nl_pings st \<noteq> []" for t
  proof -
    obtain c where c: "nl_leaseCtl st = Some c" using inv(1) tick_body_cases(1) [OF t] by (auto simp: node_inv_def)
    obtain n1 c1 s1 where "lease_sync k lc None (nl_ctl st) c (nl_leaseOut st) = Val (Some (n1, c1, s1))"
      using lease_sync_total(3) [OF ok pings ends] by (metis prod_cases3)
    then show ?thesis using t c inv(2) by (intro by_ev [of "NLeaseSync None"]) (simp_all add: leaseMove_def ctx_seen_def)
  qed
  have run_step: ?thesis if "nl_ping st = TEnded" and "stopped_ticker (nl_lease st)" and pings: "nl_pings st \<noteq> []"
  proof (cases "nl_place st")
    case NBegin
    then show ?thesis using pl that(1) by simp
  next
    case (NEnsure pn)
    obtain r where r: "ensureNode lib (Some err) 0 pn (nl_ctl st) = Val r" "r = None \<longrightarrow> Some err = None \<and> nl_pings st = []"
      using node_server.ensureNode_total [OF server ok, of "Some err" 0 pn] by blast
    then obtain n1 pn1 e where "ensureNode lib (Some err) 0 pn (nl_ctl st) = Val (Some (n1, pn1, e))" by (cases r) auto
    then have "\<exists>st'. ensureMove lib (Some err) 0 st = Some st'" using NEnsure err by (cases e) (simp_all add: ensureMove_def ctx_seen_def)
    then obtain st' where st': "ensureMove lib (Some err) 0 st = Some st'" by blast
    then show ?thesis using inv(2) node_server.ensureMove_inv [OF server inv st'] by (intro by_ev [of "NEnsureNode (Some err) 0"]) simp_all
  next
    case (NLoop pn)
    then have "loopMove lib None 0 LoopDone st = Some (st\<lparr>nl_place := NWait\<rparr>)" using err by (simp add: loopMove_def loopStep_def ctx_seen_def)
    then show ?thesis using inv(2) by (intro by_ev [of "NLoopRound None 0 LoopDone"]) simp_all
  next
    case NWait
    then show ?thesis using that inv(2) by (intro by_ev [of NJoin]) (simp_all add: stopped_ticker_def)
  next
    case (NReturn e)
    then show ?thesis using notdone that by (simp add: node_done_def)
  qed
  show ?thesis
  proof (cases "tick_body (nl_ping st)")
    case (Some t)
    obtain npc where "checkFunc (PingCtxDone err) (nodePing (nl_ctl st)) = Val npc" using checkFunc_inv ok unfolding ctl_ok_def by blast
    then show ?thesis using Some inv(2) err by (intro by_ev [of "NPingCheck (PingCtxDone err)"]) (simp_all add: pingCheck_def ping_ctx_def)
  next
    case None
    then consider "nl_ping st = TTop" | "nl_ping st = TSleep" | "nl_ping st = TIdle" | "nl_ping st = TEnded" by (cases "nl_ping st") auto
    then show ?thesis
    proof cases
      case 1
      then show ?thesis using inv(2) err by (intro by_ev [of "NPingTick TickCheck"]) simp_all
    next
      case 2
      then show ?thesis using inv(2) err by (intro by_ev [of "NPingTick TickStop"]) simp_all
    next
      case 3
      then have b: "nl_place st = NBegin" using pl by (cases "(nl_place st, st)" rule: place_ok.cases) auto
      then obtain st' where "runStart st = Some st'" by (simp add: runStart_def)
      then show ?thesis using inv(2) runStart_inv [OF inv] by (intro by_ev [of NRunStart]) simp_all
    next
      case 4
      then have pings: "nl_pings st \<noteq> []" using inv(1) by (auto simp: node_inv_def)
      show ?thesis
      proof (cases "nl_lease st")
        case TTop
        then show ?thesis using inv(2) err by (intro by_ev [of "NLeaseTick TickCheck"]) simp_all
      next
        case TSleep
        then show ?thesis using inv(2) err by (intro by_ev [of "NLeaseTick TickStop"]) simp_all
      next
        case TFirst
        then show ?thesis using lease_step pings by simp
      next
        case TBody
        then show ?thesis using lease_step pings by simp
      next
        case TIdle
        then have "stopped_ticker (nl_lease st)" by (simp add: stopped_ticker_def)
        then show ?thesis using run_step 4 pings by blast
      next
        case TEnded
        then have "stopped_ticker (nl_lease st)" by (simp add: stopped_ticker_def)
        then show ?thesis using run_step 4 pings by blast
      qed
    qed
  qed
qed

lemma node_play_closing:
  assumes "node_server lib server" "node_inv st" "nl_ctx st \<noteq> None" "node_play lib lc k evs st = Some st'"
  shows "nl_ctx st' \<noteq> None \<and> length (filter closing evs) + node_measure st' \<le> node_measure st"
  using assms(2-4)
proof (induction evs arbitrary: st)
  case (Cons ev evs)
  obtain st1 where st1: "node_next lib lc k ev st = Some st1" "node_play lib lc k evs st1 = Some st'" using Cons.prems(3) by (auto split: option.splits)
  have c: "nl_ctx st1 = nl_ctx st" "node_measure st1 \<le> node_measure st" "closing ev \<longrightarrow> node_measure st1 < node_measure st"
    using closing_decreases [OF assms(1) Cons.prems(1,2) st1(1)] by simp_all
  show ?case using Cons.IH [OF node_next_inv [OF assms(1) Cons.prems(1) st1(1)] _ st1(2)] c Cons.prems(2) by auto
qed simp

lemma node_measure_bound: "node_inv st \<Longrightarrow> node_measure st \<le> 11"
proof -
  assume inv: "node_inv st"
  have t: "ticker_weight t \<le> 3" for t by (cases t) auto
  show ?thesis
  proof (cases "nl_crash st = None")
    case True
    have p: "place_ok (nl_place st) st" by (rule node_inv_place [OF inv True])
    show ?thesis using p t [of "nl_ping st"] t [of "nl_lease st"] True by (cases "(nl_place st, st)" rule: place_ok.cases) (auto simp: node_measure_def)
  qed (simp add: node_measure_def)
qed


text \<open>The panic is possible: whenever the lease controller is about to start a round after the end of the context, its \<open>select\<close> may take \<open>ctx.Done()\<close> although there is a ping result.\<close>

lemma lease_controller_panics_at_shutdown:
  assumes "node_inv st" "nl_crash st = None" "nl_ctx st = Some err" "nl_lease st = TFirst \<or> nl_lease st = TBody"
  shows "\<exists>st'. node_next lib lc k (NLeaseSync (Some err)) st = Some st' \<and> nl_crash st' \<noteq> None"
proof -
  obtain t c where t: "tick_body (nl_lease st) = Some t" "nl_leaseCtl st = Some c" using assms(1,4) by (cases "nl_leaseCtl st"; cases "nl_lease st") (simp_all add: node_inv_def)
  obtain q where "lease_sync k lc (Some err) (nl_ctl st) c (nl_leaseOut st) = Panic q"
    using lease_sync_total(1) [OF node_inv_ctl [OF assms(1)], of k lc "Some err"] by auto
  then show ?thesis using t assms(2,3) by (simp add: leaseMove_def ctx_seen_def)
qed

text \<open>A context that ends while the node is being registered makes \<open>Run\<close> return the error of the context, not nil.\<close>

lemma cancelled_registration_fails:
  assumes "node_inv st" "nl_crash st = None" "nl_place st = NEnsure pn" "nl_ctx st = Some err" "\<not> node_IsNotFound lib err"
  shows "\<exists>st'. node_next lib lc k (NEnsureNode (Some err) now) st = Some st' \<and> nl_place st' = NReturn (Some err)"
proof -
  obtain npc where "getResult (Some err) (nodePing (nl_ctl st)) = Val (Some (npc, None, Some err))"
    using getResult_cancelled node_inv_ctl [OF assms(1)] unfolding ctl_ok_def by blast
  then have "ensureNode lib (Some err) now pn (nl_ctl st) = Val (Some ((nl_ctl st)\<lparr>nodePing := npc\<rparr>, pn, Some err))"
    using assms(5) by (simp add: ensureNode_def updateStatus_def)
  then show ?thesis using assms(2-4) by (simp add: ensureMove_def ctx_seen_def)
qed

text \<open>The callback does not look at the context: once \<open>Run\<close> has returned and the channel is full, a call waits for ever.\<close>

lemma late_callback_waits:
  assumes "nl_place st = NReturn err" "nl_chan st \<noteq> []" "node_play lib lc k evs st = Some st'"
  shows "nl_place st' = NReturn err \<and> nl_chan st' = nl_chan st \<and> node_next lib lc k (NSend i) st' = None"
  using assms
proof (induction evs arbitrary: st)
  case (Cons ev evs)
  obtain st1 where st1: "node_next lib lc k ev st = Some st1" "node_play lib lc k evs st1 = Some st'" using Cons.prems(3) by (auto split: option.splits)
  have "nl_place st1 = NReturn err \<and> nl_chan st1 = nl_chan st"
    using st1(1) Cons.prems(1,2)
    by (cases ev) (auto simp: runStart_def pingCheck_def ensureMove_def leaseMove_def loopMove_def split: if_splits option.splits outcome.splits)
  then show ?case using Cons.IH [OF _ _ st1(2)] Cons.prems(2) by simp
qed simp

subsection \<open>A run\<close>

definition demo_ctl :: "node_table NodeController" where
  "demo_ctl = \<lparr>serverNode = Some node1, nodePing = \<lparr>np_pingInterval = DefaultPingInterval, np_pingTimeout = None, cond = NewMonitorVariable\<rparr>, nc_outside = [],
     pingInterval = DefaultPingInterval, statusInterval = DefaultStatusUpdateInterval, pingTimeout = None, leaseEnabled = True, nodeStatusUpdateErrorHandler = None\<rparr>"

definition demo_lease :: leaseController where
  "demo_lease = \<lparr>leaseDurationSeconds = 40, renewInterval = 10 * time_Second, latestLease = None\<rparr>"

definition demo_events :: "node_event list" where
  "demo_events = [NRunStart, NPingCheck (PingAnswered 5 None), NEnsureNode None 6, NLeaseSync None, NNotify node_a, NNotify node1, NSend 1, NLoopRound None 7 (LoopUpdated node1), NSend 0,
     NPingTick TickCheck, NCancel CtxCanceled]"

lemma demo_new: "NewNodeController node1 [] [WithNodeEnableLeaseV1 40] = Val (Inr (demo_ctl, Some demo_lease))"
  by (simp add: NewNodeController_def WithNodeEnableLeaseV1_def newLeaseControllerWithRenewInterval_def renewFraction_def int64_def newNodePingController_def
      demo_ctl_def demo_lease_def DefaultPingInterval_def time_Second_def Let_def)

lemma demo_runs:
  "case node_play table_lib table_client 1 demo_events (node_start demo_ctl (Some demo_lease) no_lease NewNaiveNodeProvider) of
     None \<Rightarrow> False | Some st \<Rightarrow> nl_ctx st = Some CtxCanceled \<and> nl_crash st = None \<and> length (nl_sent st) = 2 \<and> length (nl_handled st) = 1"
  by code_simp

lemma table_backoff_ends: "backoffEnsureLease 1 table_client c node s \<noteq> None"
proof -
  have "\<exists>s' l b. ensureLease table_client c node s = (s', l, b, None)"
    by (auto simp: ensureLease_def table_client_def newLease_def lt_store_def Let_def split: option.split)
  then show ?thesis by (auto simp: backoffEnsureLease_def)
qed

lemma table_update_ends: "updateLoop 1 i table_client node base c s \<noteq> None"
proof (induction i arbitrary: base c s)
  case (Suc i)
  then have IH: "(updateLoop 1 i table_client node base c s = None) = False" for base c s by simp
  have b: "(backoffEnsureLease 1 table_client c node s = None) = False" for c s using table_backoff_ends by simp
  show ?case
    by (cases "lc_Update table_client (newLease table_client c node base s) s"; cases "snd (lc_Update table_client (newLease table_client c node base s) s)")
      (auto simp: IH b simp del: not_None_eq One_nat_def split: option.splits)
qed simp

lemma table_rounds_end: "\<forall>node c s. ensureAndUpdate 1 table_client node c s \<noteq> None \<and> (\<forall>base. retryUpdateLease 1 table_client node base c s \<noteq> None)"
proof -
  have b: "(backoffEnsureLease 1 table_client c node s = None) = False" for c node s using table_backoff_ends by simp
  have u: "(updateLoop 1 i table_client node base c s = None) = False" for i node base c s using table_update_ends by simp
  show ?thesis by (auto simp: ensureAndUpdate_def retryUpdateLease_def b u Let_def simp del: not_None_eq One_nat_def split: option.split)
qed

definition demo_node_life :: "(node_table, lease_table) nlife" where
  "demo_node_life = (case node_play table_lib table_client 1 demo_events (node_start demo_ctl (Some demo_lease) no_lease NewNaiveNodeProvider) of
     Some st \<Rightarrow> st | None \<Rightarrow> node_start demo_ctl None no_lease NaiveNodeProvider)"

lemma demo_node_life_played:
  "node_play table_lib table_client 1 demo_events (node_start demo_ctl (Some demo_lease) no_lease NewNaiveNodeProvider) = Some demo_node_life"
  "nl_ctx demo_node_life = Some CtxCanceled" "nl_crash demo_node_life = None" "length (nl_sent demo_node_life) = 2" "length (nl_handled demo_node_life) = 1"
  using demo_runs by (auto simp: demo_node_life_def split: option.splits)



end
