(* ===== verification/Root_Command.thy ===== *)
theory Root_Command
  imports Node_Config Node_Api Filepath
begin

text \<open>
  The root command (\<open>src/cmd/virtual-kubelet/internal/commands/root\<close>): defaults of its options, the taint, trace tags and sampling, the
  HTTP servers, and \<open>runRootCommand\<close> up to the start of the controllers; with it the registry of
  providers (\<open>provider/store.go\<close>) and of trace exporters (\<open>tracing_register.go\<close>). The environment, the Kubernetes client, TLS and listening are parameters.
\<close>

subsection \<open>Registries\<close>

record 'f Store =
  ls :: "'f gomap"

definition NewStore :: "'f Store" where "NewStore = \<lparr>ls = []\<rparr>"

text \<open>A nil init function is \<open>None\<close>.\<close>

definition Register :: "string \<Rightarrow> 'f option \<Rightarrow> 'f Store \<Rightarrow> 'f Store \<times> goerror option" where
  "Register name f s =
     (case f of
        None \<Rightarrow> (s, Some (InvalidInput ''provided init function cannot not be nil''))
      | Some g \<Rightarrow> (s\<lparr>ls := go_put name g (ls s)\<rparr>, None))"

definition store_Get :: "'f Store \<Rightarrow> string \<Rightarrow> 'f option" where "store_Get s name = go_get (ls s) name"
definition store_List :: "'f Store \<Rightarrow> string list" where "store_List s = map fst (ls s)"
definition Exists :: "'f Store \<Rightarrow> string \<Rightarrow> bool" where "Exists s name = (go_get (ls s) name \<noteq> None)"

type_synonym 'f exporters = "'f gomap"

definition RegisterTracingExporter :: "string \<Rightarrow> 'f \<Rightarrow> 'f exporters \<Rightarrow> 'f exporters" where
  "RegisterTracingExporter name f es = go_put name f es"

definition GetTracingExporter :: "('o \<Rightarrow> 'x result) exporters \<Rightarrow> string \<Rightarrow> 'o \<Rightarrow> 'x result" where
  "GetTracingExporter es name opts =
     (case go_get es name of
        None \<Rightarrow> Inl (NotFoundf (''tracing exporter '' @ fmt_q name @ '' not found''))
      | Some f \<Rightarrow> f opts)"

definition AvailableTraceExporters :: "'f exporters \<Rightarrow> string list" where
  "AvailableTraceExporters es = map fst es"

subsection \<open>Options\<close>

record TracingExporterOptions =
  Tags :: "string gomap option"
  trace_ServiceName :: string

record Opts =
  KubeConfigPath :: string
  KubeNamespace :: string
  KubeClusterDomain :: string
  ListenPort :: int
  o_NodeName :: string
  OperatingSystem :: string
  ProviderName :: string
  ProviderConfigPath :: string
  o_TaintKey :: string
  o_TaintEffect :: string
  DisableTaint :: bool
  MetricsAddr :: string
  PodSyncWorkers :: int
  InformerResyncPeriod :: int
  EnableNodeLease :: bool
  TraceExporters :: "string list"
  TraceSampleRate :: string
  TraceConfig :: TracingExporterOptions
  StartupTimeout :: int
  o_StreamIdleTimeout :: int
  o_StreamCreationTimeout :: int
  o_Version :: string

definition DefaultNodeName :: string where "DefaultNodeName = ''virtual-kubelet''"
definition DefaultOperatingSystem :: string where "DefaultOperatingSystem = ''Linux''"
definition DefaultInformerResyncPeriod :: int where "DefaultInformerResyncPeriod = 1 * time_Minute"
definition DefaultMetricsAddr :: string where "DefaultMetricsAddr = '':10255''"
definition DefaultListenPort :: int where "DefaultListenPort = 10250"
definition DefaultPodSyncWorkers :: int where "DefaultPodSyncWorkers = 10"
definition DefaultKubeNamespace :: string where "DefaultKubeNamespace = []"
definition DefaultKubeClusterDomain :: string where "DefaultKubeClusterDomain = ''cluster.local''"
definition DefaultTaintEffect :: string where "DefaultTaintEffect = ''NoSchedule''"
definition DefaultTaintKey :: string where "DefaultTaintKey = ''virtual-kubelet.io/provider''"
definition DefaultStreamIdleTimeout :: int where "DefaultStreamIdleTimeout = 30 * time_Second"
definition DefaultStreamCreationTimeout :: int where "DefaultStreamCreationTimeout = 30 * time_Second"

lemmas defaults = DefaultNodeName_def DefaultOperatingSystem_def DefaultInformerResyncPeriod_def DefaultMetricsAddr_def DefaultListenPort_def
  DefaultPodSyncWorkers_def DefaultKubeClusterDomain_def DefaultTaintEffect_def DefaultTaintKey_def DefaultStreamIdleTimeout_def
  DefaultStreamCreationTimeout_def

text \<open>\<open>int32(p)\<close>.\<close>

definition int32 :: "int \<Rightarrow> int" where
  "int32 x = (x + 2 ^ 31) mod 2 ^ 32 - 2 ^ 31"

text \<open>The environment: \<open>os.LookupEnv\<close>, and the home directory, empty if unknown.\<close>

record os_env =
  LookupEnv :: "string \<Rightarrow> string option"
  homedir :: string

definition env_Getenv :: "os_env \<Rightarrow> string \<Rightarrow> string" where
  "env_Getenv env key = (case LookupEnv env key of None \<Rightarrow> [] | Some v \<Rightarrow> v)"

definition getEnv :: "os_env \<Rightarrow> string \<Rightarrow> string \<Rightarrow> string" where
  "getEnv env key defaultValue = (case LookupEnv env key of Some v \<Rightarrow> v | None \<Rightarrow> defaultValue)"

definition or_default :: "'a \<Rightarrow> 'a \<Rightarrow> 'a \<Rightarrow> 'a" where
  "or_default zero d x = (if x = zero then d else x)"

definition default_port :: "os_env \<Rightarrow> int \<Rightarrow> int result" where
  "default_port env port =
     (if port \<noteq> 0 then Inr port
      else let kp = env_Getenv env ''KUBELET_PORT'' in
        if kp = [] then Inr DefaultListenPort
        else case Atoi kp of
          Inl err \<Rightarrow> Inl (WithMessage ''error parsing KUBELET_PORT environment variable'' err)
        | Inr p \<Rightarrow> Inr (int32 p))"

definition default_kubeconfig :: "os_env \<Rightarrow> string \<Rightarrow> string" where
  "default_kubeconfig env path =
     (if path \<noteq> [] then path
      else if env_Getenv env ''KUBECONFIG'' \<noteq> [] then env_Getenv env ''KUBECONFIG''
      else if homedir env \<noteq> [] then Join (Join (homedir env) ''.kube'') ''config'' else [])"

text \<open>The options after an error are those set by then; only the error is used.\<close>

definition SetDefaultOpts :: "os_env \<Rightarrow> Opts \<Rightarrow> Opts result" where
  "SetDefaultOpts env c =
     (case default_port env (ListenPort c) of
        Inl err \<Rightarrow> Inl err
      | Inr port \<Rightarrow> Inr (c\<lparr>
          OperatingSystem := or_default [] DefaultOperatingSystem (OperatingSystem c),
          o_NodeName := or_default [] (getEnv env ''DEFAULT_NODE_NAME'' DefaultNodeName) (o_NodeName c),
          InformerResyncPeriod := or_default 0 DefaultInformerResyncPeriod (InformerResyncPeriod c),
          MetricsAddr := or_default [] DefaultMetricsAddr (MetricsAddr c),
          PodSyncWorkers := or_default 0 DefaultPodSyncWorkers (PodSyncWorkers c),
          TraceConfig := (TraceConfig c)\<lparr>trace_ServiceName := or_default [] DefaultNodeName (trace_ServiceName (TraceConfig c))\<rparr>,
          ListenPort := port,
          KubeNamespace := or_default [] DefaultKubeNamespace (KubeNamespace c),
          KubeClusterDomain := or_default [] DefaultKubeClusterDomain (KubeClusterDomain c),
          o_TaintKey := or_default [] DefaultTaintKey (o_TaintKey c),
          o_TaintEffect := or_default [] DefaultTaintEffect (o_TaintEffect c),
          KubeConfigPath := default_kubeconfig env (KubeConfigPath c),
          o_StreamIdleTimeout := or_default 0 DefaultStreamIdleTimeout (o_StreamIdleTimeout c),
          o_StreamCreationTimeout := or_default 0 DefaultStreamCreationTimeout (o_StreamCreationTimeout c)\<rparr>))"

definition emptyOpts :: Opts where
  "emptyOpts = \<lparr>KubeConfigPath = [], KubeNamespace = [], KubeClusterDomain = [], ListenPort = 0, o_NodeName = [], OperatingSystem = [],
     ProviderName = [], ProviderConfigPath = [], o_TaintKey = [], o_TaintEffect = [], DisableTaint = False, MetricsAddr = [], PodSyncWorkers = 0,
     InformerResyncPeriod = 0, EnableNodeLease = False, TraceExporters = [], TraceSampleRate = [],
     TraceConfig = \<lparr>Tags = None, trace_ServiceName = []\<rparr>, StartupTimeout = 0, o_StreamIdleTimeout = 0, o_StreamCreationTimeout = 0, o_Version = []\<rparr>"

text \<open>The value of the flag \<open>trace-tag\<close>: the map of the options, nil unless it was made.\<close>

definition mapVar_Set :: "string \<Rightarrow> string gomap option \<Rightarrow> (string gomap option \<times> goerror option) outcome" where
  "mapVar_Set s mv =
     (case SplitN2 (CHR ''='') s of
        [k, v] \<Rightarrow>
          if (case mv of None \<Rightarrow> None | Some m \<Rightarrow> go_get m k) \<noteq> None then Val (mv, Some (ErrorString (''duplicate key: '' @ k)))
          else (case mv of None \<Rightarrow> Panic nil_map_write | Some m \<Rightarrow> Val (Some (go_put k v m), None))
      | _ \<Rightarrow> Val (mv, Some (ErrorString (''invalid format, must be `key=value`: '' @ s))))"

fun mapVar_String :: "(string \<times> string) list \<Rightarrow> string \<Rightarrow> string" where
  "mapVar_String [] s = s"
| "mapVar_String ((k, v) # kvs) s =
     mapVar_String kvs (if s = [] then k @ ''='' @ v else s @ '', '' @ k @ ''='' @ v)"

subsection \<open>Taint\<close>

definition getTaint :: "os_env \<Rightarrow> Opts \<Rightarrow> Taint result" where
  "getTaint env c =
     (let key = getEnv env ''VKUBELET_TAINT_KEY'' (or_default [] DefaultTaintKey (o_TaintKey c));
          val = getEnv env ''VKUBELET_TAINT_VALUE'' (ProviderName c);
          effectEnv = getEnv env ''VKUBELET_TAINT_EFFECT'' (or_default [] DefaultTaintEffect (o_TaintEffect c)) in
      if effectEnv = ''NoSchedule'' \<or> effectEnv = ''NoExecute'' \<or> effectEnv = ''PreferNoSchedule''
      then Inr \<lparr>TaintKey = key, TaintValue = val, TaintEffect = effectEnv\<rparr>
      else Inl (InvalidInputf (''taint effect '' @ fmt_q effectEnv @ '' is not supported'')))"

subsection \<open>Tracing\<close>

definition reservedTagNames :: "string list" where
  "reservedTagNames = [''operatingSystem'', ''provider'', ''nodeName'']"

datatype sampler = AlwaysSample | NeverSample | ProbabilitySampler int   \<comment> \<open>in percent\<close>

record 'x trace_state =
  registered_exporters :: "'x list"
  default_sampler :: "sampler option"
  zpages_set_up :: bool

fun registerExporters :: "(TracingExporterOptions \<Rightarrow> 'x result) exporters \<Rightarrow> TracingExporterOptions \<Rightarrow> string list \<Rightarrow> 'x trace_state \<Rightarrow> 'x trace_state \<times> goerror option" where
  "registerExporters es cfg [] ts = (ts, None)"
| "registerExporters es cfg (e # names) ts =
     (if e = ''zpages'' then registerExporters es cfg names (ts\<lparr>zpages_set_up := True\<rparr>)
      else case GetTracingExporter es e cfg of
        Inl err \<Rightarrow> (ts, Some err)
      | Inr x \<Rightarrow> registerExporters es cfg names (ts\<lparr>registered_exporters := registered_exporters ts @ [x]\<rparr>))"

text \<open>
  The sampler for a rate. The error for a rate out of bounds wraps \<open>err\<close>, which is nil there, and \<open>errors.Wrap\<close> and \<open>AsInvalidInput\<close> keep nil: the
  result is returned without an error and without a sampler.
\<close>

definition samplerFor :: "string \<Rightarrow> (sampler option \<times> goerror option \<times> bool)" where
  "samplerFor rateName =
     (let l = ToLower rateName in
      if l = [] then (None, None, False)
      else if l = ''always'' then (Some AlwaysSample, None, False)
      else if l = ''never'' then (Some NeverSample, None, False)
      else case Atoi rateName of
        Inl err \<Rightarrow> (None, AsInvalidInput (pkg_Wrap (Some err) ''unsupported trace sample rate''), True)
      | Inr rate \<Rightarrow>
          if rate < 0 \<or> rate > 100
          then (None, AsInvalidInput (pkg_Wrap None ''trace sample rate must be between 0 and 100''), True)
          else (Some (ProbabilitySampler rate), None, False))"

definition setupTracing :: "(TracingExporterOptions \<Rightarrow> 'x result) exporters \<Rightarrow> Opts \<Rightarrow> 'x trace_state \<Rightarrow> 'x trace_state \<times> goerror option" where
  "setupTracing es c ts =
     (let tags = (case Tags (TraceConfig c) of None \<Rightarrow> [] | Some m \<Rightarrow> m) in
      case List.find (\<lambda>k. k \<in> set reservedTagNames) (map fst tags) of
        Some k \<Rightarrow> (ts, Some (InvalidInputf (''invalid trace tag '' @ fmt_q k @ '', must not use a reserved tag key'')))
      | None \<Rightarrow>
          let tags' = go_put ''nodeName'' (o_NodeName c) (go_put ''provider'' (ProviderName c) (go_put ''operatingSystem'' (OperatingSystem c) tags)) in
          (case registerExporters es ((TraceConfig c)\<lparr>Tags := Some tags'\<rparr>) (TraceExporters c) ts of
             (ts', Some err) \<Rightarrow> (ts', Some err)
           | (ts', None) \<Rightarrow>
               if TraceExporters c = [] then (ts', None)
               else (case samplerFor (TraceSampleRate c) of
                 (s, err, True) \<Rightarrow> (ts', err)
               | (s, err, False) \<Rightarrow> (case s of None \<Rightarrow> (ts', None) | Some smp \<Rightarrow> (ts'\<lparr>default_sampler := Some smp\<rparr>, None)))))"

text \<open>The two exporters that register themselves; their libraries' constructors are parameters.\<close>

record jaeger_options =
  CollectorEndpoint :: string
  jaeger_Username :: string
  jaeger_Password :: string
  jaeger_ServiceName :: string
  jaeger_Tags :: "(string \<times> string) list"

definition NewJaegerExporter :: "os_env \<Rightarrow> (jaeger_options \<Rightarrow> 'x result) \<Rightarrow> TracingExporterOptions \<Rightarrow> 'x result" where
  "NewJaegerExporter env newExporter opts =
     (if env_Getenv env ''JAEGER_ENDPOINT'' = [] then Inl (ErrorString ''Must specify either JAEGER_ENDPOINT (default: localhost:14268)'')
      else newExporter \<lparr>CollectorEndpoint = ''http://'' @ env_Getenv env ''JAEGER_ENDPOINT'' @ ''/api/traces'',
        jaeger_Username = env_Getenv env ''JAEGER_USER'', jaeger_Password = env_Getenv env ''JAEGER_PASSWORD'', jaeger_ServiceName = trace_ServiceName opts,
        jaeger_Tags = (case Tags opts of None \<Rightarrow> [] | Some m \<Rightarrow> m)\<rparr>)"

datatype agent_option = WithServiceName string | WithAddress string | WithInsecure

definition NewOCAgentExporter :: "os_env \<Rightarrow> (agent_option list \<Rightarrow> 'x result) \<Rightarrow> TracingExporterOptions \<Rightarrow> 'x result" where
  "NewOCAgentExporter env newExporter opts =
     (let agentOpts = [WithServiceName (trace_ServiceName opts), WithAddress (env_Getenv env ''OCAGENT_ENDPOINT'')];
          insecure = env_Getenv env ''OCAGENT_INSECURE'' in
      if env_Getenv env ''OCAGENT_ENDPOINT'' = [] then Inl (InvalidInput ''must set endpoint address in OCAGENT_ENDPOINT'')
      else if insecure \<in> set [''0'', ''no'', ''n'', ''off'', []] then newExporter agentOpts
      else if insecure \<in> set [''1'', ''yes'', ''y'', ''on''] then newExporter (agentOpts @ [WithInsecure])
      else Inl (InvalidInput ''invalid value for OCAGENT_INSECURE''))"

subsection \<open>Filters of pod events\<close>

definition FilterPodsForNodeName :: "string \<Rightarrow> Pod \<Rightarrow> bool" where
  "FilterPodsForNodeName name p = (NodeName (Spec p) = name)"

fun PodFilters :: "(Pod \<Rightarrow> bool) list \<Rightarrow> Pod \<Rightarrow> bool" where
  "PodFilters [] p = False"
| "PodFilters (f # filters) p = (if f p then True else PodFilters filters p)"

subsection \<open>HTTP servers\<close>

record apiServerConfig =
  CertPath :: string
  KeyPath :: string
  Addr :: string
  cfg_MetricsAddr :: string
  cfg_StreamIdleTimeout :: int
  cfg_StreamCreationTimeout :: int

definition getAPIConfig :: "os_env \<Rightarrow> Opts \<Rightarrow> apiServerConfig" where
  "getAPIConfig env c =
     \<lparr>CertPath = env_Getenv env ''APISERVER_CERT_LOCATION'', KeyPath = env_Getenv env ''APISERVER_KEY_LOCATION'',
      Addr = '':'' @ Itoa (ListenPort c), cfg_MetricsAddr = MetricsAddr c,
      cfg_StreamIdleTimeout = o_StreamIdleTimeout c, cfg_StreamCreationTimeout = o_StreamCreationTimeout c\<rparr>"

datatype server = PodServer string | MetricsServer string
datatype http_effect = Serve server | CloseServer server

record http_lib =
  LoadX509KeyPair :: "string \<Rightarrow> string \<Rightarrow> goerror option"
  tls_Listen :: "string \<Rightarrow> goerror option"
  net_Listen :: "string \<Rightarrow> goerror option"

definition loadTLSConfig :: "http_lib \<Rightarrow> string \<Rightarrow> string \<Rightarrow> goerror option" where
  "loadTLSConfig lib certPath keyPath = pkg_Wrap (LoadX509KeyPair lib certPath keyPath) ''error loading tls certs''"

text \<open>What was served and closed, and the servers that the returned function closes.\<close>

definition setupHTTPServer :: "http_lib \<Rightarrow> apiServerConfig \<Rightarrow> http_effect list \<times> server list result" where
  "setupHTTPServer lib cfg =
     (let podPart =
        (if CertPath cfg = [] \<or> KeyPath cfg = [] then Inr []
         else case loadTLSConfig lib (CertPath cfg) (KeyPath cfg) of
           Some err \<Rightarrow> Inl err
         | None \<Rightarrow> (case tls_Listen lib (Addr cfg) of
             Some err \<Rightarrow> Inl (WithMessage ''error setting up listener for pod http server'' err)
           | None \<Rightarrow> Inr [PodServer (Addr cfg)])) in
      case podPart of
        Inl err \<Rightarrow> ([], Inl err)
      | Inr closers \<Rightarrow>
          if cfg_MetricsAddr cfg = [] then (map Serve closers, Inr closers)
          else (case net_Listen lib (cfg_MetricsAddr cfg) of
            Some err \<Rightarrow> (map Serve closers @ map CloseServer closers, Inl (WithMessage ''could not setup listener for pod metrics http server'' err))
          | None \<Rightarrow>
              let closers' = closers @ [MetricsServer (cfg_MetricsAddr cfg)] in (map Serve closers', Inr closers')))"

subsection \<open>The client\<close>

datatype stat_result = StatOk | StatNotExist | StatFailed goerror

record 'c kube_lib =
  os_Stat :: "string \<Rightarrow> stat_result"
  InClusterConfig :: "'c result"
  LoadConfig :: "string \<Rightarrow> 'c result"
  NewForConfig :: "'c \<Rightarrow> goerror option"

definition clientsetFromEnvKubeConfigPath :: "'c kube_lib \<Rightarrow> string \<Rightarrow> 'c result" where
  "clientsetFromEnvKubeConfigPath k kubeConfigPath =
     (case os_Stat k kubeConfigPath of
        StatNotExist \<Rightarrow> InClusterConfig k
      | StatFailed err \<Rightarrow> Inl err
      | StatOk \<Rightarrow> LoadConfig k kubeConfigPath)"

text \<open>\<open>None\<close>: a client was made.\<close>

definition ClientsetFromEnv :: "'c kube_lib \<Rightarrow> string \<Rightarrow> goerror option" where
  "ClientsetFromEnv k kubeConfigPath =
     (case (if kubeConfigPath \<noteq> [] then clientsetFromEnvKubeConfigPath k kubeConfigPath else InClusterConfig k) of
        Inl err \<Rightarrow> pkg_Wrap (Some err) ''error getting rest client config''
      | Inr restConfig \<Rightarrow> NewForConfig k restConfig)"

subsection \<open>Running the command\<close>

definition ValidOperatingSystems :: "string list" where
  "ValidOperatingSystems = [''Linux'', ''Windows'']"

text \<open>What ends the wait of \<open>StartupTimeout\<close>: the context, or the pod controller, which may have failed.\<close>

datatype startup = StartupTimedOut goerror | PodControllerReady "goerror option"

record ('p, 'x, 'c, 's) root_lib =
  root_env :: os_env
  kube :: "'c kube_lib"
  provider_store :: "(InitConfig \<Rightarrow> 'p result) Store"
  trace_exporters :: "(TracingExporterOptions \<Rightarrow> 'x result) exporters"
  ConfigureNode :: "'p \<Rightarrow> Node \<Rightarrow> Node outcome"
  NewPodController :: "goerror option"
  http :: http_lib
  startup_wait :: startup
  start_time :: int
  k8s_IsNotFound :: "goerror \<Rightarrow> bool"
  CreateNode :: "Node \<Rightarrow> 's \<Rightarrow> 's \<times> goerror option"
  cluster :: 's

record 's root_started =
  kubelet_node :: Node
  node_runner :: "'s NodeController \<times> leaseController option"
  open_servers :: "server list"

datatype 's root_end = RootFailed goerror | RootFatal goerror | Initialized "'s root_started"

definition init_config :: "os_env \<Rightarrow> Opts \<Rightarrow> InitConfig" where
  "init_config env c =
     \<lparr>ConfigPath = ProviderConfigPath c, ic_NodeName = o_NodeName c, ic_OperatingSystem = OperatingSystem c,
      ic_InternalIP = env_Getenv env ''VKUBELET_POD_IP'', DaemonPort = ListenPort c,
      ic_KubeClusterDomain = KubeClusterDomain c, ic_Version = o_Version c\<rparr>"

text \<open>From the HTTP servers on; a failure closes the servers that were opened.\<close>

definition startControllers :: "('p, 'x, 'c, 's) root_lib \<Rightarrow> Opts \<Rightarrow> Node \<Rightarrow> 's NodeController \<times> leaseController option \<Rightarrow> http_effect list \<times> 's root_end" where
  "startControllers lib c pNode nc =
     (case setupHTTPServer (http lib) (getAPIConfig (root_env lib) c) of
        (es, Inl err) \<Rightarrow> (es, RootFailed err)
      | (es, Inr closers) \<Rightarrow>
          let failed = (\<lambda>err. (es @ map CloseServer closers, RootFailed err));
              started = (es, Initialized \<lparr>kubelet_node = setNodeReady (start_time lib) pNode, node_runner = nc, open_servers = closers\<rparr>) in
          if StartupTimeout c > 0 then
            (case startup_wait lib of
               StartupTimedOut err \<Rightarrow> failed err
             | PodControllerReady (Some err) \<Rightarrow> failed err
             | PodControllerReady None \<Rightarrow> started)
          else started)"

text \<open>The handler of a failed status update: a node that is gone is created again.\<close>

definition recreateNode :: "('p, 'x, 'c, 's) root_lib \<Rightarrow> Node \<Rightarrow> goerror \<Rightarrow> 's \<Rightarrow> 's \<times> goerror option" where
  "recreateNode lib pNode err s =
     (if \<not> k8s_IsNotFound lib err then (s, Some err)
      else CreateNode lib (pNode\<lparr>NMeta := (NMeta pNode)\<lparr>ResourceVersion := []\<rparr>\<rparr>) s)"

definition node_opts :: "('p, 'x, 'c, 's) root_lib \<Rightarrow> Opts \<Rightarrow> Node \<Rightarrow> 's NodeControllerOpt list" where
  "node_opts lib c pNode =
     [WithNodeStatusUpdateErrorHandler (recreateNode lib pNode)] @ (if EnableNodeLease c then [WithNodeEnableLeaseV1 40] else [])"

definition startNode :: "('p, 'x, 'c, 's) root_lib \<Rightarrow> Opts \<Rightarrow> Taint option \<Rightarrow> 'p \<Rightarrow> (http_effect list \<times> 's root_end) outcome" where
  "startNode lib c taint p =
     obind (NodeFromProvider (ConfigureNode lib p) (o_NodeName c) taint (o_Version c)) (\<lambda>pNode.
     obind (NewNodeController pNode (cluster lib) (node_opts lib c pNode)) (\<lambda>nodeRunner.
       case nodeRunner of
         Inl err \<Rightarrow> Val ([], RootFatal err)
       | Inr nc \<Rightarrow> (case NewPodController lib of
           Some err \<Rightarrow> Val ([], RootFailed (WithMessage ''error setting up pod controller'' err))
         | None \<Rightarrow> Val (startControllers lib c pNode nc))))"

definition runRootCommand :: "('p, 'x, 'c, 's) root_lib \<Rightarrow> Opts \<Rightarrow> 'x trace_state \<Rightarrow> (http_effect list \<times> 's root_end) outcome" where
  "runRootCommand lib c ts =
     (let fail = (\<lambda>err. Val ([], RootFailed err)) in
      if OperatingSystem c \<notin> set ValidOperatingSystems then
        fail (InvalidInputf (''operating system '' @ fmt_q (OperatingSystem c) @ '' is not supported''))
      else if PodSyncWorkers c = 0 then fail (InvalidInput ''pod sync workers must be greater than 0'')
      else case (if DisableTaint c then Inr None else map_sum id Some (getTaint (root_env lib) c)) of
        Inl err \<Rightarrow> fail err
      | Inr taint \<Rightarrow> (case ClientsetFromEnv (kube lib) (KubeConfigPath c) of
          Some err \<Rightarrow> fail err
        | None \<Rightarrow> (case setupTracing (trace_exporters lib) c ts of
            (ts', Some err) \<Rightarrow> fail err
          | (ts', None) \<Rightarrow> (case store_Get (provider_store lib) (ProviderName c) of
              None \<Rightarrow> fail (ErrorString (''provider '' @ fmt_q (ProviderName c) @ '' not found''))
            | Some pInit \<Rightarrow> (case pInit (init_config (root_env lib) c) of
                Inl err \<Rightarrow> fail (WithMessage (''error initializing provider '' @ ProviderName c) err)
              | Inr p \<Rightarrow> startNode lib c taint p)))))"

end
