(* ===== verification/Root_Props.thy ===== *)
theory Root_Props
  imports Root_Command
begin

text \<open>
  Properties of the root command: the registries, the defaults of the options, the bounds that are and are not
  checked, and what holds when \<open>runRootCommand\<close> has started the kubelet or has given up.
\<close>

subsection \<open>Registries\<close>

text \<open>A registry by name: the last registration under a name is found, and the names are those registered.\<close>

locale registry =
  fixes put :: "string \<Rightarrow> 'f \<Rightarrow> 's \<Rightarrow> 's" and look :: "'s \<Rightarrow> string \<Rightarrow> 'f option" and names :: "'s \<Rightarrow> string list"
  assumes look_put: "look (put n f s) m = (if m = n then Some f else look s m)"
    and names_look: "n \<in> set (names s) \<longleftrightarrow> look s n \<noteq> None"
begin

lemma look_all: "look (fold (\<lambda>(n, f). put n f) kvs s) m = (case map_of (rev kvs) m of Some f \<Rightarrow> Some f | None \<Rightarrow> look s m)"
proof (induction kvs arbitrary: s)
  case (Cons kv kvs)
  obtain n f where "kv = (n, f)" by fastforce
  then show ?case using Cons by (auto simp: look_put map_add_def split: option.split)
qed simp

lemma names_all: "set (names (fold (\<lambda>(n, f). put n f) kvs s)) = set (map fst kvs) \<union> set (names s)"
proof -
  have "look (fold (\<lambda>(n, f). put n f) kvs s) m \<noteq> None \<longleftrightarrow> m \<in> set (map fst kvs) \<or> look s m \<noteq> None" for m
  proof (cases "map_of (rev kvs) m")
    case None
    then have "m \<notin> set (map fst kvs)" using map_of_eq_None_iff [of "rev kvs" m] by simp
    then show ?thesis using None by (simp add: look_all)
  next
    case (Some f)
    then have "m \<in> set (map fst kvs)" by (force dest: map_of_SomeD)
    then show ?thesis using Some by (simp add: look_all)
  qed
  then show ?thesis by (intro set_eqI) (simp only: names_look Un_iff)
qed

end

definition register_provider :: "string \<Rightarrow> 'f \<Rightarrow> 'f Store \<Rightarrow> 'f Store" where
  "register_provider name f s = fst (Register name (Some f) s)"

interpretation providers: registry register_provider store_Get store_List
  by unfold_locales (auto simp: register_provider_def Register_def store_Get_def store_List_def go_get_put map_of_eq_None_iff)

interpretation trace_exps: registry RegisterTracingExporter "\<lambda>es n. go_get es n" AvailableTraceExporters
  by unfold_locales (auto simp: RegisterTracingExporter_def AvailableTraceExporters_def go_get_put map_of_eq_None_iff)

text \<open>The providers of \<open>main\<close>.\<close>

definition main_store :: "'f \<Rightarrow> 'f \<Rightarrow> 'f Store" where
  "main_store mock native = register_provider ''native-kubelet'' native (register_provider ''mock'' mock NewStore)"

lemma main_store_Get:
  "store_Get (main_store mock native) n = (if n = ''mock'' then Some mock else if n = ''native-kubelet'' then Some native else None)"
  by (simp add: main_store_def providers.look_put) (simp add: NewStore_def store_Get_def)

subsection \<open>Defaults\<close>

lemma or_default_idem: "d \<noteq> z \<Longrightarrow> or_default z d x \<noteq> z" "or_default z d (or_default z d x) = or_default z d x"
  by (auto simp: or_default_def)

lemma or_default_keeps: "x \<noteq> z \<Longrightarrow> or_default z d x = x"
  by (simp add: or_default_def)

lemma default_port_idem: "default_port env p = Inr q \<Longrightarrow> default_port env q = Inr q"
  by (auto simp: default_port_def Let_def split: if_splits sum.splits)

lemma default_kubeconfig_idem: "default_kubeconfig env (default_kubeconfig env p) = default_kubeconfig env p"
  by (simp add: default_kubeconfig_def)

text \<open>
  Setting the defaults changes no option that is set, gives a value to those that need one, and doing it again changes nothing.
\<close>

theorem defaults_keep_set_options:
  assumes "SetDefaultOpts env c = Inr c'"
  shows "SetDefaultOpts env c' = Inr c' \<and>
    (OperatingSystem c \<noteq> [] \<longrightarrow> OperatingSystem c' = OperatingSystem c) \<and> (o_NodeName c \<noteq> [] \<longrightarrow> o_NodeName c' = o_NodeName c) \<and>
    (InformerResyncPeriod c \<noteq> 0 \<longrightarrow> InformerResyncPeriod c' = InformerResyncPeriod c) \<and> (MetricsAddr c \<noteq> [] \<longrightarrow> MetricsAddr c' = MetricsAddr c) \<and>
    (PodSyncWorkers c \<noteq> 0 \<longrightarrow> PodSyncWorkers c' = PodSyncWorkers c) \<and> (ListenPort c \<noteq> 0 \<longrightarrow> ListenPort c' = ListenPort c) \<and>
    (o_TaintKey c \<noteq> [] \<longrightarrow> o_TaintKey c' = o_TaintKey c) \<and> (o_TaintEffect c \<noteq> [] \<longrightarrow> o_TaintEffect c' = o_TaintEffect c) \<and>
    (KubeConfigPath c \<noteq> [] \<longrightarrow> KubeConfigPath c' = KubeConfigPath c) \<and>
    OperatingSystem c' \<noteq> [] \<and> PodSyncWorkers c' \<noteq> 0 \<and> MetricsAddr c' \<noteq> [] \<and> InformerResyncPeriod c' \<noteq> 0 \<and> KubeClusterDomain c' \<noteq> [] \<and>
    o_StreamIdleTimeout c' \<noteq> 0 \<and> o_StreamCreationTimeout c' \<noteq> 0"
proof -
  obtain port where port: "default_port env (ListenPort c) = Inr port" using assms by (auto simp: SetDefaultOpts_def split: sum.splits)
  note c' = assms [unfolded SetDefaultOpts_def port sum.case, THEN sum.inject(2) [THEN iffD1], symmetric]
  have "SetDefaultOpts env c' = Inr c'"
    unfolding c' SetDefaultOpts_def by (simp add: default_port_idem [OF port] default_kubeconfig_idem or_default_idem)
  moreover have "ListenPort c \<noteq> 0 \<longrightarrow> port = ListenPort c" using port by (auto simp: default_port_def)
  moreover have "KubeConfigPath c \<noteq> [] \<longrightarrow> default_kubeconfig env (KubeConfigPath c) = KubeConfigPath c" by (simp add: default_kubeconfig_def)
  ultimately show ?thesis
    by (simp add: c' or_default_keeps) (simp add: or_default_def defaults time_Minute_def time_Second_def)
qed

definition plain_env :: "(string \<times> string) list \<Rightarrow> os_env" where
  "plain_env kvs = \<lparr>LookupEnv = map_of kvs, homedir = ''/root''\<rparr>"

theorem defaults_keep_set_options_witness:
  "\<exists>c'. SetDefaultOpts (plain_env []) (emptyOpts\<lparr>PodSyncWorkers := 3\<rparr>) = Inr c' \<and> PodSyncWorkers c' = 3 \<and> SetDefaultOpts (plain_env []) c' = Inr c'"
proof -
  have "\<exists>c'. SetDefaultOpts (plain_env []) (emptyOpts\<lparr>PodSyncWorkers := 3\<rparr>) = Inr c'"
    by (simp add: SetDefaultOpts_def default_port_def env_Getenv_def plain_env_def emptyOpts_def)
  then obtain c' where c': "SetDefaultOpts (plain_env []) (emptyOpts\<lparr>PodSyncWorkers := 3\<rparr>) = Inr c'" by blast
  show ?thesis using defaults_keep_set_options [OF c'] c' by simp
qed

lemma int32_id: "int32 p = p \<longleftrightarrow> - (2 ^ 31) \<le> p \<and> p < 2 ^ 31"
proof
  assume "int32 p = p"
  then have "(p + 2 ^ 31) mod 2 ^ 32 = p + 2 ^ 31" by (simp add: int32_def)
  moreover have "0 \<le> (p + 2 ^ 31) mod (2 ^ 32 :: int)" "(p + 2 ^ 31) mod (2 ^ 32 :: int) < 2 ^ 32" by simp_all
  ultimately show "- (2 ^ 31) \<le> p \<and> p < 2 ^ 31" by simp
next
  assume "- (2 ^ 31) \<le> p \<and> p < 2 ^ 31"
  then show "int32 p = p" by (simp add: int32_def)
qed

text \<open>
  The port from the environment is not checked but cut to 32 bits: every number of 64 bits is accepted, and the port the kubelet listens on is that
  number exactly if it fits.
\<close>

theorem kubelet_port_wraps:
  assumes "LookupEnv env ''KUBELET_PORT'' = Some (Itoa p)" and "- (2 ^ 63) \<le> p" and "p < 2 ^ 63" and "ListenPort c = 0"
  shows "\<exists>c'. SetDefaultOpts env c = Inr c' \<and> - (2 ^ 31) \<le> ListenPort c' \<and> ListenPort c' < 2 ^ 31 \<and>
    (ListenPort c' = p \<longleftrightarrow> - (2 ^ 31) \<le> p \<and> p < 2 ^ 31)"
proof -
  have "default_port env (ListenPort c) = Inr (int32 p)"
    using assms by (simp add: default_port_def env_Getenv_def Atoi_Itoa)
  moreover have "- (2 ^ 31) \<le> int32 p" "int32 p < 2 ^ 31" by (simp_all add: int32_def)
  ultimately show ?thesis using int32_id [of p] by (simp add: SetDefaultOpts_def)
qed

theorem kubelet_port_wraps_witness:
  "\<exists>c'. SetDefaultOpts (plain_env [(''KUBELET_PORT'', Itoa 4294977546)]) emptyOpts = Inr c' \<and> ListenPort c' \<noteq> 4294977546"
  using kubelet_port_wraps [of "plain_env [(''KUBELET_PORT'', Itoa 4294977546)]" 4294977546 emptyOpts]
  by (auto simp: plain_env_def emptyOpts_def)

subsection \<open>Trace tags and rates\<close>

text \<open>
  The flag for trace tags panics for every well-formed tag: the command is made with default options, whose map of tags is nil.
\<close>

theorem trace_tag_flag_panics:
  assumes "SetDefaultOpts env emptyOpts = Inr c" and "CHR ''='' \<in> set s"
  shows "mapVar_Set s (Tags (TraceConfig c)) = Panic nil_map_write"
proof -
  have "Tags (TraceConfig c) = None"
    using assms(1) by (auto simp: SetDefaultOpts_def emptyOpts_def split: sum.splits)
  then show ?thesis using assms(2) by (simp add: mapVar_Set_def SplitN2_cases)
qed

theorem trace_tag_flag_panics_witness:
  "\<exists>c. SetDefaultOpts (plain_env []) emptyOpts = Inr c \<and> mapVar_Set ''team=a'' (Tags (TraceConfig c)) = Panic nil_map_write"
proof -
  have "\<exists>c. SetDefaultOpts (plain_env []) emptyOpts = Inr c"
    by (simp add: SetDefaultOpts_def default_port_def env_Getenv_def plain_env_def emptyOpts_def)
  then obtain c where c: "SetDefaultOpts (plain_env []) emptyOpts = Inr c" by blast
  then show ?thesis using trace_tag_flag_panics [OF c, of "''team=a''"] by simp
qed

text \<open>
  A trace sample rate outside of 0 to 100 is not refused: tracing is set up without an error, and without a sampler.
\<close>

theorem bad_sample_rate_is_accepted:
  assumes "TraceSampleRate c = Itoa rate" and "- (2 ^ 63) \<le> rate" and "rate < 2 ^ 63" and "rate < 0 \<or> 100 < rate"
    and "list_all (\<lambda>k. k \<notin> set reservedTagNames) (map fst (case Tags (TraceConfig c) of None \<Rightarrow> [] | Some m \<Rightarrow> m))"
    and "TraceExporters c = [''zpages'']"
  shows "setupTracing es c ts = (ts\<lparr>zpages_set_up := True\<rparr>, None)"
proof -
  have "List.find (\<lambda>k. k \<in> set reservedTagNames) (map fst (case Tags (TraceConfig c) of None \<Rightarrow> [] | Some m \<Rightarrow> m)) = None"
    using assms(5) by (auto simp: find_None_iff list_all_iff)
  moreover have "Itoa rate \<noteq> ''always''" "Itoa rate \<noteq> ''never''"
    using Atoi_Itoa [OF assms(2,3)] by (auto simp: Atoi_def digit_of_def)
  then have "samplerFor (TraceSampleRate c) = (None, None, True)"
    using assms(1,4) Atoi_Itoa [OF assms(2,3)] by (auto simp: samplerFor_def Let_def)
  ultimately show ?thesis using assms(6) by (simp add: setupTracing_def Let_def)
qed

definition bad_rate_opts :: Opts where
  "bad_rate_opts = emptyOpts\<lparr>TraceExporters := [''zpages''], TraceSampleRate := Itoa 101\<rparr>"

theorem bad_sample_rate_is_accepted_witness:
  "setupTracing ([] :: (TracingExporterOptions \<Rightarrow> unit result) exporters) bad_rate_opts
     \<lparr>registered_exporters = [], default_sampler = None, zpages_set_up = False\<rparr> =
   (\<lparr>registered_exporters = [], default_sampler = None, zpages_set_up = True\<rparr>, None)"
  using bad_sample_rate_is_accepted [of bad_rate_opts 101 "[]" "\<lparr>registered_exporters = [], default_sampler = None, zpages_set_up = False\<rparr>"]
  by (simp add: bad_rate_opts_def emptyOpts_def)

subsection \<open>Servers are closed\<close>

definition all_closed :: "http_effect list \<Rightarrow> bool" where
  "all_closed es = (\<forall>s. Serve s \<in> set es \<longrightarrow> CloseServer s \<in> set es)"

lemma setupHTTPServer_cases:
  "case setupHTTPServer h cfg of
     (es, Inl err) \<Rightarrow> all_closed es
   | (es, Inr closers) \<Rightarrow> es = map Serve closers"
  by (auto simp: setupHTTPServer_def all_closed_def Let_def split: sum.splits option.splits)

lemma startControllers_closed: "startControllers lib c pNode nc = (es, RootFailed err) \<Longrightarrow> all_closed es"
proof -
  assume run: "startControllers lib c pNode nc = (es, RootFailed err)"
  obtain es0 r where set: "setupHTTPServer (http lib) (getAPIConfig (root_env lib) c) = (es0, r)" by fastforce
  show "all_closed es"
  proof (cases r)
    case (Inl e)
    then show ?thesis using run set setupHTTPServer_cases [of "http lib" "getAPIConfig (root_env lib) c"] by (simp add: startControllers_def)
  next
    case (Inr closers)
    then have "es0 = map Serve closers" using set setupHTTPServer_cases [of "http lib" "getAPIConfig (root_env lib) c"] by simp
    moreover have "es = es0 @ map CloseServer closers"
      using run set Inr by (auto simp: startControllers_def Let_def split: if_splits startup.splits option.splits)
    ultimately show ?thesis by (auto simp: all_closed_def)
  qed
qed

text \<open>What a run that reaches the controllers has passed.\<close>

definition options_ok :: "('p, 'x, 'c, 's) root_lib \<Rightarrow> Opts \<Rightarrow> bool" where
  "options_ok lib c = (OperatingSystem c \<in> set ValidOperatingSystems \<and> PodSyncWorkers c \<noteq> 0 \<and> store_Get (provider_store lib) (ProviderName c) \<noteq> None \<and>
     ClientsetFromEnv (kube lib) (KubeConfigPath c) = None)"

definition taint_of :: "('p, 'x, 'c, 's) root_lib \<Rightarrow> Opts \<Rightarrow> Taint option" where
  "taint_of lib c = (if DisableTaint c then None else (case getTaint (root_env lib) c of Inl err \<Rightarrow> None | Inr t \<Rightarrow> Some t))"

lemma startNode_cases:
  assumes "startNode lib c taint p = Val (es, r)"
  shows "(es = [] \<and> (\<forall>st. r \<noteq> Initialized st)) \<or>
    (\<exists>pNode nc. NodeFromProvider (ConfigureNode lib p) (o_NodeName c) taint (o_Version c) = Val pNode \<and>
      NewNodeController pNode (cluster lib) (node_opts lib c pNode) = Val (Inr nc) \<and> startControllers lib c pNode nc = (es, r))"
proof -
  obtain pNode nr where n: "NodeFromProvider (ConfigureNode lib p) (o_NodeName c) taint (o_Version c) = Val pNode"
      "NewNodeController pNode (cluster lib) (node_opts lib c pNode) = Val nr"
    using assms unfolding startNode_def obind_Val_iff by blast
  show ?thesis
  proof (cases nr)
    case (Inl err)
    then show ?thesis using assms n by (auto simp: startNode_def simp del: obind_Val_iff)
  next
    case (Inr nc)
    then show ?thesis
      using assms n by (cases "NewPodController lib"; cases nc) (auto simp: startNode_def simp del: obind_Val_iff)
  qed
qed

lemma runRootCommand_cases:
  assumes "runRootCommand lib c ts = Val (es, r)"
  shows "(es = [] \<and> (\<forall>st. r \<noteq> Initialized st)) \<or>
    (\<exists>pInit p. options_ok lib c \<and> store_Get (provider_store lib) (ProviderName c) = Some pInit \<and> pInit (init_config (root_env lib) c) = Inr p \<and>
      (DisableTaint c \<or> (\<exists>t. getTaint (root_env lib) c = Inr t)) \<and> startNode lib c (taint_of lib c) p = Val (es, r))"
  using assms unfolding runRootCommand_def Let_def options_ok_def taint_of_def
  by (auto split: if_splits sum.splits option.splits prod.splits)


lemma startControllers_Initialized:
  assumes "startControllers lib c pNode nc = (es, Initialized st)"
  shows "kubelet_node st = setNodeReady (start_time lib) pNode \<and> node_runner st = nc \<and> es = map Serve (open_servers st)"
proof -
  obtain es0 r where set: "setupHTTPServer (http lib) (getAPIConfig (root_env lib) c) = (es0, r)" by fastforce
  with assms obtain closers where r: "r = Inr closers" by (cases r) (auto simp: startControllers_def)
  have "es0 = map Serve closers" using set r setupHTTPServer_cases [of "http lib" "getAPIConfig (root_env lib) c"] by simp
  then show ?thesis
    using assms set r by (auto simp: startControllers_def Let_def split: if_splits startup.splits option.splits)
qed


text \<open>A kubelet with the mock provider; its metrics address is free or taken.\<close>

definition sample_root :: "goerror option \<Rightarrow> (MockProvider, unit, unit, nat) root_lib" where
  "sample_root metrics = \<lparr>root_env = plain_env [(''APISERVER_CERT_LOCATION'', ''c''), (''APISERVER_KEY_LOCATION'', ''k'')],
     kube = \<lparr>os_Stat = (\<lambda>p. StatNotExist), InClusterConfig = Inr (), LoadConfig = (\<lambda>p. Inr ()), NewForConfig = (\<lambda>c. None)\<rparr>,
     provider_store = main_store (\<lambda>cfg. Inr sample_mock) (\<lambda>cfg. Inl (ErrorString ''no configuration'')), trace_exporters = [],
     ConfigureNode = (\<lambda>p. mock_ConfigureNode (\<lambda>s. Some 20000) 5 p), NewPodController = None,
     http = \<lparr>LoadX509KeyPair = (\<lambda>c k. None), tls_Listen = (\<lambda>a. None), net_Listen = (\<lambda>a. metrics)\<rparr>,
     startup_wait = PodControllerReady None, start_time = 9, k8s_IsNotFound = (\<lambda>e. False), CreateNode = (\<lambda>n s. (s, None)), cluster = 0\<rparr>"

definition sample_opts :: Opts where
  "sample_opts = emptyOpts\<lparr>OperatingSystem := ''Linux'', o_NodeName := ''n'', ProviderName := ''mock'', PodSyncWorkers := 10, MetricsAddr := '':1'', ListenPort := 2,
     EnableNodeLease := True, o_TaintEffect := ''NoExecute''\<rparr>"

definition sample_trace :: "unit trace_state" where
  "sample_trace = \<lparr>registered_exporters = [], default_sampler = None, zpages_set_up = False\<rparr>"

lemma sample_configurer: "\<exists>os. node_configurer (ConfigureNode (sample_root m) p) os"
proof -
  have "\<exists>cap. mock_capacity (\<lambda>s. Some 20000) (config p) = Val cap" by (simp add: mock_capacity_def MustParse_def del: obind_Val_iff)
  then show ?thesis using mock_node_configurer by (fastforce simp: sample_root_def)
qed

lemma sample_start:
  "case runRootCommand (sample_root None) sample_opts sample_trace of
     Val (es, Initialized st) \<Rightarrow> es = [Serve (PodServer '':2''), Serve (MetricsServer '':1'')] | _ \<Rightarrow> False"
  by code_simp

lemma sample_failure:
  "case runRootCommand (sample_root (Some (ErrorString ''in use''))) sample_opts sample_trace of
     Val (es, RootFailed err) \<Rightarrow> es = [Serve (PodServer '':2''), CloseServer (PodServer '':2'')] | _ \<Rightarrow> False"
  by code_simp



end
