(* ===== verification/Main_Command.thy ===== *)
theory Main_Command
  imports Root_Props
begin

text \<open>
  The program's entry (\<open>src/cmd/virtual-kubelet/main.go\<close>): the flags of the root command (\<open>installFlags\<close>), the subcommands \<open>version\<close> and \<open>providers\<close>, what runs before a command and how the process ends. The flag library (pflag) is a
  parameter for the values it parses; a command line is the command that cobra has found, the flags in their order and the remaining arguments.
\<close>

subsection \<open>Flags\<close>

text \<open>A flag is bound to a field: its current value is the default of the flag. The flags of klog, which belong to that library and touch no option, are left out.\<close>

datatype flag_var =
    StringVar "Opts \<Rightarrow> string" "string \<Rightarrow> Opts \<Rightarrow> Opts"
  | BoolVar "Opts \<Rightarrow> bool" "bool \<Rightarrow> Opts \<Rightarrow> Opts"
  | IntVar "Opts \<Rightarrow> int" "int \<Rightarrow> Opts \<Rightarrow> Opts"
  | DurationVar "Opts \<Rightarrow> int" "int \<Rightarrow> Opts \<Rightarrow> Opts"
  | StringSliceVar "Opts \<Rightarrow> string list" "string list \<Rightarrow> Opts \<Rightarrow> Opts"
  | TagsVar

definition installFlags :: "(string \<times> flag_var) list" where
  "installFlags =
    [(''kubeconfig'', StringVar KubeConfigPath (\<lambda>v c. c\<lparr>KubeConfigPath := v\<rparr>)),
     (''namespace'', StringVar KubeNamespace (\<lambda>v c. c\<lparr>KubeNamespace := v\<rparr>)),
     (''cluster-domain'', StringVar KubeClusterDomain (\<lambda>v c. c\<lparr>KubeClusterDomain := v\<rparr>)),
     (''nodename'', StringVar o_NodeName (\<lambda>v c. c\<lparr>o_NodeName := v\<rparr>)),
     (''os'', StringVar OperatingSystem (\<lambda>v c. c\<lparr>OperatingSystem := v\<rparr>)),
     (''provider'', StringVar ProviderName (\<lambda>v c. c\<lparr>ProviderName := v\<rparr>)),
     (''provider-config'', StringVar ProviderConfigPath (\<lambda>v c. c\<lparr>ProviderConfigPath := v\<rparr>)),
     (''metrics-addr'', StringVar MetricsAddr (\<lambda>v c. c\<lparr>MetricsAddr := v\<rparr>)),
     (''taint'', StringVar o_TaintKey (\<lambda>v c. c\<lparr>o_TaintKey := v\<rparr>)),
     (''disable-taint'', BoolVar DisableTaint (\<lambda>v c. c\<lparr>DisableTaint := v\<rparr>)),
     (''pod-sync-workers'', IntVar PodSyncWorkers (\<lambda>v c. c\<lparr>PodSyncWorkers := v\<rparr>)),
     (''enable-node-lease'', BoolVar EnableNodeLease (\<lambda>v c. c\<lparr>EnableNodeLease := v\<rparr>)),
     (''trace-exporter'', StringSliceVar TraceExporters (\<lambda>v c. c\<lparr>TraceExporters := v\<rparr>)),
     (''trace-service-name'', StringVar (\<lambda>c. trace_ServiceName (TraceConfig c)) (\<lambda>v c. c\<lparr>TraceConfig := (TraceConfig c)\<lparr>trace_ServiceName := v\<rparr>\<rparr>)),
     (''trace-tag'', TagsVar),
     (''trace-sample-rate'', StringVar TraceSampleRate (\<lambda>v c. c\<lparr>TraceSampleRate := v\<rparr>)),
     (''full-resync-period'', DurationVar InformerResyncPeriod (\<lambda>v c. c\<lparr>InformerResyncPeriod := v\<rparr>)),
     (''startup-timeout'', DurationVar StartupTimeout (\<lambda>v c. c\<lparr>StartupTimeout := v\<rparr>)),
     (''stream-idle-timeout'', DurationVar o_StreamIdleTimeout (\<lambda>v c. c\<lparr>o_StreamIdleTimeout := v\<rparr>)),
     (''stream-creation-timeout'', DurationVar o_StreamCreationTimeout (\<lambda>v c. c\<lparr>o_StreamCreationTimeout := v\<rparr>))]"

text \<open>What pflag parses a value to.\<close>

record flag_lib =
  flag_Bool :: "string \<Rightarrow> bool result"
  flag_Int :: "string \<Rightarrow> int result"
  flag_Duration :: "string \<Rightarrow> int result"
  flag_CSV :: "string \<Rightarrow> string list result"

text \<open>Setting one flag; \<open>changed\<close> says that it was set before, which matters for a slice: the first value replaces the default, later ones are appended.\<close>

fun setFlag :: "flag_lib \<Rightarrow> bool \<Rightarrow> string \<Rightarrow> flag_var \<Rightarrow> Opts \<Rightarrow> (Opts result) outcome" where
  "setFlag lib changed val (StringVar get put) c = Val (Inr (put val c))"
| "setFlag lib changed val (BoolVar get put) c = Val (map_sum id (\<lambda>v. put v c) (flag_Bool lib val))"
| "setFlag lib changed val (IntVar get put) c = Val (map_sum id (\<lambda>v. put v c) (flag_Int lib val))"
| "setFlag lib changed val (DurationVar get put) c = Val (map_sum id (\<lambda>v. put v c) (flag_Duration lib val))"
| "setFlag lib changed val (StringSliceVar get put) c = Val (map_sum id (\<lambda>v. put (if changed then get c @ v else v) c) (flag_CSV lib val))"
| "setFlag lib changed val TagsVar c =
     obind (mapVar_Set val (Tags (TraceConfig c))) (\<lambda>(tags, err).
       Val (case err of Some e \<Rightarrow> Inl e | None \<Rightarrow> Inr (c\<lparr>TraceConfig := (TraceConfig c)\<lparr>Tags := tags\<rparr>\<rparr>)))"

fun parseFlags :: "flag_lib \<Rightarrow> (string \<times> flag_var) list \<Rightarrow> (string \<times> string) list \<Rightarrow> string list \<Rightarrow> Opts \<Rightarrow> (Opts result) outcome" where
  "parseFlags lib flags [] changed c = Val (Inr c)"
| "parseFlags lib flags ((name, val) # rest) changed c =
     (case map_of flags name of
        None \<Rightarrow> Val (Inl (ErrorString (''unknown flag: --'' @ name)))
      | Some f \<Rightarrow>
          obind (setFlag lib (name \<in> set changed) val f c) (\<lambda>r.
            case r of
              Inl err \<Rightarrow> Val (Inl err)
            | Inr c' \<Rightarrow> parseFlags lib flags rest (name # changed) c'))"

subsection \<open>The commands\<close>

text \<open>What a command prints and how it ends: it returns an error or not, or exits.\<close>

datatype cmd_end = CmdReturns "goerror option" | CmdExits nat

definition version_Run :: "string \<Rightarrow> string \<Rightarrow> string list \<times> cmd_end" where
  "version_Run version buildTime = ([''Version: '' @ version @ '', Built: '' @ buildTime], CmdReturns None)"

definition providers_Run :: "'f Store \<Rightarrow> string list \<Rightarrow> string list \<times> cmd_end" where
  "providers_Run s args =
     (case args of
        [] \<Rightarrow> (store_List s, CmdReturns None)
      | [a] \<Rightarrow> if \<not> Exists s a then ([''no such provider '' @ a], CmdExits 1) else ([a], CmdReturns None)
      | _ \<Rightarrow> ([], CmdReturns None))"

datatype command = RootCmd | VersionCmd | ProvidersCmd

record cmdline =
  cl_command :: command
  cl_logLevel :: "string option"       \<comment> \<open>the persistent flag \<open>log-level\<close>\<close>
  cl_flags :: "(string \<times> string) list"
  cl_args :: "string list"

definition preRunLogLevel :: "(string \<Rightarrow> goerror option) \<Rightarrow> string option \<Rightarrow> goerror option" where
  "preRunLogLevel parseLevel flag =
     (let logLevel = (case flag of None \<Rightarrow> ''info'' | Some l \<Rightarrow> l) in
      if logLevel \<noteq> [] then pkg_Wrap (parseLevel logLevel) ''could not parse log level'' else None)"

text \<open>How a command that ran \<open>runRootCommand\<close> ends: once initialized it waits for the end of its context and returns nil.\<close>

definition root_RunE :: "('p, 'x, 'c, 's) root_lib \<Rightarrow> 'x trace_state \<Rightarrow> Opts \<Rightarrow> cmd_end outcome" where
  "root_RunE lib ts c =
     obind (runRootCommand lib c ts) (\<lambda>(es, r).
       Val (case r of RootFailed err \<Rightarrow> CmdReturns (Some err) | RootFatal err \<Rightarrow> CmdExits 1 | Initialized st \<Rightarrow> CmdReturns None))"

text \<open>\<open>pkg/errors.Cause\<close>.\<close>

function errors_Cause :: "goerror option \<Rightarrow> goerror option" where
  "errors_Cause None = None"
| "errors_Cause (Some err) = (case causeMethod err of Some c \<Rightarrow> errors_Cause c | None \<Rightarrow> Some err)"
  by pat_completeness auto
termination
  by (relation "measure (\<lambda>e. case e of None \<Rightarrow> 0 | Some x \<Rightarrow> Suc (size x))") (auto split: option.splits dest: causeMethod_size)

definition main_version :: "string \<Rightarrow> string \<Rightarrow> string" where
  "main_version k8sVersion buildVersion = k8sVersion @ ''-native-kubelet-vk-'' @ buildVersion"

record main_lib =
  parseLevel :: "string \<Rightarrow> goerror option"
  flags :: flag_lib
  buildVersion :: string
  buildTime :: string
  k8sVersion :: string

text \<open>
  \<open>Execute\<close>: flags are parsed, the persistent pre-run sets the log level, the pre-run of the root command reports the error of the defaults, the command runs. The options of a failed \<open>SetDefaultOpts\<close> are not used.
\<close>

definition execute :: "main_lib \<Rightarrow> ('p, 'x, 'c, 's) root_lib \<Rightarrow> 'x trace_state \<Rightarrow> cmdline \<Rightarrow> (string list \<times> cmd_end) outcome" where
  "execute ml lib ts cl =
     (let fail = (\<lambda>err. Val ([], CmdReturns (Some err)));
          optsErr = (case SetDefaultOpts (root_env lib) emptyOpts of Inl err \<Rightarrow> Some err | Inr c \<Rightarrow> None);
          opts = (case SetDefaultOpts (root_env lib) emptyOpts of Inl err \<Rightarrow> emptyOpts | Inr c \<Rightarrow> c)\<lparr>o_Version := main_version (k8sVersion ml) (buildVersion ml)\<rparr> in
      obind (parseFlags (flags ml) (if cl_command cl = RootCmd then installFlags else []) (cl_flags cl) [] opts) (\<lambda>r.
        case r of
          Inl err \<Rightarrow> fail err
        | Inr c \<Rightarrow>
            if cl_command cl = ProvidersCmd \<and> length (cl_args cl) > 2 then fail (ErrorString ''accepts at most 2 arg(s)'')
            else (case preRunLogLevel (parseLevel ml) (cl_logLevel cl) of
              Some err \<Rightarrow> fail err
            | None \<Rightarrow>
                (case cl_command cl of
                   VersionCmd \<Rightarrow> Val (version_Run (buildVersion ml) (buildTime ml))
                 | ProvidersCmd \<Rightarrow> Val (providers_Run (provider_store lib) (cl_args cl))
                 | RootCmd \<Rightarrow> (case optsErr of Some err \<Rightarrow> fail err | None \<Rightarrow> obind (root_RunE lib ts c) (\<lambda>e. Val ([], e)))))))"

text \<open>The exit code of the process: an error that is not the end of the context is fatal.\<close>

definition main_exit :: "main_lib \<Rightarrow> ('p, 'x, 'c, 's) root_lib \<Rightarrow> 'x trace_state \<Rightarrow> cmdline \<Rightarrow> (string list \<times> nat) outcome" where
  "main_exit ml lib ts cl =
     obind (execute ml lib ts cl) (\<lambda>(out, e).
       Val (out, case e of CmdExits n \<Rightarrow> n | CmdReturns None \<Rightarrow> 0 | CmdReturns (Some err) \<Rightarrow> if errors_Cause (Some err) \<noteq> Some CtxCanceled then 1 else 0))"

subsection \<open>Flags set their options\<close>

lemma setFlag_put:
  assumes "setFlag lib changed v f c = Val (Inr c1)"
  shows "(\<exists>get put. f = StringVar get put \<and> c1 = put v c) \<or> (\<exists>get put b. f = BoolVar get put \<and> flag_Bool lib v = Inr b \<and> c1 = put b c) \<or>
    (\<exists>get put i. f = IntVar get put \<and> flag_Int lib v = Inr i \<and> c1 = put i c) \<or> (\<exists>get put d. f = DurationVar get put \<and> flag_Duration lib v = Inr d \<and> c1 = put d c) \<or>
    (\<exists>get put l. f = StringSliceVar get put \<and> c1 = put l c) \<or> (\<exists>t. f = TagsVar \<and> c1 = c\<lparr>TraceConfig := (TraceConfig c)\<lparr>Tags := t\<rparr>\<rparr>)"
  using assms by (cases f) (auto simp: map_sum_def split: sum.splits option.splits)

text \<open>The value a flag is bound to, and what pflag makes of a text for it. \<open>None\<close> for the two flags whose values add up.\<close>

datatype opt_value = OString string | OBool bool | OInt int

fun flag_value :: "flag_var \<Rightarrow> Opts \<Rightarrow> opt_value option" where
  "flag_value (StringVar get put) c = Some (OString (get c))"
| "flag_value (BoolVar get put) c = Some (OBool (get c))"
| "flag_value (IntVar get put) c = Some (OInt (get c))"
| "flag_value (DurationVar get put) c = Some (OInt (get c))"
| "flag_value _ c = None"

fun flag_parse :: "flag_lib \<Rightarrow> flag_var \<Rightarrow> string \<Rightarrow> opt_value option" where
  "flag_parse lib (StringVar get put) v = Some (OString v)"
| "flag_parse lib (BoolVar get put) v = (case flag_Bool lib v of Inr b \<Rightarrow> Some (OBool b) | Inl e \<Rightarrow> None)"
| "flag_parse lib (IntVar get put) v = (case flag_Int lib v of Inr i \<Rightarrow> Some (OInt i) | Inl e \<Rightarrow> None)"
| "flag_parse lib (DurationVar get put) v = (case flag_Duration lib v of Inr d \<Rightarrow> Some (OInt d) | Inl e \<Rightarrow> None)"
| "flag_parse lib _ v = None"

text \<open>A flag writes the field it reads and no field of another flag.\<close>

definition keeps_others :: "string \<Rightarrow> Opts \<Rightarrow> Opts \<Rightarrow> bool" where
  "keeps_others n c c1 = list_all (\<lambda>(m, g). m = n \<or> flag_value g c1 = flag_value g c) installFlags"

fun flag_frame :: "string \<times> flag_var \<Rightarrow> bool" where
  "flag_frame (n, StringVar get put) = (\<forall>v c. get (put v c) = v \<and> keeps_others n c (put v c))"
| "flag_frame (n, BoolVar get put) = (\<forall>v c. get (put v c) = v \<and> keeps_others n c (put v c))"
| "flag_frame (n, IntVar get put) = (\<forall>v c. get (put v c) = v \<and> keeps_others n c (put v c))"
| "flag_frame (n, DurationVar get put) = (\<forall>v c. get (put v c) = v \<and> keeps_others n c (put v c))"
| "flag_frame (n, StringSliceVar get put) = (\<forall>v c. get (put v c) = v \<and> keeps_others n c (put v c))"
| "flag_frame (n, TagsVar) = (\<forall>t c. keeps_others n c (c\<lparr>TraceConfig := (TraceConfig c)\<lparr>Tags := t\<rparr>\<rparr>))"

lemma flags_framed: "list_all flag_frame installFlags"
  by (simp add: installFlags_def keeps_others_def)

lemma flag_names_distinct: "distinct (map fst installFlags)"
  by (simp add: installFlags_def)

fun flag_unbound :: "flag_var \<Rightarrow> bool" where
  "flag_unbound (StringVar get put) = (\<forall>v c. ListenPort (put v c) = ListenPort c \<and> o_TaintEffect (put v c) = o_TaintEffect c \<and> o_Version (put v c) = o_Version c)"
| "flag_unbound (BoolVar get put) = (\<forall>v c. ListenPort (put v c) = ListenPort c \<and> o_TaintEffect (put v c) = o_TaintEffect c \<and> o_Version (put v c) = o_Version c)"
| "flag_unbound (IntVar get put) = (\<forall>v c. ListenPort (put v c) = ListenPort c \<and> o_TaintEffect (put v c) = o_TaintEffect c \<and> o_Version (put v c) = o_Version c)"
| "flag_unbound (DurationVar get put) = (\<forall>v c. ListenPort (put v c) = ListenPort c \<and> o_TaintEffect (put v c) = o_TaintEffect c \<and> o_Version (put v c) = o_Version c)"
| "flag_unbound (StringSliceVar get put) = (\<forall>v c. ListenPort (put v c) = ListenPort c \<and> o_TaintEffect (put v c) = o_TaintEffect c \<and> o_Version (put v c) = o_Version c)"
| "flag_unbound TagsVar = True"

lemma flags_unbound: "list_all (\<lambda>(n, f). flag_unbound f) installFlags"
  by (simp add: installFlags_def)

lemma set_keeps_unbound:
  assumes "map_of installFlags n = Some f" "setFlag lib changed v f c = Val (Inr c1)"
  shows "(ListenPort c1, o_TaintEffect c1, o_Version c1) = (ListenPort c, o_TaintEffect c, o_Version c)"
proof -
  have "flag_unbound f" using flags_unbound map_of_SomeD [OF assms(1)] by (auto simp: list_all_iff)
  then show ?thesis using setFlag_put [OF assms(2)] by auto
qed

lemma flag_step:
  assumes f: "map_of installFlags n = Some f" and g: "map_of installFlags m = Some g" and set: "setFlag lib changed v f c = Val (Inr c1)"
  shows "flag_value g c1 = (if m = n then flag_parse lib g v else flag_value g c)"
proof -
  have frame: "flag_frame (n, f)" using flags_framed map_of_SomeD [OF f] by (auto simp: list_all_iff)
  have others: "keeps_others n c c1" using frame setFlag_put [OF set] by auto
  show ?thesis
  proof (cases "m = n")
    case True
    then have "g = f" using f g by simp
    then show ?thesis using True frame setFlag_put [OF set] by auto
  next
    case False
    then show ?thesis using others map_of_SomeD [OF g] by (auto simp: keeps_others_def list_all_iff)
  qed
qed

text \<open>
  The flags of the command line set exactly their options. If parsing succeeds, then for every flag of a text, a boolean, a number or a duration, its option has the value that the flag library gives to the last setting of this flag, and is
  unchanged, so that it keeps its default or the environment's value, when the flag is not given, whatever other flags are; the options without a flag keep their values, and every flag given exists.
\<close>

theorem flags_set_their_options:
  assumes "parseFlags lib installFlags settings [] c = Val (Inr c')"
  shows "(\<forall>name f. map_of installFlags name = Some f \<longrightarrow>
      flag_value f c' = (case map_of (rev settings) name of None \<Rightarrow> flag_value f c | Some v \<Rightarrow> flag_parse lib f v)) \<and>
    ListenPort c' = ListenPort c \<and> o_TaintEffect c' = o_TaintEffect c \<and> o_Version c' = o_Version c \<and> fst ` set settings \<subseteq> fst ` set installFlags"
proof -
  have "(\<forall>name f. map_of installFlags name = Some f \<longrightarrow>
      flag_value f c' = (case map_of (rev settings) name of None \<Rightarrow> flag_value f c | Some v \<Rightarrow> flag_parse lib f v)) \<and>
    (ListenPort c', o_TaintEffect c', o_Version c') = (ListenPort c, o_TaintEffect c, o_Version c) \<and> fst ` set settings \<subseteq> fst ` set installFlags"
    if "parseFlags lib installFlags settings changed c = Val (Inr c')" for changed
    using that
  proof (induction settings arbitrary: changed c)
    case (Cons s rest)
    obtain n v where s: "s = (n, v)" by (cases s)
    obtain f where f: "map_of installFlags n = Some f" using Cons.prems s by (auto split: option.splits)
    then obtain r where r: "setFlag lib (n \<in> set changed) v f c = Val r" "(case r of Inl err \<Rightarrow> Val (Inl err) | Inr c1 \<Rightarrow> parseFlags lib installFlags rest (n # changed) c1) = Val (Inr c')"
      using Cons.prems s by auto
    then obtain c1 where set: "setFlag lib (n \<in> set changed) v f c = Val (Inr c1)" and rest: "parseFlags lib installFlags rest (n # changed) c1 = Val (Inr c')"
      by (cases r) simp_all
    have kept: "(ListenPort c1, o_TaintEffect c1, o_Version c1) = (ListenPort c, o_TaintEffect c, o_Version c)"
      by (rule set_keeps_unbound [OF f set])
    have "flag_value g c' = (case map_of (rev (s # rest)) m of None \<Rightarrow> flag_value g c | Some v \<Rightarrow> flag_parse lib g v)" if g: "map_of installFlags m = Some g" for m g
      using Cons.IH [OF rest] g flag_step [OF f g set] s by (auto simp: map_add_def split: option.splits)
    then show ?case using Cons.IH [OF rest] kept f s by (auto dest: map_of_SomeD intro: rev_image_eqI)
  qed simp
  then show ?thesis using assms by auto
qed

definition plain_flags :: flag_lib where
  "plain_flags = \<lparr>flag_Bool = (\<lambda>s. Inr (s = ''true'')), flag_Int = Atoi, flag_Duration = (\<lambda>s. Inl (ErrorString s)), flag_CSV = (\<lambda>s. Inr [s])\<rparr>"

theorem flags_set_their_options_witness:
  "\<exists>c'. parseFlags plain_flags installFlags [(''nodename'', ''a''), (''provider'', ''mock''), (''nodename'', ''b'')] [] emptyOpts = Val (Inr c') \<and>
     o_NodeName c' = ''b'' \<and> ProviderName c' = ''mock'' \<and> KubeConfigPath c' = []"
proof -
  let ?s = "[(''nodename'', ''a''), (''provider'', ''mock''), (''nodename'', ''b'')]"
  obtain c' where c': "parseFlags plain_flags installFlags ?s [] emptyOpts = Val (Inr c')" by (simp add: installFlags_def)
  have "flag_value f c' = (case map_of (rev ?s) name of None \<Rightarrow> flag_value f emptyOpts | Some v \<Rightarrow> flag_parse plain_flags f v)"
    if "map_of installFlags name = Some f" for name f using flags_set_their_options [OF c'] that by blast
  from this [of "''nodename''"] this [of "''provider''"] this [of "''kubeconfig''"] show ?thesis
    using c' by (auto simp: installFlags_def emptyOpts_def)
qed

subsection \<open>The end of the process\<close>

text \<open>\<open>version\<close> and \<open>providers\<close> do not need the options: they work in an environment that the root command refuses.\<close>

lemma subcommands_ignore_options:
  assumes "cl_command cl \<noteq> RootCmd" "cl_flags cl = []" "preRunLogLevel (parseLevel ml) (cl_logLevel cl) = None"
  shows "execute ml lib ts cl =
    (if cl_command cl = VersionCmd then Val (version_Run (buildVersion ml) (buildTime ml))
     else if length (cl_args cl) > 2 then Val ([], CmdReturns (Some (ErrorString ''accepts at most 2 arg(s)'')))
     else Val (providers_Run (provider_store lib) (cl_args cl)))"
  using assms by (cases "cl_command cl") (auto simp: execute_def Let_def)

text \<open>The process ends with 0 exactly when its command returned nil or the end of the context, wrapped or not.\<close>

lemma main_exit_zero_iff:
  assumes "execute ml lib ts cl = Val (out, CmdReturns err)"
  shows "\<exists>n. main_exit ml lib ts cl = Val (out, n) \<and> (n = 0 \<longleftrightarrow> err = None \<or> errors_Cause err = Some CtxCanceled)"
  using assms by (cases err) (auto simp: main_exit_def)

lemma cause_of_wrapped: "errors_Cause (Some (WithMessage m e)) = errors_Cause (Some e)"
  by simp

end
