(* ===== verification/Kubelet_Lifecycle.thy ===== *)
theory Kubelet_Lifecycle
  imports Pod_Lifecycle Node_Lifecycle Main_Command
begin

text \<open>
  The whole process: the main goroutine from the end of \<open>setupHTTPServer\<close> in \<open>runRootCommand\<close> (\<open>root.go\<close>) to the exit of \<open>main\<close> (\<open>main.go\<close>), composed with the goroutines of the pod controller (\<open>Pod_Lifecycle\<close>) and of the node controller
  (\<open>Node_Lifecycle\<close>). They share the context of the command: a signal ends it, and so does the return of \<open>runRootCommand\<close>. The process ends when \<open>main\<close> returns, when a goroutine calls \<open>log.Fatal\<close>, or when one panics.
\<close>

subsection \<open>State\<close>

text \<open>
  Where the main goroutine is: before it starts the pod controller, in the \<open>select\<close> of the start-up wait, before \<open>pc.Err()\<close>, before it starts the node controller, before \<open>setNodeReady\<close>, waiting for the end of the context, returned.
\<close>

datatype main_place = MPods | MSelect | MErr | MNode | MReady | MServe | MReturned "goerror option"

record ('p, 'q, 'k, 'n, 's) kubelet =
  k_main :: main_place
  k_pods :: "('p, 'q, 'k) life"
  k_podsStarted :: bool
  k_node :: "('n, 's) nlife"
  k_nodeStarted :: bool
  k_servers :: "server list"
  k_obj :: Node
  k_ctx :: "goerror option"        \<comment> \<open>the end of the context\<close>
  k_startErr :: "goerror option"   \<comment> \<open>the end of the context of the start-up wait\<close>
  k_exit :: "nat option"           \<comment> \<open>the exit code of the process\<close>

text \<open>The parameters of a run: the provider, the queue implementation, the API server, and the options that matter here.\<close>

record ('p, 'q, 'n, 'np, 's) kubelet_env =
  ke_ops :: "'p PodLifecycleHandler"
  ke_wq :: "'q workqueue"
  ke_workers :: int                \<comment> \<open>\<open>PodSyncWorkers\<close>\<close>
  ke_nodes :: "('n, 'np) node_lib"
  ke_leases :: "'s lease_client"
  ke_fuel :: nat
  ke_startupWait :: bool           \<comment> \<open>\<open>StartupTimeout > 0\<close>\<close>

definition kubelet_start ::
    "server list \<Rightarrow> Node \<Rightarrow> ('p, 'q, 'k) pc_state \<Rightarrow> 'n NodeController \<Rightarrow> leaseController option \<Rightarrow> 's \<Rightarrow> node_provider \<Rightarrow> ('p, 'q, 'k, 'n, 's) kubelet" where
  "kubelet_start closers pNode st ctl lease leases np =
     \<lparr>k_main = MPods, k_pods = life_start st, k_podsStarted = False, k_node = node_start ctl lease leases np, k_nodeStarted = False, k_servers = closers, k_obj = pNode,
      k_ctx = None, k_startErr = None, k_exit = None\<rparr>"

subsection \<open>Moves\<close>

text \<open>\<open>cancel()\<close>: the contexts of the controllers and of the start-up wait are derived from the one that ends. A context keeps its first error.\<close>

definition cancelCtx :: "('p, 'q, 'k, 'n, 's) kubelet \<Rightarrow> ('p, 'q, 'k, 'n, 's) kubelet" where
  "cancelCtx s =
     (if k_ctx s \<noteq> None then s
      else s\<lparr>k_ctx := Some CtxCanceled, k_startErr := (if k_startErr s = None then Some CtxCanceled else k_startErr s),
        k_pods := (k_pods s)\<lparr>life.ctx_done := True\<rparr>, k_node := (k_node s)\<lparr>nl_ctx := Some CtxCanceled\<rparr>\<rparr>)"

text \<open>\<open>runRootCommand\<close> returns: the deferred functions close the servers and end the context.\<close>

definition returnMain :: "goerror option \<Rightarrow> ('p, 'q, 'k, 'n, 's) kubelet \<Rightarrow> ('p, 'q, 'k, 'n, 's) kubelet" where
  "returnMain err s = (cancelCtx s)\<lparr>k_servers := [], k_main := MReturned err\<rparr>"

text \<open>The exit code of \<open>main\<close> for the error of \<open>Execute\<close>.\<close>

definition exitCode :: "goerror option \<Rightarrow> nat" where
  "exitCode err = (if err \<noteq> None \<and> errors_Cause err \<noteq> Some CtxCanceled then 1 else 0)"

text \<open>One move of the main goroutine; \<open>seesDone\<close> says which case the \<open>select\<close> of the start-up wait takes, \<open>now\<close> is the time of \<open>setNodeReady\<close>. \<open>None\<close> while it is blocked.\<close>

definition mainAdvance :: "bool \<Rightarrow> bool \<Rightarrow> int \<Rightarrow> ('p, 'q, 'k, 'n, 's) kubelet \<Rightarrow> ('p, 'q, 'k, 'n, 's) kubelet option" where
  "mainAdvance startupWait seesDone now s =
     (case k_main s of
        MPods \<Rightarrow> Some (s\<lparr>k_podsStarted := True, k_main := (if startupWait then MSelect else MNode)\<rparr>)
      | MSelect \<Rightarrow>
          if seesDone then (if k_startErr s \<noteq> None then Some (returnMain (k_startErr s) s) else None)
          else (if ready_closed (k_pods s) then Some (s\<lparr>k_main := MErr\<rparr>) else None)
      | MErr \<Rightarrow> (case pc_err (k_pods s) of Some err \<Rightarrow> Some (returnMain (Some err) s) | None \<Rightarrow> Some (s\<lparr>k_main := MNode\<rparr>))
      | MNode \<Rightarrow> Some (s\<lparr>k_nodeStarted := True, k_main := MReady\<rparr>)
      | MReady \<Rightarrow> Some (s\<lparr>k_obj := setNodeReady now (k_obj s), k_main := MServe\<rparr>)
      | MServe \<Rightarrow> if k_ctx s \<noteq> None then Some (returnMain None s) else None
      | MReturned err \<Rightarrow> Some (s\<lparr>k_exit := Some (exitCode err)\<rparr>))"

definition panicked :: "('p, 'q, 'k, 'n, 's) kubelet \<Rightarrow> bool" where
  "panicked s = (crashed (k_pods s) \<or> nl_crash (k_node s) \<noteq> None)"

text \<open>The goroutines around \<open>pc.Run\<close> and \<open>nodeRunner.Run\<close> call \<open>log.Fatal\<close> on an error: the pod controller's only if it is not the end of the context.\<close>

definition podsFatal :: "('p, 'q, 'k, 'n, 's) kubelet \<Rightarrow> bool" where
  "podsFatal s = (place (k_pods s) = RunReturned \<and> pc_err (k_pods s) \<noteq> None \<and> errors_Cause (pc_err (k_pods s)) \<noteq> Some CtxCanceled)"

definition nodeFatal :: "('p, 'q, 'k, 'n, 's) kubelet \<Rightarrow> bool" where
  "nodeFatal s = (case nl_place (k_node s) of NReturn err \<Rightarrow> err \<noteq> None | _ \<Rightarrow> False)"

definition alive :: "('p, 'q, 'k, 'n, 's) kubelet \<Rightarrow> bool" where
  "alive s = (k_exit s = None \<and> \<not> panicked s)"

fun is_cancel :: "node_event \<Rightarrow> bool" where
  "is_cancel (NCancel err) = True"
| "is_cancel _ = False"

inductive kubelet_step :: "('p, 'q, 'n, 'np, 's) kubelet_env \<Rightarrow> bool \<Rightarrow> ('p, 'q, 'k, 'n, 's) kubelet \<Rightarrow> ('p, 'q, 'k, 'n, 's) kubelet \<Rightarrow> bool" for env where
  main: "alive s \<Longrightarrow> mainAdvance (ke_startupWait env) seesDone now s = Some s' \<Longrightarrow> kubelet_step env True s s'"
| pods: "alive s \<Longrightarrow> k_podsStarted s \<Longrightarrow> life_step (ke_ops env) (ke_wq env) (ke_workers env) (k_pods s) l \<Longrightarrow> kubelet_step env False s (s\<lparr>k_pods := l\<rparr>)"
| informer: "alive s \<Longrightarrow> k_podsStarted s \<Longrightarrow> life_event (ke_wq env) (k_pods s) l \<Longrightarrow> life.ctx_done l = life.ctx_done (k_pods s) \<Longrightarrow> kubelet_step env False s (s\<lparr>k_pods := l\<rparr>)"
| node: "alive s \<Longrightarrow> k_nodeStarted s \<Longrightarrow> \<not> is_cancel ev \<Longrightarrow> node_next (ke_nodes env) (ke_leases env) (ke_fuel env) ev (k_node s) = Some n \<Longrightarrow>
    kubelet_step env False s (s\<lparr>k_node := n\<rparr>)"
| signal: "alive s \<Longrightarrow> kubelet_step env False s (cancelCtx s)"
| deadline: "alive s \<Longrightarrow> k_main s = MSelect \<Longrightarrow> k_startErr s = None \<Longrightarrow> kubelet_step env False s (s\<lparr>k_startErr := Some CtxDeadlineExceeded\<rparr>)"
| fatal: "alive s \<Longrightarrow> podsFatal s \<or> nodeFatal s \<Longrightarrow> kubelet_step env False s (s\<lparr>k_exit := Some 1\<rparr>)"
| panic: "k_exit s = None \<Longrightarrow> panicked s \<Longrightarrow> kubelet_step env False s (s\<lparr>k_exit := Some 2\<rparr>)"

text \<open>Runs, with the number of moves of the main goroutine.\<close>

inductive kubelet_run :: "('p, 'q, 'n, 'np, 's) kubelet_env \<Rightarrow> ('p, 'q, 'k, 'n, 's) kubelet \<Rightarrow> nat \<Rightarrow> ('p, 'q, 'k, 'n, 's) kubelet \<Rightarrow> bool" for env where
  refl: "kubelet_run env s 0 s"
| step: "kubelet_run env s m s' \<Longrightarrow> kubelet_step env b s' s'' \<Longrightarrow> kubelet_run env s (if b then Suc m else m) s''"

subsection \<open>The invariant\<close>

definition startup_done :: "bool \<Rightarrow> ('p, 'q, 'k, 'n, 's) kubelet \<Rightarrow> bool" where
  "startup_done startupWait s = (startupWait \<longrightarrow> ready_closed (k_pods s))"

fun main_ok :: "bool \<Rightarrow> main_place \<Rightarrow> ('p, 'q, 'k, 'n, 's) kubelet \<Rightarrow> bool" where
  "main_ok w MPods s = (\<not> k_podsStarted s \<and> \<not> k_nodeStarted s)"
| "main_ok w MSelect s = (w \<and> k_podsStarted s \<and> \<not> k_nodeStarted s)"
| "main_ok w MErr s = (w \<and> k_podsStarted s \<and> \<not> k_nodeStarted s \<and> ready_closed (k_pods s))"
| "main_ok w MNode s = (k_podsStarted s \<and> \<not> k_nodeStarted s \<and> startup_done w s)"
| "main_ok w MReady s = (k_podsStarted s \<and> k_nodeStarted s \<and> startup_done w s)"
| "main_ok w MServe s = (k_podsStarted s \<and> k_nodeStarted s \<and> startup_done w s)"
| "main_ok w (MReturned err) s =
     (k_ctx s \<noteq> None \<and> k_servers s = [] \<and>
      (case err of None \<Rightarrow> k_podsStarted s \<and> k_nodeStarted s \<and> startup_done w s
       | Some e \<Rightarrow> w \<and> k_podsStarted s \<and> \<not> k_nodeStarted s \<and> (e = CtxCanceled \<or> e = CtxDeadlineExceeded)))"

definition exit_ok :: "('p, 'q, 'k, 'n, 's) kubelet \<Rightarrow> bool" where
  "exit_ok s =
     (case k_exit s of
        None \<Rightarrow> True
      | Some c \<Rightarrow>
          (\<exists>err. k_main s = MReturned err \<and> c = exitCode err) \<or> c = 1 \<and> \<not> panicked s \<and> (podsFatal s \<or> nodeFatal s) \<or> c = 2 \<and> panicked s)"

text \<open>The controllers are in reachable states and see the end of the context; a controller that has not been started has not moved.\<close>

definition contexts_ok :: "('p, 'q, 'n, 'np, 's) kubelet_env \<Rightarrow> ('p, 'q, 'k, 'n, 's) kubelet \<Rightarrow> bool" where
  "contexts_ok env s =
     (life_reachable (ke_ops env) (ke_wq env) (ke_workers env) (k_pods s) \<and> node_inv (k_node s) \<and>
      nl_ctx (k_node s) = k_ctx s \<and> (life.ctx_done (k_pods s) \<longleftrightarrow> k_ctx s \<noteq> None) \<and> (k_ctx s \<noteq> None \<longrightarrow> k_startErr s \<noteq> None) \<and>
      (k_startErr s = None \<or> k_startErr s = Some CtxCanceled \<or> k_startErr s = Some CtxDeadlineExceeded) \<and>
      (k_startErr s = Some CtxCanceled \<longrightarrow> k_ctx s \<noteq> None) \<and>
      (\<not> k_podsStarted s \<longrightarrow> place (k_pods s) = RunProvider) \<and> (\<not> k_nodeStarted s \<longrightarrow> nl_place (k_node s) = NBegin))"

definition kubelet_inv :: "('p, 'q, 'n, 'np, 's) kubelet_env \<Rightarrow> ('p, 'q, 'k, 'n, 's) kubelet \<Rightarrow> bool" where
  "kubelet_inv env s = (contexts_ok env s \<and> main_ok (ke_startupWait env) (k_main s) s \<and> exit_ok s)"

lemma finishRun_kept [simp]: "ready_closed (finishRun err l) = ready_closed l" "life.ctx_done l \<Longrightarrow> life.ctx_done (finishRun err l)"
  by (simp_all add: finishRun_def crash_def)

lemma life_step_mono:
  assumes "life_step ops w n l l'" "life_inv l"
  shows "(ready_closed l \<longrightarrow> ready_closed l') \<and> life.ctx_done l' = life.ctx_done l"
  using assms(1)
proof cases
  case (run env synced)
  then show ?thesis using assms(2) by (auto simp: runAdvance_def crash_def life_inv_def run_ok_def split: run_place.splits if_splits outcome.splits)
next
  case (dangling env i)
  then show ?thesis by (auto simp: danglingAdvance_def crash_def split: run_place.splits if_splits outcome.splits option.splits)
next
  case (queue x)
  then show ?thesis by (auto simp: queueAdvance_def crash_def set_run_def Let_def split: queue_place.splits if_splits outcome.splits prod.splits)
next
  case (worker env x i)
  then show ?thesis by (auto simp: workerAdvance_def crash_def set_run_def Let_def split: worker_place.splits if_splits outcome.splits option.splits prod.splits)
qed

lemma life_event_mono: "life_event w l l' \<Longrightarrow> ready_closed l' = ready_closed l"
  by (erule life_event.cases) auto

lemma main_ok_mono:
  assumes "main_ok w (k_main s) s" "k_podsStarted s' = k_podsStarted s" "k_nodeStarted s' = k_nodeStarted s" "ready_closed (k_pods s) \<longrightarrow> ready_closed (k_pods s')"
    and "k_ctx s \<noteq> None \<longrightarrow> k_ctx s' \<noteq> None" "k_servers s' = k_servers s"
  shows "main_ok w (k_main s) s'"
  using assms by (cases "k_main s") (auto simp: startup_done_def split: option.splits)

lemma cancelCtx_simps [simp]:
  "k_main (cancelCtx s) = k_main s" "k_podsStarted (cancelCtx s) = k_podsStarted s" "k_nodeStarted (cancelCtx s) = k_nodeStarted s" "k_servers (cancelCtx s) = k_servers s"
  "k_exit (cancelCtx s) = k_exit s" "k_ctx (cancelCtx s) \<noteq> None" "ready_closed (k_pods (cancelCtx s)) = ready_closed (k_pods s)"
  "place (k_pods (cancelCtx s)) = place (k_pods s)" "nl_place (k_node (cancelCtx s)) = nl_place (k_node s)"
  by (simp_all add: cancelCtx_def)

lemma returnMain_simps [simp]:
  "k_main (returnMain err s) = MReturned err" "k_podsStarted (returnMain err s) = k_podsStarted s" "k_nodeStarted (returnMain err s) = k_nodeStarted s" "k_servers (returnMain err s) = []"
  "k_exit (returnMain err s) = k_exit s" "k_ctx (returnMain err s) \<noteq> None" "k_pods (returnMain err s) = k_pods (cancelCtx s)" "k_node (returnMain err s) = k_node (cancelCtx s)"
  "k_startErr (returnMain err s) = k_startErr (cancelCtx s)" "k_ctx (returnMain err s) = k_ctx (cancelCtx s)"
  by (simp_all add: returnMain_def)

lemma contexts_cong:
  "contexts_ok env s \<Longrightarrow> k_pods s' = k_pods s \<Longrightarrow> k_node s' = k_node s \<Longrightarrow> k_ctx s' = k_ctx s \<Longrightarrow> k_startErr s' = k_startErr s \<Longrightarrow>
    (k_podsStarted s \<longrightarrow> k_podsStarted s') \<Longrightarrow> (k_nodeStarted s \<longrightarrow> k_nodeStarted s') \<Longrightarrow> contexts_ok env s'"
  unfolding contexts_ok_def by auto

lemma contexts_cancel:
  assumes "contexts_ok env s" "alive s"
  shows "contexts_ok env (cancelCtx s)"
proof (cases "k_ctx s")
  case None
  have "node_inv ((k_node s)\<lparr>nl_ctx := Some CtxCanceled\<rparr>)"
    using assms None by (intro cancel_inv) (auto simp: contexts_ok_def alive_def panicked_def)
  moreover have "life_reachable (ke_ops env) (ke_wq env) (ke_workers env) ((k_pods s)\<lparr>life.ctx_done := True\<rparr>)"
    using assms(1) life_reachable.event [OF _ life_event.cancel] unfolding contexts_ok_def by blast
  ultimately show ?thesis using assms(1) None by (auto simp: contexts_ok_def cancelCtx_def)
qed (use assms(1) in \<open>simp add: cancelCtx_def\<close>)

lemma contexts_return: "contexts_ok env s \<Longrightarrow> alive s \<Longrightarrow> contexts_ok env (returnMain err s)"
  by (rule contexts_cong [OF contexts_cancel]) auto

lemma exit_ok_running: "k_exit s = None \<Longrightarrow> exit_ok s"
  by (simp add: exit_ok_def)

lemma alive_life_inv: "contexts_ok env s \<Longrightarrow> alive s \<Longrightarrow> life_inv (k_pods s)"
  using life_reachable_inv [of "ke_ops env" "ke_wq env" "ke_workers env" "k_pods s"] by (auto simp: contexts_ok_def alive_def panicked_def)

lemma main_inv:
  assumes "kubelet_inv env s" "alive s" "mainAdvance (ke_startupWait env) seesDone now s = Some s'"
  shows "kubelet_inv env s'"
proof -
  let ?w = "ke_startupWait env"
  have c: "contexts_ok env s" and m: "main_ok ?w (k_main s) s" and x: "k_exit s = None" using assms(1,2) by (auto simp: kubelet_inv_def alive_def)
  note ret = contexts_return [OF c assms(2)]
  have starts: "k_startErr s \<noteq> None \<Longrightarrow> \<exists>e. k_startErr s = Some e \<and> (e = CtxCanceled \<or> e = CtxDeadlineExceeded)" using c by (auto simp: contexts_ok_def)
  have err: "pc_err (k_pods s) = None" if "ready_closed (k_pods s)"
    using alive_life_inv [OF c assms(2)] that by (auto simp: life_inv_def run_ok_def)
  show ?thesis
  proof (cases "k_main s")
    case MSelect
    then show ?thesis using assms(3) m x c ret starts
      by (auto simp: mainAdvance_def kubelet_inv_def exit_ok_running intro: contexts_cong split: if_splits)
  next
    case MErr
    then show ?thesis using assms(3) m x c err
      by (auto simp: mainAdvance_def kubelet_inv_def exit_ok_running startup_done_def intro: contexts_cong split: option.splits)
  next
    case MServe
    then show ?thesis using assms(3) m x ret
      by (auto simp: mainAdvance_def kubelet_inv_def exit_ok_running startup_done_def split: if_splits)
  next
    case (MReturned e)
    then show ?thesis using assms(3) m x c
      by (auto simp: mainAdvance_def kubelet_inv_def exit_ok_def startup_done_def intro: contexts_cong split: option.splits)
  qed (use assms(3) m x c in \<open>auto simp: mainAdvance_def kubelet_inv_def exit_ok_running startup_done_def intro: contexts_cong\<close>)
qed

lemma kubelet_inv_move:
  assumes "kubelet_inv env s" "alive s" "contexts_ok env s'" "k_main s' = k_main s" "k_exit s' = None" "k_podsStarted s' = k_podsStarted s" "k_nodeStarted s' = k_nodeStarted s"
    and "ready_closed (k_pods s) \<longrightarrow> ready_closed (k_pods s')" "k_ctx s \<noteq> None \<longrightarrow> k_ctx s' \<noteq> None" "k_servers s' = k_servers s"
  shows "kubelet_inv env s'"
  unfolding kubelet_inv_def assms(4)
  using assms(3) exit_ok_running [OF assms(5)] main_ok_mono [OF _ assms(6-10)] assms(1) by (auto simp: kubelet_inv_def)

lemma take_update_ctx [simp]: "nl_ctx (take_update ev st) = nl_ctx st"
  by (cases ev) simp_all

lemma node_next_ctx: "\<not> is_cancel ev \<Longrightarrow> node_next lib lc k ev st = Some st' \<Longrightarrow> nl_ctx st' = nl_ctx st"
  by (cases ev) (auto simp: runStart_def pingCheck_def ensureMove_def leaseMove_def loopMove_def Let_def split: if_splits option.splits outcome.splits node_place.splits loop_event.splits)

lemma exit_inv:
  assumes "kubelet_inv env s" "exit_ok (s\<lparr>k_exit := Some c\<rparr>)"
  shows "kubelet_inv env (s\<lparr>k_exit := Some c\<rparr>)"
proof -
  have c: "contexts_ok env s" and m: "main_ok (ke_startupWait env) (k_main s) s" using assms(1) by (simp_all add: kubelet_inv_def)
  have "main_ok (ke_startupWait env) (k_main s) (s\<lparr>k_exit := Some c\<rparr>)" by (rule main_ok_mono [OF m]) simp_all
  moreover have "contexts_ok env (s\<lparr>k_exit := Some c\<rparr>)" by (rule contexts_cong [OF c]) simp_all
  ultimately show ?thesis using assms(2) by (simp add: kubelet_inv_def)
qed

lemma kubelet_inv_step:
  assumes "node_server (ke_nodes env) server" "kubelet_inv env s" "kubelet_step env b s s'"
  shows "kubelet_inv env s'"
  using assms(3)
proof cases
  case (main seesDone now)
  then show ?thesis using main_inv [OF assms(2)] by simp
next
  case (pods l)
  have inv: "life_inv (k_pods s)" using alive_life_inv assms(2) pods(3) by (auto simp: kubelet_inv_def)
  have "life_reachable (ke_ops env) (ke_wq env) (ke_workers env) l" using assms(2) life_reachable.step [OF _ pods(5)] by (simp add: kubelet_inv_def contexts_ok_def)
  then have "contexts_ok env s'" using assms(2) pods life_step_mono [OF pods(5) inv] by (auto simp: kubelet_inv_def contexts_ok_def)
  then show ?thesis using pods life_step_mono [OF pods(5) inv] by (intro kubelet_inv_move [OF assms(2)]) (auto simp: alive_def)
next
  case (informer l)
  have "life_reachable (ke_ops env) (ke_wq env) (ke_workers env) l" using assms(2) life_reachable.event [OF _ informer(5)] by (simp add: kubelet_inv_def contexts_ok_def)
  then have "contexts_ok env s'" using assms(2) informer by (auto simp: kubelet_inv_def contexts_ok_def)
  then show ?thesis using informer life_event_mono [OF informer(5)] by (intro kubelet_inv_move [OF assms(2)]) (auto simp: alive_def)
next
  case (node ev n)
  have "node_inv n" using assms(2) node_next_inv [OF assms(1) _ node(6)] by (simp add: kubelet_inv_def contexts_ok_def)
  then have "contexts_ok env s'" using assms(2) node node_next_ctx [OF node(5,6)] by (auto simp: kubelet_inv_def contexts_ok_def)
  then show ?thesis using node by (intro kubelet_inv_move [OF assms(2)]) (auto simp: alive_def)
next
  case signal
  have "contexts_ok env s'" using contexts_cancel signal assms(2) by (auto simp: kubelet_inv_def)
  then show ?thesis using signal by (intro kubelet_inv_move [OF assms(2)]) (auto simp: alive_def)
next
  case deadline
  have "contexts_ok env s'" using deadline assms(2) by (auto simp: kubelet_inv_def contexts_ok_def)
  then show ?thesis using deadline by (intro kubelet_inv_move [OF assms(2)]) (auto simp: alive_def)
next
  case fatal
  then show ?thesis using exit_inv [OF assms(2)] by (auto simp: exit_ok_def alive_def panicked_def podsFatal_def nodeFatal_def)
next
  case panic
  then show ?thesis using exit_inv [OF assms(2)] by (auto simp: exit_ok_def panicked_def)
qed

lemma kubelet_inv_start:
  assumes "NewNodeController node0 ns opts = Val (Inr (ctl, lease))" "fresh_provider np"
  shows "kubelet_inv env (kubelet_start closers pNode st ctl lease leases np)"
  using node_inv_start [OF assms] life_reachable.start [of "ke_ops env" "ke_wq env" "ke_workers env" st]
  by (simp add: kubelet_inv_def contexts_ok_def exit_ok_def kubelet_start_def) (simp add: node_start_def life_start_def)

lemma kubelet_run_inv:
  assumes "node_server (ke_nodes env) server" "kubelet_run env s m s'" "kubelet_inv env s"
  shows "kubelet_inv env s'"
  using assms(2,3) by (induction rule: kubelet_run.induct) (auto intro: kubelet_inv_step [OF assms(1)])

lemma kubelet_run_trans: "kubelet_run env s1 n s2 \<Longrightarrow> kubelet_run env s0 m s1 \<Longrightarrow> kubelet_run env s0 (m + n) s2"
proof (induction rule: kubelet_run.induct)
  case (step s n s1 b s2)
  then show ?case using kubelet_run.step [OF step.IH [OF step.prems] step.hyps(2)] by (cases b) simp_all
qed simp

subsection \<open>Start-up and exit\<close>

lemma nodeFatal_iff: "nodeFatal s \<longleftrightarrow> (\<exists>e. nl_place (k_node s) = NReturn (Some e))"
  by (auto simp: nodeFatal_def split: node_place.splits)


subsection \<open>The end of the process\<close>

fun main_weight :: "main_place \<Rightarrow> nat" where
  "main_weight MPods = 7" | "main_weight MSelect = 6" | "main_weight MErr = 5" | "main_weight MNode = 4" | "main_weight MReady = 3" | "main_weight MServe = 2"
| "main_weight (MReturned err) = 1"

definition kubelet_weight :: "('p, 'q, 'k, 'n, 's) kubelet \<Rightarrow> nat" where
  "kubelet_weight s = (if k_exit s = None then main_weight (k_main s) else 0)"

lemma kubelet_weight_bound: "kubelet_weight s \<le> 7"
  by (cases "k_main s") (simp_all add: kubelet_weight_def)

lemma mainAdvance_weight: "mainAdvance w d now s = Some s' \<Longrightarrow> k_exit s = None \<Longrightarrow> kubelet_weight s' < kubelet_weight s"
  by (auto simp: mainAdvance_def kubelet_weight_def split: main_place.splits if_splits option.splits)

lemma kubelet_step_weight:
  assumes "kubelet_step env b s s'"
  shows "(if b then kubelet_weight s' < kubelet_weight s else kubelet_weight s' \<le> kubelet_weight s) \<and> (k_ctx s \<noteq> None \<longrightarrow> k_ctx s' \<noteq> None)"
  using assms
proof cases
  case (main seesDone now)
  then show ?thesis using mainAdvance_weight [OF main(3)]
    by (auto simp: alive_def mainAdvance_def returnMain_def cancelCtx_def split: main_place.splits if_splits option.splits)
qed (auto simp: kubelet_weight_def alive_def cancelCtx_def)

lemma kubelet_run_weight:
  assumes "kubelet_run env s m s'" "k_ctx s \<noteq> None"
  shows "m + kubelet_weight s' \<le> kubelet_weight s \<and> k_ctx s' \<noteq> None"
  using assms
proof (induction rule: kubelet_run.induct)
  case (step s m s' b s'')
  then show ?case using kubelet_step_weight [OF step.hyps(2)] by (cases b) auto
qed simp

text \<open>
  C13: The process ends. Once the context has ended, whatever the controllers do: the main goroutine has at most seven moves left, and as long as the process has neither exited nor panicked one of them is possible. So a signal ends the process in every
  schedule that is fair to the main goroutine, even if a worker hangs in a handler.
\<close>

theorem kubelet_stops:
  assumes "node_server (ke_nodes env) server" and "NewNodeController node0 ns opts = Val (Inr (ctl, lease))" and "fresh_provider np"
    and "kubelet_run env (kubelet_start closers pNode st ctl lease leases np) m0 s" and "k_ctx s \<noteq> None" and "kubelet_run env s m s'"
  shows "m \<le> 7 \<and> (alive s' \<longrightarrow> (\<exists>seesDone s''. mainAdvance (ke_startupWait env) seesDone now s' = Some s'' \<and> kubelet_weight s'' < kubelet_weight s'))"
proof -
  have inv: "kubelet_inv env s'" by (rule kubelet_run_inv [OF assms(1,6) kubelet_run_inv [OF assms(1,4) kubelet_inv_start [OF assms(2,3)]]])
  have w: "m + kubelet_weight s' \<le> kubelet_weight s" "k_ctx s' \<noteq> None" using kubelet_run_weight [OF assms(6,5)] by simp_all
  have "\<exists>seesDone s''. mainAdvance (ke_startupWait env) seesDone now s' = Some s''"
  proof (cases "k_main s'")
    case MSelect
    then have "mainAdvance (ke_startupWait env) True now s' = Some (returnMain (k_startErr s') s')"
      using inv w(2) by (simp add: mainAdvance_def kubelet_inv_def contexts_ok_def)
    then show ?thesis by blast
  next
    case MErr
    then show ?thesis by (cases "pc_err (k_pods s')") (simp_all add: mainAdvance_def)
  qed (use w(2) in \<open>simp_all add: mainAdvance_def\<close>)
  then show ?thesis using w kubelet_weight_bound [of s] mainAdvance_weight by (fastforce simp: alive_def)
qed

text \<open>The main goroutine does not wait for the controllers: it may end the process while a worker is in the middle of a handler, whose effects are then cut off.\<close>

lemma exit_cuts_off_handlers:
  assumes "alive s" "k_main s = MServe" "k_ctx s \<noteq> None"
  shows "\<exists>s'. kubelet_run env s 2 s' \<and> k_exit s' = Some 0 \<and> k_pods s' = k_pods s"
proof -
  let ?s = "returnMain None s" let ?e = "?s\<lparr>k_exit := Some 0\<rparr>"
  have same: "k_pods ?s = k_pods s" "k_node ?s = k_node s" using assms(3) by (simp_all add: cancelCtx_def)
  have "kubelet_step env True s ?s" by (rule kubelet_step.main [OF assms(1)]) (use assms in \<open>simp add: mainAdvance_def\<close>)
  moreover have "kubelet_step env True ?s ?e"
    by (rule kubelet_step.main) (use assms(1) same in \<open>simp_all add: mainAdvance_def alive_def panicked_def exitCode_def del: returnMain_simps(7,8)\<close>)
  ultimately have "kubelet_run env s (Suc (Suc 0)) ?e"
    using kubelet_run.step [OF kubelet_run.step [OF kubelet_run.refl]] by fastforce
  then show ?thesis using same by (intro exI [of _ ?e]) (simp add: numeral_2_eq_2)
qed

subsection \<open>A run\<close>

datatype kubelet_move = KMain bool int | KPods life_move | KNode node_event | KSignal

fun kubelet_moves ::
    "('p, 'q, 'k) pc_env \<Rightarrow> ('p, 'q, 'n, 'np, 's) kubelet_env \<Rightarrow> kubelet_move \<Rightarrow> ('p, 'q, 'k, 'n, 's) kubelet \<Rightarrow> (bool \<times> ('p, 'q, 'k, 'n, 's) kubelet) option" where
  "kubelet_moves pe env (KMain seesDone now) s = map_option (Pair True) (mainAdvance (ke_startupWait env) seesDone now s)"
| "kubelet_moves pe env (KPods mv) s =
     (if k_podsStarted s \<and> mv \<noteq> MoveCancel then map_option (\<lambda>l. (False, s\<lparr>k_pods := l\<rparr>)) (make_move pe (ke_workers env) mv (k_pods s)) else None)"
| "kubelet_moves pe env (KNode ev) s =
     (if k_nodeStarted s \<and> \<not> is_cancel ev then map_option (\<lambda>n. (False, s\<lparr>k_node := n\<rparr>)) (node_next (ke_nodes env) (ke_leases env) (ke_fuel env) ev (k_node s)) else None)"
| "kubelet_moves pe env KSignal s = Some (False, cancelCtx s)"

fun kubelet_play ::
    "('p, 'q, 'k) pc_env \<Rightarrow> ('p, 'q, 'n, 'np, 's) kubelet_env \<Rightarrow> kubelet_move list \<Rightarrow> nat \<times> ('p, 'q, 'k, 'n, 's) kubelet \<Rightarrow> (nat \<times> ('p, 'q, 'k, 'n, 's) kubelet) option" where
  "kubelet_play pe env [] ms = Some ms"
| "kubelet_play pe env (mv # mvs) (m, s) =
     (if alive s then (case kubelet_moves pe env mv s of None \<Rightarrow> None | Some (b, s') \<Rightarrow> kubelet_play pe env mvs (if b then Suc m else m, s')) else None)"

lemma kubelet_moves_step:
  assumes "kubelet_moves pe env mv s = Some (b, s')" "alive s" "handler pe = ke_ops env" "wq pe = ke_wq env"
  shows "kubelet_step env b s s'"
proof (cases mv)
  case (KPods pm)
  then obtain l where l: "make_move pe (ke_workers env) pm (k_pods s) = Some l" "pm \<noteq> MoveCancel" "k_podsStarted s" "s' = s\<lparr>k_pods := l\<rparr>" "\<not> b"
    using assms(1) by (auto split: if_splits)
  show ?thesis
  proof (cases "\<exists>pod. pm = MoveAdd pod")
    case True
    then obtain pod where "handlers_added (k_pods s)" "l = (k_pods s)\<lparr>ctrl := AddFunc pe pod (ctrl (k_pods s))\<rparr>" using l(1) by (auto split: if_splits)
    then show ?thesis using kubelet_step.informer [OF assms(2) l(3) life_event.add] assms(4) l by auto
  next
    case False
    then have "life_step (ke_ops env) (ke_wq env) (ke_workers env) (k_pods s) l"
      using l(1,2) assms(3,4) by (cases pm) (auto split: if_splits intro: life_step.intros)
    then show ?thesis using kubelet_step.pods [OF assms(2) l(3)] l by auto
  qed
qed (use assms in \<open>auto split: if_splits intro: kubelet_step.intros\<close>)

lemma kubelet_play_run:
  assumes "kubelet_play pe env mvs (m, s) = Some (m', s')" "kubelet_run env s0 m s" "handler pe = ke_ops env" "wq pe = ke_wq env"
  shows "kubelet_run env s0 m' s'"
  using assms(1,2)
proof (induction mvs arbitrary: m s)
  case (Cons mv mvs)
  then obtain b s1 where "alive s" "kubelet_moves pe env mv s = Some (b, s1)" "kubelet_play pe env mvs (if b then Suc m else m, s1) = Some (m', s')"
    by (auto split: if_splits option.splits)
  then show ?case using Cons.IH kubelet_run.step [OF Cons.prems(2) kubelet_moves_step [OF _ _ assms(3,4)]] by blast
qed simp

definition demo_kubelet_env :: "(MockProvider, fifo, node_table, Node \<times> Node, lease_table) kubelet_env" where
  "demo_kubelet_env = \<lparr>ke_ops = mock_handler, ke_wq = fifo_workqueue, ke_workers = 1, ke_nodes = table_lib, ke_leases = table_client, ke_fuel = 1, ke_startupWait = True\<rparr>"

definition demo_kubelet :: "(MockProvider, fifo, Pod list, node_table, lease_table) kubelet" where
  "demo_kubelet = kubelet_start [MetricsServer '':10255''] node1 demo_start demo_ctl (Some demo_lease) no_lease NewNaiveNodeProvider"

text \<open>The kubelet starts, registers its node, gets a pod, and is stopped while a worker handles it.\<close>

definition demo_serving :: "kubelet_move list" where
  "demo_serving = [KMain False 1] @ map KPods demo_schedule @ [KMain False 1, KMain False 1, KMain False 1, KNode NRunStart, KNode (NPingCheck (PingAnswered 5 None)),
     KNode (NEnsureNode None 6), KMain False 1, KSignal]"

definition demo_signalled :: "nat \<times> (MockProvider, fifo, Pod list, node_table, lease_table) kubelet" where
  "demo_signalled = the (kubelet_play (demo_env [web]) demo_kubelet_env demo_serving (0, demo_kubelet))"

lemma demo_signalled_checks:
  "kubelet_play (demo_env [web]) demo_kubelet_env demo_serving (0, demo_kubelet) = Some demo_signalled \<and>
   (case demo_signalled of (m, s) \<Rightarrow> m = 5 \<and> alive s \<and> k_ctx s \<noteq> None \<and> k_main s = MServe \<and> nl_chReady (k_node s) \<and> k_servers s \<noteq> [] \<and>
     qworkers (queues (k_pods s) SyncPods) = [WorkerHandling ''ns/web''])"
proof -
  have "(case kubelet_play (demo_env [web]) demo_kubelet_env demo_serving (0, demo_kubelet) of None \<Rightarrow> False
     | Some (m, s) \<Rightarrow> m = 5 \<and> alive s \<and> k_ctx s \<noteq> None \<and> k_main s = MServe \<and> nl_chReady (k_node s) \<and> k_servers s \<noteq> [] \<and>
       qworkers (queues (k_pods s) SyncPods) = [WorkerHandling ''ns/web''])"
    by code_simp
  then show ?thesis unfolding demo_signalled_def by (auto split: option.splits)
qed

lemma demo_runs_kubelet:
  obtains s where "kubelet_run demo_kubelet_env demo_kubelet 5 s" "alive s" "k_ctx s \<noteq> None" "k_main s = MServe" "nl_chReady (k_node s)"
    "qworkers (queues (k_pods s) SyncPods) = [WorkerHandling ''ns/web'']"
proof -
  obtain m s where ms: "demo_signalled = (m, s)" by fastforce
  have env: "handler (demo_env [web]) = ke_ops demo_kubelet_env" "wq (demo_env [web]) = ke_wq demo_kubelet_env"
    by (simp_all add: demo_env_def demo_kubelet_env_def)
  note checks = demo_signalled_checks [unfolded ms prod.case]
  have "kubelet_run demo_kubelet_env demo_kubelet m s" by (rule kubelet_play_run [OF conjunct1 [OF checks] kubelet_run.refl env])
  then show thesis using that [of s] checks by simp
qed

lemma demo_nodes: "node_server (ke_nodes demo_kubelet_env) map_of"
  using table.node_server_axioms by (simp add: demo_kubelet_env_def)


theorem kubelet_stops_witness:
  "\<exists>s seesDone s'. kubelet_run demo_kubelet_env demo_kubelet 5 s \<and> mainAdvance True seesDone 9 s = Some s' \<and> kubelet_weight s' < kubelet_weight s"
proof -
  obtain s where s: "kubelet_run demo_kubelet_env demo_kubelet 5 s" "alive s" "k_ctx s \<noteq> None" by (rule demo_runs_kubelet)
  have "ke_startupWait demo_kubelet_env" by (simp add: demo_kubelet_env_def)
  then show ?thesis
    using kubelet_stops [OF demo_nodes demo_new _ s(1) [unfolded demo_kubelet_def] s(3) kubelet_run.refl, of 9] s(1,2) by (auto simp: NewNaiveNodeProvider_def)
qed

end
