(* ===== verification/Spec2Isabelle.thy ===== *)
theory Spec2Isabelle
  imports Expansion Pod_Startup Native_Pulls Native_Restart Api_Routes Flush_Writer Resource_Manager Span_Fields Kubelet_Lifecycle
begin

text \<open>
  native-kubelet is a virtual kubelet: it registers a node with a Kubernetes cluster and hands the pods that are scheduled to that node to a provider. Its native
  provider runs the containers of a pod as processes of the host. This library models the program and proves the properties that make its parts correct.

  \<^bold>\<open>Parts and how they interact.\<close> The root command (\<open>src/cmd/virtual-kubelet/internal/commands/root\<close>) reads options, looks the provider up in a registry, builds the
  node object with it and starts two controllers and the HTTP servers. The pod controller (\<open>src/node/pod.go\<close>, \<open>podcontroller.go\<close>) gets pods from an
  informer, keeps what it knows of each in shared entries, and converges the provider to them through three work queues (\<open>src/internal/queue\<close>); before a pod is
  created its environment is populated (\<open>src/internal/podutils\<close>, which expands variables with \<open>src/internal/expansion\<close>). Providers that do not notify are wrapped
  (\<open>src/node/sync.go\<close>). The node controller (\<open>src/node/node.go\<close>) registers the node and patches its status if the last ping (\<open>node_ping_controller.go\<close>, through the
  monitor variable of \<open>src/internal/lock\<close>) succeeded; with leases the lease controller renews the lease instead. The HTTP API (\<open>src/node/api\<close>, with the streams of
  \<open>src/internal/kubernetes/remotecommand\<close>) calls the provider for logs, pods, stats and commands. The native provider keeps a record per pod in an embedded
  database, runs a goroutine per pod, and is driven by events; images are pulled and unpacked by its image manager.

  \<^bold>\<open>Theories and sources.\<close>
  \<^item> \<open>Prelude\<close>: outcomes of code that may panic, slices with bounds checks, Go maps. \<open>Strconv\<close> and \<open>Filepath\<close>: the functions of Go's standard library on numbers and paths that the sources call.
  \<^item> \<open>Errdefs\<close>: \<open>src/errdefs\<close>. \<open>Expansion\<close>: \<open>src/internal/expansion/expand.go\<close>. \<open>Work_Queue\<close>: \<open>src/internal/queue/queue.go\<close>. \<open>Monitor_Variable\<close>: \<open>src/internal/lock/monitor.go\<close>.
  \<^item> \<open>K8s_Types\<close>: the fields of Kubernetes objects that the sources read or write, and the listers of \<open>src/internal/manager/resource.go\<close>. \<open>Resource_Manager\<close>: its constructors and the operations that need a client. \<open>Pod_Env\<close>: \<open>src/internal/podutils/env.go\<close>.
  \<^item> \<open>Provider\<close>: the contract of a provider. \<open>Mock_Provider\<close>: \<open>provider/mock/mock.go\<close>. \<open>Pod_Controller\<close>, \<open>Pod_Controller_Props\<close>, \<open>Pod_Status\<close>: \<open>src/node/pod.go\<close> and \<open>podcontroller.go\<close>.
    \<open>Sync_Wrapper\<close>: \<open>src/node/sync.go\<close>. \<open>Pod_Dangling\<close>, \<open>Pod_Lifecycle\<close>, \<open>Pod_Shutdown\<close>, \<open>Pod_Startup\<close>: the goroutines of \<open>PodController.Run\<close> and of \<open>Queue.Run\<close>, from the deletion of dangling pods to the shutdown.
  \<^item> \<open>Native_Store\<close>, \<open>Native_Events\<close>, \<open>Native_Run\<close>, \<open>Native_Pods\<close>: the records, events, runs and pod operations of \<open>provider/native\<close>. \<open>Native_Bus\<close>, \<open>Native_Bus_Props\<close>: the event bus
    with all goroutines of the process manager (\<open>process_manager.go\<close>, \<open>pod.go\<close>). \<open>Native_Restart\<close>: \<open>NewProvider\<close> and the provider over several starts. \<open>Native_Images\<close> and \<open>Native_Pulls\<close>: \<open>image_manager.go\<close> and \<open>layer.go\<close>.
  \<^item> \<open>Node_Controller\<close>, \<open>Node_Lease\<close>: \<open>node.go\<close>, \<open>node_ping_controller.go\<close>, \<open>lease_controller_v1.go\<close>. \<open>Node_Lifecycle\<close>: the goroutines of \<open>NodeController.Run\<close> and the node providers. \<open>Node_Config\<close>: the node object, \<open>native/node.go\<close> and the node methods of \<open>mock.go\<close>.
  \<^item> \<open>Remote_Command\<close>: \<open>src/internal/kubernetes/remotecommand\<close>. \<open>Node_Api\<close>: the handlers of \<open>src/node/api\<close>. \<open>Api_Routes\<close>: its routes (\<open>server.go\<close>). \<open>Flush_Writer\<close>: the flushing of log responses (\<open>helpers.go\<close>). \<open>Provider_Api\<close>: the providers behind the API, the start of the native provider.
  \<^item> \<open>Root_Command\<close>, \<open>Root_Props\<close>: the root command, the registries and \<open>src/node/nodeutil\<close>. \<open>Main_Command\<close>: \<open>main.go\<close>, the flags and the other commands.
    \<open>Kubelet_Lifecycle\<close>: the whole process, the main goroutine of \<open>runRootCommand\<close> and \<open>main\<close> with both controllers. \<open>Tracing\<close>: \<open>src/trace/opencensus\<close>.
    \<open>Logging\<close>: \<open>src/log\<close> with its adapters, \<open>src/trace\<close> and nested spans. \<open>Span_Fields\<close>: the fields of nodes and pods.

  \<^bold>\<open>How the model corresponds to the code.\<close> A struct is a record with the source's field names (with a prefix where two structs share one), a function or method is a
  definition of its name. Errors are values of \<open>goerror\<close>, fallible functions return \<open>goerror + 'a\<close> or the pair that Go returns, and code that can panic returns an \<open>outcome\<close>.
  State is passed explicitly. Pointers that are shared are addresses into a store: the entries of known pods, the process records of the native provider and the channels of the monitor
  variable. A \<open>select\<close> is a choice given as an argument, and a loop over a channel is run on the list of what it receives; interleavings of goroutines are
  sequences of steps (known pods, subscriptions, pulls of an image, the event bus of the native provider, and the goroutines of the two controllers, whose
  events say which goroutine moves); a send on a channel without a buffer and its receive are one step, an unlocked read and write of a shared slice are two. The process as a whole is a step relation over the states of the main goroutine and of both controllers. Code outside of the repository is a parameter: a record of functions, with what the
  code relies on as a locale (\<open>retry_queue\<close>, \<open>draining_queue\<close>, \<open>kv_store\<close>, \<open>node_server\<close>, \<open>lease_server\<close>, \<open>mux_router\<close>), each interpreted on a concrete instance. Interfaces inside of the program are
  locales too: \<open>pod_provider\<close> (interpreted on the mock provider, on the native provider through \<open>kv_store\<close>, and on wrapped providers), \<open>monitored\<close>, \<open>node_configurer\<close> (on both providers),
  \<open>registry\<close> (on providers and trace exporters) and \<open>field_logger\<close> (on the klog, logrus and OpenCensus loggers).

  \<^bold>\<open>What the lemmas show.\<close>
  \<^item> Pods: a sync of the pod controller that succeeds leaves the provider with the pod it should have or without it, for every provider with the contract; event handlers of the informer never panic; no status update is lost;
    statuses written are the provider's. For the goroutines of the pod controller in every interleaving: dangling pods are deleted, handlers run only between start-up and shutdown, after the end of the context
    \<open>Run\<close> returns, and a start-up of the native provider leaves it with exactly the live pods of Kubernetes.
  \<^item> Environments: populating a container refines a layered specification, errors included; expansion equals a recursive specification.
  \<^item> Queues and monitors: a failing key is forgotten after its retries; a subscription is ready exactly when there is an unread value.
  \<^item> Node: foreign conditions survive status updates; registration, renewal of leases, the end of the backoff, and which lease options are accepted. For the goroutines of the node controller in every interleaving:
    status updates are taken in order, the server is written only after a successful ping, and the controller stops after the end of its context.
  \<^item> Native provider: database records stay well formed, stored pods run again after a restart, init containers succeed first, processes start only after their preparation, each run ends with one event, chains run to their end;
    on the event bus, in every interleaving, every event reaches every subscriber once and in one order, each pod's status is what its own events give, each run is judged once, and the records stay well formed, also across restarts at any moment;
    unpacking extracts every file and stays below its destination; concurrent pulls do not block each other.
  \<^item> API and command: requests reach the provider with the names of their path, log options are read back and in bounds, exec sessions get their streams and exit codes, a started kubelet is configured as its options say, a failed start leaves no server open, defaults keep what is set, flags set exactly their options.
  \<^item> The process: the node controller starts after the pod controller is ready, the exit code is 0 only after the end of the context with the servers closed, the other codes have one of the listed causes, and a signal ends the process.
  \<^item> Logging: with nested spans every message is written once and annotated on each span that encloses it; fields are kept by every logger.
  \<^item> Theorems that pin down behaviour which differs from what the code intends (panics, lost updates, skipped checks) stand beside the properties in the same theories.

  \<^bold>\<open>Bounds and fuel.\<close> Loops that may run for ever are followed for a given number of rounds and are \<open>None\<close> when they have not ended: \<open>podRun\<close> runs on a list of rounds (\<open>chain_runs_to_its_end\<close>: one
  more than the containers are enough without failures), \<open>backoffEnsureLease\<close> on a number of attempts (\<open>backoff_ends_with_lease\<close>: it ends in the first round in which the server answers), the
  workers of a queue on fuel. Durations wrap at 64 bits, ports at 32, metrics and terminal sizes are words of 64 and 16 bits; retries are bounded by the constants of the source.

  The shutdown of the pod controller has a measure (\<open>shut_measure\<close>), that of the node controller a bound of eleven moves (\<open>node_measure\<close>), not counting rounds of a loop whose \<open>select\<close> keeps passing over the end of the context. The
  main goroutine has at most seven moves left after the end of the context. The deliveries of the event bus are bounded by \<open>bus_measure\<close>, two moves for each subscriber and two more for each event that is still to be sent, and those of the event under way.

  \<^bold>\<open>Not modelled.\<close> The text of log lines and spans outside of \<open>Tracing\<close> and \<open>Logging\<close>; the wire formats (JSON, SPDY, WebSocket, tar and gzip) and the libraries behind them; informers and caches of client-go; what cobra and pflag do
  besides finding a command and its flags; the zpages server; the error type \<open>nodeNotReadyError\<close>, which nothing uses; test code and the end-to-end framework.

  On the event bus, what a goroutine that runs a pod still sends is a list that is fixed when it starts (\<open>Native_Run\<close> says which lists a run of a container gives), and a panic inside of such a goroutine is not a move of the bus; \<open>Native_Run\<close> has these
  panics. In \<open>Kubelet_Lifecycle\<close> the goroutines of a provider are behind its operations.

  \<^bold>\<open>Plan.\<close> All parts of the program that keep state are modelled. What could follow is the event bus of the native provider inside of the whole process, in place of the provider's operations.
\<close>

end
